(* ===== verification/Prelude.thy ===== *)
theory Prelude
  imports Main "HOL-Library.Word"
begin

text \<open>
  What the component theories share: the result type of a fallible Go call, its sequencing,
  the lemma collections, and generic facts on lists and maps.

  A Go function returning \<open>(T, error)\<close> is a function into \<open>'e + 'a\<close>, with \<open>Inl e\<close> for
  a non-nil error.  \<open>rbind\<close> is the shape \<open>x, err := f(); if err != nil { return err }\<close>, and
  \<open>ensure\<close> is a guard with an early error return.
\<close>

named_theorems result_simps \<open>evaluation of sequenced fallible calls\<close>
named_theorems go_strings \<open>definitions of the Go string functions, for evaluation\<close>

type_synonym byte = "8 word"

section \<open>Fallible calls\<close>

definition rbind :: "'e + 'a \<Rightarrow> ('a \<Rightarrow> 'e + 'b) \<Rightarrow> 'e + 'b" where
  "rbind r k = (case r of Inl e \<Rightarrow> Inl e | Inr x \<Rightarrow> k x)"

definition ensure :: "bool \<Rightarrow> 'e \<Rightarrow> 'e + unit" where
  "ensure b e = (if b then Inr () else Inl e)"

definition is_ok :: "'e + 'a \<Rightarrow> bool" where
  "is_ok r = (case r of Inl _ \<Rightarrow> False | Inr _ \<Rightarrow> True)"

lemma rbind_simps [simp, result_simps]:
  "rbind (Inl e) k = Inl e"
  "rbind (Inr x) k = k x"
  by (simp_all add: rbind_def)

lemma ensure_simps [simp, result_simps]:
  "ensure True e = Inr ()"
  "ensure False e = Inl e"
  by (simp_all add: ensure_def)

lemma is_ok_simps [simp, result_simps]:
  "is_ok (Inr x)"
  "\<not> is_ok (Inl e)"
  by (simp_all add: is_ok_def)

lemma rbind_eq_Inr [simp]:
  "rbind r k = Inr y \<longleftrightarrow> (\<exists>x. r = Inr x \<and> k x = Inr y)"
  by (cases r) auto

lemma rbind_eq_Inl:
  "rbind r k = Inl e \<longleftrightarrow> r = Inl e \<or> (\<exists>x. r = Inr x \<and> k x = Inl e)"
  by (cases r) auto

lemma ensure_eq_Inr [simp]: "ensure b e = Inr u \<longleftrightarrow> b"
  by (cases b) auto

lemma ensure_eq_Inl [simp]: "ensure b e = Inl e' \<longleftrightarrow> \<not> b \<and> e = e'"
  by (cases b) auto

lemma rbind_ensure [simp]:
  "rbind (ensure b e) k = (if b then k () else Inl e)"
  by simp

lemma is_ok_iff: "is_ok r \<longleftrightarrow> (\<exists>x. r = Inr x)"
  by (cases r) auto

section \<open>Effects\<close>

text \<open>
  An operation on a world \<open>'w\<close> (a tmux server, a file system) that may fail: the result and
  the world it leaves.
\<close>

type_synonym ('w, 'e, 'a) action = "'w \<Rightarrow> ('e + 'a) \<times> 'w"

definition act_return :: "'a \<Rightarrow> ('w, 'e, 'a) action" where
  "act_return x = (\<lambda>w. (Inr x, w))"

definition act_fail :: "'e \<Rightarrow> ('w, 'e, 'a) action" where
  "act_fail e = (\<lambda>w. (Inl e, w))"

definition act_bind :: "('w, 'e, 'a) action \<Rightarrow> ('a \<Rightarrow> ('w, 'e, 'b) action) \<Rightarrow> ('w, 'e, 'b) action" where
  "act_bind m k = (\<lambda>w. case m w of (Inl e, w') \<Rightarrow> (Inl e, w') | (Inr x, w') \<Rightarrow> k x w')"

text \<open>\<open>act_lift r\<close>: a pure fallible step; \<open>act_try m\<close>: the call whose error the caller inspects.\<close>

definition act_lift :: "'e + 'a \<Rightarrow> ('w, 'e, 'a) action" where
  "act_lift r = (\<lambda>w. (r, w))"

definition act_try :: "('w, 'e, 'a) action \<Rightarrow> ('w, 'f, 'e + 'a) action" where
  "act_try m = (\<lambda>w. case m w of (r, w') \<Rightarrow> (Inr r, w'))"

lemma act_simps [simp, result_simps]:
  "act_bind (act_return x) k = k x"
  "act_bind (act_fail e) k = act_fail e"
  "act_bind (act_lift r) k = (case r of Inl e \<Rightarrow> act_fail e | Inr x \<Rightarrow> k x)"
  by (auto simp: act_bind_def act_return_def act_fail_def act_lift_def split: sum.splits)

lemma act_bind_return [simp]: "act_bind m act_return = m"
  by (auto simp: act_bind_def act_return_def fun_eq_iff split: prod.splits sum.splits)

lemma act_bind_assoc: "act_bind (act_bind m k) l = act_bind m (\<lambda>x. act_bind (k x) l)"
  by (auto simp: act_bind_def fun_eq_iff split: prod.splits sum.splits)

lemma act_run [simp]:
  "act_return x w = (Inr x, w)"
  "act_fail e w = (Inl e, w)"
  "act_lift r w = (r, w)"
  by (simp_all add: act_return_def act_fail_def act_lift_def)

lemma act_bind_run:
  "m w = (Inr x, w') \<Longrightarrow> act_bind m k w = k x w'"
  "m w = (Inl e, w') \<Longrightarrow> act_bind m k w = (Inl e, w')"
  by (simp_all add: act_bind_def)

lemma act_try_run: "m w = (r, w') \<Longrightarrow> act_try m w = (Inr r, w')"
  by (simp add: act_try_def)

section \<open>Lists\<close>

lemma sum_list_map_filter_le:
  fixes f :: "'a \<Rightarrow> nat"
  shows "sum_list (map f (filter P xs)) \<le> sum_list (map f xs)"
  by (induction xs) auto

lemma filter_append_disjoint:
  "(\<forall>x \<in> set ys. \<not> P x) \<Longrightarrow> filter P (xs @ ys) = filter P xs"
  by (induction xs) (auto simp: filter_empty_conv)

lemma takeWhile_append_all:
  "(\<forall>x \<in> set xs. P x) \<Longrightarrow> takeWhile P (xs @ ys) = xs @ takeWhile P ys"
  by (induction xs) auto

lemma dropWhile_append_all:
  "(\<forall>x \<in> set xs. P x) \<Longrightarrow> dropWhile P (xs @ ys) = dropWhile P ys"
  by (induction xs) auto

lemma length_dropWhile_less:
  "x # xs = dropWhile P ys \<Longrightarrow> length xs < length ys"
proof -
  assume eq: "x # xs = dropWhile P ys"
  have "length (dropWhile P ys) \<le> length ys" by (rule length_dropWhile_le)
  with eq show "length xs < length ys" by (metis Suc_le_eq length_Cons)
qed

section \<open>Maps\<close>

definition map_filter_entries :: "('k \<Rightarrow> 'v \<Rightarrow> bool) \<Rightarrow> ('k \<rightharpoonup> 'v) \<Rightarrow> ('k \<rightharpoonup> 'v)" where
  "map_filter_entries P m = (\<lambda>k. case m k of None \<Rightarrow> None | Some v \<Rightarrow> if P k v then Some v else None)"

text \<open>
  The Go loop \<open>for k, v := range m { if c(k, v) { delete(m, k) } }\<close> keeps the entries for
  which \<open>c\<close> fails, whatever the iteration order.
\<close>

lemma map_filter_entries_Some [simp]:
  "map_filter_entries P m k = Some v \<longleftrightarrow> m k = Some v \<and> P k v"
  by (auto simp: map_filter_entries_def split: option.splits)

lemma map_filter_entries_None:
  "map_filter_entries P m k = None \<longleftrightarrow> (\<forall>v. m k = Some v \<longrightarrow> \<not> P k v)"
  by (auto simp: map_filter_entries_def split: option.splits)

lemma dom_map_filter_entries: "dom (map_filter_entries P m) \<subseteq> dom m"
  by (auto simp: dom_def)

lemma map_filter_entries_empty [simp]: "map_filter_entries P Map.empty = Map.empty"
  by (simp add: map_filter_entries_def)

lemma map_filter_entries_map_le: "map_filter_entries P m \<subseteq>\<^sub>m m"
  by (auto simp: map_le_def)

end
