(* ===== verification/GoStrings.thy ===== *)
theory GoStrings
  imports Prelude
begin

text \<open>
  The functions of Go's \<open>strings\<close> and \<open>strconv\<close> packages the program uses, on strings as
  byte lists (a HOL \<open>string\<close> is a list of 8-bit characters, as a Go string is).
  Where the program compares the result of \<open>strings.ToLower\<close> with ASCII words, \<open>lower_for_match\<close> stands
  for it, and \<open>ascii_lower\<close> where the words have neither an i nor a k: the characters outside ASCII that
  lower to an ASCII letter lower to one of these two.
\<close>

section \<open>Prefixes, suffixes, substrings\<close>

definition has_prefix :: "string \<Rightarrow> string \<Rightarrow> bool" where
  "has_prefix s p = (take (length p) s = p)"

definition has_suffix :: "string \<Rightarrow> string \<Rightarrow> bool" where
  "has_suffix s p = has_prefix (rev s) (rev p)"

definition trim_prefix :: "string \<Rightarrow> string \<Rightarrow> string" where
  "trim_prefix s p = (if has_prefix s p then drop (length p) s else s)"

definition trim_suffix :: "string \<Rightarrow> string \<Rightarrow> string" where
  "trim_suffix s p = (if has_suffix s p then take (length s - length p) s else s)"

fun contains_sub :: "string \<Rightarrow> string \<Rightarrow> bool" where
  "contains_sub [] p = (p = [])"
| "contains_sub (c # s) p = (has_prefix (c # s) p \<or> contains_sub s p)"

lemma has_prefix_iff: "has_prefix s p \<longleftrightarrow> (\<exists>t. s = p @ t)"
proof
  assume "has_prefix s p"
  then have "s = p @ drop (length p) s"
    by (metis append_take_drop_id has_prefix_def)
  then show "\<exists>t. s = p @ t" ..
qed (auto simp: has_prefix_def)

lemma has_prefix_append [simp]: "has_prefix (p @ s) p"
  by (simp add: has_prefix_def)

lemma has_prefix_Nil [simp]: "has_prefix s []"
  by (simp add: has_prefix_def)

lemma has_prefix_Cons [simp]:
  "has_prefix (c # s) (d # p) \<longleftrightarrow> c = d \<and> has_prefix s p"
  by (auto simp: has_prefix_def)

lemma has_prefix_Nil_Cons [simp]: "\<not> has_prefix [] (d # p)"
  by (simp add: has_prefix_def)

lemma has_suffix_iff: "has_suffix s p \<longleftrightarrow> (\<exists>t. s = t @ p)"
  by (auto simp: has_suffix_def has_prefix_iff) (metis rev_append rev_rev_ident)

lemma trim_suffix_append [simp]: "trim_suffix (s @ p) p = s"
  by (auto simp: trim_suffix_def has_suffix_iff)

section \<open>Splitting and joining\<close>

fun split_on :: "char \<Rightarrow> string \<Rightarrow> string list" where
  "split_on c [] = [[]]"
| "split_on c (x # xs) =
     (if x = c then [] # split_on c xs
      else (case split_on c xs of [] \<Rightarrow> [[x]] | p # ps \<Rightarrow> (x # p) # ps))"

fun join_with :: "string \<Rightarrow> string list \<Rightarrow> string" where
  "join_with sep [] = []"
| "join_with sep [p] = p"
| "join_with sep (p # q # ps) = p @ sep @ join_with sep (q # ps)"

lemma split_on_nonempty [simp]: "split_on c s \<noteq> []"
  by (induction s) (auto split: list.splits)

lemma join_with_append:
  "xs \<noteq> [] \<Longrightarrow> ys \<noteq> [] \<Longrightarrow> join_with sep (xs @ ys) = join_with sep xs @ sep @ join_with sep ys"
proof (induction xs)
  case (Cons x xs)
  then show ?case by (cases xs; cases ys) auto
qed simp

lemma join_split_on: "join_with [c] (split_on c s) = s"
proof (induction s)
  case (Cons x xs)
  obtain p ps where "split_on c xs = p # ps" by (meson neq_Nil_conv split_on_nonempty)
  with Cons show ?case by (cases ps) auto
qed simp

lemma split_on_no_sep: "c \<notin> set s \<Longrightarrow> split_on c s = [s]"
  by (induction s) auto

lemma split_on_append_sep: "c \<notin> set p \<Longrightarrow> split_on c (p @ c # s) = p # split_on c s"
  by (induction p) auto

lemma split_on_parts: "p \<in> set (split_on c s) \<Longrightarrow> c \<notin> set p"
proof (induction s arbitrary: p)
  case (Cons x xs)
  obtain q qs where q: "split_on c xs = q # qs" by (meson neq_Nil_conv split_on_nonempty)
  show ?case
  proof (cases "x = c")
    case True
    with Cons show ?thesis by auto
  next
    case False
    have "c \<notin> set q" using Cons.IH[of q] q by simp
    with False Cons q show ?thesis by auto
  qed
qed simp

lemma split_join:
  assumes "ps \<noteq> []" and "\<forall>p \<in> set ps. c \<notin> set p"
  shows "split_on c (join_with [c] ps) = ps"
  using assms
  by (induction "[c]" ps rule: join_with.induct) (auto simp: split_on_no_sep split_on_append_sep)

lemma split_on_subset: "p \<in> set (split_on c s) \<Longrightarrow> set p \<subseteq> set s"
proof (induction s arbitrary: p)
  case (Cons x xs)
  obtain q qs where q: "split_on c xs = q # qs" by (meson neq_Nil_conv split_on_nonempty)
  have "\<forall>r \<in> set (q # qs). set r \<subseteq> set xs" using Cons.IH q by simp
  with Cons.prems q show ?case by (cases "x = c") auto
qed simp

section \<open>ASCII classes\<close>

definition ascii_lower_char :: "char \<Rightarrow> char" where
  "ascii_lower_char c = (let n = (of_char c :: nat) in if 65 \<le> n \<and> n \<le> 90 then char_of (n + 32) else c)"

definition ascii_lower :: "string \<Rightarrow> string" where
  "ascii_lower s = map ascii_lower_char s"

text \<open>\<open>strings.ToLower\<close>, as far as a search for ASCII words can tell: the two characters outside ASCII that
  lower to an ASCII letter are the Kelvin sign and the dotted capital I.\<close>

fun lower_for_match :: "string \<Rightarrow> string" where
  "lower_for_match (a # b # c # s) =
     (if [a, b, c] = [CHR 0xE2, CHR 0x84, CHR 0xAA] then CHR ''k'' # lower_for_match s
      else if [a, b] = [CHR 0xC4, CHR 0xB0] then CHR ''i'' # lower_for_match (c # s)
      else ascii_lower_char a # lower_for_match (b # c # s))"
| "lower_for_match [a, b] =
     (if [a, b] = [CHR 0xC4, CHR 0xB0] then ''i'' else [ascii_lower_char a, ascii_lower_char b])"
| "lower_for_match s = map ascii_lower_char s"

definition is_digit :: "char \<Rightarrow> bool" where
  "is_digit c = (let n = (of_char c :: nat) in 48 \<le> n \<and> n \<le> 57)"

definition digit_val :: "char \<Rightarrow> nat" where
  "digit_val c = (of_char c :: nat) - 48"

lemma ascii_lower_append [simp]: "ascii_lower (a @ b) = ascii_lower a @ ascii_lower b"
  by (simp add: ascii_lower_def)

lemma length_ascii_lower [simp]: "length (ascii_lower s) = length s"
  by (simp add: ascii_lower_def)

section \<open>White space\<close>

text \<open>The UTF-8 encodings of the code points \<open>unicode.IsSpace\<close> accepts.\<close>

definition space_encodings :: "nat list list" where
  "space_encodings =
     [[9], [10], [11], [12], [13], [32], [194, 133], [194, 160], [225, 154, 128],
      [226, 128, 128], [226, 128, 129], [226, 128, 130], [226, 128, 131], [226, 128, 132],
      [226, 128, 133], [226, 128, 134], [226, 128, 135], [226, 128, 136], [226, 128, 137],
      [226, 128, 138], [226, 128, 168], [226, 128, 169], [226, 128, 175], [226, 129, 159],
      [227, 128, 128]]"

definition spaces :: "string list" where
  "spaces = map (map char_of) space_encodings"

definition leading_space :: "string \<Rightarrow> nat" where
  "leading_space s = (case filter (\<lambda>w. has_prefix s w) spaces of [] \<Rightarrow> 0 | w # _ \<Rightarrow> length w)"

definition trailing_space :: "string \<Rightarrow> nat" where
  "trailing_space s = (case filter (\<lambda>w. has_suffix s w) spaces of [] \<Rightarrow> 0 | w # _ \<Rightarrow> length w)"

lemma leading_space_le: "leading_space s \<le> length s"
proof (cases "filter (\<lambda>w. has_prefix s w) spaces")
  case (Cons w ws)
  then have "w \<in> set (filter (\<lambda>w. has_prefix s w) spaces)" by simp
  then have "has_prefix s w" by simp
  then have "length w \<le> length s" by (auto simp: has_prefix_iff)
  with Cons show ?thesis by (simp add: leading_space_def)
qed (simp add: leading_space_def)

lemma trailing_space_le: "trailing_space s \<le> length s"
proof (cases "filter (\<lambda>w. has_suffix s w) spaces")
  case (Cons w ws)
  then have "w \<in> set (filter (\<lambda>w. has_suffix s w) spaces)" by simp
  then have "has_suffix s w" by simp
  then have "length w \<le> length s" by (auto simp: has_suffix_iff)
  with Cons show ?thesis by (simp add: trailing_space_def)
qed (simp add: trailing_space_def)

function trim_left :: "string \<Rightarrow> string" where
  "trim_left s = (if leading_space s = 0 then s else trim_left (drop (leading_space s) s))"
  by pat_completeness auto
termination
proof (relation "measure length")
  fix s :: string
  assume "leading_space s \<noteq> 0"
  with leading_space_le [of s] show "(drop (leading_space s) s, s) \<in> measure length" by auto
qed simp

function trim_right :: "string \<Rightarrow> string" where
  "trim_right s = (if trailing_space s = 0 then s else trim_right (take (length s - trailing_space s) s))"
  by pat_completeness auto
termination
proof (relation "measure length")
  fix s :: string
  assume "trailing_space s \<noteq> 0"
  with trailing_space_le [of s]
  show "(take (length s - trailing_space s) s, s) \<in> measure length" by auto
qed simp

declare trim_left.simps [simp del] trim_right.simps [simp del]

definition trim_space :: "string \<Rightarrow> string" where
  "trim_space s = trim_right (trim_left s)"

lemma trim_left_no_leading: "leading_space (trim_left s) = 0"
proof (induction s rule: trim_left.induct)
  case (1 s)
  then show ?case by (cases "leading_space s = 0") (simp_all add: trim_left.simps [of s])
qed

lemma trim_right_no_trailing: "trailing_space (trim_right s) = 0"
proof (induction s rule: trim_right.induct)
  case (1 s)
  then show ?case by (cases "trailing_space s = 0") (simp_all add: trim_right.simps [of s])
qed

lemma trim_right_prefix: "\<exists>t. s = trim_right s @ t"
proof (induction s rule: trim_right.induct)
  case (1 s)
  show ?case
  proof (cases "trailing_space s = 0")
    case False
    then obtain t where "take (length s - trailing_space s) s
      = trim_right (take (length s - trailing_space s) s) @ t"
      using 1 by blast
    with False show ?thesis
      by (metis append_assoc append_take_drop_id trim_right.simps)
  qed (simp add: trim_right.simps [of s])
qed

section \<open>Decimal numbers\<close>

text \<open>
  \<open>strconv.ParseUint(s, 10, 64)\<close>, \<open>strconv.ParseInt(s, 10, 64)\<close> and \<open>strconv.Atoi\<close> (on a
  64-bit platform): decimal digits with, for the signed ones, one optional sign; anything
  else, and a value outside the 64-bit range, is an error, which the callers only compare
  with nil.
\<close>

fun digits_value :: "nat \<Rightarrow> string \<Rightarrow> nat" where
  "digits_value acc [] = acc"
| "digits_value acc (c # s) = digits_value (10 * acc + digit_val c) s"

definition parse_digits :: "string \<Rightarrow> nat option" where
  "parse_digits s = (if s \<noteq> [] \<and> list_all is_digit s then Some (digits_value 0 s) else None)"

definition parse_uint64 :: "string \<Rightarrow> nat option" where
  "parse_uint64 s = (case parse_digits s of None \<Rightarrow> None | Some n \<Rightarrow> if n < 2 ^ 64 then Some n else None)"

definition parse_int64 :: "string \<Rightarrow> int option" where
  "parse_int64 s =
     (case s of
        [] \<Rightarrow> None
      | c # r \<Rightarrow>
          (if c = CHR ''-'' then
             (case parse_digits r of None \<Rightarrow> None
              | Some n \<Rightarrow> if n \<le> 2 ^ 63 then Some (- int n) else None)
           else
             (case parse_digits (if c = CHR ''+'' then r else s) of None \<Rightarrow> None
              | Some n \<Rightarrow> if n < 2 ^ 63 then Some (int n) else None)))"

abbreviation atoi :: "string \<Rightarrow> int option" where
  "atoi s \<equiv> parse_int64 s"

function dec_string :: "nat \<Rightarrow> string" where
  "dec_string n = (if n < 10 then [char_of (48 + n)] else dec_string (n div 10) @ [char_of (48 + n mod 10)])"
  by pat_completeness auto
termination
  by (relation "measure id") auto

declare dec_string.simps [simp del]

lemma is_digit_char_of [simp]: "(n :: nat) < 10 \<Longrightarrow> is_digit (char_of (48 + n))"
  by (simp add: is_digit_def Let_def)

lemma digit_val_char_of [simp]: "(n :: nat) < 10 \<Longrightarrow> digit_val (char_of (48 + n)) = n"
  by (simp add: digit_val_def)

lemma digits_value_append: "digits_value acc (s @ [c]) = 10 * digits_value acc s + digit_val c"
  by (induction s arbitrary: acc) auto

lemma dec_string_digits: "list_all is_digit (dec_string n)"
proof (induction n rule: dec_string.induct)
  case (1 n)
  then show ?case by (subst dec_string.simps) simp
qed

lemma dec_string_nonempty [simp]: "dec_string n \<noteq> []"
  by (subst dec_string.simps) simp

lemma digits_value_dec_string: "digits_value 0 (dec_string n) = n"
proof (induction n rule: dec_string.induct)
  case (1 n)
  then show ?case by (subst dec_string.simps) (simp add: digits_value_append)
qed

lemma parse_digits_dec_string [simp]: "parse_digits (dec_string n) = Some n"
  by (simp add: parse_digits_def dec_string_digits digits_value_dec_string)

lemma parse_int64_dec_string: "n < 2 ^ 63 \<Longrightarrow> parse_int64 (dec_string n) = Some (int n)"
proof -
  assume n: "n < 2 ^ 63"
  obtain c r where cr: "dec_string n = c # r" by (meson dec_string_nonempty neq_Nil_conv)
  then have "is_digit c" using dec_string_digits [of n] by simp
  then have "c \<noteq> CHR ''-''" "c \<noteq> CHR ''+''" by (auto simp: is_digit_def)
  with parse_digits_dec_string [of n] cr n show ?thesis
    by (simp add: parse_int64_def)
qed

lemma dec_string_no_char: "\<not> is_digit c \<Longrightarrow> c \<notin> set (dec_string n)"
  using dec_string_digits [of n] by (auto simp: list_all_iff)

lemmas string_eval [go_strings] =
  has_prefix_def has_suffix_def trim_prefix_def trim_suffix_def ascii_lower_def
  ascii_lower_char_def is_digit_def digit_val_def parse_digits_def parse_uint64_def
  parse_int64_def trim_space_def

end
