(* ===== verification/GoUtf8.thy ===== *)
theory GoUtf8
  imports GoStrings
begin

text \<open>
  Go's \<open>unicode/utf8\<close> on byte strings: \<open>DecodeRune\<close>, \<open>FullRune\<close>, \<open>ValidString\<close>,
  \<open>[]rune(s)\<close> and \<open>string(runes)\<close>, and the two \<open>unicode\<close> classes the program consults.
  A rune is a natural number.  The lemmas give the round trips and the facts that let a
  property of the code points be read off the bytes.
\<close>

section \<open>Decoding\<close>

abbreviation ccode :: "char \<Rightarrow> nat" where "ccode c \<equiv> of_char c"

abbreviation rune_error :: nat where "rune_error \<equiv> 65533"

text \<open>The length of the sequence a lead byte opens, with the range its second byte must be in.\<close>

definition lead_info :: "nat \<Rightarrow> (nat \<times> nat \<times> nat) option" where
  "lead_info b =
     (if b < 128 then Some (1, 128, 191)
      else if b < 194 then None
      else if b < 224 then Some (2, 128, 191)
      else if b = 224 then Some (3, 160, 191)
      else if b = 237 then Some (3, 128, 159)
      else if b < 240 then Some (3, 128, 191)
      else if b = 240 then Some (4, 144, 191)
      else if b < 244 then Some (4, 128, 191)
      else if b = 244 then Some (4, 128, 143)
      else None)"

definition is_cont :: "nat \<Rightarrow> bool" where
  "is_cont b = (128 \<le> b \<and> b \<le> 191)"

fun decode_codes :: "nat list \<Rightarrow> nat \<times> nat" where
  "decode_codes [] = (rune_error, 0)"
| "decode_codes (b # s) =
     (case lead_info b of
        None \<Rightarrow> (rune_error, 1)
      | Some (n, lo, hi) \<Rightarrow>
          if n = 1 then (b, 1)
          else if length s < n - 1 then (rune_error, 1)
          else if s ! 0 < lo \<or> hi < s ! 0 then (rune_error, 1)
          else if n = 2 then ((b - 192) * 64 + (s ! 0 - 128), 2)
          else if \<not> is_cont (s ! 1) then (rune_error, 1)
          else if n = 3 then ((b - 224) * 4096 + (s ! 0 - 128) * 64 + (s ! 1 - 128), 3)
          else if \<not> is_cont (s ! 2) then (rune_error, 1)
          else ((b - 240) * 262144 + (s ! 0 - 128) * 4096 + (s ! 1 - 128) * 64 + (s ! 2 - 128), 4))"

definition decode_rune :: "string \<Rightarrow> nat \<times> nat" where
  "decode_rune s = decode_codes (map ccode s)"

definition full_rune :: "string \<Rightarrow> bool" where
  "full_rune s =
     (case s of
        [] \<Rightarrow> False
      | c # r \<Rightarrow>
          (case lead_info (ccode c) of
             None \<Rightarrow> True
           | Some (n, lo, hi) \<Rightarrow>
               n \<le> length s
               \<or> (1 < length s \<and> (ccode (s ! 1) < lo \<or> hi < ccode (s ! 1)))
               \<or> (2 < length s \<and> \<not> is_cont (ccode (s ! 2)))))"

lemma lead_info_size: "lead_info b = Some (n, lo, hi) \<Longrightarrow> n = 1 \<or> n = 2 \<or> n = 3 \<or> n = 4"
  by (auto simp: lead_info_def split: if_splits)

lemma decode_codes_size:
  assumes "decode_codes (b # s) = (r, n)"
  shows "1 \<le> n \<and> n \<le> Suc (length s) \<and> n \<le> 4"
proof (cases "lead_info b")
  case (Some l)
  obtain m lo hi where l: "l = (m, lo, hi)" by (cases l)
  with Some have "m = 1 \<or> m = 2 \<or> m = 3 \<or> m = 4" by (auto dest: lead_info_size)
  with assms Some l show ?thesis by (auto simp: Suc_le_eq split: if_splits)
qed (use assms in auto)

lemma decode_rune_size:
  "s \<noteq> [] \<Longrightarrow> decode_rune s = (r, n) \<Longrightarrow> 1 \<le> n \<and> n \<le> length s \<and> n \<le> 4"
  by (cases s) (use decode_codes_size in \<open>fastforce simp: decode_rune_def simp del: decode_codes.simps\<close>)+

lemma decode_rune_progress:
  "s \<noteq> [] \<Longrightarrow> (r, n) = decode_rune s \<Longrightarrow> length s - n < length s"
  using decode_rune_size [of s r n] by (cases s) auto

lemma decode_rune_pos: "s \<noteq> [] \<Longrightarrow> 0 < snd (decode_rune s)"
  using decode_rune_size [of s "fst (decode_rune s)" "snd (decode_rune s)"] by simp

function runes :: "string \<Rightarrow> nat list" where
  "runes s = (if s = [] then [] else (case decode_rune s of (r, n) \<Rightarrow> r # runes (drop n s)))"
  by (pat_completeness) auto
termination
  by (relation "measure length") (auto intro: decode_rune_progress)

function utf8_valid :: "string \<Rightarrow> bool" where
  "utf8_valid s = (if s = [] then True else
     (case decode_rune s of (r, n) \<Rightarrow> \<not> (r = rune_error \<and> n = 1) \<and> utf8_valid (drop n s)))"
  by (pat_completeness) auto
termination
  by (relation "measure length") (auto intro: decode_rune_progress)

declare runes.simps [simp del] utf8_valid.simps [simp del]

lemma runes_Nil [simp]: "runes [] = []" by (subst runes.simps) simp
lemma utf8_valid_Nil [simp]: "utf8_valid []" by (subst utf8_valid.simps) simp

lemma runes_step: "s \<noteq> [] \<Longrightarrow> decode_rune s = (r, n) \<Longrightarrow> runes s = r # runes (drop n s)"
  by (subst runes.simps) simp

lemma utf8_valid_step:
  "s \<noteq> [] \<Longrightarrow> decode_rune s = (r, n) \<Longrightarrow>
     utf8_valid s \<longleftrightarrow> \<not> (r = rune_error \<and> n = 1) \<and> utf8_valid (drop n s)"
  by (subst utf8_valid.simps) simp

section \<open>Encoding\<close>

definition is_scalar :: "nat \<Rightarrow> bool" where
  "is_scalar r = (r < 55296 \<or> (57343 < r \<and> r < 1114112))"

definition encode_codes :: "nat \<Rightarrow> nat list" where
  "encode_codes r =
     (if r < 128 then [r]
      else if r < 2048 then [192 + r div 64, 128 + r mod 64]
      else if \<not> is_scalar r then [239, 191, 189]
      else if r < 65536 then [224 + r div 4096, 128 + r div 64 mod 64, 128 + r mod 64]
      else [240 + r div 262144, 128 + r div 4096 mod 64, 128 + r div 64 mod 64, 128 + r mod 64])"

definition encode_rune :: "nat \<Rightarrow> string" where
  "encode_rune r = map char_of (encode_codes r)"

definition encode_runes :: "nat list \<Rightarrow> string" where
  "encode_runes rs = concat (map encode_rune rs)"


lemma rune_digits:
  fixes r :: nat
  shows "r div 64 * 64 + r mod 64 = r"
    and "r div 4096 * 4096 + r div 64 mod 64 * 64 + r mod 64 = r"
    and "r div 262144 * 262144 + r div 4096 mod 64 * 4096 + r div 64 mod 64 * 64 + r mod 64 = r"
proof -
  have d: "r div 64 div 64 = r div 4096" "r div 4096 div 64 = r div 262144"
    by (simp_all add: div_mult2_eq [symmetric])
  show 1: "r div 64 * 64 + r mod 64 = r" by simp
  have "r div 64 = r div 4096 * 64 + r div 64 mod 64" using d(1) by (metis div_mult_mod_eq)
  with 1 show 2: "r div 4096 * 4096 + r div 64 mod 64 * 64 + r mod 64 = r" by linarith
  have "r div 4096 = r div 262144 * 64 + r div 4096 mod 64" using d(2) by (metis div_mult_mod_eq)
  with 2 show "r div 262144 * 262144 + r div 4096 mod 64 * 4096 + r div 64 mod 64 * 64 + r mod 64 = r"
    by linarith
qed

lemma decode_encode_2:
  assumes "128 \<le> r" "r < 2048"
  shows "decode_codes ((192 + r div 64) # (128 + r mod 64) # s) = (r, 2)"
proof -
  have "2 \<le> r div 64" "r div 64 < 32" using assms by auto
  then have "lead_info (192 + r div 64) = Some (2, 128, 191)" by (simp add: lead_info_def)
  moreover have "r mod 64 < 64" by simp
  ultimately show ?thesis using rune_digits(1) [of r] by simp
qed

lemma decode_encode_3:
  assumes "2048 \<le> r" "r < 65536" "is_scalar r"
  shows "decode_codes ((224 + r div 4096) # (128 + r div 64 mod 64) # (128 + r mod 64) # s) = (r, 3)"
proof -
  define a b c where abc: "a = r div 4096" "b = r div 64 mod 64" "c = r mod 64"
  have r: "a * 4096 + b * 64 + c = r" using rune_digits(2) [of r] abc by simp
  have bc: "b < 64" "c < 64" "a < 16" using abc assms by auto
  have "0 < a \<or> 32 \<le> b" using r bc assms by linarith
  moreover have "a \<noteq> 13 \<or> b < 32" using r bc assms by (auto simp: is_scalar_def)
  ultimately show ?thesis using r bc unfolding abc(1,2,3) [symmetric]
    by (auto simp: lead_info_def is_cont_def)
qed

lemma decode_encode_4:
  assumes "65536 \<le> r" "is_scalar r"
  shows "decode_codes ((240 + r div 262144) # (128 + r div 4096 mod 64) # (128 + r div 64 mod 64)
           # (128 + r mod 64) # s) = (r, 4)"
proof -
  define a b c d where abc:
    "a = r div 262144" "b = r div 4096 mod 64" "c = r div 64 mod 64" "d = r mod 64"
  have r: "a * 262144 + b * 4096 + c * 64 + d = r" using rune_digits(3) [of r] abc by simp
  have bc: "b < 64" "c < 64" "d < 64" "a < 5" using abc assms by (auto simp: is_scalar_def)
  have "0 < a \<or> 16 \<le> b" using r bc assms by linarith
  moreover have "a < 4 \<or> (a = 4 \<and> b < 16)" using r bc assms by (auto simp: is_scalar_def)
  ultimately show ?thesis using r bc unfolding abc(1,2,3,4) [symmetric]
    by (auto simp: lead_info_def is_cont_def)
qed

lemma decode_encode_codes:
  assumes "is_scalar r"
  shows "decode_codes (encode_codes r @ s) = (r, length (encode_codes r))"
  using assms decode_encode_2 [of r s] decode_encode_3 [of r s] decode_encode_4 [of r s]
  by (auto simp: encode_codes_def lead_info_def not_less simp del: decode_codes.simps)
     (simp_all add: lead_info_def)

lemma lead_info_lo: "lead_info b = Some (n, lo, hi) \<Longrightarrow> 128 \<le> lo \<and> hi \<le> 191 \<and> (n = 1 \<longleftrightarrow> b < 128)"
  by (auto simp: lead_info_def split: if_splits)

lemma decode_low_byte:
  assumes "decode_codes (b # s) = (r, n)"
  shows "(b < 128 \<and> r = b \<and> n = 1) \<or> (128 \<le> b \<and> (\<forall>c \<in> set (take (n - 1) s). 128 \<le> c))"
proof (cases "lead_info b")
  case None
  then have "128 \<le> b" by (simp add: lead_info_def split: if_splits)
  with None assms show ?thesis by auto
next
  case (Some l)
  obtain m lo hi where l: "l = (m, lo, hi)" by (cases l)
  note lo = lead_info_lo [OF Some [unfolded l]]
  have m: "m = 1 \<or> m = 2 \<or> m = 3 \<or> m = 4" using Some l by (auto dest: lead_info_size)
  show ?thesis
  proof (cases "m = 1")
    case False
    then obtain x xs where s: "s = x # xs \<or> s = []" by (metis neq_Nil_conv)
    show ?thesis using False assms Some l lo m s
      by (cases xs; cases "tl xs") (auto simp: is_cont_def split: if_splits)
  qed (use assms Some l lo in auto)
qed

lemma digits_of_rune:
  fixes a b c d :: nat
  shows "b < 64 \<Longrightarrow> (a * 64 + b) div 64 = a \<and> (a * 64 + b) mod 64 = b"
    and "b < 64 \<Longrightarrow> c < 64 \<Longrightarrow> (a * 4096 + b * 64 + c) div 4096 = a
           \<and> (a * 4096 + b * 64 + c) div 64 mod 64 = b \<and> (a * 4096 + b * 64 + c) mod 64 = c"
    and "b < 64 \<Longrightarrow> c < 64 \<Longrightarrow> d < 64 \<Longrightarrow> (a * 262144 + b * 4096 + c * 64 + d) div 262144 = a
           \<and> (a * 262144 + b * 4096 + c * 64 + d) div 4096 mod 64 = b
           \<and> (a * 262144 + b * 4096 + c * 64 + d) div 64 mod 64 = c
           \<and> (a * 262144 + b * 4096 + c * 64 + d) mod 64 = d"
proof -
  have two: "\<And>a b :: nat. b < 64 \<Longrightarrow> (a * 64 + b) div 64 = a \<and> (a * 64 + b) mod 64 = b" by simp
  then show "b < 64 \<Longrightarrow> (a * 64 + b) div 64 = a \<and> (a * 64 + b) mod 64 = b" .
  have three: "(x div 64) div 64 = x div 4096" "(x div 4096) div 64 = x div 262144" for x :: nat
    by (simp_all add: div_mult2_eq [symmetric])
  show "b < 64 \<Longrightarrow> c < 64 \<Longrightarrow> (a * 4096 + b * 64 + c) div 4096 = a
           \<and> (a * 4096 + b * 64 + c) div 64 mod 64 = b \<and> (a * 4096 + b * 64 + c) mod 64 = c"
    using two [of c "a * 64 + b"] two [of b a]
    by (simp add: three(1) [symmetric] algebra_simps)
  show "b < 64 \<Longrightarrow> c < 64 \<Longrightarrow> d < 64 \<Longrightarrow> (a * 262144 + b * 4096 + c * 64 + d) div 262144 = a
           \<and> (a * 262144 + b * 4096 + c * 64 + d) div 4096 mod 64 = b
           \<and> (a * 262144 + b * 4096 + c * 64 + d) div 64 mod 64 = c
           \<and> (a * 262144 + b * 4096 + c * 64 + d) mod 64 = d"
    using two [of d "a * 4096 + b * 64 + c"] two [of c "a * 64 + b"] two [of b a]
    by (simp add: three(1,2) [symmetric] algebra_simps)
qed

lemma encode_decode_2:
  assumes "194 \<le> a" "a < 224" "128 \<le> b" "b \<le> 191"
  shows "encode_codes ((a - 192) * 64 + (b - 128)) = [a, b]"
proof -
  define x y where "x = a - 192" "y = b - 128"
  with assms have a: "a = 192 + x" "b = 128 + y" by simp_all
  show ?thesis using assms digits_of_rune(1) [of y x]
    by (auto simp: a encode_codes_def)
qed

lemma encode_decode_3:
  assumes "lead_info a = Some (3, lo, hi)" "lo \<le> b" "b \<le> hi" "is_cont c"
    and r: "r = (a - 224) * 4096 + (b - 128) * 64 + (c - 128)"
  shows "is_scalar r \<and> encode_codes r = [a, b, c]"
proof -
  have rng: "224 \<le> a" "a < 240" "128 \<le> b" "b \<le> 191" "128 \<le> c" "c \<le> 191" "a = 224 \<Longrightarrow> 160 \<le> b"
      "a = 237 \<Longrightarrow> b \<le> 159"
    using assms by (auto simp: lead_info_def is_cont_def split: if_splits)
  define x y z where "x = a - 224" "y = b - 128" "z = c - 128"
  with rng have a: "a = 224 + x" "b = 128 + y" "c = 128 + z" by simp_all
  have "x < 13 \<or> (x = 13 \<and> y \<le> 31) \<or> 13 < x" "0 < x \<or> 32 \<le> y" using rng a by auto
  then show ?thesis using rng digits_of_rune(2) [of y z x] unfolding r a
    by (auto simp: encode_codes_def is_scalar_def)
qed

lemma encode_decode_4:
  assumes "lead_info a = Some (4, lo, hi)" "lo \<le> b" "b \<le> hi" "is_cont c" "is_cont d"
    and r: "r = (a - 240) * 262144 + (b - 128) * 4096 + (c - 128) * 64 + (d - 128)"
  shows "is_scalar r \<and> encode_codes r = [a, b, c, d]"
proof -
  have rng: "240 \<le> a" "a < 245" "128 \<le> b" "b \<le> 191" "128 \<le> c" "c \<le> 191" "128 \<le> d" "d \<le> 191"
      "a = 240 \<Longrightarrow> 144 \<le> b" "a = 244 \<Longrightarrow> b \<le> 143"
    using assms by (auto simp: lead_info_def is_cont_def split: if_splits)
  define x y z w where "x = a - 240" "y = b - 128" "z = c - 128" "w = d - 128"
  with rng have a: "a = 240 + x" "b = 128 + y" "c = 128 + z" "d = 128 + w" by simp_all
  define R where "R = x * 262144 + y * 4096 + z * 64 + w"
  have sz: "y < 64" "z < 64" "w < 64" using rng a by simp_all
  have "0 < x \<or> 16 \<le> y" using rng a by auto
  then have lo: "65536 \<le> R" unfolding R_def by auto
  have "x < 4 \<or> (x = 4 \<and> y \<le> 15)" using rng a by auto
  then have "R < 1114112" unfolding R_def using sz by auto
  with lo have "is_scalar R" by (simp add: is_scalar_def)
  with lo digits_of_rune(3) [OF sz, of x] show ?thesis unfolding r a
    by (simp add: encode_codes_def R_def)
qed

lemma encode_decode_codes:
  assumes dec: "decode_codes (a # s) = (r, n)" and ok: "\<not> (r = rune_error \<and> n = 1)"
  shows "is_scalar r \<and> encode_codes r = take n (a # s)"
proof -
  from dec ok obtain m lo hi where l: "lead_info a = Some (m, lo, hi)"
    by (auto split: option.splits)
  consider "m = 1" | "m = 2" | "m = 3" | "m = 4" using l by (auto dest: lead_info_size)
  then show ?thesis
  proof cases
    case 1
    with l lead_info_lo [OF l] dec show ?thesis by (auto simp: is_scalar_def encode_codes_def)
  next
    case 2
    with dec ok l obtain b t where t: "s = b # t" "lo \<le> b" "b \<le> hi" "n = 2"
      "r = (a - 192) * 64 + (b - 128)" by (cases s) (auto split: if_splits)
    have "194 \<le> a" "a < 224" "128 \<le> b" "b \<le> 191"
      using l 2 t by (auto simp: lead_info_def split: if_splits)
    with encode_decode_2 [OF this] t show ?thesis by (auto simp: is_scalar_def)
  next
    case 3
    with dec ok l obtain b c t where t: "s = b # c # t" "lo \<le> b" "b \<le> hi" "is_cont c" "n = 3"
      "r = (a - 224) * 4096 + (b - 128) * 64 + (c - 128)"
      by (cases s; cases "tl s") (auto split: if_splits)
    with encode_decode_3 [OF l [unfolded 3] t(2-4) t(6)] show ?thesis by simp
  next
    case 4
    with dec ok l obtain b c d t where t: "s = b # c # d # t" "lo \<le> b" "b \<le> hi" "is_cont c" "is_cont d"
      "n = 4" "r = (a - 240) * 262144 + (b - 128) * 4096 + (c - 128) * 64 + (d - 128)"
      by (cases s; cases "tl s"; cases "tl (tl s)") (auto split: if_splits)
    with encode_decode_4 [OF l [unfolded 4] t(2-5) t(7)] show ?thesis by simp
  qed
qed

section \<open>Strings and their runes\<close>

lemma encode_codes_bound: "is_scalar r \<Longrightarrow> \<forall>c \<in> set (encode_codes r). c < 256"
  by (auto simp: encode_codes_def is_scalar_def)

lemma encode_codes_nonempty [simp]: "encode_codes r \<noteq> []"
  by (simp add: encode_codes_def)

lemma codes_encode_rune: "is_scalar r \<Longrightarrow> map ccode (encode_rune r) = encode_codes r"
  using encode_codes_bound [of r] by (auto simp: encode_rune_def intro!: map_idI)

lemma decode_encode_rune:
  assumes "is_scalar r"
  shows "decode_rune (encode_rune r @ s) = (r, length (encode_rune r))"
  using decode_encode_codes [OF assms] assms
  by (simp add: decode_rune_def codes_encode_rune) (simp add: encode_rune_def)

lemma encode_rune_nonempty [simp]: "encode_rune r \<noteq> []"
  by (simp add: encode_rune_def)

lemma encode_rune_error_size: "length (encode_rune rune_error) = 3"
  by (simp add: encode_rune_def encode_codes_def is_scalar_def)

lemma runes_encode_append:
  "is_scalar r \<Longrightarrow> runes (encode_rune r @ s) = r # runes s"
  by (subst runes_step [OF _ decode_encode_rune]) auto

lemma utf8_valid_encode_append:
  "is_scalar r \<Longrightarrow> utf8_valid (encode_rune r @ s) = utf8_valid s"
  by (subst utf8_valid_step [OF _ decode_encode_rune]) (auto simp: encode_rune_error_size)

lemma runes_encode_runes: "list_all is_scalar rs \<Longrightarrow> runes (encode_runes rs) = rs"
  by (induction rs) (auto simp: encode_runes_def runes_encode_append)

lemma utf8_valid_encode_runes: "list_all is_scalar rs \<Longrightarrow> utf8_valid (encode_runes rs)"
  by (induction rs) (auto simp: encode_runes_def utf8_valid_encode_append)

lemma decode_rune_cases:
  assumes "s \<noteq> []" and "decode_rune s = (r, n)"
  shows "(r = rune_error \<and> n = 1) \<or> (is_scalar r \<and> take n s = encode_rune r)"
proof -
  obtain c t where s: "s = c # t" using assms by (cases s) auto
  show ?thesis
  proof (cases "r = rune_error \<and> n = 1")
    case False
    have "is_scalar r \<and> encode_codes r = take n (map ccode s)"
      using encode_decode_codes [of "ccode c" "map ccode t" r n] assms s False
      by (simp add: decode_rune_def del: decode_codes.simps)
    then show ?thesis by (simp add: encode_rune_def take_map comp_def)
  qed simp
qed

lemma runes_scalar: "list_all is_scalar (runes s)"
proof (induction s rule: runes.induct)
  case (1 s)
  show ?case
  proof (cases "s = []")
    case False
    obtain r n where d: "decode_rune s = (r, n)" by (cases "decode_rune s")
    with 1 False decode_rune_cases [OF False d] show ?thesis
      by (auto simp: runes_step [OF False d] is_scalar_def)
  qed simp
qed

lemma encode_runes_runes: "utf8_valid s \<Longrightarrow> encode_runes (runes s) = s"
proof (induction s rule: runes.induct)
  case (1 s)
  show ?case
  proof (cases "s = []")
    case False
    obtain r n where d: "decode_rune s = (r, n)" by (cases "decode_rune s")
    have "take n s = encode_rune r \<Longrightarrow> encode_rune r @ drop n s = s" by (metis append_take_drop_id)
    moreover have "utf8_valid (drop n s) \<Longrightarrow> concat (map encode_rune (runes (drop n s))) = drop n s"
      using 1(1) [OF False d [symmetric]] by (simp add: encode_runes_def)
    ultimately show ?thesis using 1(2) False decode_rune_cases [OF False d]
      by (auto simp: runes_step [OF False d] utf8_valid_step [OF False d] encode_runes_def)
  qed (simp add: encode_runes_def)
qed

lemma low_byte_is_rune: "c \<in> set s \<Longrightarrow> ccode c < 128 \<Longrightarrow> ccode c \<in> set (runes s)"
proof (induction s rule: runes.induct)
  case (1 s)
  then have ne: "s \<noteq> []" by auto
  obtain r n where d: "decode_rune s = (r, n)" by (cases "decode_rune s")
  obtain b t where s: "s = b # t" using ne by (cases s) auto
  have n: "1 \<le> n" using decode_rune_size [OF ne d] by simp
  have split: "c \<in> set (take n s) \<or> c \<in> set (drop n s)"
    using 1(2) by (metis UnE append_take_drop_id set_append)
  show ?case
  proof (cases "c \<in> set (drop n s)")
    case True
    then show ?thesis using 1 ne d by (auto simp: runes_step [OF ne d])
  next
    case False
    with split have "c \<in> set (take n s)" by simp
    then have "c = b \<or> c \<in> set (take (n - 1) t)" using s n by (cases n) auto
    moreover have "(ccode b < 128 \<and> r = ccode b \<and> n = 1)
        \<or> (128 \<le> ccode b \<and> (\<forall>c \<in> set (take (n - 1) (map ccode t)). 128 \<le> c))"
      using decode_low_byte [of "ccode b" "map ccode t" r n] d s
      by (simp add: decode_rune_def del: decode_codes.simps)
    ultimately have "r = ccode c" using 1(3) by (auto simp: take_map)
    then show ?thesis by (simp add: runes_step [OF ne d])
  qed
qed

definition ascii :: "string \<Rightarrow> bool" where
  "ascii s = list_all (\<lambda>c. ccode c < 128) s"

lemma decode_ascii: "ccode c < 128 \<Longrightarrow> decode_rune (c # s) = (ccode c, 1)"
  by (simp add: decode_rune_def lead_info_def)

lemma ascii_runes: "ascii s \<Longrightarrow> runes s = map ccode s"
  by (induction s) (auto simp: ascii_def runes_step [OF _ decode_ascii])

lemma ascii_utf8_valid: "ascii s \<Longrightarrow> utf8_valid s"
  by (induction s) (auto simp: ascii_def utf8_valid_step [OF _ decode_ascii])

section \<open>Classes of runes\<close>

text \<open>\<open>unicode.IsControl\<close> and \<open>unicode.IsSpace\<close>.\<close>

definition is_control :: "nat \<Rightarrow> bool" where
  "is_control r = (r < 32 \<or> (127 \<le> r \<and> r < 160))"

definition is_space :: "nat \<Rightarrow> bool" where
  "is_space r = ((9 \<le> r \<and> r \<le> 13) \<or> r = 32 \<or> r = 133 \<or> r = 160 \<or> r = 5760
     \<or> (8192 \<le> r \<and> r \<le> 8202) \<or> r = 8232 \<or> r = 8233 \<or> r = 8239 \<or> r = 8287 \<or> r = 12288)"

lemmas rune_classes = is_control_def is_space_def

section \<open>Trimming\<close>

definition printable :: "string \<Rightarrow> bool" where
  "printable s \<longleftrightarrow> list_all (\<lambda>c. 32 < ccode c \<and> ccode c < 128) s"

lemma space_ends:
  "w \<in> set spaces \<Longrightarrow> w \<noteq> [] \<and> \<not> (32 < ccode (hd w) \<and> ccode (hd w) < 128) \<and> \<not> (32 < ccode (last w) \<and> ccode (last w) < 128)"
  by (auto simp: spaces_def space_encodings_def)

lemma trim_space_printable: "printable s \<Longrightarrow> trim_space s = s"
proof -
  assume p: "printable s"
  have "\<not> has_prefix s w \<and> \<not> has_suffix s w" if "w \<in> set spaces" for w
    using space_ends [OF that] p by (cases w; cases w rule: rev_cases)
      (auto simp: has_prefix_iff has_suffix_iff printable_def)
  then have "leading_space s = 0" "trailing_space s = 0"
    by (simp_all add: leading_space_def trailing_space_def filter_empty_conv [THEN iffD2])
  then show ?thesis by (simp add: trim_space_def trim_left.simps [of s] trim_right.simps [of s])
qed
end
