(* ===== verification/HostIdentity.thy ===== *)
theory HostIdentity
  imports GoStrings
begin

text \<open>
  \<open>hub/internal/host/identity.go\<close>: host identities, revisions, the captured target of a
  request and the typed host errors the other components return.  A \<open>Revision\<close> (uint64) is a
  natural number; zero is not a version.
\<close>

type_synonym host_id = string
type_synonym revision = nat

datatype conn_type = ConnLocal | ConnSSH | ConnOther string

definition local_id :: host_id where "local_id = ''local''"
definition local_revision :: revision where "local_revision = 1"

record target =
  t_host :: host_id
  t_revision :: revision
  t_conn_revision :: revision
  t_session :: string

datatype host_code =
    HostNotFound | HostUnavailable | HostUnsupported | OutcomeUnknown | StaleRevision | DuplicateLocal

definition host_code_string :: "host_code \<Rightarrow> string" where
  "host_code_string c =
     (case c of
        HostNotFound \<Rightarrow> ''host_not_found''
      | HostUnavailable \<Rightarrow> ''host_unavailable''
      | HostUnsupported \<Rightarrow> ''host_unsupported''
      | OutcomeUnknown \<Rightarrow> ''outcome_unknown''
      | StaleRevision \<Rightarrow> ''host_revision_conflict''
      | DuplicateLocal \<Rightarrow> ''duplicate_local_host'')"

text \<open>\<open>*host.Error\<close>: the cause is what \<open>Unwrap\<close> gives, as its text; it is never printed.\<close>

datatype host_error = HostError (he_target: target) (he_code: host_code) (he_cause: string)

definition host_error_string :: "host_error \<Rightarrow> string" where
  "host_error_string e = host_code_string (he_code e)"

definition host_error_is :: "host_error \<Rightarrow> host_code \<Rightarrow> bool" where
  "host_error_is e c = (he_code e = c)"

definition host_only :: "host_id \<Rightarrow> target" where
  "host_only i = \<lparr> t_host = i, t_revision = 0, t_conn_revision = 0, t_session = [] \<rparr>"

lemma host_code_string_inj: "host_code_string a = host_code_string b \<Longrightarrow> a = b"
  by (cases a; cases b) (simp_all add: host_code_string_def)

text \<open>The printable message depends on the code only: two errors with one code print alike
  whatever their causes.\<close>

lemma host_error_redacts: "host_error_string (HostError t c x) = host_error_string (HostError t' c x')"
  by (simp add: host_error_string_def)

end
