(* ===== verification/SessionModel.thy ===== *)
theory SessionModel
  imports GoUtf8 HostIdentity "HOL-Library.Multiset"
begin

text \<open>
  \<open>hub/internal/session\<close>: sessions and panes, the choice of a representative pane, session
  names, and the session service over a backend.  A backend is a record of actions on a
  world \<open>'w\<close>; the optional interfaces the service probes with type assertions are the
  optional fields.
\<close>

section \<open>Panes (pane.go)\<close>

record pane =
  p_session :: string
  p_window_index :: int
  p_pane_index :: int
  p_window_active :: bool
  p_pane_active :: bool
  p_dead :: bool
  p_window_name :: string
  p_title :: string
  p_current_command :: string

record pane_summary =
  ps_window_name :: string
  ps_title :: string
  ps_current_command :: string
  ps_window_active :: bool

record session =
  s_name :: string
  s_windows :: int
  s_attached :: int
  s_created :: int
  s_pane :: "pane_summary option"

definition rank_excluded :: int where "rank_excluded = - 1"
definition rank_other :: int where "rank_other = 0"
definition rank_active_window :: int where "rank_active_window = 1"
definition rank_active_pane :: int where "rank_active_pane = 2"
definition rank_active_window_pane :: int where "rank_active_window_pane = 3"

definition max_pane_field_runes :: nat where "max_pane_field_runes = 200"

lemmas pane_ranks = rank_excluded_def rank_other_def rank_active_window_def
  rank_active_pane_def rank_active_window_pane_def

datatype pane_choice = PaneChoice (pc_rank: int) (pc_window: int) (pc_pane: int)

fun better :: "pane_choice \<Rightarrow> pane_choice \<Rightarrow> bool" where
  "better (PaneChoice r w p) (PaneChoice r' w' p') =
     (if r \<noteq> r' then r > r' else if w \<noteq> w' then w < w' else p < p')"

definition clamp_field :: "string \<Rightarrow> string" where
  "clamp_field v =
     (let rs = runes v
      in if length rs \<le> max_pane_field_runes then v
         else encode_runes (take max_pane_field_runes rs))"

definition pane_rank :: "pane \<Rightarrow> int" where
  "pane_rank p =
     (if p_dead p then rank_excluded
      else if p_window_active p \<and> p_pane_active p then rank_active_window_pane
      else if p_pane_active p then rank_active_pane
      else if p_window_active p then rank_active_window
      else rank_other)"

definition choice_of :: "pane \<Rightarrow> pane_choice" where
  "choice_of p = PaneChoice (pane_rank p) (p_window_index p) (p_pane_index p)"

definition summary_of :: "pane \<Rightarrow> pane_summary" where
  "summary_of p =
     \<lparr> ps_window_name = clamp_field (p_window_name p),
       ps_title = clamp_field (p_title p),
       ps_current_command = clamp_field (p_current_command p),
       ps_window_active = p_window_active p \<rparr>"

type_synonym choices = "(string \<rightharpoonup> pane_summary) \<times> (string \<rightharpoonup> pane_choice)"

definition select_step :: "pane \<Rightarrow> choices \<Rightarrow> choices" where
  "select_step p bc =
     (case bc of (best, chosen) \<Rightarrow>
        if pane_rank p = rank_excluded then (best, chosen)
        else (let candidate = choice_of p in
          (case chosen (p_session p) of
             Some incumbent \<Rightarrow>
               (if \<not> better candidate incumbent then (best, chosen)
                else (best(p_session p \<mapsto> summary_of p), chosen(p_session p \<mapsto> candidate)))
           | None \<Rightarrow> (best(p_session p \<mapsto> summary_of p), chosen(p_session p \<mapsto> candidate)))))"

definition select_pane_summaries :: "pane list \<Rightarrow> string \<rightharpoonup> pane_summary" where
  "select_pane_summaries panes = fst (fold select_step panes (Map.empty, Map.empty))"

text \<open>The ordering \<open>better\<close> induces: the chosen pane is the greatest one.\<close>

instantiation pane_choice :: linorder
begin

definition less_pane_choice :: "pane_choice \<Rightarrow> pane_choice \<Rightarrow> bool" where
  "less_pane_choice a b = better b a"

definition less_eq_pane_choice :: "pane_choice \<Rightarrow> pane_choice \<Rightarrow> bool" where
  "less_eq_pane_choice a b = (\<not> better a b)"

instance
proof
  fix a b c :: pane_choice
  show "(a < b) = (a \<le> b \<and> \<not> b \<le> a)"
    by (cases a; cases b) (auto simp: less_pane_choice_def less_eq_pane_choice_def)
  show "a \<le> a" by (cases a) (simp add: less_eq_pane_choice_def)
  show "a \<le> b \<Longrightarrow> b \<le> c \<Longrightarrow> a \<le> c"
    by (cases a; cases b; cases c) (auto simp: less_eq_pane_choice_def split: if_splits)
  show "a \<le> b \<Longrightarrow> b \<le> a \<Longrightarrow> a = b"
    by (cases a; cases b) (auto simp: less_eq_pane_choice_def split: if_splits)
  show "a \<le> b \<or> b \<le> a"
    by (cases a; cases b) (auto simp: less_eq_pane_choice_def split: if_splits)
qed

end

lemma better_iff_less: "better a b \<longleftrightarrow> b < a"
  by (simp add: less_pane_choice_def)

lemma pane_rank_excluded_iff [simp]: "pane_rank p = rank_excluded \<longleftrightarrow> p_dead p"
  by (simp add: pane_rank_def pane_ranks)

definition live_panes :: "string \<Rightarrow> pane list \<Rightarrow> pane list" where
  "live_panes s panes = filter (\<lambda>p. p_session p = s \<and> \<not> p_dead p) panes"

text \<open>The first of the greatest live panes of a session, as a plain scan.\<close>

fun first_best :: "pane list \<Rightarrow> pane option \<Rightarrow> pane option" where
  "first_best [] acc = acc"
| "first_best (p # ps) acc =
     first_best ps (case acc of None \<Rightarrow> Some p | Some q \<Rightarrow> if choice_of q < choice_of p then Some p else Some q)"

definition choices_match :: "(string \<Rightarrow> pane option) \<Rightarrow> choices \<Rightarrow> bool" where
  "choices_match f bc \<longleftrightarrow>
     (\<forall>s. fst bc s = map_option summary_of (f s) \<and> snd bc s = map_option choice_of (f s))"

lemma select_step_match:
  assumes "choices_match f bc"
  shows "choices_match (\<lambda>s. first_best (live_panes s [p]) (f s)) (select_step p bc)"
  using assms
  by (cases bc; cases "p_dead p"; cases "f (p_session p)")
     (auto simp: choices_match_def select_step_def live_panes_def better_iff_less Let_def)

lemma first_best_append: "first_best (xs @ ys) acc = first_best ys (first_best xs acc)"
  by (induction xs arbitrary: acc) auto

lemma select_fold_match:
  "choices_match f bc \<Longrightarrow>
     choices_match (\<lambda>s. first_best (live_panes s panes) (f s)) (fold select_step panes bc)"
proof (induction panes arbitrary: f bc)
  case (Cons p ps)
  have "choices_match (\<lambda>s. first_best (live_panes s ps) (first_best (live_panes s [p]) (f s)))
     (fold select_step ps (select_step p bc))"
    by (rule Cons.IH [OF select_step_match [OF Cons.prems]])
  moreover have "live_panes s (p # ps) = live_panes s [p] @ live_panes s ps" for s
    by (simp add: live_panes_def)
  ultimately show ?case by (simp add: first_best_append)
qed (simp add: live_panes_def)

lemma select_pane_first_best:
  "select_pane_summaries panes s = map_option summary_of (first_best (live_panes s panes) None)"
proof -
  have "choices_match (\<lambda>s. None) (Map.empty, Map.empty)" by (simp add: choices_match_def)
  from select_fold_match [OF this, of panes] show ?thesis
    by (simp add: choices_match_def select_pane_summaries_def)
qed

lemma first_best_max:
  "first_best ps acc = r \<Longrightarrow>
     (r = None \<longleftrightarrow> ps = [] \<and> acc = None)
     \<and> (\<forall>b. r = Some b \<longrightarrow> (b \<in> set ps \<or> acc = Some b)
         \<and> (\<forall>q \<in> set ps \<union> set_option acc. choice_of q \<le> choice_of b))"
proof (induction ps arbitrary: acc)
  case (Cons p ps)
  show ?case using Cons.IH [OF Cons.prems [simplified]]
    by (auto split: option.splits if_splits)
qed auto

lemma first_best_mem:
  assumes "first_best ps None = Some b"
  shows "b \<in> set ps" and "\<forall>q \<in> set ps. choice_of q \<le> choice_of b"
  using first_best_max [OF assms] by auto

lemma first_best_None: "first_best ps None = None \<longleftrightarrow> ps = []"
  using first_best_max [of ps None] by auto

section \<open>Session names (validation.go)\<close>

datatype name_fault = NotUtf8 | NameEmpty | NameTooLong | ControlChar
  | TargetDelimiter nat | PathSeparator nat | FullWidth nat | CommandSeparator nat | OuterSpace

text \<open>
  The errors of the session layer.  \<open>ErrTmux op stderr\<close> carries tmux's own message, \<open>ErrExec\<close>
  is a failure to run tmux at all, \<open>ErrHost\<close> is a typed host error of a remote backend, and \<open>Wrapped\<close> is \<open>fmt.Errorf("op: %w", err)\<close>.
\<close>

datatype session_error =
    ErrTmuxNotFound
  | ErrNameInUse
  | ErrNotFound
  | ErrInvalidName name_fault
  | ErrExec string
  | ErrHost host_error
  | ErrTmux string string
  | Wrapped string session_error

text \<open>\<open>errors.Is\<close>: the sentinel at the end of the wrapping chain.\<close>

fun root_error :: "session_error \<Rightarrow> session_error" where
  "root_error (Wrapped op e) = root_error e"
| "root_error e = e"

definition max_session_name_runes :: nat where "max_session_name_runes = 64"

definition validate_rune :: "nat \<Rightarrow> session_error + unit" where
  "validate_rune r =
     (if is_control r then Inl (ErrInvalidName ControlChar)
      else if r = 58 \<or> r = 46 then Inl (ErrInvalidName (TargetDelimiter r))
      else if r = 47 \<or> r = 92 then Inl (ErrInvalidName (PathSeparator r))
      else if r = 65306 \<or> r = 65294 then Inl (ErrInvalidName (FullWidth r))
      else if r = 59 \<or> r = 65307 then Inl (ErrInvalidName (CommandSeparator r))
      else Inr ())"

fun validate_runes :: "nat list \<Rightarrow> session_error + unit" where
  "validate_runes [] = Inr ()"
| "validate_runes (r # rs) = (case validate_rune r of Inl e \<Rightarrow> Inl e | Inr _ \<Rightarrow> validate_runes rs)"

definition validate_session_name :: "string \<Rightarrow> session_error + unit" where
  "validate_session_name name =
     (if \<not> utf8_valid name then Inl (ErrInvalidName NotUtf8)
      else (let rs = runes name in
        if length rs = 0 then Inl (ErrInvalidName NameEmpty)
        else if length rs > max_session_name_runes then Inl (ErrInvalidName NameTooLong)
        else (case validate_runes rs of
            Inl e \<Rightarrow> Inl e
          | Inr _ \<Rightarrow> if is_space (rs ! 0) \<or> is_space (rs ! (length rs - 1))
                     then Inl (ErrInvalidName OuterSpace) else Inr ())))"

definition valid_name :: "string \<Rightarrow> bool" where
  "valid_name name = is_ok (validate_session_name name)"

text \<open>The code points a name may not contain, as one set.\<close>

definition reserved_rune :: "nat \<Rightarrow> bool" where
  "reserved_rune r \<longleftrightarrow> is_control r \<or> r \<in> {58, 46, 47, 92, 65306, 65294, 59, 65307}"

lemma validate_rune_ok [simp]: "is_ok (validate_rune r) \<longleftrightarrow> \<not> reserved_rune r"
  by (auto simp: validate_rune_def reserved_rune_def)

lemma validate_runes_ok: "is_ok (validate_runes rs) \<longleftrightarrow> (\<forall>r \<in> set rs. \<not> reserved_rune r)"
proof (induction rs)
  case (Cons r rs)
  have "is_ok (validate_rune r) \<longleftrightarrow> \<not> reserved_rune r" by simp
  with Cons show ?case by (auto simp: is_ok_iff split: sum.splits)
qed simp

lemma validate_rune_invalid: "validate_rune r = Inl e \<Longrightarrow> \<exists>f. e = ErrInvalidName f"
  by (auto simp: validate_rune_def split: if_splits)

lemma validate_runes_invalid: "validate_runes rs = Inl e \<Longrightarrow> \<exists>f. e = ErrInvalidName f"
  by (induction rs) (auto split: sum.splits dest: validate_rune_invalid)

lemma validate_name_invalid: "validate_session_name name = Inl e \<Longrightarrow> \<exists>f. e = ErrInvalidName f"
  by (auto simp: validate_session_name_def Let_def split: if_splits sum.splits dest: validate_runes_invalid)

lemma valid_name_iff:
  "valid_name name \<longleftrightarrow>
     utf8_valid name \<and> runes name \<noteq> [] \<and> length (runes name) \<le> max_session_name_runes
     \<and> (\<forall>r \<in> set (runes name). \<not> reserved_rune r)
     \<and> \<not> is_space (hd (runes name)) \<and> \<not> is_space (last (runes name))"
  using validate_runes_ok [of "runes name"]
  by (cases "validate_runes (runes name)")
     (auto simp: valid_name_def validate_session_name_def Let_def hd_conv_nth last_conv_nth)

lemma valid_name_ascii:
  assumes "ascii name" and "name \<noteq> []" and "length name \<le> 64"
    and "list_all (\<lambda>c. \<not> reserved_rune (ccode c)) name"
    and "\<not> is_space (ccode (hd name))" and "\<not> is_space (ccode (last name))"
  shows "valid_name name"
  using assms
  by (simp add: valid_name_iff ascii_runes ascii_utf8_valid max_session_name_runes_def list_all_iff
      hd_map last_map)

lemma validate_session_name_ok: "validate_session_name name = Inr () \<longleftrightarrow> valid_name name"
  by (simp add: valid_name_def is_ok_iff)

lemma valid_name_byte:
  assumes "valid_name name" and "c \<in> set name" and "ccode c < 128"
  shows "\<not> reserved_rune (ccode c)"
  using assms low_byte_is_rune valid_name_iff by blast

lemma valid_name_no_ascii:
  assumes "valid_name name"
  shows "CHR ''\<newline>'' \<notin> set name" "CHR '':'' \<notin> set name" "CHR ''.'' \<notin> set name"
    "CHR ''/'' \<notin> set name" "CHR '';'' \<notin> set name" "CHR 0x0D \<notin> set name" "CHR 0x00 \<notin> set name"
  using valid_name_byte [OF assms] by (force simp: reserved_rune_def is_control_def)+

lemma valid_name_nonempty: "valid_name name \<Longrightarrow> name \<noteq> []"
  by (auto simp: valid_name_iff)

section \<open>The session service (service.go)\<close>

record 'w backend =
  bk_list :: "('w, session_error, session list) action"
  bk_create :: "string \<Rightarrow> ('w, session_error, session) action"
  bk_rename :: "string \<Rightarrow> string \<Rightarrow> ('w, session_error, unit) action"
  bk_kill :: "string \<Rightarrow> ('w, session_error, unit) action"
  bk_list_panes :: "('w, session_error, pane list) action option"
  bk_get :: "(string \<Rightarrow> ('w, session_error, session) action) option"
  bk_has :: "(string \<Rightarrow> 'w \<Rightarrow> bool \<times> 'w) option"
  bk_pane_dir :: "(string \<Rightarrow> ('w, session_error, string) action) option"

definition annotate :: "(string \<rightharpoonup> pane_summary) \<Rightarrow> session \<Rightarrow> session" where
  "annotate summaries s =
     (case summaries (s_name s) of None \<Rightarrow> s | Some ps \<Rightarrow> s\<lparr>s_pane := Some ps\<rparr>)"

definition svc_list_sessions :: "'w backend \<Rightarrow> ('w, session_error, session list) action" where
  "svc_list_sessions b =
     act_bind (bk_list b) (\<lambda>sessions.
       case bk_list_panes b of
         None \<Rightarrow> act_return sessions
       | Some pl \<Rightarrow>
           act_bind (act_try pl) (\<lambda>r.
             case r of
               Inl _ \<Rightarrow> act_return sessions
             | Inr panes \<Rightarrow> act_return (map (annotate (select_pane_summaries panes)) sessions)))"

definition svc_create_session :: "'w backend \<Rightarrow> string \<Rightarrow> ('w, session_error, session) action" where
  "svc_create_session b name =
     (if name \<noteq> [] then act_bind (act_lift (validate_session_name name)) (\<lambda>_. bk_create b name)
      else bk_create b name)"

definition svc_rename_session :: "'w backend \<Rightarrow> string \<Rightarrow> string \<Rightarrow> ('w, session_error, unit) action" where
  "svc_rename_session b old new =
     act_bind (act_lift (validate_session_name old)) (\<lambda>_.
       act_bind (act_lift (validate_session_name new)) (\<lambda>_. bk_rename b old new))"

definition svc_kill_session :: "'w backend \<Rightarrow> string \<Rightarrow> ('w, session_error, unit) action" where
  "svc_kill_session b name =
     act_bind (act_lift (validate_session_name name)) (\<lambda>_. bk_kill b name)"

text \<open>The scan \<open>for i := range sessions { if sessions[i].Name == name ... }\<close>.\<close>

fun find_session :: "string \<Rightarrow> session list \<Rightarrow> session_error + session" where
  "find_session name [] = Inl ErrNotFound"
| "find_session name (s # ss) = (if s_name s = name then Inr s else find_session name ss)"

definition svc_get_session :: "'w backend \<Rightarrow> string \<Rightarrow> ('w, session_error, session) action" where
  "svc_get_session b name =
     act_bind (act_lift (validate_session_name name)) (\<lambda>_.
       case bk_get b of
         Some g \<Rightarrow> g name
       | None \<Rightarrow> act_bind (bk_list b) (\<lambda>ss. act_lift (find_session name ss)))"

definition svc_has_session :: "'w backend \<Rightarrow> string \<Rightarrow> 'w \<Rightarrow> bool \<times> 'w" where
  "svc_has_session b name w =
     (case validate_session_name name of
        Inl _ \<Rightarrow> (False, w)
      | Inr _ \<Rightarrow>
          (case bk_has b of
             Some h \<Rightarrow> h name w
           | None \<Rightarrow> (case svc_get_session b name w of (r, w') \<Rightarrow> (is_ok r, w'))))"

definition svc_pane_working_directory :: "'w backend \<Rightarrow> string \<Rightarrow> ('w, session_error, string) action" where
  "svc_pane_working_directory b name =
     act_bind (act_lift (validate_session_name name)) (\<lambda>_.
       case bk_pane_dir b of None \<Rightarrow> act_fail ErrNotFound | Some f \<Rightarrow> f name)"

text \<open>
  What the service relies on when a backend offers the fast getter: it answers as a scan of
  the listing does.
\<close>

locale session_backend =
  fixes b :: "'w backend"
    and getter :: "string \<Rightarrow> ('w, session_error, session) action"
  assumes fast: "bk_get b = Some getter"
    and getter_scan: "getter name = act_bind (bk_list b) (\<lambda>ss. act_lift (find_session name ss))"
begin

lemma get_is_scan: "svc_get_session b name = svc_get_session (b\<lparr>bk_get := None\<rparr>) name"
  using fast getter_scan by (simp add: svc_get_session_def)

lemma get_found:
  assumes "svc_get_session b name w = (Inr s, w')"
  shows "s_name s = name \<and> (\<exists>ss. bk_list b w = (Inr ss, w') \<and> s \<in> set ss)"
proof -
  have "find_session name ss = Inr s \<Longrightarrow> s_name s = name \<and> s \<in> set ss" for ss
    by (induction ss) (auto split: if_splits)
  moreover have "svc_get_session (b\<lparr>bk_get := None\<rparr>) name w = (Inr s, w')"
    using assms by (simp only: get_is_scan)
  ultimately show ?thesis
    by (auto simp: svc_get_session_def act_bind_def split: sum.splits prod.splits if_splits)
qed

end

section \<open>Properties\<close>

definition example_pane :: "int \<Rightarrow> bool \<Rightarrow> string \<Rightarrow> pane" where
  "example_pane i a t = \<lparr> p_session = ''dev'', p_window_index = 0, p_pane_index = i,
     p_window_active = True, p_pane_active = a, p_dead = False, p_window_name = ''sh'',
     p_title = t, p_current_command = ''vim'' \<rparr>"

lemma clamp_field_bounded: "length (runes (clamp_field v)) \<le> max_pane_field_runes"
proof (cases "length (runes v) \<le> max_pane_field_runes")
  case False
  have "list_all is_scalar (take max_pane_field_runes (runes v))"
    using runes_scalar [of v] by (auto simp: list_all_iff dest: in_set_takeD)
  with False show ?thesis by (simp add: clamp_field_def Let_def runes_encode_runes)
qed (simp add: clamp_field_def)

lemma encode_runes_take_prefix: "has_prefix (encode_runes rs) (encode_runes (take n rs))"
  by (metis append_take_drop_id concat_append encode_runes_def has_prefix_append map_append)



text \<open>The choice is a function of the server's state: listing the same panes in another
  order gives the same summaries, provided no two panes of a session share both indices.\<close>

theorem select_pane_summaries_order:
  assumes "mset panes = mset panes'"
    and "\<forall>p \<in> set panes. \<forall>q \<in> set panes. p_session p = p_session q
           \<longrightarrow> p_window_index p = p_window_index q \<longrightarrow> p_pane_index p = p_pane_index q \<longrightarrow> p = q"
  shows "select_pane_summaries panes = select_pane_summaries panes'"
proof
  fix s
  have sets: "set (live_panes s panes) = set (live_panes s panes')"
    using assms(1) by (auto simp: live_panes_def dest: mset_eq_setD)
  have inj: "choice_of p = choice_of q \<Longrightarrow> p \<in> set (live_panes s panes) \<Longrightarrow> q \<in> set (live_panes s panes)
      \<Longrightarrow> p = q" for p q
    using assms(2) by (auto simp: choice_of_def live_panes_def)
  have "first_best (live_panes s panes) None = first_best (live_panes s panes') None"
  proof (cases "first_best (live_panes s panes) None")
    case None
    then have "live_panes s panes' = []" using sets by (simp add: first_best_None)
    with None show ?thesis by simp
  next
    case (Some p)
    then obtain q where q: "first_best (live_panes s panes') None = Some q"
      using sets first_best_None by (metis empty_set list.set_intros(1) not_Some_eq set_empty)
    from first_best_mem [OF Some] first_best_mem [OF q] sets have "choice_of p = choice_of q"
      by (metis antisym)
    with inj first_best_mem(1) [OF Some] first_best_mem(1) [OF q] sets q Some show ?thesis by metis
  qed
  then show "select_pane_summaries panes s = select_pane_summaries panes' s"
    by (simp add: select_pane_first_best)
qed

lemma select_pane_summaries_order_witness:
  "select_pane_summaries [example_pane 0 False ''a'', example_pane 1 True ''b'']
     = select_pane_summaries [example_pane 1 True ''b'', example_pane 0 False ''a'']"
  by (rule select_pane_summaries_order) (simp_all add: example_pane_def)

text \<open>A name the validator accepts is non-empty UTF-8 of at most 64 code points, and none
  of its bytes is a control character or one of tmux's target, path and command separators.\<close>

theorem valid_name_safe:
  assumes "validate_session_name name = Inr ()"
  shows "utf8_valid name \<and> name \<noteq> [] \<and> length (runes name) \<le> 64
    \<and> (\<forall>c \<in> set name. \<not> is_control (ccode c) \<or> 128 \<le> ccode c)
    \<and> set name \<inter> {CHR '':'', CHR ''.'', CHR ''/'', CHR 0x5C, CHR '';''} = {}"
proof -
  have v: "valid_name name" using assms by (simp add: valid_name_def)
  have "set name \<inter> {CHR '':'', CHR ''.'', CHR ''/'', CHR 0x5C, CHR '';''} = {}"
    using valid_name_byte [OF v] by (force simp: reserved_rune_def)
  moreover have "\<forall>c \<in> set name. \<not> is_control (ccode c) \<or> 128 \<le> ccode c"
    using valid_name_byte [OF v] by (meson not_le reserved_rune_def)
  ultimately show ?thesis
    using v valid_name_nonempty [OF v] by (simp add: valid_name_iff max_session_name_runes_def)
qed

lemma valid_name_safe_witness:
  "utf8_valid ''dev 1'' \<and> set ''dev 1'' \<inter> {CHR '':'', CHR ''.'', CHR ''/'', CHR 0x5C, CHR '';''} = {}"
proof -
  have "validate_session_name ''dev 1'' = Inr ()"
    unfolding validate_session_name_ok
    by (rule valid_name_ascii) (simp_all add: ascii_def reserved_rune_def rune_classes)
  from valid_name_safe [OF this] show ?thesis by simp
qed

end
