(* ===== verification/TmuxParse.thy ===== *)
theory TmuxParse
  imports SessionModel
begin

text \<open>
  \<open>hub/internal/tmux\<close>: the argument builders (commands.go), the environment filter (env.go)
  and the parsers of tmux's listings (parse.go, panes.go).  The round-trip lemmas render a
  listing as tmux does for the format strings the program passes and parse it back.
\<close>

section \<open>Formats and targets\<close>

definition session_format :: string where
  "session_format = ''#{session_name}|#{session_windows}|#{session_attached}|#{session_created}''"

definition exact_target :: "string \<Rightarrow> string" where
  "exact_target name = CHR ''='' # name"

definition is_no_server :: "string \<Rightarrow> bool" where
  "is_no_server stderr = (contains_sub stderr ''no server running'' \<or> contains_sub stderr ''error connecting to'')"

definition pane_field_count :: nat where "pane_field_count = 9"

definition tmux_true :: string where "tmux_true = ''1''"

definition pane_format_fields :: "string list" where
  "pane_format_fields =
     [''session_name'', ''window_index'', ''pane_index'', ''window_active'', ''pane_active'',
      ''pane_dead'', ''window_name'', ''pane_title'', ''pane_current_command'']"

definition framed_pane_field :: "string \<Rightarrow> string" where
  "framed_pane_field name = ''#{n:'' @ name @ ''}:#{'' @ name @ ''}''"

definition pane_format :: string where
  "pane_format = concat (map framed_pane_field pane_format_fields)"

definition pane_target_of :: "string \<Rightarrow> string" where
  "pane_target_of name = exact_target name @ '':''"

section \<open>Argument builders (commands.go)\<close>

text \<open>The defaults of client.go: scope, name and value.\<close>

definition global_options :: "(string \<times> string \<times> string) list" where
  "global_options =
     [(''-g'', ''window-size'', ''latest''),
      (''-g'', ''mouse'', ''on''),
      (''-s'', ''exit-unattached'', ''off''),
      (''-g'', ''destroy-unattached'', ''off''),
      (''-gw'', ''remain-on-exit'', ''failed'')]"

definition list_args :: "string list" where
  "list_args = [''list-sessions'', ''-F'', session_format]"

definition has_session_args :: "string \<Rightarrow> string list" where
  "has_session_args name = [''has-session'', ''-t'', exact_target name]"

definition create_args :: "string \<Rightarrow> string \<Rightarrow> string list" where
  "create_args name home =
     [''start-server'']
     @ concat (map (\<lambda>(scope, n, v). ['';'', ''set-option'', scope, n, v]) global_options)
     @ ['';'', ''new-session'', ''-d'', ''-s'', name, ''-c'', home]"

definition rename_args :: "string \<Rightarrow> string \<Rightarrow> string list" where
  "rename_args old new = [''rename-session'', ''-t'', exact_target old, ''--'', new]"

definition kill_args :: "string \<Rightarrow> string list" where
  "kill_args name = [''kill-session'', ''-t'', exact_target name]"

definition attach_args :: "string \<Rightarrow> string list" where
  "attach_args name = [''attach-session'', ''-t'', exact_target name]"

definition list_panes_args :: "string list" where
  "list_panes_args = [''list-panes'', ''-a'', ''-F'', pane_format]"

definition working_directory_args :: "string \<Rightarrow> string list" where
  "working_directory_args name =
     [''display-message'', ''-p'', ''-t'', pane_target_of name, ''#{pane_current_path}'']"

section \<open>Environment (env.go)\<close>

definition env_key :: "string \<Rightarrow> string" where
  "env_key kv = takeWhile (\<lambda>c. c \<noteq> CHR ''='') kv"

definition filter_env :: "string list \<Rightarrow> string list \<Rightarrow> string list" where
  "filter_env env dropped = filter (\<lambda>kv. env_key kv \<notin> set dropped) env"

definition scrubbed_env :: "string list \<Rightarrow> string list" where
  "scrubbed_env environ = filter_env environ [''TMUX'', ''TMUX_PANE'', ''VISUAL_TMUX_CLIENT_TOKEN'']"

definition child_env :: "string list \<Rightarrow> string list" where
  "child_env environ = scrubbed_env environ @ [''TERM=xterm-256color'']"

section \<open>list-sessions (parse.go)\<close>

definition atoi_or_zero :: "string \<Rightarrow> int" where
  "atoi_or_zero s = (case atoi s of None \<Rightarrow> 0 | Some n \<Rightarrow> n)"

definition parse_session_line :: "string \<Rightarrow> session option" where
  "parse_session_line raw =
     (let line = trim_suffix raw [CHR 0x0D] in
      if line = [] then None
      else (let parts = split_on (CHR ''|'') line; n = length parts in
        if n < 4 then None
        else Some \<lparr> s_name = join_with ''|'' (take (n - 3) parts),
                    s_windows = atoi_or_zero (parts ! (n - 3)),
                    s_attached = atoi_or_zero (parts ! (n - 2)),
                    s_created = atoi_or_zero (parts ! (n - 1)),
                    s_pane = None \<rparr>))"

definition parse_sessions :: "string \<Rightarrow> session list" where
  "parse_sessions stdout = List.map_filter parse_session_line (split_on (CHR ''\<newline>'') stdout)"

section \<open>list-panes (panes.go)\<close>

text \<open>
  One length-prefixed field: the position of the first colon must be positive, the text
  before it a non-negative decimal number not exceeding the bytes left after the colon.
\<close>

definition parse_frame :: "string \<Rightarrow> (string \<times> string) option" where
  "parse_frame input =
     (let prefix = takeWhile (\<lambda>c. c \<noteq> CHR '':'') input; colon = length prefix in
      if colon = length input \<or> colon = 0 then None
      else (case atoi prefix of
          None \<Rightarrow> None
        | Some len \<Rightarrow>
            (let rest = drop (colon + 1) input in
             if len < 0 \<or> len > int (length rest) then None
             else Some (take (nat len) rest, drop (nat len) rest))))"

fun parse_frames :: "nat \<Rightarrow> string \<Rightarrow> (string list \<times> string) option" where
  "parse_frames 0 input = Some ([], input)"
| "parse_frames (Suc n) input =
     (case parse_frame input of
        None \<Rightarrow> None
      | Some (f, rest) \<Rightarrow>
          (case parse_frames n rest of None \<Rightarrow> None | Some (fs, rest') \<Rightarrow> Some (f # fs, rest')))"

definition crlf :: string where "crlf = [CHR 0x0D, CHR 0x0A]"
definition nl :: string where "nl = [CHR 0x0A]"

definition parse_pane_record :: "string \<Rightarrow> (string list \<times> string) option" where
  "parse_pane_record input =
     (case parse_frames pane_field_count input of
        None \<Rightarrow> None
      | Some (fs, rest) \<Rightarrow>
          if has_prefix rest crlf then Some (fs, drop 2 rest)
          else if has_prefix rest nl then Some (fs, drop 1 rest)
          else if rest = [] then Some (fs, rest)
          else None)"

definition pane_of_fields :: "string list \<Rightarrow> pane" where
  "pane_of_fields fs =
     \<lparr> p_session = fs ! 0,
       p_window_index = atoi_or_zero (fs ! 1),
       p_pane_index = atoi_or_zero (fs ! 2),
       p_window_active = (fs ! 3 = tmux_true),
       p_pane_active = (fs ! 4 = tmux_true),
       p_dead = (fs ! 5 = tmux_true),
       p_window_name = fs ! 6,
       p_title = fs ! 7,
       p_current_command = fs ! 8 \<rparr>"

lemma parse_frame_shrinks: "parse_frame s = Some (f, r) \<Longrightarrow> length r < length s"
  by (cases s) (auto simp: parse_frame_def Let_def split: if_splits option.splits)

lemma parse_frames_shrinks: "parse_frames n s = Some (fs, r) \<Longrightarrow> length r + n \<le> length s \<and> length fs = n"
  by (induction n arbitrary: s fs r) (fastforce dest: parse_frame_shrinks split: option.splits)+

lemma parse_pane_record_shrinks: "parse_pane_record s = Some (fs, r) \<Longrightarrow> length r < length s"
  by (auto simp: parse_pane_record_def pane_field_count_def split: option.splits if_splits
      dest!: parse_frames_shrinks)

function parse_panes :: "string \<Rightarrow> pane list" where
  "parse_panes s =
     (if s = [] then []
      else if has_prefix s crlf then parse_panes (drop 2 s)
      else if has_prefix s nl then parse_panes (drop 1 s)
      else (case parse_pane_record s of
          None \<Rightarrow> []
        | Some (fs, rest) \<Rightarrow> pane_of_fields fs # parse_panes rest))"
  by pat_completeness auto
termination
  by (relation "measure length") (auto dest: parse_pane_record_shrinks)

declare parse_panes.simps [simp del]

section \<open>Rendering, as tmux expands the formats\<close>

definition render_frame :: "string \<Rightarrow> string" where
  "render_frame v = dec_string (length v) @ '':'' @ v"

definition render_bool :: "bool \<Rightarrow> string" where
  "render_bool b = (if b then ''1'' else ''0'')"

definition pane_fields :: "pane \<Rightarrow> string list" where
  "pane_fields p =
     [p_session p, dec_string (nat (p_window_index p)), dec_string (nat (p_pane_index p)),
      render_bool (p_window_active p), render_bool (p_pane_active p), render_bool (p_dead p),
      p_window_name p, p_title p, p_current_command p]"

definition render_pane :: "pane \<Rightarrow> string" where
  "render_pane p = concat (map render_frame (pane_fields p)) @ nl"

definition render_session :: "session \<Rightarrow> string" where
  "render_session s = s_name s @ ''|'' @ dec_string (nat (s_windows s)) @ ''|''
     @ dec_string (nat (s_attached s)) @ ''|'' @ dec_string (nat (s_created s))"

definition int64_nat :: "int \<Rightarrow> bool" where
  "int64_nat n = (0 \<le> n \<and> n < 2 ^ 63)"

lemma atoi_or_zero_dec [simp]: "int64_nat n \<Longrightarrow> atoi_or_zero (dec_string (nat n)) = n"
  by (simp add: atoi_or_zero_def int64_nat_def parse_int64_dec_string nat_less_iff)

lemma dec_string_no_colon: "CHR '':'' \<notin> set (dec_string n)" "CHR ''|'' \<notin> set (dec_string n)"
    "CHR 0x0A \<notin> set (dec_string n)" "CHR 0x0D \<notin> set (dec_string n)"
  by (rule dec_string_no_char, simp add: is_digit_def)+

lemma takeWhile_stop: "x \<notin> set p \<Longrightarrow> takeWhile (\<lambda>c. c \<noteq> x) (p @ x # s) = p"
  by (induction p) auto

lemma parse_frame_render:
  assumes "length v < 2 ^ 63"
  shows "parse_frame (render_frame v @ rest) = Some (v, rest)"
proof -
  have "takeWhile (\<lambda>c. c \<noteq> CHR '':'') (dec_string (length v) @ CHR '':'' # v @ rest) = dec_string (length v)"
    by (rule takeWhile_stop) (rule dec_string_no_colon)
  with assms show ?thesis
    by (simp add: parse_frame_def render_frame_def Let_def parse_int64_dec_string)
qed

lemma parse_frames_render:
  "\<forall>v \<in> set vs. length v < 2 ^ 63 \<Longrightarrow>
     parse_frames (length vs) (concat (map render_frame vs) @ rest) = Some (vs, rest)"
  by (induction vs) (simp_all add: parse_frame_render)

text \<open>What tmux can render: indices in range and fields shorter than \<open>2 ^ 63\<close> bytes.\<close>

definition renderable :: "pane \<Rightarrow> bool" where
  "renderable p \<longleftrightarrow> int64_nat (p_window_index p) \<and> int64_nat (p_pane_index p)
     \<and> (\<forall>v \<in> set (pane_fields p). length v < 2 ^ 63)"

lemma pane_of_fields_render: "renderable p \<Longrightarrow> pane_of_fields (pane_fields p) = p"
  by (cases p) (simp add: renderable_def pane_of_fields_def pane_fields_def render_bool_def tmux_true_def)

lemma parse_pane_record_render:
  assumes "renderable p"
  shows "parse_pane_record (render_pane p @ rest) = Some (pane_fields p, rest)"
proof -
  have n: "length (pane_fields p) = pane_field_count"
    by (simp add: pane_fields_def pane_field_count_def)
  have "parse_frames pane_field_count (render_pane p @ rest) = Some (pane_fields p, nl @ rest)"
    using parse_frames_render [of "pane_fields p" "nl @ rest"] assms n
    by (simp add: render_pane_def renderable_def)
  then show ?thesis by (simp add: parse_pane_record_def nl_def crlf_def)
qed

lemma render_frame_head: "\<exists>c t. render_frame v = c # t \<and> is_digit c"
proof -
  obtain c t where "dec_string (length v) = c # t" by (meson dec_string_nonempty neq_Nil_conv)
  with dec_string_digits [of "length v"] show ?thesis by (simp add: render_frame_def)
qed

lemma parse_panes_render_step:
  assumes "renderable p"
  shows "parse_panes (render_pane p @ rest) = p # parse_panes rest"
proof -
  obtain c t where c: "render_pane p @ rest = c # t" "is_digit c"
    using render_frame_head [of "p_session p"]
    by (auto simp: render_pane_def pane_fields_def)
  then have "\<not> has_prefix (render_pane p @ rest) crlf" "\<not> has_prefix (render_pane p @ rest) nl"
    by (auto simp: crlf_def nl_def is_digit_def)
  with c(1) parse_pane_record_render [OF assms, of rest] pane_of_fields_render [OF assms]
  show ?thesis by (subst parse_panes.simps) simp
qed

lemma parse_panes_blank: "parse_panes (nl @ s) = parse_panes s" "parse_panes (crlf @ s) = parse_panes s"
  by (subst parse_panes.simps, simp add: nl_def crlf_def)+

lemma parse_session_line_render:
  assumes "valid_name (s_name s)" and "int64_nat (s_windows s)" "int64_nat (s_attached s)"
    "int64_nat (s_created s)" and "s_pane s = None"
  shows "parse_session_line (render_session s) = Some s"
proof -
  let ?nums = "[dec_string (nat (s_windows s)), dec_string (nat (s_attached s)), dec_string (nat (s_created s))]"
  define parts where "parts = split_on (CHR ''|'') (s_name s)"
  have parts: "parts \<noteq> []" "\<forall>p \<in> set parts. CHR ''|'' \<notin> set p" "join_with ''|'' parts = s_name s"
    by (auto simp: parts_def join_split_on dest: split_on_parts)
  have r: "render_session s = join_with ''|'' (parts @ ?nums)"
    using join_with_append [of parts ?nums "''|''"] parts by (simp add: render_session_def)
  have "split_on (CHR ''|'') (join_with [CHR ''|''] (parts @ ?nums)) = parts @ ?nums"
    by (rule split_join) (use parts dec_string_no_colon in auto)
  then have sp: "split_on (CHR ''|'') (render_session s) = parts @ ?nums" using r by simp
  have "\<not> has_suffix (render_session s) [CHR 0x0D]"
  proof
    assume "has_suffix (render_session s) [CHR 0x0D]"
    then have "last (render_session s) = CHR 0x0D" by (auto simp: has_suffix_iff)
    moreover have "last (render_session s) = last (dec_string (nat (s_created s)))"
      by (simp add: render_session_def)
    ultimately show False using dec_string_no_colon(4) last_in_set [OF dec_string_nonempty] by metis
  qed
  then have tr: "trim_suffix (render_session s) [CHR 0x0D] = render_session s" by (simp add: trim_suffix_def)
  have ne: "render_session s \<noteq> []" by (simp add: render_session_def)
  have "\<not> length (parts @ ?nums) < 4" using parts(1) by (cases parts) auto
  then have "parse_session_line (render_session s) = Some \<lparr> s_name = s_name s, s_windows = s_windows s,
      s_attached = s_attached s, s_created = s_created s, s_pane = None \<rparr>"
    using assms parts ne by (simp add: parse_session_line_def tr sp Let_def nth_append)
  moreover have "\<lparr> s_name = s_name s, s_windows = s_windows s,
      s_attached = s_attached s, s_created = s_created s, s_pane = None \<rparr> = s"
    using assms(5) by (cases s) simp
  ultimately show ?thesis by simp
qed

lemma render_session_no_nl:
  "valid_name (s_name s) \<Longrightarrow> CHR 0x0A \<notin> set (render_session s)"
  using valid_name_no_ascii(1) [of "s_name s"] by (simp add: render_session_def dec_string_no_colon)

definition listed_session :: "session \<Rightarrow> bool" where
  "listed_session s \<longleftrightarrow> valid_name (s_name s) \<and> int64_nat (s_windows s) \<and> int64_nat (s_attached s)
     \<and> int64_nat (s_created s) \<and> s_pane s = None"

lemma parse_sessions_Nil: "parse_sessions [] = []"
  by (simp add: parse_sessions_def map_filter_simps parse_session_line_def trim_suffix_def has_suffix_def)

lemma parse_sessions_line:
  assumes "listed_session s"
  shows "parse_sessions (render_session s @ nl @ rest) = s # parse_sessions rest"
proof -
  have l: "parse_session_line (render_session s) = Some s" and n: "CHR 0x0A \<notin> set (render_session s)"
    using assms by (simp_all add: listed_session_def parse_session_line_render render_session_no_nl)
  have "split_on (CHR 0x0A) (render_session s @ nl @ rest) = render_session s # split_on (CHR 0x0A) rest"
    using split_on_append_sep [OF n, of rest] by (simp add: nl_def)
  with l show ?thesis by (simp add: parse_sessions_def map_filter_simps)
qed

lemma parse_sessions_lines:
  "list_all listed_session ss \<Longrightarrow> parse_sessions (concat (map (\<lambda>s. render_session s @ nl) ss)) = ss"
  by (induction ss) (simp_all add: parse_sessions_Nil parse_sessions_line)

section \<open>Properties\<close>

text \<open>C19: length framing makes the pane listing unambiguous: whatever bytes the names, titles
  and commands contain, parsing what tmux renders gives the panes back, in order.\<close>

theorem parse_panes_roundtrip:
  assumes "\<forall>p \<in> set ps. renderable p"
  shows "parse_panes (concat (map render_pane ps)) = ps"
  using assms
proof (induction ps)
  case Nil
  then show ?case by (subst parse_panes.simps) simp
next
  case (Cons p ps)
  then show ?case using parse_panes_render_step [of p "concat (map render_pane ps)"] by simp
qed

lemma parse_panes_roundtrip_witness:
  "parse_panes (concat (map render_pane
     [example_pane 0 True [CHR 0x0A, CHR ''3'', CHR '':''], example_pane 1 False ''1:x'']))
   = [example_pane 0 True [CHR 0x0A, CHR ''3'', CHR '':''], example_pane 1 False ''1:x'']"
proof (rule parse_panes_roundtrip)
  have "dec_string 0 = ''0''" "dec_string 1 = ''1''"
    by code_simp+
  then show "\<forall>p \<in> set [example_pane 0 True [CHR 0x0A, CHR ''3'', CHR '':''], example_pane 1 False ''1:x''].
      renderable p"
    by (simp add: renderable_def example_pane_def pane_fields_def int64_nat_def render_bool_def)
qed

text \<open>The session listing splits from the right, so every session whose name the hub
  accepts -- one with a "|" in it included -- is read back with its counts.\<close>

theorem parse_sessions_roundtrip:
  assumes "\<forall>s \<in> set ss. listed_session s"
  shows "parse_sessions (concat (map (\<lambda>s. render_session s @ nl) ss)) = ss"
  using assms parse_sessions_lines by (simp add: list_all_iff)

lemma parse_sessions_roundtrip_witness:
  "parse_sessions (concat (map (\<lambda>s. render_session s @ nl)
     [\<lparr> s_name = ''a|b'', s_windows = 2, s_attached = 1, s_created = 1700000000, s_pane = None \<rparr>]))
   = [\<lparr> s_name = ''a|b'', s_windows = 2, s_attached = 1, s_created = 1700000000, s_pane = None \<rparr>]"
proof (rule parse_sessions_roundtrip)
  have "valid_name ''a|b''"
    by (rule valid_name_ascii) (simp_all add: ascii_def reserved_rune_def rune_classes)
  then show "\<forall>s \<in> set [\<lparr> s_name = ''a|b'', s_windows = 2, s_attached = 1, s_created = 1700000000,
      s_pane = None \<rparr>]. listed_session s"
    by (simp add: listed_session_def int64_nat_def)
qed

text \<open>A child of the hub inherits no bearer token and no tmux nesting variable, its
  terminal type is the last entry, and every other entry is kept in order.\<close>

theorem child_env_scrubbed:
  "env_key ` set (child_env env) \<inter> {''TMUX'', ''TMUX_PANE'', ''VISUAL_TMUX_CLIENT_TOKEN''} = {}
   \<and> last (child_env env) = ''TERM=xterm-256color''
   \<and> butlast (child_env env)
       = filter (\<lambda>kv. env_key kv \<notin> {''TMUX'', ''TMUX_PANE'', ''VISUAL_TMUX_CLIENT_TOKEN''}) env"
  by (auto simp: child_env_def scrubbed_env_def filter_env_def env_key_def)

end
