(* ===== verification/TmuxClient.thy ===== *)
theory TmuxClient
  imports TmuxParse
begin

text \<open>
  \<open>hub/internal/tmux/client.go\<close> and \<open>panes.go\<close>: the local tmux client.  Running the tmux
  binary is a parameter (\<open>os_run\<close>); every operation is the Go method over it, and the client
  as a whole is a session backend.  The contract of the tmux server is the predicate
  \<open>tmux_behaves\<close>; under it the client refines a plain set of session names.
\<close>

section \<open>The client\<close>

record tmux_client =
  tc_path :: string
  tc_socket :: string
  tc_err :: "session_error option"

type_synonym exec_result = "string \<times> string \<times> int"

text \<open>What the client asks of the operating system: running a command (the left case is a
  failure to start it), the environment, the home directory and the formatted time.\<close>

record 'w os =
  os_run :: "string \<Rightarrow> string list \<Rightarrow> string list \<Rightarrow> ('w, string, exec_result) action"
  os_environ :: "string list"
  os_home_dir :: "string option"
  os_stamp :: "'w \<Rightarrow> string"

type_synonym 'w exec = "string list \<Rightarrow> ('w, session_error, exec_result) action"

definition new_client :: "(string \<Rightarrow> bool) \<Rightarrow> string option \<Rightarrow> string \<Rightarrow> string \<Rightarrow> tmux_client" where
  "new_client stat look_path path socket =
     (if path \<noteq> [] then
        (if \<not> stat path then \<lparr> tc_path = [], tc_socket = socket, tc_err = Some ErrTmuxNotFound \<rparr>
         else \<lparr> tc_path = path, tc_socket = socket, tc_err = None \<rparr>)
      else (case look_path of
          None \<Rightarrow> \<lparr> tc_path = [], tc_socket = socket, tc_err = Some ErrTmuxNotFound \<rparr>
        | Some p \<Rightarrow> \<lparr> tc_path = p, tc_socket = socket, tc_err = None \<rparr>))"

definition act_wrap :: "string \<Rightarrow> ('w, session_error, 'a) action \<Rightarrow> ('w, session_error, 'a) action" where
  "act_wrap op m = (\<lambda>w. case m w of (Inl e, w') \<Rightarrow> (Inl (Wrapped op e), w') | (Inr x, w') \<Rightarrow> (Inr x, w'))"

definition tc_exec :: "'w os \<Rightarrow> tmux_client \<Rightarrow> 'w exec" where
  "tc_exec os c args =
     (case tc_err c of
        Some e \<Rightarrow> act_fail e
      | None \<Rightarrow>
          (let full = (if tc_socket c \<noteq> [] then [''-L'', tc_socket c] @ args else args)
           in (\<lambda>w. case os_run os (tc_path c) full (scrubbed_env (os_environ os)) w of
                 (Inl e, w') \<Rightarrow> (Inl (ErrExec e), w')
               | (Inr r, w') \<Rightarrow> (Inr r, w'))))"

definition cant_find :: string where
  "cant_find = ''can'' @ [CHR 0x27] @ ''t find session''"

text \<open>A non-zero exit with tmux's message.\<close>

definition tmux_failure :: "string \<Rightarrow> string \<Rightarrow> session_error" where
  "tmux_failure op stderr = ErrTmux op (trim_space stderr)"

fun ensure_options :: "'w exec \<Rightarrow> (string \<times> string \<times> string) list \<Rightarrow> ('w, session_error, unit) action" where
  "ensure_options x [] = act_return ()"
| "ensure_options x ((scope, name, val) # rest) =
     act_bind (act_wrap (''show-option '' @ name) (x [''show-options'', scope @ ''v'', name]))
       (\<lambda>(out, stderr, code).
         if code \<noteq> 0 then act_fail (tmux_failure (''show-option '' @ name) stderr)
         else if trim_space out = val then ensure_options x rest
         else act_bind (act_wrap (''set-option '' @ name) (x [''set-option'', scope, name, val]))
           (\<lambda>(_, stderr, code).
             if code \<noteq> 0 then act_fail (tmux_failure (''set-option '' @ name) stderr)
             else ensure_options x rest))"

definition tc_ensure_global_options :: "'w os \<Rightarrow> tmux_client \<Rightarrow> ('w, session_error, unit) action" where
  "tc_ensure_global_options os c =
     (case tc_err c of Some e \<Rightarrow> act_fail e | None \<Rightarrow> ensure_options (tc_exec os c) global_options)"

definition has_session_by :: "'w exec \<Rightarrow> string \<Rightarrow> 'w \<Rightarrow> bool \<times> 'w" where
  "has_session_by x name w =
     (case x (has_session_args name) w of
        (Inl _, w') \<Rightarrow> (False, w')
      | (Inr (_, _, code), w') \<Rightarrow> (code = 0, w'))"

definition tc_has_session :: "'w os \<Rightarrow> tmux_client \<Rightarrow> string \<Rightarrow> 'w \<Rightarrow> bool \<times> 'w" where
  "tc_has_session os c = has_session_by (tc_exec os c)"

text \<open>The branch on the session's existence: \<open>if c.HasSession(ctx, name) { ... } else { ... }\<close>.\<close>

definition if_session :: "'w exec \<Rightarrow> string \<Rightarrow> ('w, session_error, 'a) action \<Rightarrow>
    ('w, session_error, 'a) action \<Rightarrow> ('w, session_error, 'a) action" where
  "if_session x name yes no =
     (\<lambda>w. case has_session_by x name w of (b, w') \<Rightarrow> if b then yes w' else no w')"

definition list_by :: "'w exec \<Rightarrow> ('w, session_error, session list) action" where
  "list_by x =
     act_bind (act_wrap ''exec list-sessions'' (x list_args)) (\<lambda>(stdout, stderr, code).
       if code \<noteq> 0 then
         (if is_no_server stderr then act_return [] else act_fail (tmux_failure ''tmux list-sessions'' stderr))
       else act_return (parse_sessions stdout))"

definition tc_list :: "'w os \<Rightarrow> tmux_client \<Rightarrow> ('w, session_error, session list) action" where
  "tc_list os c = list_by (tc_exec os c)"

definition tc_get_session :: "'w os \<Rightarrow> tmux_client \<Rightarrow> string \<Rightarrow> ('w, session_error, session) action" where
  "tc_get_session os c name = act_bind (tc_list os c) (\<lambda>ss. act_lift (find_session name ss))"

fun generate_name :: "'w exec \<Rightarrow> string \<Rightarrow> nat \<Rightarrow> nat \<Rightarrow> ('w, session_error, string) action" where
  "generate_name x base i 0 = act_fail ErrNameInUse"
| "generate_name x base i (Suc n) =
     (let name = (if i > 0 then base @ ''-'' @ dec_string i else base)
      in if_session x name (generate_name x base (Suc i) n) (act_return name))"

definition max_name_retries :: nat where "max_name_retries = 10"

definition generate_unique_name :: "'w exec \<Rightarrow> ('w \<Rightarrow> string) \<Rightarrow> ('w, session_error, string) action" where
  "generate_unique_name x stamp = (\<lambda>w. generate_name x (stamp w) 0 max_name_retries w)"

definition home_directory :: "'w os \<Rightarrow> string" where
  "home_directory os = (case os_home_dir os of Some h \<Rightarrow> if h \<noteq> [] then h else ''.'' | None \<Rightarrow> ''.'')"

definition tc_create :: "'w os \<Rightarrow> tmux_client \<Rightarrow> string \<Rightarrow> ('w, session_error, session) action" where
  "tc_create os c name0 =
     (case tc_err c of
        Some e \<Rightarrow> act_fail e
      | None \<Rightarrow>
          act_bind (if name0 = [] then act_wrap ''generate unique name'' (generate_unique_name (tc_exec os c) (os_stamp os))
                    else act_return name0)
            (\<lambda>name.
              if_session (tc_exec os c) name (act_fail ErrNameInUse)
                (act_bind (act_wrap ''exec new-session'' (tc_exec os c (create_args name (home_directory os))))
                  (\<lambda>(_, stderr, code).
                    if code \<noteq> 0 then
                      (if contains_sub stderr ''duplicate session'' then act_fail ErrNameInUse
                       else act_fail (tmux_failure ''tmux new-session'' stderr))
                    else tc_get_session os c name))))"

definition tc_rename :: "'w os \<Rightarrow> tmux_client \<Rightarrow> string \<Rightarrow> string \<Rightarrow> ('w, session_error, unit) action" where
  "tc_rename os c old new =
     (case tc_err c of
        Some e \<Rightarrow> act_fail e
      | None \<Rightarrow>
          if_session (tc_exec os c) old
            (if old = new then act_return ()
             else if_session (tc_exec os c) new (act_fail ErrNameInUse)
               (act_bind (act_wrap ''exec rename-session'' (tc_exec os c (rename_args old new)))
                 (\<lambda>(_, stderr, code).
                   if code \<noteq> 0 then
                     (if contains_sub stderr ''duplicate session'' then act_fail ErrNameInUse
                      else if contains_sub stderr cant_find then act_fail ErrNotFound
                      else act_fail (tmux_failure ''tmux rename-session'' stderr))
                   else act_return ())))
            (act_fail ErrNotFound))"

definition tc_kill :: "'w os \<Rightarrow> tmux_client \<Rightarrow> string \<Rightarrow> ('w, session_error, unit) action" where
  "tc_kill os c name =
     (case tc_err c of
        Some e \<Rightarrow> act_fail e
      | None \<Rightarrow>
          if_session (tc_exec os c) name
            (act_bind (act_wrap ''exec kill-session'' (tc_exec os c (kill_args name)))
              (\<lambda>(_, stderr, code).
                if code \<noteq> 0 then
                  (if contains_sub stderr cant_find then act_fail ErrNotFound
                   else act_fail (tmux_failure ''tmux kill-session'' stderr))
                else act_return ()))
            (act_fail ErrNotFound))"

text \<open>The command line of the attached child: \<open>AttachCommand\<close>.\<close>

definition tc_attach_command :: "'w os \<Rightarrow> tmux_client \<Rightarrow> string \<Rightarrow> string \<times> string list \<times> string list" where
  "tc_attach_command os c name =
     (tc_path c,
      (if tc_socket c \<noteq> [] then [''-L'', tc_socket c] else []) @ attach_args name,
      child_env (os_environ os))"

definition tc_pane_working_directory :: "'w os \<Rightarrow> tmux_client \<Rightarrow> string \<Rightarrow> ('w, session_error, string) action" where
  "tc_pane_working_directory os c name =
     act_bind (act_wrap ''exec display-message'' (tc_exec os c (working_directory_args name)))
       (\<lambda>(stdout, stderr, code).
         if code \<noteq> 0 then
           (if contains_sub stderr cant_find \<or> is_no_server stderr then act_fail ErrNotFound
            else act_fail (tmux_failure ''tmux display-message'' stderr))
         else (let path = trim_suffix stdout nl in
           if path = [] then act_fail ErrNotFound else act_return path))"

definition tc_list_panes :: "'w os \<Rightarrow> tmux_client \<Rightarrow> ('w, session_error, pane list) action" where
  "tc_list_panes os c =
     act_bind (act_wrap ''exec list-panes'' (tc_exec os c list_panes_args)) (\<lambda>(stdout, stderr, code).
       if code \<noteq> 0 then
         (if is_no_server stderr then act_return [] else act_fail (tmux_failure ''tmux list-panes'' stderr))
       else act_return (parse_panes stdout))"

text \<open>The client seen through the interfaces of the session service.\<close>

definition local_backend :: "'w os \<Rightarrow> tmux_client \<Rightarrow> 'w backend" where
  "local_backend os c =
     \<lparr> bk_list = tc_list os c,
       bk_create = tc_create os c,
       bk_rename = tc_rename os c,
       bk_kill = tc_kill os c,
       bk_list_panes = Some (tc_list_panes os c),
       bk_get = Some (tc_get_session os c),
       bk_has = Some (tc_has_session os c),
       bk_pane_dir = Some (tc_pane_working_directory os c) \<rparr>"

interpretation local_sessions: session_backend "local_backend os c" "tc_get_session os c"
  for os :: "'w os" and c
  by unfold_locales (simp_all add: local_backend_def tc_get_session_def)

section \<open>The contract of the tmux server\<close>

text \<open>
  What the client relies on, for a server holding the sessions named \<open>S w\<close>: \<open>has-session\<close> with
  an exact target exits 0 exactly for a session that exists, \<open>kill-session\<close> and
  \<open>rename-session\<close> do what they say when they can, \<open>new-session\<close> adds a session whose name
  is free, and \<open>list-sessions\<close> prints one line per session.
\<close>

definition answers :: "('w, session_error, exec_result) action \<Rightarrow> ('w \<Rightarrow> string set) \<Rightarrow> 'w \<Rightarrow>
    (exec_result \<Rightarrow> bool) \<Rightarrow> string set \<Rightarrow> bool" where
  "answers m S w R T \<longleftrightarrow> (\<exists>r w'. m w = (Inr r, w') \<and> R r \<and> S w' = T)"

definition exits_zero :: "exec_result \<Rightarrow> bool" where
  "exits_zero r = (snd (snd r) = 0)"

definition lists_sessions :: "'w exec \<Rightarrow> ('w \<Rightarrow> string set) \<Rightarrow> 'w \<Rightarrow> bool" where
  "lists_sessions x S w \<longleftrightarrow> (\<exists>ss. list_all listed_session ss \<and> s_name ` set ss = S w \<and>
     answers (x list_args) S w (\<lambda>r. exits_zero r \<and> fst r = concat (map (\<lambda>s. render_session s @ nl) ss)) (S w))"

definition tmux_behaves :: "'w exec \<Rightarrow> string \<Rightarrow> ('w \<Rightarrow> string set) \<Rightarrow> bool" where
  "tmux_behaves x home S \<longleftrightarrow>
     (\<forall>w n. answers (x (has_session_args n)) S w (\<lambda>r. exits_zero r \<longleftrightarrow> n \<in> S w) (S w))
   \<and> (\<forall>w n. n \<in> S w \<longrightarrow> answers (x (kill_args n)) S w exits_zero (S w - {n}))
   \<and> (\<forall>w old new. old \<in> S w \<longrightarrow> new \<notin> S w \<longrightarrow> valid_name new \<longrightarrow>
        answers (x (rename_args old new)) S w exits_zero (insert new (S w - {old})))
   \<and> (\<forall>w n. n \<notin> S w \<longrightarrow> valid_name n \<longrightarrow> answers (x (create_args n home)) S w exits_zero (insert n (S w)))
   \<and> (\<forall>w. lists_sessions x S w)"

lemma tmux_behaves_lists: "tmux_behaves x home S \<Longrightarrow> lists_sessions x S w"
  by (simp add: tmux_behaves_def)

lemma has_session_answer:
  assumes "tmux_behaves x home S"
  shows "\<exists>w'. has_session_by x n w = (n \<in> S w, w') \<and> S w' = S w"
proof -
  have "answers (x (has_session_args n)) S w (\<lambda>r. exits_zero r \<longleftrightarrow> n \<in> S w) (S w)"
    using assms by (simp add: tmux_behaves_def)
  then show ?thesis by (force simp: answers_def has_session_by_def exits_zero_def)
qed

lemma if_session_answer:
  assumes "tmux_behaves x home S"
  shows "\<exists>w'. if_session x n yes no w = (if n \<in> S w then yes w' else no w') \<and> S w' = S w"
  using has_session_answer [OF assms, of n w] by (auto simp: if_session_def)

lemma answersE:
  assumes "answers m S w R T"
  obtains out err code w' where "m w = (Inr (out, err, code), w')" "R (out, err, code)" "S w' = T"
  using assms by (auto simp: answers_def)

lemma find_session_found:
  "n \<in> s_name ` set ss \<Longrightarrow> \<exists>s. find_session n ss = Inr s \<and> s_name s = n \<and> s \<in> set ss"
  by (induction ss) auto

lemma list_answer:
  assumes "tmux_behaves x home S"
  shows "\<exists>ss w'. list_by x w = (Inr ss, w') \<and> s_name ` set ss = S w \<and> S w' = S w"
proof -
  obtain ss where ss: "list_all listed_session ss" "s_name ` set ss = S w"
    "answers (x list_args) S w (\<lambda>r. exits_zero r \<and> fst r = concat (map (\<lambda>s. render_session s @ nl) ss)) (S w)"
    using tmux_behaves_lists [OF assms, of w] unfolding lists_sessions_def by blast
  obtain out err code w' where r:
    "exits_zero (out, err, code) \<and> fst (out, err, code) = concat (map (\<lambda>s. render_session s @ nl) ss)"
    "S w' = S w"
    and b: "x list_args w = (Inr (out, err, code), w')"
    using ss(3) by (rule answersE)
  have "list_by x w = (Inr ss, w')"
    using r parse_sessions_lines [OF ss(1)] by (simp add: list_by_def act_bind_def act_wrap_def b exits_zero_def)
  with r(2) ss(2) show ?thesis by blast
qed

lemma kill_answer:
  assumes "tmux_behaves x home S" and "n \<in> S w"
  shows "\<exists>w'. act_bind (act_wrap op (x (kill_args n))) (\<lambda>(_, stderr, code).
      if code \<noteq> 0 then F stderr else act_return ()) w = (Inr (), w') \<and> S w' = S w - {n}"
proof -
  have "answers (x (kill_args n)) S w exits_zero (S w - {n})"
    using assms by (simp add: tmux_behaves_def)
  then obtain out err code w' where "exits_zero (out, err, code)" "S w' = S w - {n}"
    and b: "x (kill_args n) w = (Inr (out, err, code), w')"
    by (rule answersE)
  then show ?thesis by (simp add: act_bind_def act_wrap_def b exits_zero_def)
qed

lemma rename_answer:
  assumes "tmux_behaves x home S" and "old \<in> S w" "new \<notin> S w" "valid_name new"
  shows "\<exists>w'. act_bind (act_wrap op (x (rename_args old new))) (\<lambda>(_, stderr, code).
      if code \<noteq> 0 then F stderr else act_return ()) w = (Inr (), w') \<and> S w' = insert new (S w - {old})"
proof -
  have "answers (x (rename_args old new)) S w exits_zero (insert new (S w - {old}))"
    using assms by (simp add: tmux_behaves_def)
  then obtain out err code w' where "exits_zero (out, err, code)" "S w' = insert new (S w - {old})"
    and b: "x (rename_args old new) w = (Inr (out, err, code), w')"
    by (rule answersE)
  then show ?thesis by (simp add: act_bind_def act_wrap_def b exits_zero_def)
qed

lemma create_answer:
  assumes "tmux_behaves x home S" and "n \<notin> S w" "valid_name n"
  shows "\<exists>w'. act_bind (act_wrap op (x (create_args n home))) (\<lambda>(_, stderr, code).
      if code \<noteq> 0 then F stderr else k) w = k w' \<and> S w' = insert n (S w)"
proof -
  have "answers (x (create_args n home)) S w exits_zero (insert n (S w))"
    using assms by (simp add: tmux_behaves_def)
  then obtain out err code w' where "exits_zero (out, err, code)" "S w' = insert n (S w)"
    and b: "x (create_args n home) w = (Inr (out, err, code), w')"
    by (rule answersE)
  then show ?thesis by (auto simp: act_bind_def act_wrap_def b exits_zero_def)
qed

section \<open>Properties\<close>


text \<open>Over such a server, creating a session under a free valid name succeeds, returns the
  session of that name and adds exactly that name; under a taken one it reports "in use" and
  changes nothing.\<close>

theorem client_create_refines:
  assumes tmux: "tmux_behaves (tc_exec os c) (home_directory os) S" and ok: "tc_err c = None"
    and n: "valid_name n"
  shows "\<exists>r w'. tc_create os c n w = (r, w') \<and> S w' = insert n (S w)
     \<and> (if n \<in> S w then r = Inl ErrNameInUse else (\<exists>s. r = Inr s \<and> s_name s = n))"
proof -
  let ?x = "tc_exec os c"
  have ne: "n \<noteq> []" using n by (rule valid_name_nonempty)
  obtain w1 where w1: "has_session_by ?x n w = (n \<in> S w, w1)" "S w1 = S w"
    using has_session_answer [OF tmux] by blast
  show ?thesis
  proof (cases "n \<in> S w")
    case True
    with w1 ok ne show ?thesis by (auto simp: tc_create_def if_session_def)
  next
    case False
    let ?F = "\<lambda>stderr. if contains_sub stderr ''duplicate session'' then act_fail ErrNameInUse
              else act_fail (tmux_failure ''tmux new-session'' stderr)"
    have "tc_create os c n w = act_bind (act_wrap ''exec new-session'' (?x (create_args n (home_directory os))))
        (\<lambda>(_, stderr, code). if code \<noteq> 0 then ?F stderr else tc_get_session os c n) w1"
      using w1 ok ne False by (simp add: tc_create_def if_session_def)
    moreover have "n \<notin> S w1" using False w1 by simp
    note create_answer [OF tmux this n, where op = "''exec new-session''" and F = ?F
        and k = "tc_get_session os c n"]
    ultimately obtain w2 where w2: "tc_create os c n w = tc_get_session os c n w2" "S w2 = insert n (S w)"
      using w1(2) by auto
    obtain ss w3 where l: "list_by ?x w2 = (Inr ss, w3)" "s_name ` set ss = S w2" "S w3 = S w2"
      using list_answer [OF tmux] by blast
    obtain s where "find_session n ss = Inr s" "s_name s = n"
      using find_session_found [of n ss] l w2 by auto
    with l w2 False show ?thesis
      by (auto simp: tc_get_session_def tc_list_def act_bind_def l(1))
  qed
qed

text \<open>An exact-name session table, as one server for which the contract holds.\<close>

definition table_names :: "string list \<Rightarrow> string set" where
  "table_names w = set (filter valid_name w)"

definition table_session :: "string \<Rightarrow> session" where
  "table_session n = \<lparr> s_name = n, s_windows = 1, s_attached = 0, s_created = 0, s_pane = None \<rparr>"

definition table_run :: "string \<Rightarrow> string list \<Rightarrow> string list \<Rightarrow> (string list, string, exec_result) action" where
  "table_run path args env w =
     (let ns = filter valid_name w; target = tl (args ! 2) in
      if args ! 0 = ''has-session'' then (Inr ([], [], if target \<in> set ns then 0 else 1), ns)
      else if args ! 0 = ''kill-session'' then (Inr ([], [], 0), removeAll target ns)
      else if args ! 0 = ''rename-session'' then (Inr ([], [], 0), args ! 4 # removeAll target ns)
      else if args ! 0 = ''list-sessions''
        then (Inr (concat (map (\<lambda>n. render_session (table_session n) @ nl) ns), [], 0), ns)
      else (Inr ([], [], 0), args ! (length args - 3) # ns))"

definition table_os :: "string list os" where
  "table_os = \<lparr> os_run = table_run, os_environ = [], os_home_dir = None, os_stamp = (\<lambda>_. ''session'') \<rparr>"

definition table_client :: tmux_client where
  "table_client = \<lparr> tc_path = ''tmux'', tc_socket = [], tc_err = None \<rparr>"

lemma table_exec: "tc_exec table_os table_client args w =
    (case table_run ''tmux'' args [] w of (Inl e, w') \<Rightarrow> (Inl (ErrExec e), w') | (Inr r, w') \<Rightarrow> (Inr r, w'))"
  by (simp add: tc_exec_def table_client_def table_os_def scrubbed_env_def filter_env_def)

lemma table_behaves: "tmux_behaves (tc_exec table_os table_client) (home_directory table_os) table_names"
proof -
  have ls: "lists_sessions (tc_exec table_os table_client) table_names w" for w
    unfolding lists_sessions_def
    by (rule exI [of _ "map table_session (filter valid_name w)"])
       (auto simp: answers_def table_exec table_run_def list_args_def table_names_def exits_zero_def
         list_all_iff listed_session_def table_session_def int64_nat_def comp_def image_iff Let_def)
  show ?thesis unfolding tmux_behaves_def
    by (auto simp: ls answers_def table_exec table_run_def has_session_args_def kill_args_def rename_args_def
        exact_target_def table_names_def exits_zero_def create_args_def global_options_def numeral_eq_Suc)
qed

lemma valid_name_ab: "valid_name ''a''" "valid_name ''b''"
  by (rule valid_name_ascii, simp_all add: ascii_def reserved_rune_def rune_classes)+


lemma client_create_refines_witness:
  "\<exists>s w'. tc_create table_os table_client ''b'' [''a''] = (Inr s, w') \<and> s_name s = ''b''
     \<and> table_names w' = {''a'', ''b''}"
  using client_create_refines [OF table_behaves _ valid_name_ab(2), of "[''a'']"]
  by (auto simp: table_client_def table_names_def valid_name_ab)

end
