(* ===== verification/ShellEncoder.thy ===== *)
theory ShellEncoder
  imports TmuxParse
begin

text \<open>
  \<open>hub/internal/host/encoder.go\<close>: quoting an argument vector for a remote POSIX shell, against
  a reader of the shell's quoting rules (single quotes, backslash, blanks; any unquoted
  metacharacter is rejected).
\<close>

section \<open>The encoder\<close>

definition squote :: char where "squote = CHR 0x27"
definition backslash :: char where "backslash = CHR 0x5C"

fun replace_quotes :: "string \<Rightarrow> string" where
  "replace_quotes [] = []"
| "replace_quotes (c # s) =
     (if c = squote then [squote, backslash, squote, squote] @ replace_quotes s else c # replace_quotes s)"

definition encode_posix_arg :: "string \<Rightarrow> string" where
  "encode_posix_arg arg =
     (if arg = [] then [squote, squote] else [squote] @ replace_quotes arg @ [squote])"

definition encode_posix_command :: "string list \<Rightarrow> string" where
  "encode_posix_command args = join_with '' '' (map encode_posix_arg args)"

section \<open>The shell's reading of a simple command\<close>

definition plain_char :: "char \<Rightarrow> bool" where
  "plain_char c \<longleftrightarrow> c \<notin> set ''|&;<>()$`*?[#~=%!{}'' \<and> c \<noteq> CHR 0x22 \<and> c \<noteq> CHR 0x09 \<and> c \<noteq> CHR 0x0A"

text \<open>
  \<open>sh_scan q w s\<close> reads \<open>s\<close> with \<open>w\<close> the word begun so far, if any, inside single quotes
  when \<open>q\<close>.  None stands for anything but one simple command of plain words: an open quote, a
  trailing backslash, an expansion, a control operator, a comment, a line end.
\<close>

fun sh_scan :: "bool \<Rightarrow> string option \<Rightarrow> string \<Rightarrow> string list option" where
  "sh_scan True w [] = None"
| "sh_scan True w (c # s) =
     (if c = squote then sh_scan False w s
      else sh_scan True (Some (case w of None \<Rightarrow> [c] | Some x \<Rightarrow> x @ [c])) s)"
| "sh_scan False w [] = Some (case w of None \<Rightarrow> [] | Some x \<Rightarrow> [x])"
| "sh_scan False w (c # s) =
     (if c = squote then sh_scan True (Some (case w of None \<Rightarrow> [] | Some x \<Rightarrow> x)) s
      else if c = backslash then
        (case s of
           [] \<Rightarrow> None
         | d # s' \<Rightarrow> sh_scan False (Some (case w of None \<Rightarrow> [d] | Some x \<Rightarrow> x @ [d])) s')
      else if c = CHR '' '' then
        (case w of None \<Rightarrow> sh_scan False None s | Some x \<Rightarrow> map_option ((#) x) (sh_scan False None s))
      else if plain_char c then sh_scan False (Some (case w of None \<Rightarrow> [c] | Some x \<Rightarrow> x @ [c])) s
      else None)"

definition shell_words :: "string \<Rightarrow> string list option" where
  "shell_words s = sh_scan False None s"

lemma quote_chars [simp]: "squote \<noteq> backslash" "squote \<noteq> CHR '' ''" "backslash \<noteq> squote"
    "CHR '' '' \<noteq> squote" "CHR '' '' \<noteq> backslash"
  by (simp_all add: squote_def backslash_def)

lemma sh_scan_quoted:
  "sh_scan True (Some w) (replace_quotes a @ squote # s) = sh_scan False (Some (w @ a)) s"
  by (induction a arbitrary: w) auto

lemma sh_scan_arg: "sh_scan False None (encode_posix_arg a @ s) = sh_scan False (Some a) s"
  using sh_scan_quoted [of "[]" a s] by (simp add: encode_posix_arg_def)

lemma sh_scan_args: "sh_scan False None (join_with '' '' (map encode_posix_arg args)) = Some args"
proof (induction args)
  case (Cons a args)
  show ?case
  proof (cases args)
    case Nil
    with sh_scan_arg [of a "[]"] show ?thesis by simp
  next
    case (Cons b bs)
    with Cons.IH sh_scan_arg [of a "CHR '' '' # join_with '' '' (map encode_posix_arg args)"]
    show ?thesis by simp
  qed
qed simp

section \<open>Properties\<close>

text \<open>C21: whatever the arguments contain, the remote shell reads the encoded command line as
  one simple command of exactly those words: no expansion, no operator, no injection.\<close>

theorem shell_words_encode: "shell_words (encode_posix_command args) = Some args"
  by (simp add: shell_words_def encode_posix_command_def sh_scan_args)

end
