(* ===== verification/Tickets.thy ===== *)
theory Tickets
  imports HostIdentity
begin

text \<open>
  \<open>hub/internal/auth/tickets.go\<close>, \<open>auth.go\<close> and \<open>hub/internal/host/trust.go\<close>: single-use
  tickets and trust challenges.  Both are stores of short-lived tokens with the same
  expiry rule, stated once as the locale \<open>token_store\<close> and interpreted on each.  Times are
  integers (nanoseconds); a random token is an argument, None a failure of the generator.
\<close>

section \<open>Secrets (auth.go)\<close>

definition bearer_token_entropy_bytes :: nat where "bearer_token_entropy_bytes = 32"
definition ticket_entropy_bytes :: nat where "ticket_entropy_bytes = 24"

text \<open>\<open>base64.RawURLEncoding\<close>: three bytes to four characters, no padding.\<close>

definition b64_char :: "nat \<Rightarrow> char" where
  "b64_char n =
     (if n < 26 then char_of (65 + n)
      else if n < 52 then char_of (97 + (n - 26))
      else if n < 62 then char_of (48 + (n - 52))
      else if n = 62 then CHR ''-'' else CHR ''_'')"

fun raw_url_encode :: "nat list \<Rightarrow> string" where
  "raw_url_encode [] = []"
| "raw_url_encode [a] = [b64_char (a div 4), b64_char (a mod 4 * 16)]"
| "raw_url_encode [a, b] =
     [b64_char (a div 4), b64_char (a mod 4 * 16 + b div 16), b64_char (b mod 16 * 4)]"
| "raw_url_encode (a # b # c # r) =
     [b64_char (a div 4), b64_char (a mod 4 * 16 + b div 16), b64_char (b mod 16 * 4 + c div 64), b64_char (c mod 64)]
     @ raw_url_encode r"

datatype token_error = EmptyCredential | RandomFailed

text \<open>\<open>rand n\<close> are the bytes the generator returned for a buffer of \<open>n\<close>, None its failure.\<close>

definition random_token :: "(nat \<Rightarrow> nat list option) \<Rightarrow> int \<Rightarrow> token_error + string" where
  "random_token rand n =
     (if n \<le> 0 then Inl EmptyCredential
      else (case rand (nat n) of None \<Rightarrow> Inl RandomFailed | Some bs \<Rightarrow> Inr (raw_url_encode bs)))"

definition generate_bearer_token :: "(nat \<Rightarrow> nat list option) \<Rightarrow> token_error + string" where
  "generate_bearer_token rand = random_token rand (int bearer_token_entropy_bytes)"

text \<open>\<open>sha256\<close> is a parameter; the comparison runs on the digests.\<close>

definition constant_time_equal :: "(string \<Rightarrow> string) \<Rightarrow> string \<Rightarrow> string \<Rightarrow> bool" where
  "constant_time_equal sha a b =
     (if a = [] \<or> b = [] then False else sha a = sha b)"

section \<open>Tickets (tickets.go)\<close>

datatype ticket_error =
    TicketInvalid | TicketExpired | TicketMismatch | TicketHostMismatch | TicketSuperseded

record ticket =
  tk_host :: host_id
  tk_conn_revision :: revision
  tk_session :: string
  tk_expires :: int

record ticket_store =
  ts_by_id :: "string \<rightharpoonup> ticket"
  ts_ttl :: int

definition new_ticket_store :: "int \<Rightarrow> ticket_store" where
  "new_ticket_store ttl = \<lparr> ts_by_id = Map.empty, ts_ttl = ttl \<rparr>"

definition default_host :: "host_id \<Rightarrow> host_id" where
  "default_host h = (if h = [] then ''local'' else h)"

definition default_conn_rev :: "revision \<Rightarrow> revision" where
  "default_conn_rev r = (if r = 0 then 1 else r)"

definition issue_for_target :: "(nat \<Rightarrow> nat list option) \<Rightarrow> int \<Rightarrow> host_id \<Rightarrow> revision \<Rightarrow> string \<Rightarrow>
    ticket_store \<Rightarrow> (token_error + string \<times> int) \<times> ticket_store" where
  "issue_for_target rand now host conn_rev sess s =
     (case random_token rand (int ticket_entropy_bytes) of
        Inl e \<Rightarrow> (Inl e, s)
      | Inr tid \<Rightarrow>
          (let expires = now + ts_ttl s in
           (Inr (tid, expires),
            s\<lparr>ts_by_id := (ts_by_id s)(tid \<mapsto>
              \<lparr> tk_host = default_host host, tk_conn_revision = default_conn_rev conn_rev,
                tk_session = sess, tk_expires = expires \<rparr>)\<rparr>)))"

definition issue :: "(nat \<Rightarrow> nat list option) \<Rightarrow> int \<Rightarrow> string \<Rightarrow>
    ticket_store \<Rightarrow> (token_error + string \<times> int) \<times> ticket_store" where
  "issue rand now sess s = issue_for_target rand now ''local'' 1 sess s"

definition check_ticket :: "int \<Rightarrow> host_id \<Rightarrow> revision \<Rightarrow> string \<Rightarrow> ticket \<Rightarrow> ticket_error + unit" where
  "check_ticket now host conn_rev sess t =
     (if tk_expires t < now then Inl TicketExpired
      else if tk_host t \<noteq> host then Inl TicketHostMismatch
      else if tk_conn_revision t \<noteq> conn_rev then Inl TicketSuperseded
      else if tk_session t \<noteq> sess then Inl TicketMismatch
      else Inr ())"

definition redeem_for_target :: "int \<Rightarrow> string \<Rightarrow> host_id \<Rightarrow> revision \<Rightarrow> string \<Rightarrow>
    ticket_store \<Rightarrow> (ticket_error + unit) \<times> ticket_store" where
  "redeem_for_target now tid host conn_rev sess s =
     (if tid = [] then (Inl TicketInvalid, s)
      else (let s' = s\<lparr>ts_by_id := (ts_by_id s)(tid := None)\<rparr> in
        (case ts_by_id s tid of
           None \<Rightarrow> (Inl TicketInvalid, s')
         | Some t \<Rightarrow> (check_ticket now (default_host host) (default_conn_rev conn_rev) sess t, s'))))"

definition redeem :: "int \<Rightarrow> string \<Rightarrow> string \<Rightarrow> ticket_store \<Rightarrow> (ticket_error + unit) \<times> ticket_store" where
  "redeem now tid sess s = redeem_for_target now tid ''local'' 1 sess s"

definition ticket_sweep :: "int \<Rightarrow> ticket_store \<Rightarrow> ticket_store" where
  "ticket_sweep now s = s\<lparr>ts_by_id := map_filter_entries (\<lambda>_ t. \<not> tk_expires t < now) (ts_by_id s)\<rparr>"

definition invalidate_host :: "host_id \<Rightarrow> ticket_store \<Rightarrow> ticket_store" where
  "invalidate_host host s = s\<lparr>ts_by_id := map_filter_entries (\<lambda>_ t. tk_host t \<noteq> host) (ts_by_id s)\<rparr>"

definition invalidate_connection :: "host_id \<Rightarrow> revision \<Rightarrow> ticket_store \<Rightarrow> ticket_store" where
  "invalidate_connection host old s =
     s\<lparr>ts_by_id := map_filter_entries
        (\<lambda>_ t. \<not> (tk_host t = host \<and> (old = 0 \<or> tk_conn_revision t \<le> old))) (ts_by_id s)\<rparr>"

section \<open>Trust challenges (trust.go)\<close>

datatype trust_error =
    HostKeyMismatch | TrustRequired | ChallengeExpired | ChallengeMismatch | TrustRandomFailed

record trust_challenge =
  ch_token :: string
  ch_host :: host_id
  ch_revision :: revision
  ch_endpoint :: string
  ch_host_key :: string
  ch_fingerprint :: string
  ch_key_type :: string
  ch_expires :: int

record trust_store =
  tr_ttl :: int
  tr_challenges :: "string \<rightharpoonup> trust_challenge"

text \<open>An \<open>ssh.PublicKey\<close>: its marshalled bytes, SHA-256 fingerprint and type.\<close>

record public_key =
  pk_marshal :: string
  pk_fingerprint :: string
  pk_type :: string

record probe_result =
  pr_token :: string
  pr_fingerprint :: string
  pr_key_type :: string
  pr_host_key :: string
  pr_expires :: int

definition default_trust_ttl :: int where "default_trust_ttl = 5 * 60 * 10 ^ 9"
definition challenge_token_bytes :: nat where "challenge_token_bytes = 16"

definition new_trust_store :: "int \<Rightarrow> trust_store" where
  "new_trust_store ttl =
     \<lparr> tr_ttl = (if ttl \<le> 0 then default_trust_ttl else ttl), tr_challenges = Map.empty \<rparr>"

definition trust_sweep :: "int \<Rightarrow> trust_store \<Rightarrow> trust_store" where
  "trust_sweep now s = s\<lparr>tr_challenges := map_filter_entries (\<lambda>_ c. \<not> ch_expires c < now) (tr_challenges s)\<rparr>"

definition hex_digit :: "nat \<Rightarrow> char" where
  "hex_digit n = (if n < 10 then char_of (48 + n) else char_of (87 + n))"

definition hex_encode :: "nat list \<Rightarrow> string" where
  "hex_encode bs = concat (map (\<lambda>b. [hex_digit (b div 16), hex_digit (b mod 16)]) bs)"

definition create_challenge :: "(nat \<Rightarrow> nat list option) \<Rightarrow> int \<Rightarrow> host_id \<Rightarrow> revision \<Rightarrow> string \<Rightarrow> public_key \<Rightarrow>
    trust_store \<Rightarrow> (trust_error + probe_result) \<times> trust_store" where
  "create_challenge rand now host rv endpoint key s0 =
     (let s = trust_sweep now s0 in
      (case rand challenge_token_bytes of
         None \<Rightarrow> (Inl TrustRandomFailed, s)
       | Some bs \<Rightarrow>
           (let token = hex_encode bs; expires = now + tr_ttl s in
            (Inr \<lparr> pr_token = token, pr_fingerprint = pk_fingerprint key, pr_key_type = pk_type key,
                   pr_host_key = pk_marshal key, pr_expires = expires \<rparr>,
             s\<lparr>tr_challenges := (tr_challenges s)(token \<mapsto>
               \<lparr> ch_token = token, ch_host = host, ch_revision = rv, ch_endpoint = endpoint,
                 ch_host_key = pk_marshal key, ch_fingerprint = pk_fingerprint key,
                 ch_key_type = pk_type key, ch_expires = expires \<rparr>)\<rparr>))))"

definition confirm_challenge :: "int \<Rightarrow> string \<Rightarrow> host_id \<Rightarrow> revision \<Rightarrow> string \<Rightarrow>
    trust_store \<Rightarrow> (trust_error + string) \<times> trust_store" where
  "confirm_challenge now token host rv endpoint s0 =
     (let s = trust_sweep now s0; gone = s\<lparr>tr_challenges := (tr_challenges s)(token := None)\<rparr> in
      (case tr_challenges s token of
         None \<Rightarrow> (Inl ChallengeExpired, gone)
       | Some c \<Rightarrow>
           if ch_expires c < now then (Inl ChallengeExpired, gone)
           else if ch_host c \<noteq> host \<or> ch_revision c \<noteq> rv \<or> ch_endpoint c \<noteq> endpoint
             then (Inl ChallengeMismatch, s)
           else (Inr (ch_host_key c), gone)))"

definition pinned_host_key_callback :: "string \<Rightarrow> public_key \<Rightarrow> trust_error + unit" where
  "pinned_host_key_callback pinned key =
     (if length pinned = 0 then Inl TrustRequired
      else if pk_marshal key \<noteq> pinned then Inl HostKeyMismatch
      else Inr ())"

section \<open>Token stores\<close>

text \<open>
  What both stores promise: a token is accepted when it is stored, has not expired and the
  parameters presented fit it; accepting it removes it; no redemption creates an entry; and
  sweeping removes the expired entries only.
\<close>

locale token_store =
  fixes lookup :: "'s \<Rightarrow> string \<Rightarrow> 'e option"
    and expiry :: "'e \<Rightarrow> int"
    and accepts :: "'a \<Rightarrow> 'e \<Rightarrow> bool"
    and clock :: "'a \<Rightarrow> int"
    and accepted :: "'a \<Rightarrow> string \<Rightarrow> 's \<Rightarrow> bool"
    and after :: "'a \<Rightarrow> string \<Rightarrow> 's \<Rightarrow> 's"
    and sweep :: "int \<Rightarrow> 's \<Rightarrow> 's"
  assumes accepted_iff: "accepted a t s \<longleftrightarrow>
      (\<exists>e. lookup s t = Some e \<and> \<not> expiry e < clock a \<and> accepts a e)"
    and consumed: "accepted a t s \<Longrightarrow> lookup (after a t s) t = None"
    and after_le: "lookup (after a t s) \<subseteq>\<^sub>m lookup s"
    and sweep_iff: "lookup (sweep n s) u = Some e \<longleftrightarrow> lookup s u = Some e \<and> \<not> expiry e < n"
begin

lemma accepted_mono: "lookup s' \<subseteq>\<^sub>m lookup s \<Longrightarrow> accepted a t s' \<Longrightarrow> accepted a t s"
  by (auto simp: accepted_iff map_le_def dom_def)

lemma sweep_le: "lookup (sweep n s) \<subseteq>\<^sub>m lookup s"
  using sweep_iff by (fastforce simp: map_le_def dom_def)

lemma no_replay:
  assumes "accepted a t s" and "lookup s' \<subseteq>\<^sub>m lookup (after a t s)"
  shows "\<not> accepted b t s'"
proof
  assume "accepted b t s'"
  with accepted_mono assms(2) have "accepted b t (after a t s)" by blast
  with consumed [OF assms(1)] show False by (simp add: accepted_iff)
qed

lemma sweep_harmless:
  assumes "n \<le> clock a"
  shows "accepted a t (sweep n s) \<longleftrightarrow> accepted a t s"
  using assms by (auto simp: accepted_iff sweep_iff)

end

definition ticket_lookup :: "ticket_store \<Rightarrow> string \<Rightarrow> ticket option" where
  "ticket_lookup s t = (if t = [] then None else ts_by_id s t)"

definition ticket_fits :: "int \<times> host_id \<times> revision \<times> string \<Rightarrow> ticket \<Rightarrow> bool" where
  "ticket_fits a t = (case a of (_, h, r, n) \<Rightarrow>
     tk_host t = default_host h \<and> tk_conn_revision t = default_conn_rev r \<and> tk_session t = n)"

definition ticket_accepted :: "int \<times> host_id \<times> revision \<times> string \<Rightarrow> string \<Rightarrow> ticket_store \<Rightarrow> bool" where
  "ticket_accepted a tid s = (case a of (now, h, r, n) \<Rightarrow> is_ok (fst (redeem_for_target now tid h r n s)))"

definition ticket_after :: "int \<times> host_id \<times> revision \<times> string \<Rightarrow> string \<Rightarrow> ticket_store \<Rightarrow> ticket_store" where
  "ticket_after a tid s = (case a of (now, h, r, n) \<Rightarrow> snd (redeem_for_target now tid h r n s))"

interpretation tickets: token_store ticket_lookup tk_expires ticket_fits fst ticket_accepted ticket_after ticket_sweep
proof
  show "ticket_accepted a t s \<longleftrightarrow>
      (\<exists>e. ticket_lookup s t = Some e \<and> \<not> tk_expires e < fst a \<and> ticket_fits a e)" for a t s
    by (auto simp: ticket_accepted_def redeem_for_target_def ticket_lookup_def ticket_fits_def
        check_ticket_def Let_def split: prod.splits option.splits)
  show "ticket_accepted a t s \<Longrightarrow> ticket_lookup (ticket_after a t s) t = None" for a t s
    by (auto simp: ticket_after_def redeem_for_target_def ticket_lookup_def Let_def
        split: prod.splits option.splits)
  show "ticket_lookup (ticket_after a t s) \<subseteq>\<^sub>m ticket_lookup s" for a t s
    by (auto simp: ticket_after_def redeem_for_target_def ticket_lookup_def Let_def map_le_def dom_def
        split: prod.splits option.splits if_splits)
  show "ticket_lookup (ticket_sweep n s) u = Some e \<longleftrightarrow> ticket_lookup s u = Some e \<and> \<not> tk_expires e < n"
    for n s u e by (simp add: ticket_lookup_def ticket_sweep_def)
qed

definition challenge_fits :: "int \<times> host_id \<times> revision \<times> string \<Rightarrow> trust_challenge \<Rightarrow> bool" where
  "challenge_fits a c = (case a of (_, h, r, e) \<Rightarrow> ch_host c = h \<and> ch_revision c = r \<and> ch_endpoint c = e)"

definition challenge_accepted :: "int \<times> host_id \<times> revision \<times> string \<Rightarrow> string \<Rightarrow> trust_store \<Rightarrow> bool" where
  "challenge_accepted a t s = (case a of (now, h, r, e) \<Rightarrow> is_ok (fst (confirm_challenge now t h r e s)))"

definition challenge_after :: "int \<times> host_id \<times> revision \<times> string \<Rightarrow> string \<Rightarrow> trust_store \<Rightarrow> trust_store" where
  "challenge_after a t s = (case a of (now, h, r, e) \<Rightarrow> snd (confirm_challenge now t h r e s))"

interpretation challenges: token_store tr_challenges ch_expires challenge_fits fst
  challenge_accepted challenge_after trust_sweep
proof
  show "challenge_accepted a t s \<longleftrightarrow>
      (\<exists>e. tr_challenges s t = Some e \<and> \<not> ch_expires e < fst a \<and> challenge_fits a e)" for a t s
    by (auto simp: challenge_accepted_def confirm_challenge_def trust_sweep_def challenge_fits_def
        Let_def is_ok_iff split: prod.splits option.splits)
       (auto simp: map_filter_entries_None)
  show "challenge_accepted a t s \<Longrightarrow> tr_challenges (challenge_after a t s) t = None" for a t s
    by (auto simp: challenge_accepted_def challenge_after_def confirm_challenge_def Let_def
        split: prod.splits option.splits if_splits)
  show "tr_challenges (challenge_after a t s) \<subseteq>\<^sub>m tr_challenges s" for a t s
    by (auto simp: challenge_after_def confirm_challenge_def trust_sweep_def Let_def map_le_def dom_def
        split: prod.splits option.splits if_splits)
  show "tr_challenges (trust_sweep n s) u = Some e \<longleftrightarrow> tr_challenges s u = Some e \<and> \<not> ch_expires e < n"
    for n s u e by (simp add: trust_sweep_def)
qed

section \<open>Histories of a ticket store\<close>

datatype ticket_op =
    OpIssue "nat list" int host_id revision string
  | OpRedeem int string host_id revision string
  | OpSweep int
  | OpInvalidateHost host_id
  | OpInvalidateConnection host_id revision

fun ticket_apply :: "ticket_op \<Rightarrow> ticket_store \<Rightarrow> ticket_store" where
  "ticket_apply (OpIssue bs now h r n) s = snd (issue_for_target (\<lambda>_. Some bs) now h r n s)"
| "ticket_apply (OpRedeem now t h r n) s = snd (redeem_for_target now t h r n s)"
| "ticket_apply (OpSweep now) s = ticket_sweep now s"
| "ticket_apply (OpInvalidateHost h) s = invalidate_host h s"
| "ticket_apply (OpInvalidateConnection h r) s = invalidate_connection h r s"

definition ticket_run :: "ticket_op list \<Rightarrow> ticket_store \<Rightarrow> ticket_store" where
  "ticket_run = fold ticket_apply"

text \<open>\<open>issues_only P\<close>: every ticket a history issues satisfies \<open>P\<close>, as token, host and revision.\<close>

fun op_issues :: "(string \<Rightarrow> host_id \<Rightarrow> revision \<Rightarrow> bool) \<Rightarrow> ticket_op \<Rightarrow> bool" where
  "op_issues P (OpIssue bs now h r n) = P (raw_url_encode bs) (default_host h) (default_conn_rev r)"
| "op_issues P op = True"

definition holds_only :: "(string \<Rightarrow> host_id \<Rightarrow> revision \<Rightarrow> bool) \<Rightarrow> ticket_store \<Rightarrow> bool" where
  "holds_only P s \<longleftrightarrow> (\<forall>t k. ts_by_id s t = Some k \<longrightarrow> P t (tk_host k) (tk_conn_revision k))"

lemma holds_only_op: "holds_only P s \<Longrightarrow> op_issues P op \<Longrightarrow> holds_only P (ticket_apply op s)"
  by (cases op)
     (auto simp: holds_only_def issue_for_target_def random_token_def ticket_entropy_bytes_def
       redeem_for_target_def ticket_sweep_def invalidate_host_def invalidate_connection_def Let_def
       split: option.splits if_splits)

lemma holds_only_run: "holds_only P s \<Longrightarrow> \<forall>op \<in> set ops. op_issues P op \<Longrightarrow> holds_only P (ticket_run ops s)"
  unfolding ticket_run_def by (induction ops arbitrary: s) (auto intro: holds_only_op)

section \<open>Properties\<close>

text \<open>C5: a ticket is redeemed at most once: after a successful redemption no later one of the
  same token succeeds, whatever the history in between, unless the generator repeats the token.\<close>

theorem ticket_single_use:
  assumes "fst (redeem_for_target now tid h r n s) = Inr ()"
    and "\<forall>op \<in> set ops. op_issues (\<lambda>t _ _. t \<noteq> tid) op"
  shows "\<not> is_ok (fst (redeem_for_target now' tid h' r' n' (ticket_run ops (snd (redeem_for_target now tid h r n s)))))"
proof -
  let ?s = "ticket_run ops (snd (redeem_for_target now tid h r n s))"
  have "ticket_lookup (snd (redeem_for_target now tid h r n s)) tid = None"
    using tickets.consumed [of "(now, h, r, n)" tid s] assms(1)
    by (simp add: ticket_accepted_def ticket_after_def)
  moreover have "tid \<noteq> []" using assms(1) by (auto simp: redeem_for_target_def)
  ultimately have "holds_only (\<lambda>t _ _. t \<noteq> tid) (snd (redeem_for_target now tid h r n s))"
    by (auto simp: holds_only_def ticket_lookup_def)
  from holds_only_run [OF this assms(2)] have "ticket_lookup ?s tid = None"
    by (auto simp: holds_only_def ticket_lookup_def)
  then have "\<not> ticket_accepted (now', h', r', n') tid ?s" by (simp add: tickets.accepted_iff)
  then show ?thesis by (simp add: ticket_accepted_def)
qed

text \<open>Once a host's connection revision is superseded, no ticket for that revision or an
  older one is ever redeemed again, as long as the host's new tickets are issued for newer ones.\<close>

theorem invalidated_connection_stays_out:
  assumes "\<forall>op \<in> set ops. op_issues (\<lambda>_ h' r'. h' = host \<longrightarrow> old < r') op"
    and "default_host h = host" and "default_conn_rev r \<le> old"
  shows "\<not> is_ok (fst (redeem_for_target now tid h r n (ticket_run ops (invalidate_connection host old s))))"
proof -
  let ?P = "\<lambda>_ h' r'. h' = host \<longrightarrow> old < r'"
  let ?s = "ticket_run ops (invalidate_connection host old s)"
  have "holds_only ?P (invalidate_connection host old s)"
    by (auto simp: holds_only_def invalidate_connection_def)
  then have "holds_only ?P ?s" by (rule holds_only_run [OF _ assms(1)])
  then have "\<not> ticket_accepted (now, h, r, n) tid ?s"
    using assms(2,3) unfolding tickets.accepted_iff
    by (fastforce simp: ticket_lookup_def ticket_fits_def holds_only_def split: if_splits)
  then show ?thesis by (simp add: ticket_accepted_def)
qed

text \<open>A redemption succeeds exactly when the token is stored, has not expired and was issued
  for the host, connection revision and session presented; it always consumes the token.\<close>

theorem redeem_exact:
  "(is_ok (fst (redeem_for_target now tid h r n s)) \<longleftrightarrow>
      tid \<noteq> [] \<and> (\<exists>t. ts_by_id s tid = Some t \<and> now \<le> tk_expires t \<and> tk_host t = default_host h
        \<and> tk_conn_revision t = default_conn_rev r \<and> tk_session t = n))
   \<and> (tid \<noteq> [] \<longrightarrow> ts_by_id (snd (redeem_for_target now tid h r n s)) = (ts_by_id s)(tid := None))"
  by (auto simp: redeem_for_target_def check_ticket_def Let_def not_less split: option.splits)

text \<open>C22: a host key is pinned only by confirming a live challenge for the same host, revision
  and endpoint; the key returned is the one observed, and the challenge cannot be confirmed twice.\<close>

theorem confirm_challenge_binds:
  assumes "confirm_challenge now tok h r e s = (Inr key, s')"
  shows "(\<exists>c. tr_challenges s tok = Some c \<and> key = ch_host_key c \<and> ch_host c = h \<and> ch_revision c = r
           \<and> ch_endpoint c = e \<and> now \<le> ch_expires c)
     \<and> \<not> is_ok (fst (confirm_challenge now' tok h' r' e' s'))"
proof -
  have ok: "challenge_accepted (now, h, r, e) tok s" and s': "s' = challenge_after (now, h, r, e) tok s"
    using assms by (simp_all add: challenge_accepted_def challenge_after_def)
  have "\<not> challenge_accepted (now', h', r', e') tok s'"
    unfolding s' by (rule challenges.no_replay [OF ok]) simp
  moreover have "\<exists>c. tr_challenges s tok = Some c \<and> key = ch_host_key c \<and> ch_host c = h \<and> ch_revision c = r
           \<and> ch_endpoint c = e \<and> now \<le> ch_expires c"
    using assms by (auto simp: confirm_challenge_def trust_sweep_def Let_def split: option.splits if_splits)
  ultimately show ?thesis by (simp add: challenge_accepted_def)
qed

section \<open>Witnesses\<close>

definition example_store :: ticket_store where
  "example_store = snd (issue_for_target (\<lambda>_. Some [1, 2, 3]) 0 ''h1'' 2 ''dev'' (new_ticket_store 10))"

lemma example_token: "ts_by_id example_store ''AQID'' = Some \<lparr> tk_host = ''h1'', tk_conn_revision = 2,
     tk_session = ''dev'', tk_expires = 10 \<rparr>"
proof -
  have "raw_url_encode [1, 2, 3] = ''AQID''" by code_simp
  then show ?thesis
    by (simp add: example_store_def issue_for_target_def random_token_def ticket_entropy_bytes_def
        new_ticket_store_def default_host_def default_conn_rev_def)
qed

lemma redeem_exact_witness:
  "is_ok (fst (redeem_for_target 5 ''AQID'' ''h1'' 2 ''dev'' example_store))
   \<and> ts_by_id (snd (redeem_for_target 5 ''AQID'' ''h1'' 2 ''dev'' example_store)) ''AQID'' = None"
  using redeem_exact [of 5 "''AQID''" "''h1''" 2 "''dev''" example_store]
  by (simp add: example_token default_host_def default_conn_rev_def)

lemma ticket_single_use_witness:
  "\<not> is_ok (fst (redeem_for_target 5 ''AQID'' ''h1'' 2 ''dev''
      (ticket_run [OpSweep 4] (snd (redeem_for_target 3 ''AQID'' ''h1'' 2 ''dev'' example_store)))))"
  by (rule ticket_single_use)
     (simp_all add: redeem_for_target_def example_token check_ticket_def default_host_def default_conn_rev_def)

lemma invalidated_connection_stays_out_witness:
  "\<not> is_ok (fst (redeem_for_target 5 ''AQID'' ''h1'' 2 ''dev''
      (ticket_run [OpIssue [9, 9, 9] 4 ''h1'' 3 ''dev''] (invalidate_connection ''h1'' 2 example_store))))"
  by (rule invalidated_connection_stays_out) (simp_all add: default_host_def default_conn_rev_def)

definition example_key :: public_key where
  "example_key = \<lparr> pk_marshal = ''blob'', pk_fingerprint = ''SHA256:x'', pk_type = ''ssh-ed25519'' \<rparr>"

lemma confirm_challenge_binds_witness:
  "\<exists>s'. confirm_challenge 7 ''01ff'' ''h1'' 3 ''example:22''
      (snd (create_challenge (\<lambda>_. Some [1, 255]) 5 ''h1'' 3 ''example:22'' example_key (new_trust_store 100)))
        = (Inr ''blob'', s')
    \<and> \<not> is_ok (fst (confirm_challenge 8 ''01ff'' ''h1'' 3 ''example:22'' s'))"
proof -
  have "hex_encode [1, 255] = ''01ff''" by code_simp
  then have hex: "hex_encode [Suc 0, 255] = ''01ff''" by simp
  have "\<exists>s'. confirm_challenge 7 ''01ff'' ''h1'' 3 ''example:22''
      (snd (create_challenge (\<lambda>_. Some [1, 255]) 5 ''h1'' 3 ''example:22'' example_key (new_trust_store 100)))
        = (Inr ''blob'', s')"
    by (simp add: create_challenge_def confirm_challenge_def new_trust_store_def trust_sweep_def hex
        example_key_def map_filter_entries_def Let_def)
  then obtain s' where s': "confirm_challenge 7 ''01ff'' ''h1'' 3 ''example:22''
      (snd (create_challenge (\<lambda>_. Some [1, 255]) 5 ''h1'' 3 ''example:22'' example_key (new_trust_store 100)))
        = (Inr ''blob'', s')" ..
  from confirm_challenge_binds [OF s', of 8 "''h1''" 3 "''example:22''"] s' show ?thesis by blast
qed

end
