(* ===== verification/TerminalBuffers.thy ===== *)
theory TerminalBuffers
  imports Prelude
begin

text \<open>
  \<open>hub/internal/terminal/options.go\<close>, \<open>staging.go\<close> and \<open>queue.go\<close>: the operational parameters,
  the staging buffer that holds output until the client is ready, and the output queue with
  its back-pressure hysteresis.  Sizes are integers, as the code keeps them; a chunk is a
  list of bytes.  What the two buffers have in common is the locale \<open>chunk_fifo\<close>.
\<close>

type_synonym chunk = "byte list"

section \<open>Options (options.go)\<close>

record options =
  o_max_dimension :: int
  o_staging_bytes :: int
  o_high_water :: int
  o_low_water :: int
  o_poll_interval :: int
  o_control_timeout :: int
  o_output_timeout :: int
  o_exit_timeout :: int
  o_input_chunk :: int

definition default_options :: options where
  "default_options =
     \<lparr> o_max_dimension = 1000,
       o_staging_bytes = 2097152,
       o_high_water = 1048576,
       o_low_water = 131072,
       o_poll_interval = 100 * 10 ^ 6,
       o_control_timeout = 5 * 10 ^ 9,
       o_output_timeout = 10 * 10 ^ 9,
       o_exit_timeout = 3 * 10 ^ 9,
       o_input_chunk = 32768 \<rparr>"

section \<open>The staging buffer (staging.go)\<close>

record staging =
  sb_chunks :: "chunk list"
  sb_size :: int
  sb_cap :: int

definition default_staging_capacity :: int where
  "default_staging_capacity = 2 * 1024 * 1024"

definition new_staging :: "int \<Rightarrow> staging" where
  "new_staging capacity =
     \<lparr> sb_chunks = [], sb_size = 0,
       sb_cap = (if capacity \<le> 0 then default_staging_capacity else capacity) \<rparr>"

text \<open>The eviction loop: whole chunks leave from the front until the new one fits.\<close>

fun evict :: "int \<Rightarrow> int \<Rightarrow> int \<Rightarrow> chunk list \<Rightarrow> chunk list \<times> int" where
  "evict cap len sz [] = ([], sz)"
| "evict cap len sz (c # cs) =
     (if sz + len > cap then evict cap len (sz - int (length c)) cs else (c # cs, sz))"

definition staging_write :: "chunk \<Rightarrow> staging \<Rightarrow> staging" where
  "staging_write p b =
     (if length p = 0 then b
      else (case evict (sb_cap b) (int (length p)) (sb_size b) (sb_chunks b) of
          (cs, sz) \<Rightarrow> b\<lparr>sb_chunks := cs @ [p], sb_size := sz + int (length p)\<rparr>))"

definition staging_drain :: "staging \<Rightarrow> chunk list \<times> staging" where
  "staging_drain b = (sb_chunks b, b\<lparr>sb_chunks := [], sb_size := 0\<rparr>)"

section \<open>The output queue (queue.go)\<close>

record out_queue =
  q_chunks :: "chunk list"
  q_bytes :: int
  q_paused :: bool
  q_closed :: bool
  q_exit :: "int option"
  q_high :: int
  q_low :: int

definition new_output_queue :: "int \<Rightarrow> int \<Rightarrow> out_queue" where
  "new_output_queue high low =
     \<lparr> q_chunks = [], q_bytes = 0, q_paused = False, q_closed = False, q_exit = None,
       q_high = high, q_low = low \<rparr>"

definition q_push :: "chunk \<Rightarrow> out_queue \<Rightarrow> out_queue" where
  "q_push b q =
     (if length b = 0 then q
      else q\<lparr>q_chunks := q_chunks q @ [b], q_bytes := q_bytes q + int (length b)\<rparr>)"

text \<open>The results \<open>(read, closed)\<close> with the queue it leaves.\<close>

definition q_should_read :: "out_queue \<Rightarrow> (bool \<times> bool) \<times> out_queue" where
  "q_should_read q =
     (if q_closed q then ((False, True), q)
      else if q_paused q then
        (if q_bytes q < q_low q then ((True, False), q\<lparr>q_paused := False\<rparr>) else ((False, False), q))
      else if q_bytes q \<ge> q_high q then ((False, False), q\<lparr>q_paused := True\<rparr>)
      else ((True, False), q))"

text \<open>The outcomes of \<open>Pop\<close>: a chunk, the end of a closed queue, or waiting on the condition
  variable (the call has not returned).\<close>

datatype pop_result = Popped chunk | PopEnd | PopBlocked

definition q_pop :: "out_queue \<Rightarrow> pop_result \<times> out_queue" where
  "q_pop q =
     (case q_chunks q of
        c # cs \<Rightarrow> (Popped c, q\<lparr>q_chunks := cs, q_bytes := q_bytes q - int (length c)\<rparr>)
      | [] \<Rightarrow> if q_closed q then (PopEnd, q) else (PopBlocked, q))"

definition q_close_with_exit :: "int option \<Rightarrow> out_queue \<Rightarrow> out_queue" where
  "q_close_with_exit code q = q\<lparr>q_closed := True, q_exit := code\<rparr>"

definition q_close_abnormal :: "out_queue \<Rightarrow> out_queue" where
  "q_close_abnormal q = q\<lparr>q_closed := True\<rparr>"

section \<open>Chunk buffers\<close>

definition total_bytes :: "chunk list \<Rightarrow> int" where
  "total_bytes cs = int (sum_list (map length cs))"

lemma total_simps [simp]:
  "total_bytes [] = 0"
  "total_bytes (c # cs) = int (length c) + total_bytes cs"
  "total_bytes (cs @ ds) = total_bytes cs + total_bytes ds"
  by (simp_all add: total_bytes_def)

lemma total_nonneg [simp]: "0 \<le> total_bytes cs"
  by (simp add: total_bytes_def)

text \<open>
  What a buffer of chunks promises: the byte count is that of the chunks held, none of them is
  empty, and adding a chunk appends it, after dropping some of the oldest at most.
\<close>

locale chunk_fifo =
  fixes contents :: "'s \<Rightarrow> chunk list"
    and size_of :: "'s \<Rightarrow> int"
    and add :: "chunk \<Rightarrow> 's \<Rightarrow> 's"
  assumes add_suffix: "\<exists>k. contents (add p s) = drop k (contents s) @ (if p = [] then [] else [p])"
    and add_size: "size_of s = total_bytes (contents s) \<Longrightarrow> size_of (add p s) = total_bytes (contents (add p s))"
begin

definition wf :: "'s \<Rightarrow> bool" where
  "wf s \<longleftrightarrow> size_of s = total_bytes (contents s) \<and> [] \<notin> set (contents s)"

lemma wf_add: "wf s \<Longrightarrow> wf (add p s)"
proof -
  assume w: "wf s"
  obtain k where k: "contents (add p s) = drop k (contents s) @ (if p = [] then [] else [p])"
    using add_suffix by blast
  with w have "[] \<notin> set (contents (add p s))" by (cases "p = []") (auto simp: wf_def dest: in_set_dropD)
  with w add_size [of s p] show "wf (add p s)" by (simp add: wf_def)
qed

lemma wf_adds: "wf s \<Longrightarrow> wf (fold add ps s)"
  by (induction ps arbitrary: s) (auto intro: wf_add)

lemma adds_suffix: "\<exists>k. contents (fold add ps s) = drop k (contents s @ filter (\<lambda>p. p \<noteq> []) ps)"
proof (induction ps arbitrary: s)
  case Nil
  then show ?case by (metis append.right_neutral drop0 filter.simps(1) fold_simps(1))
next
  case (Cons p ps)
  obtain k where k: "contents (add p s) = drop k (contents s) @ (if p = [] then [] else [p])"
    using add_suffix by blast
  obtain j where j: "contents (fold add ps (add p s)) = drop j (contents (add p s) @ filter (\<lambda>p. p \<noteq> []) ps)"
    using Cons.IH by blast
  let ?rest = "(if p = [] then [] else [p]) @ filter (\<lambda>p. p \<noteq> []) ps"
  let ?k = "min k (length (contents s))"
  have "drop k (contents s) = drop ?k (contents s)" by (simp add: min_def)
  with j k have "contents (fold add ps (add p s)) = drop j (drop ?k (contents s) @ ?rest)" by simp
  also have "drop ?k (contents s) @ ?rest = drop ?k (contents s @ ?rest)" by simp
  also have "drop j \<dots> = drop (j + ?k) (contents s @ ?rest)" by (simp only: drop_drop)
  finally show ?case by (intro exI [of _ "j + ?k"]) (cases "p = []", simp_all)
qed

end

lemma evict_suffix: "\<exists>k. fst (evict cap len sz cs) = drop k cs"
proof (induction cs arbitrary: sz)
  case (Cons c cs)
  show ?case
  proof (cases "sz + len > cap")
    case True
    obtain k where "fst (evict cap len (sz - int (length c)) cs) = drop k cs" using Cons by blast
    with True have "fst (evict cap len sz (c # cs)) = drop (Suc k) (c # cs)" by simp
    then show ?thesis by blast
  qed (use drop0 in \<open>metis evict.simps(2) fst_conv\<close>)
qed simp

lemma evict_size: "sz = total_bytes cs \<Longrightarrow> snd (evict cap len sz cs) = total_bytes (fst (evict cap len sz cs))"
  by (induction cs arbitrary: sz) auto

lemma evict_fits: "fst (evict cap len sz cs) \<noteq> [] \<Longrightarrow> snd (evict cap len sz cs) + len \<le> cap"
  by (induction cs arbitrary: sz) (auto split: if_splits)

interpretation staging_fifo: chunk_fifo sb_chunks sb_size staging_write
proof
  fix p :: chunk and s :: staging
  obtain k where k: "fst (evict (sb_cap s) (int (length p)) (sb_size s) (sb_chunks s)) = drop k (sb_chunks s)"
    using evict_suffix by blast
  show "\<exists>k. sb_chunks (staging_write p s) = drop k (sb_chunks s) @ (if p = [] then [] else [p])"
  proof (cases "p = []")
    case True
    then have "sb_chunks (staging_write p s) = drop 0 (sb_chunks s) @ (if p = [] then [] else [p])"
      by (simp add: staging_write_def)
    then show ?thesis by blast
  next
    case False
    with k have "sb_chunks (staging_write p s) = drop k (sb_chunks s) @ (if p = [] then [] else [p])"
      by (auto simp: staging_write_def split: prod.splits)
    then show ?thesis by blast
  qed
  show "sb_size s = total_bytes (sb_chunks s) \<Longrightarrow> sb_size (staging_write p s) = total_bytes (sb_chunks (staging_write p s))"
    using evict_size [of "sb_size s" "sb_chunks s" "sb_cap s" "int (length p)"]
    by (auto simp: staging_write_def split: prod.splits)
qed

interpretation queue_fifo: chunk_fifo q_chunks q_bytes q_push
proof
  show "\<exists>k. q_chunks (q_push p s) = drop k (q_chunks s) @ (if p = [] then [] else [p])" for p s
    by (rule exI [of _ 0]) (simp add: q_push_def)
  show "q_bytes s = total_bytes (q_chunks s) \<Longrightarrow> q_bytes (q_push p s) = total_bytes (q_chunks (q_push p s))" for p s
    by (simp add: q_push_def)
qed

lemma q_pushes: "q_chunks (fold q_push ps q) = q_chunks q @ filter (\<lambda>p. p \<noteq> []) ps"
  by (induction ps arbitrary: q) (auto simp: q_push_def)

lemma q_push_frame [simp]:
  "q_closed (q_push b q) = q_closed q" "q_exit (q_push b q) = q_exit q" "q_paused (q_push b q) = q_paused q"
  "q_high (q_push b q) = q_high q" "q_low (q_push b q) = q_low q"
  by (simp_all add: q_push_def)

lemma q_pushes_frame [simp]:
  "q_closed (fold q_push bs q) = q_closed q" "q_exit (fold q_push bs q) = q_exit q"
  by (induction bs arbitrary: q) auto

lemma staging_bound:
  assumes "sb_size b = total_bytes (sb_chunks b)" and "p \<noteq> []"
  shows "sb_size (staging_write p b) \<le> sb_cap b \<or> sb_chunks (staging_write p b) = [p]"
  using assms evict_fits [of "sb_cap b" "int (length p)" "sb_size b" "sb_chunks b"]
  by (auto simp: staging_write_def split: prod.splits)

lemma staging_write_cap [simp]: "sb_cap (staging_write p b) = sb_cap b"
  by (simp add: staging_write_def split: prod.splits)

section \<open>The reader's protocol\<close>

text \<open>
  The queue as its two users drive it: the reader asks \<open>ShouldRead\<close> before each read of at
  most \<open>n\<close> bytes, the writer pops, and anyone may close.
\<close>

inductive q_step :: "int \<Rightarrow> out_queue \<Rightarrow> out_queue \<Rightarrow> bool" for n where
  read: "q_should_read q = ((True, False), q') \<Longrightarrow> int (length b) \<le> n \<Longrightarrow> q_step n q (q_push b q')"
| hold: "q_should_read q = ((False, c), q') \<Longrightarrow> q_step n q q'"
| pop: "q_pop q = (r, q') \<Longrightarrow> q_step n q q'"
| close: "q_step n q (q_close_abnormal q)"
| exit: "q_step n q (q_close_with_exit code q)"

inductive_cases q_stepE: "q_step n q q'"

definition q_bounded :: "int \<Rightarrow> out_queue \<Rightarrow> bool" where
  "q_bounded n q \<longleftrightarrow> queue_fifo.wf q \<and> q_bytes q < q_high q + n"

lemma q_should_read_frame:
  "q_should_read q = ((r, c), q') \<Longrightarrow> q_chunks q' = q_chunks q \<and> q_bytes q' = q_bytes q \<and> q_high q' = q_high q
     \<and> q_low q' = q_low q \<and> q_closed q' = q_closed q \<and> q_exit q' = q_exit q"
  by (auto simp: q_should_read_def split: if_splits)

lemma q_should_read_room:
  "q_should_read q = ((True, c), q') \<Longrightarrow> q_low q \<le> q_high q \<Longrightarrow> q_bytes q' < q_high q'"
  by (auto simp: q_should_read_def split: if_splits)

lemma q_pop_frame:
  "q_pop q = (r, q') \<Longrightarrow> q_bytes q' \<le> q_bytes q \<and> q_high q' = q_high q \<and> q_low q' = q_low q
     \<and> (queue_fifo.wf q \<longrightarrow> queue_fifo.wf q')"
  by (auto simp: q_pop_def queue_fifo.wf_def split: list.splits if_splits)

lemma q_step_bounded:
  assumes "q_step n q q'" and "q_bounded n q" and "q_low q \<le> q_high q"
  shows "q_bounded n q' \<and> q_low q' \<le> q_high q'"
  using assms
proof (cases rule: q_step.cases)
  case (read q1 b)
  note f = q_should_read_frame [OF read(2)]
  have "queue_fifo.wf q1" using assms(2) f by (simp add: q_bounded_def queue_fifo.wf_def)
  then have "queue_fifo.wf (q_push b q1)" by (rule queue_fifo.wf_add)
  moreover have "q_bytes (q_push b q1) < q_high q1 + n"
    using q_should_read_room [OF read(2) assms(3)] read(3) assms(2) f by (simp add: q_push_def q_bounded_def)
  ultimately show ?thesis using read(1) f assms(3) by (simp add: q_bounded_def)
next
  case (hold c)
  with assms q_should_read_frame [OF hold(1)] show ?thesis by (simp add: q_bounded_def queue_fifo.wf_def)
next
  case (pop r)
  with assms q_pop_frame [OF pop(1)] show ?thesis by (auto simp: q_bounded_def)
qed (auto simp: q_bounded_def queue_fifo.wf_def q_close_abnormal_def q_close_with_exit_def)

section \<open>Properties\<close>

text \<open>The staging buffer holds the most recent non-empty chunks in order, counts their bytes
  exactly, and stays within its capacity unless a single chunk alone exceeds it.\<close>

theorem staging_keeps_recent:
  "\<exists>k. sb_chunks (fold staging_write ps (new_staging cap)) = drop k (filter (\<lambda>p. p \<noteq> []) ps)
     \<and> sb_size (fold staging_write ps (new_staging cap)) = total_bytes (drop k (filter (\<lambda>p. p \<noteq> []) ps))
     \<and> (sb_size (fold staging_write ps (new_staging cap)) \<le> sb_cap (new_staging cap)
        \<or> length (drop k (filter (\<lambda>p. p \<noteq> []) ps)) = 1)"
proof -
  let ?b = "fold staging_write ps (new_staging cap)"
  have wf: "staging_fifo.wf (new_staging cap)" by (simp add: staging_fifo.wf_def new_staging_def)
  obtain k where k: "sb_chunks ?b = drop k (filter (\<lambda>p. p \<noteq> []) ps)"
    using staging_fifo.adds_suffix [of ps "new_staging cap"] by (auto simp: new_staging_def)
  have sz: "sb_size ?b = total_bytes (sb_chunks ?b)"
    using staging_fifo.wf_adds [OF wf] by (simp add: staging_fifo.wf_def)
  have "sb_size (fold staging_write ps b) \<le> sb_cap b \<or> length (sb_chunks (fold staging_write ps b)) = 1"
    if "staging_fifo.wf b" "sb_size b \<le> sb_cap b \<or> length (sb_chunks b) = 1" for b
    using that
  proof (induction ps arbitrary: b)
    case (Cons p ps)
    have "sb_size (staging_write p b) \<le> sb_cap b \<or> length (sb_chunks (staging_write p b)) = 1"
      using staging_bound [of b p] Cons.prems by (cases "p = []") (auto simp: staging_fifo.wf_def staging_write_def)
    with Cons.IH [of "staging_write p b"] staging_fifo.wf_add [OF Cons.prems(1)] show ?case by simp
  qed simp
  from this [OF wf] have "sb_size ?b \<le> sb_cap (new_staging cap) \<or> length (sb_chunks ?b) = 1"
    by (auto simp: new_staging_def default_staging_capacity_def)
  with k sz show ?thesis by metis
qed

text \<open>Back-pressure bounds memory: a reader that asks \<open>ShouldRead\<close> before each read of at
  most \<open>n\<close> bytes never lets the queue reach the high watermark plus \<open>n\<close>, and the byte count
  stays exact, whatever the interleaving with pops and closes.\<close>

theorem queue_bounded:
  assumes "(q_step n)\<^sup>*\<^sup>* (new_output_queue high low) q" and "low \<le> high" and "0 < high" and "0 < n"
  shows "q_bytes q < high + n \<and> q_bytes q = total_bytes (q_chunks q)"
proof -
  have "q_bounded n q \<and> q_low q \<le> q_high q \<and> q_high q = high"
    using assms(1)
  proof (induction rule: rtranclp_induct)
    case base
    then show ?case using assms by (simp add: q_bounded_def queue_fifo.wf_def new_output_queue_def)
  next
    case (step y z)
    have "q_high z = q_high y" using step.hyps(2)
      by (rule q_stepE) (auto dest!: q_should_read_frame q_pop_frame simp: q_close_abnormal_def q_close_with_exit_def)
    with step q_step_bounded show ?case by auto
  qed
  then show ?thesis by (auto simp: q_bounded_def queue_fifo.wf_def)
qed

lemma queue_bounded_witness:
  "q_bytes (q_push [1, 2, 3] (new_output_queue 2 1)) < 2 + 4
   \<and> q_bytes (q_push [1, 2, 3] (new_output_queue 2 1)) = total_bytes (q_chunks (q_push [1, 2, 3] (new_output_queue 2 1)))"
proof (rule queue_bounded)
  have "q_step 4 (new_output_queue 2 1) (q_push [1, 2, 3] (new_output_queue 2 1))"
    by (rule q_step.read) (simp_all add: q_should_read_def new_output_queue_def)
  then show "(q_step 4)\<^sup>*\<^sup>* (new_output_queue 2 1) (q_push [1, 2, 3] (new_output_queue 2 1))" by blast
qed simp_all

end
