(* ===== verification/Attachment.thy ===== *)
theory Attachment
  imports TerminalBuffers "HOL-Library.Sublist"
begin

text \<open>
  \<open>hub/internal/terminal/attachment.go\<close>: one attached client.  The operations act on the
  attachment's state and append what they do to the process, the peer and the manager to a
  log.  The three goroutines and the starting one interleave in \<open>att_step\<close>, whose steps are
  the code's critical sections; \<open>ay_history\<close> records the chunks read from the process.
\<close>

section \<open>State\<close>

definition status_normal_closure :: int where "status_normal_closure = 1000"

datatype effect =
    SendReady string int int
  | SendBinary chunk
  | SendFailed chunk
  | SendExit int
  | SendPong
  | PeerClose int string
  | PeerCloseNow
  | ProcDetach
  | ProcWait
  | ProcClose
  | ProcResize int int
  | ProcWrite chunk
  | CtxCancel
  | Untracked
  | ResizeHook int int

text \<open>A decoded control message; undecodable JSON is None.\<close>

record client_message =
  cm_type :: string
  cm_cols :: int
  cm_rows :: int

record attachment =
  at_host :: string
  at_epoch :: nat
  at_opts :: options
  at_session :: string
  at_cols :: int
  at_rows :: int
  at_ready :: bool
  at_stage :: staging
  at_queue :: out_queue
  at_cancelled :: bool
  at_finished :: bool
  at_log :: "effect list"

definition new_attachment :: "options \<Rightarrow> string \<Rightarrow> int \<Rightarrow> int \<Rightarrow> attachment" where
  "new_attachment opts sess cols rows =
     \<lparr> at_host = [], at_epoch = 0, at_opts = opts, at_session = sess, at_cols = cols, at_rows = rows,
       at_ready = False, at_stage = new_staging (o_staging_bytes opts),
       at_queue = new_output_queue (o_high_water opts) (o_low_water opts),
       at_cancelled = False, at_finished = False, at_log = [] \<rparr>"

definition with_host :: "string \<Rightarrow> attachment \<Rightarrow> attachment" where
  "with_host h a = a\<lparr>at_host := h\<rparr>"

definition with_epoch :: "nat \<Rightarrow> attachment \<Rightarrow> attachment" where
  "with_epoch e a = a\<lparr>at_epoch := e\<rparr>"

definition emit :: "effect list \<Rightarrow> attachment \<Rightarrow> attachment" where
  "emit es a = a\<lparr>at_log := at_log a @ es\<rparr>"

definition on_queue :: "(out_queue \<Rightarrow> out_queue) \<Rightarrow> attachment \<Rightarrow> attachment" where
  "on_queue f a = a\<lparr>at_queue := f (at_queue a)\<rparr>"

section \<open>Operations\<close>

definition cancel_ctx :: "attachment \<Rightarrow> attachment" where
  "cancel_ctx a = emit [CtxCancel] (a\<lparr>at_cancelled := True\<rparr>)"

definition finish :: "attachment \<Rightarrow> attachment" where
  "finish a = (if at_finished a then a else emit [Untracked] (cancel_ctx (a\<lparr>at_finished := True\<rparr>)))"

definition mark_ready_and_flush :: "attachment \<Rightarrow> attachment" where
  "mark_ready_and_flush a =
     (case staging_drain (at_stage a) of
        (cs, st) \<Rightarrow> a\<lparr>at_ready := True, at_stage := st, at_queue := fold q_push cs (at_queue a)\<rparr>)"

text \<open>\<open>deliver\<close> holds the lock only to look at \<open>ready\<close>: the left result is a chunk that is to be
  pushed after the lock is released.\<close>

definition deliver_locked :: "chunk \<Rightarrow> attachment \<Rightarrow> chunk option \<times> attachment" where
  "deliver_locked b a =
     (if \<not> at_ready a then (None, a\<lparr>at_stage := staging_write b (at_stage a)\<rparr>) else (Some b, a))"

definition deliver :: "chunk \<Rightarrow> attachment \<Rightarrow> attachment" where
  "deliver b a =
     (case deliver_locked b a of
        (None, a') \<Rightarrow> a'
      | (Some c, a') \<Rightarrow> on_queue (q_push c) a')"

datatype pump = PumpRead | PumpHold | PumpStop

text \<open>The head of the output loop: stop on cancellation or a closed queue, wait out the poll
  interval under back-pressure, read otherwise.\<close>

definition output_pump_head :: "attachment \<Rightarrow> pump \<times> attachment" where
  "output_pump_head a =
     (if at_cancelled a then (PumpStop, emit [ProcDetach, ProcWait] a)
      else (case q_should_read (at_queue a) of
          ((read, closed), q) \<Rightarrow>
            (let a' = a\<lparr>at_queue := q\<rparr> in
             if closed then (PumpStop, emit [ProcDetach, ProcWait] a')
             else if \<not> read then (PumpHold, a')
             else (PumpRead, a'))))"

definition on_output_end :: "int option \<Rightarrow> attachment \<Rightarrow> attachment" where
  "on_output_end code a = on_queue (q_close_with_exit code) (emit [ProcClose, ProcWait] a)"

text \<open>One iteration of the write loop; \<open>ok\<close> is the outcome of the send.  The result tells
  whether the loop goes on.\<close>

definition write_pump_step :: "bool \<Rightarrow> attachment \<Rightarrow> bool \<times> attachment" where
  "write_pump_step ok a =
     (case q_pop (at_queue a) of
        (Popped c, q) \<Rightarrow>
          (let a' = a\<lparr>at_queue := q\<rparr> in
           if ok then (True, emit [SendBinary c] a')
           else (False, finish (emit [SendFailed c, ProcDetach, PeerCloseNow] (on_queue q_close_abnormal a'))))
      | (PopEnd, q) \<Rightarrow>
          (False, finish (emit ((case q_exit q of Some code \<Rightarrow> [SendExit code] | None \<Rightarrow> [])
                                @ [PeerClose status_normal_closure []]) (a\<lparr>at_queue := q\<rparr>)))
      | (PopBlocked, q) \<Rightarrow> (True, a))"

definition chunk_size :: "attachment \<Rightarrow> nat" where
  "chunk_size a = (if o_input_chunk (at_opts a) \<le> 0 then 32768 else nat (o_input_chunk (at_opts a)))"

text \<open>The input loop writes in pieces of at most the chunk size and stops at the first failed
  write; \<open>ok\<close> says whether the process takes a piece.\<close>

function write_pieces :: "(chunk \<Rightarrow> bool) \<Rightarrow> nat \<Rightarrow> chunk \<Rightarrow> attachment \<Rightarrow> attachment" where
  "write_pieces ok n data a =
     (if data = [] \<or> n = 0 \<or> at_cancelled a then a
      else (let piece = take n data in
        if \<not> ok piece then a
        else write_pieces ok n (drop n data) (emit [ProcWrite piece] a)))"
  by pat_completeness auto
termination
  by (relation "measure (\<lambda>(_, _, data, _). length data)") auto

declare write_pieces.simps [simp del]

definition write_input :: "(chunk \<Rightarrow> bool) \<Rightarrow> chunk \<Rightarrow> attachment \<Rightarrow> attachment" where
  "write_input ok data a = write_pieces ok (chunk_size a) data a"

definition apply_resize :: "int \<Rightarrow> int \<Rightarrow> attachment \<Rightarrow> attachment" where
  "apply_resize cols rows a =
     (let m = o_max_dimension (at_opts a) in
      if cols < 1 \<or> cols > m \<or> rows < 1 \<or> rows > m then a
      else emit [ResizeHook cols rows] ((emit [ProcResize cols rows] a)\<lparr>at_cols := cols, at_rows := rows\<rparr>))"

definition handle_control :: "client_message option \<Rightarrow> attachment \<Rightarrow> attachment" where
  "handle_control m a =
     (case m of
        None \<Rightarrow> a
      | Some msg \<Rightarrow>
          if cm_type msg = ''resize'' then apply_resize (cm_cols msg) (cm_rows msg) a
          else if cm_type msg = ''ping'' then emit [SendPong] a
          else a)"

definition min_repaint_rows :: int where "min_repaint_rows = 2"

definition force_repaint :: "attachment \<Rightarrow> attachment" where
  "force_repaint a =
     (if at_rows a < min_repaint_rows then a
      else emit [ProcResize (at_cols a) (at_rows a - 1), ProcResize (at_cols a) (at_rows a)] a)"

definition on_client_gone :: "attachment \<Rightarrow> attachment" where
  "on_client_gone a = finish (emit [ProcDetach] (cancel_ctx (on_queue q_close_abnormal a)))"

definition attachment_shutdown :: "attachment \<Rightarrow> attachment" where
  "attachment_shutdown a =
     finish (emit [ProcDetach, PeerClose status_normal_closure ''hub shutting down'']
              (cancel_ctx (on_queue q_close_abnormal a)))"

definition force_close :: "attachment \<Rightarrow> attachment" where
  "force_close a = finish (emit [ProcDetach, PeerCloseNow] (cancel_ctx (on_queue q_close_abnormal a)))"

datatype message = BinaryMessage chunk | TextMessage "client_message option" | OtherMessage

text \<open>One iteration of the input loop on a message the peer sent, None for a read error.\<close>

definition input_pump_step :: "(chunk \<Rightarrow> bool) \<Rightarrow> message option \<Rightarrow> attachment \<Rightarrow> bool \<times> attachment" where
  "input_pump_step ok m a =
     (case m of
        None \<Rightarrow> (False, on_client_gone a)
      | Some (BinaryMessage d) \<Rightarrow> (True, write_input ok d a)
      | Some (TextMessage t) \<Rightarrow> (True, handle_control t a)
      | Some OtherMessage \<Rightarrow> (True, a))"

definition send_ready :: "attachment \<Rightarrow> attachment" where
  "send_ready a = emit [SendReady (at_session a) (at_cols a) (at_rows a)] a"

section \<open>The goroutines\<close>

text \<open>
  Where each goroutine is.  \<open>ReadPush b e\<close>: a chunk read while ready is about to be pushed;
  \<open>e\<close> is the end of the stream the same read reported, with the exit code \<open>Wait\<close> will give.
\<close>

datatype reader_pc = ReadLoop | ReadPush chunk "int option option" | ReadEnd "int option option" | ReadDone
datatype main_pc = MainReady | MainFlush | MainRepaint | MainDone

record att_sys =
  ay_att :: attachment
  ay_reader :: reader_pc
  ay_writing :: bool
  ay_reading_input :: bool
  ay_main :: main_pc
  ay_history :: "chunk list"

definition start_sys :: "attachment \<Rightarrow> att_sys" where
  "start_sys a = \<lparr> ay_att = a, ay_reader = ReadLoop, ay_writing = True, ay_reading_input = True,
     ay_main = MainReady, ay_history = [] \<rparr>"

inductive att_step :: "att_sys \<Rightarrow> att_sys \<Rightarrow> bool" where
  read_stop: "ay_reader s = ReadLoop \<Longrightarrow> output_pump_head (ay_att s) = (PumpStop, a) \<Longrightarrow>
    att_step s (s\<lparr>ay_att := a, ay_reader := ReadDone\<rparr>)"
| read_hold: "ay_reader s = ReadLoop \<Longrightarrow> output_pump_head (ay_att s) = (PumpHold, a) \<Longrightarrow>
    att_step s (s\<lparr>ay_att := a\<rparr>)"
| read_chunk: "ay_reader s = ReadLoop \<Longrightarrow> output_pump_head (ay_att s) = (PumpRead, a) \<Longrightarrow> b \<noteq> [] \<Longrightarrow>
    deliver_locked b a = (p, a') \<Longrightarrow>
    att_step s (s\<lparr>ay_att := a', ay_history := ay_history s @ [b],
      ay_reader := (case p of Some c \<Rightarrow> ReadPush c e | None \<Rightarrow> ReadEnd e)\<rparr>)"
| read_push: "ay_reader s = ReadPush b e \<Longrightarrow>
    att_step s (s\<lparr>ay_att := on_queue (q_push b) (ay_att s), ay_reader := ReadEnd e\<rparr>)"
| read_more: "ay_reader s = ReadEnd None \<Longrightarrow> att_step s (s\<lparr>ay_reader := ReadLoop\<rparr>)"
| read_eof: "ay_reader s = ReadEnd (Some code) \<Longrightarrow>
    att_step s (s\<lparr>ay_att := on_output_end code (ay_att s), ay_reader := ReadDone\<rparr>)"
| read_empty_eof: "ay_reader s = ReadLoop \<Longrightarrow> output_pump_head (ay_att s) = (PumpRead, a) \<Longrightarrow>
    att_step s (s\<lparr>ay_att := a, ay_reader := ReadEnd (Some code)\<rparr>)"
| writer: "ay_writing s \<Longrightarrow> write_pump_step ok (ay_att s) = (go, a) \<Longrightarrow>
    att_step s (s\<lparr>ay_att := a, ay_writing := go\<rparr>)"
| input_msg: "ay_reading_input s \<Longrightarrow> input_pump_step f m (ay_att s) = (go, a) \<Longrightarrow>
    att_step s (s\<lparr>ay_att := a, ay_reading_input := go\<rparr>)"
| main_ready: "ay_main s = MainReady \<Longrightarrow>
    att_step s (s\<lparr>ay_att := send_ready (ay_att s), ay_main := MainFlush\<rparr>)"
| main_flush: "ay_main s = MainFlush \<Longrightarrow>
    att_step s (s\<lparr>ay_att := mark_ready_and_flush (ay_att s), ay_main := MainRepaint\<rparr>)"
| main_repaint: "ay_main s = MainRepaint \<Longrightarrow>
    att_step s (s\<lparr>ay_att := force_repaint (ay_att s), ay_main := MainDone\<rparr>)"
| shutdown: "att_step s (s\<lparr>ay_att := attachment_shutdown (ay_att s)\<rparr>)"
| force: "att_step s (s\<lparr>ay_att := force_close (ay_att s)\<rparr>)"

inductive_cases att_stepE: "att_step s s'"

section \<open>Order and loss of output\<close>

fun sent :: "effect list \<Rightarrow> chunk list" where
  "sent [] = []"
| "sent (SendBinary c # es) = c # sent es"
| "sent (_ # es) = sent es"

fun lost :: "effect list \<Rightarrow> chunk list" where
  "lost [] = []"
| "lost (SendFailed c # es) = c # lost es"
| "lost (_ # es) = lost es"

lemma sent_append [simp]: "sent (xs @ ys) = sent xs @ sent ys"
  by (induction xs rule: sent.induct) auto

lemma lost_append [simp]: "lost (xs @ ys) = lost xs @ lost ys"
  by (induction xs rule: lost.induct) auto

text \<open>The data an attachment carries; every operation that moves none leaves it as it is.\<close>

definition carried :: "attachment \<Rightarrow> chunk list \<times> chunk list \<times> chunk list \<times> bool \<times> staging" where
  "carried a = (sent (at_log a), lost (at_log a), q_chunks (at_queue a), at_ready a, at_stage a)"

lemma carried_emit: "sent es = [] \<Longrightarrow> lost es = [] \<Longrightarrow> carried (emit es a) = carried a"
  by (simp add: carried_def emit_def)

lemma carried_cancel [simp]: "carried (cancel_ctx a) = carried a"
  by (simp add: carried_def cancel_ctx_def emit_def)

lemma carried_finish [simp]: "carried (finish a) = carried a"
  by (simp add: carried_def finish_def cancel_ctx_def emit_def)

lemma carried_close [simp]:
  "carried (on_queue q_close_abnormal a) = carried a"
  "carried (on_queue (q_close_with_exit c) a) = carried a"
  by (simp_all add: carried_def on_queue_def q_close_abnormal_def q_close_with_exit_def)

lemma carried_pieces: "carried (write_pieces ok n data a) = carried a"
proof (induction ok n data a rule: write_pieces.induct)
  case (1 ok n data a)
  then show ?case
    by (subst write_pieces.simps) (auto simp: Let_def carried_emit)
qed

lemma carried_resize [simp]: "carried (apply_resize c r a) = carried a"
  by (simp add: apply_resize_def Let_def carried_def emit_def)

lemma carried_control [simp]: "carried (handle_control m a) = carried a"
  by (auto simp: handle_control_def carried_emit split: option.splits)

lemma carried_idle [simp]:
  "carried (on_client_gone a) = carried a"
  "carried (attachment_shutdown a) = carried a"
  "carried (force_close a) = carried a"
  "carried (send_ready a) = carried a"
  "carried (force_repaint a) = carried a"
  "carried (on_output_end code a) = carried a"
  by (simp_all add: on_client_gone_def attachment_shutdown_def force_close_def send_ready_def
      force_repaint_def on_output_end_def carried_emit)

lemma carried_input: "input_pump_step f m a = (go, a') \<Longrightarrow> carried a' = carried a"
  by (auto simp: input_pump_step_def write_input_def carried_pieces split: option.splits message.splits)

lemma carried_head: "output_pump_head a = (p, a') \<Longrightarrow> carried a' = carried a"
  by (auto simp: output_pump_head_def Let_def carried_def emit_def split: prod.splits if_splits
      dest!: q_should_read_frame)

fun in_push :: "reader_pc \<Rightarrow> chunk list" where
  "in_push (ReadPush b e) = [b]"
| "in_push _ = []"

definition in_order :: "att_sys \<Rightarrow> bool" where
  "in_order s \<longleftrightarrow>
     (case carried (ay_att s) of (snt, lst, queued, ready, stage) \<Rightarrow>
        suffix (snt @ lst @ queued @ in_push (ay_reader s) @ sb_chunks stage) (ay_history s)
        \<and> [] \<notin> set (sb_chunks stage) \<and> [] \<notin> set (in_push (ay_reader s))
        \<and> (ready \<longleftrightarrow> ay_main s \<in> {MainRepaint, MainDone})
        \<and> (if ready then sb_chunks stage = []
           else snt = [] \<and> lst = [] \<and> queued = [] \<and> in_push (ay_reader s) = [])
        \<and> (ay_writing s \<longrightarrow> lst = []))"

lemma in_order_same:
  "in_order s \<Longrightarrow> carried a = carried (ay_att s) \<Longrightarrow> in_push r = in_push (ay_reader s) \<Longrightarrow>
     (m \<in> {MainRepaint, MainDone} \<longleftrightarrow> ay_main s \<in> {MainRepaint, MainDone}) \<Longrightarrow> (w \<longrightarrow> ay_writing s) \<Longrightarrow>
     in_order \<lparr> ay_att = a, ay_reader = r, ay_writing = w, ay_reading_input = i, ay_main = m,
        ay_history = ay_history s \<rparr>"
  by (auto simp: in_order_def)

lemma in_order_read:
  assumes "in_order s" and "ay_reader s = ReadLoop" and a: "carried a = carried (ay_att s)" and b: "b \<noteq> []"
    and d: "deliver_locked b a = (p, a')"
  shows "in_order (s\<lparr>ay_att := a', ay_history := ay_history s @ [b],
      ay_reader := (case p of Some c \<Rightarrow> ReadPush c e | None \<Rightarrow> ReadEnd e)\<rparr>)"
proof (cases "at_ready a")
  case True
  with assms show ?thesis
    by (auto simp: in_order_def deliver_locked_def carried_def suffix_def)
next
  case False
  obtain j where j: "sb_chunks (staging_write b (at_stage a)) = drop j (sb_chunks (at_stage a)) @ [b]"
    using staging_fifo.add_suffix [of b "at_stage a"] b by auto
  have suf: "suffix (drop j st @ [b]) (h @ [b])" if "suffix st h" for st h :: "chunk list"
    using that by (metis append_take_drop_id same_append_eq suffix_appendI suffix_def append_assoc)
  with False assms j show ?thesis
    by (auto simp: in_order_def deliver_locked_def carried_def dest: in_set_dropD)
qed

lemma in_order_write:
  assumes s: "in_order s" and w: "ay_writing s" and st: "write_pump_step ok (ay_att s) = (go, a)"
  shows "in_order (s\<lparr>ay_att := a, ay_writing := go\<rparr>)"
proof (cases "q_chunks (at_queue (ay_att s))")
  case Nil
  have "carried a = carried (ay_att s)"
  proof (cases "q_closed (at_queue (ay_att s))")
    case True
    let ?a = "ay_att s" and ?q = "at_queue (ay_att s)"
    have "a = finish (emit ((case q_exit ?q of Some code \<Rightarrow> [SendExit code] | None \<Rightarrow> [])
        @ [PeerClose status_normal_closure []]) (?a\<lparr>at_queue := ?q\<rparr>))"
      using Nil st True by (simp add: write_pump_step_def q_pop_def)
    then show ?thesis by (cases "q_exit ?q") (simp_all add: carried_emit)
  next
    case False
    with Nil st show ?thesis by (simp add: write_pump_step_def q_pop_def)
  qed
  with s w show ?thesis by (auto simp: in_order_def)
next
  case (Cons c cs)
  have ready: "at_ready (ay_att s)" using s Cons by (auto simp: in_order_def carried_def split: if_splits)
  let ?q = "(at_queue (ay_att s))\<lparr>q_chunks := cs, q_bytes := q_bytes (at_queue (ay_att s)) - int (length c)\<rparr>"
  have "carried a = (if ok then (sent (at_log (ay_att s)) @ [c], lost (at_log (ay_att s)), cs, True, at_stage (ay_att s))
      else (sent (at_log (ay_att s)), lost (at_log (ay_att s)) @ [c], cs, True, at_stage (ay_att s)))"
    using st Cons ready
    by (auto simp: write_pump_step_def q_pop_def Let_def)
       (auto simp: carried_def emit_def on_queue_def q_close_abnormal_def)
  moreover have "go = ok" using st Cons by (auto simp: write_pump_step_def q_pop_def Let_def split: if_splits)
  ultimately show ?thesis using s w Cons ready
    by (auto simp: in_order_def carried_def)
qed

lemma in_order_flush:
  assumes "in_order s" and "ay_main s = MainFlush"
  shows "in_order (s\<lparr>ay_att := mark_ready_and_flush (ay_att s), ay_main := MainRepaint\<rparr>)"
proof -
  have "filter (\<lambda>p. p \<noteq> []) (sb_chunks (at_stage (ay_att s))) = sb_chunks (at_stage (ay_att s))"
    using assms by (auto simp: in_order_def carried_def filter_id_conv)
  with assms show ?thesis
    by (auto simp: in_order_def carried_def mark_ready_and_flush_def staging_drain_def q_pushes)
qed

lemma att_step_in_order: "att_step s s' \<Longrightarrow> in_order s \<Longrightarrow> in_order s'"
proof (induction rule: att_step.induct)
  case (read_chunk s a b p a' e)
  then show ?case by (intro in_order_read [where a = a]) (auto dest: carried_head)
next
  case (writer s ok go a)
  then show ?case by (intro in_order_write)
next
  case (main_flush s)
  then show ?case by (intro in_order_flush)
next
  case (read_push s b e)
  then show ?case by (auto simp: in_order_def carried_def on_queue_def q_push_def)
next
  case (input_msg s f m go a)
  then show ?case by (auto simp: in_order_def dest!: carried_input)
next
  case (read_stop s a)
  then show ?case by (auto simp: in_order_def dest!: carried_head)
next
  case (read_hold s a)
  then show ?case by (auto simp: in_order_def dest!: carried_head)
next
  case (read_empty_eof s a code)
  then show ?case by (auto simp: in_order_def dest!: carried_head)
qed (auto simp: in_order_def)

section \<open>Closing once, and dimensions in range\<close>

definition in_range :: "attachment \<Rightarrow> int \<Rightarrow> int \<Rightarrow> bool" where
  "in_range a c r \<longleftrightarrow> 1 \<le> c \<and> c \<le> o_max_dimension (at_opts a) \<and> 1 \<le> r \<and> r \<le> o_max_dimension (at_opts a)"

definition orderly :: "attachment \<Rightarrow> bool" where
  "orderly a \<longleftrightarrow> in_range a (at_cols a) (at_rows a)
     \<and> (\<forall>c r. ProcResize c r \<in> set (at_log a) \<longrightarrow> in_range a c r)
     \<and> count_list (at_log a) Untracked = (if at_finished a then 1 else 0)"

lemma count_list_append [simp]: "count_list (xs @ ys) x = count_list xs x + count_list ys x"
  by (induction xs) auto

lemma orderly_emit:
  "orderly a \<Longrightarrow> Untracked \<notin> set es \<Longrightarrow> (\<And>c r. ProcResize c r \<in> set es \<Longrightarrow> in_range a c r) \<Longrightarrow> orderly (emit es a)"
  by (auto simp: orderly_def emit_def in_range_def count_notin)

lemma orderly_frame [simp]:
  "orderly (a\<lparr>at_queue := q\<rparr>) = orderly a" "orderly (a\<lparr>at_cancelled := b\<rparr>) = orderly a"
  "orderly (a\<lparr>at_stage := st\<rparr>) = orderly a" "orderly (a\<lparr>at_ready := b\<rparr>) = orderly a"
  "orderly (on_queue f a) = orderly a"
  by (simp_all add: orderly_def in_range_def on_queue_def)

lemma orderly_cancel: "orderly a \<Longrightarrow> orderly (cancel_ctx a)"
  unfolding cancel_ctx_def by (rule orderly_emit) auto

lemma orderly_finish: "orderly a \<Longrightarrow> orderly (finish a)"
  by (auto simp: finish_def cancel_ctx_def orderly_def emit_def in_range_def)

lemma orderly_pieces: "orderly a \<Longrightarrow> orderly (write_pieces ok n data a)"
proof (induction ok n data a rule: write_pieces.induct)
  case (1 ok n data a)
  have "orderly (emit [ProcWrite (take n data)] a)" by (rule orderly_emit [OF 1(2)]) auto
  with 1 show ?case by (subst write_pieces.simps) (auto simp: Let_def)
qed

lemma orderly_resize: "orderly a \<Longrightarrow> orderly (apply_resize c r a)"
  by (auto simp: apply_resize_def Let_def orderly_def emit_def in_range_def)

lemma orderly_control: "orderly a \<Longrightarrow> orderly (handle_control m a)"
  by (auto simp: handle_control_def intro: orderly_emit orderly_resize split: option.splits)

lemma orderly_repaint: "orderly a \<Longrightarrow> orderly (force_repaint a)"
  by (auto simp: force_repaint_def min_repaint_rows_def orderly_def emit_def in_range_def)

lemma orderly_closers:
  "orderly a \<Longrightarrow> orderly (on_client_gone a)" "orderly a \<Longrightarrow> orderly (attachment_shutdown a)"
  "orderly a \<Longrightarrow> orderly (force_close a)"
  by (auto simp: on_client_gone_def attachment_shutdown_def force_close_def
      intro!: orderly_finish orderly_emit orderly_cancel)

lemma orderly_head: "output_pump_head a = (p, a') \<Longrightarrow> orderly a \<Longrightarrow> orderly a'"
  by (auto simp: output_pump_head_def Let_def intro!: orderly_emit split: prod.splits if_splits)

lemma orderly_deliver: "deliver_locked b a = (p, a') \<Longrightarrow> orderly a \<Longrightarrow> orderly a'"
  by (auto simp: deliver_locked_def split: if_splits)

lemma orderly_write: "write_pump_step ok a = (go, a') \<Longrightarrow> orderly a \<Longrightarrow> orderly a'"
  by (auto simp: write_pump_step_def Let_def intro!: orderly_finish orderly_emit
      split: prod.splits pop_result.splits if_splits option.splits)

lemma orderly_input: "input_pump_step f m a = (go, a') \<Longrightarrow> orderly a \<Longrightarrow> orderly a'"
  by (auto simp: input_pump_step_def write_input_def intro: orderly_pieces orderly_control orderly_closers
      split: option.splits message.splits)

lemma att_step_orderly: "att_step s s' \<Longrightarrow> orderly (ay_att s) \<Longrightarrow> orderly (ay_att s')"
  by (induction rule: att_step.induct)
     (auto intro: orderly_head orderly_write orderly_input orderly_repaint orderly_closers
       intro!: orderly_emit dest: orderly_deliver [rotated, OF orderly_head]
       simp: mark_ready_and_flush_def staging_drain_def send_ready_def on_output_end_def)

section \<open>The exit frame\<close>

definition exit_sent :: "attachment \<Rightarrow> bool" where
  "exit_sent a \<longleftrightarrow> (\<exists>code. SendExit code \<in> set (at_log a))"

definition exit_inv :: "att_sys \<Rightarrow> bool" where
  "exit_inv s \<longleftrightarrow>
     (q_exit (at_queue (ay_att s)) \<noteq> None \<longrightarrow> ay_reader s = ReadDone)
     \<and> (exit_sent (ay_att s) \<longrightarrow> \<not> ay_writing s \<and> ay_reader s = ReadDone)"

definition exit_frame :: "attachment \<Rightarrow> bool \<times> int option" where
  "exit_frame a = (exit_sent a, q_exit (at_queue a))"

lemma exit_frame_emit: "(\<And>c. SendExit c \<notin> set es) \<Longrightarrow> exit_frame (emit es a) = exit_frame a"
  by (auto simp: exit_frame_def exit_sent_def emit_def)

lemma exit_frame_idle [simp]:
  "exit_frame (cancel_ctx a) = exit_frame a" "exit_frame (finish a) = exit_frame a"
  "exit_frame (on_queue q_close_abnormal a) = exit_frame a"
  "exit_frame (on_client_gone a) = exit_frame a" "exit_frame (attachment_shutdown a) = exit_frame a"
  "exit_frame (force_close a) = exit_frame a" "exit_frame (send_ready a) = exit_frame a"
  "exit_frame (force_repaint a) = exit_frame a" "exit_frame (apply_resize c r a) = exit_frame a"
  "exit_frame (on_queue (q_push b) a) = exit_frame a" "exit_frame (mark_ready_and_flush a) = exit_frame a"
  by (auto simp: exit_frame_def exit_sent_def emit_def cancel_ctx_def finish_def on_queue_def
      q_close_abnormal_def on_client_gone_def attachment_shutdown_def force_close_def send_ready_def
      force_repaint_def apply_resize_def Let_def mark_ready_and_flush_def staging_drain_def)

lemma exit_frame_pieces: "exit_frame (write_pieces ok n data a) = exit_frame a"
proof (induction ok n data a rule: write_pieces.induct)
  case (1 ok n data a)
  then show ?case by (subst write_pieces.simps) (auto simp: Let_def exit_frame_emit)
qed

lemma exit_frame_input: "input_pump_step f m a = (go, a') \<Longrightarrow> exit_frame a' = exit_frame a"
  by (auto simp: input_pump_step_def write_input_def exit_frame_pieces handle_control_def exit_frame_emit
      split: option.splits message.splits)

lemma exit_frame_head: "output_pump_head a = (p, a') \<Longrightarrow> exit_frame a' = exit_frame a"
  by (auto simp: output_pump_head_def Let_def exit_frame_def exit_sent_def emit_def split: prod.splits if_splits
      dest!: q_should_read_frame)

lemma exit_frame_deliver: "deliver_locked b a = (p, a') \<Longrightarrow> exit_frame a' = exit_frame a"
  by (auto simp: deliver_locked_def exit_frame_def exit_sent_def split: if_splits)

lemma exit_frame_write:
  "write_pump_step ok a = (go, a') \<Longrightarrow> q_exit (at_queue a') = q_exit (at_queue a)
     \<and> (exit_sent a' \<longrightarrow> exit_sent a \<or> (\<not> go \<and> q_exit (at_queue a) \<noteq> None \<and> q_chunks (at_queue a') = []))"
  by (auto simp: write_pump_step_def q_pop_def Let_def exit_sent_def emit_def finish_def cancel_ctx_def
      on_queue_def q_close_abnormal_def split: list.splits if_splits option.splits)

lemma att_step_exit_inv: "att_step s s' \<Longrightarrow> exit_inv s \<Longrightarrow> exit_inv s'"
proof (induction rule: att_step.induct)
  case (writer s ok go a)
  then show ?case using exit_frame_write [OF writer(2)] by (auto simp: exit_inv_def)
next
  case (read_eof s code)
  then show ?case
    by (auto simp: exit_inv_def on_output_end_def on_queue_def q_close_with_exit_def exit_sent_def emit_def)
next
  case (read_chunk s a b p a' e)
  then show ?case using exit_frame_head [OF read_chunk(2)] exit_frame_deliver [OF read_chunk(4)]
    by (auto simp: exit_inv_def exit_frame_def)
next
  case (read_stop s a)
  then show ?case using exit_frame_head [OF read_stop(2)] by (auto simp: exit_inv_def exit_frame_def)
next
  case (read_hold s a)
  then show ?case using exit_frame_head [OF read_hold(2)] by (auto simp: exit_inv_def exit_frame_def)
next
  case (read_empty_eof s a code)
  then show ?case using exit_frame_head [OF read_empty_eof(2)] by (auto simp: exit_inv_def exit_frame_def)
next
  case (input_msg s f m go a)
  then show ?case using exit_frame_input [OF input_msg(2)] by (auto simp: exit_inv_def exit_frame_def)
next
  case (read_push s b e)
  then show ?case using exit_frame_idle(10) [of b "ay_att s"] by (auto simp: exit_inv_def exit_frame_def)
next
  case (main_ready s)
  then show ?case using exit_frame_idle(7) [of "ay_att s"] by (auto simp: exit_inv_def exit_frame_def)
next
  case (main_flush s)
  then show ?case using exit_frame_idle(11) [of "ay_att s"] by (auto simp: exit_inv_def exit_frame_def)
next
  case (main_repaint s)
  then show ?case using exit_frame_idle(8) [of "ay_att s"] by (auto simp: exit_inv_def exit_frame_def)
next
  case (shutdown s)
  then show ?case using exit_frame_idle(5) [of "ay_att s"] by (auto simp: exit_inv_def exit_frame_def)
next
  case (force s)
  then show ?case using exit_frame_idle(6) [of "ay_att s"] by (auto simp: exit_inv_def exit_frame_def)
qed (auto simp: exit_inv_def)

text \<open>From a flushed attachment on: an exit frame leaves nothing unsent behind it.\<close>

definition flushed_inv :: "att_sys \<Rightarrow> bool" where
  "flushed_inv s \<longleftrightarrow> in_order s \<and> exit_inv s \<and> at_ready (ay_att s)
     \<and> (exit_sent (ay_att s) \<longrightarrow> lost (at_log (ay_att s)) = [] \<and> q_chunks (at_queue (ay_att s)) = [])"

lemma ready_carried: "carried a = carried b \<Longrightarrow> at_ready a = at_ready b \<and> lost (at_log a) = lost (at_log b)
    \<and> q_chunks (at_queue a) = q_chunks (at_queue b)"
  by (simp add: carried_def)

lemma flushed_same:
  "flushed_inv s \<Longrightarrow> in_order s' \<Longrightarrow> exit_inv s' \<Longrightarrow> carried (ay_att s') = carried (ay_att s) \<Longrightarrow>
     exit_sent (ay_att s') = exit_sent (ay_att s) \<Longrightarrow> flushed_inv s'"
  using ready_carried [of "ay_att s'" "ay_att s"] by (simp add: flushed_inv_def)

lemma write_pump_ready: "write_pump_step ok a = (go, a') \<Longrightarrow> at_ready a' = at_ready a"
  by (auto simp: write_pump_step_def Let_def emit_def finish_def cancel_ctx_def on_queue_def
      split: prod.splits pop_result.splits if_splits option.splits)

lemma write_pump_lost: "write_pump_step ok a = (False, a') \<Longrightarrow> exit_sent a' \<Longrightarrow> \<not> exit_sent a \<Longrightarrow>
    lost (at_log a') = lost (at_log a)"
  by (auto simp: write_pump_step_def Let_def emit_def finish_def cancel_ctx_def on_queue_def exit_sent_def
      split: prod.splits pop_result.splits if_splits option.splits)

lemma att_step_flushed: "att_step s s' \<Longrightarrow> flushed_inv s \<Longrightarrow> flushed_inv s'"
proof -
  assume st: "att_step s s'" and inv: "flushed_inv s"
  then have o': "in_order s'" and e': "exit_inv s'"
    using att_step_in_order att_step_exit_inv by (auto simp: flushed_inv_def)
  note same = flushed_same [OF inv o' e']
  from st show ?thesis
  proof (cases rule: att_step.cases)
    case (writer ok go a)
    show ?thesis
    proof (cases "exit_sent a")
      case True
      have ne: "\<not> exit_sent (ay_att s)" using inv writer by (auto simp: flushed_inv_def exit_inv_def)
      with True exit_frame_write [OF writer(3)] have go: "\<not> go" "q_chunks (at_queue a) = []" by auto
      have "lost (at_log a) = lost (at_log (ay_att s))"
        using write_pump_lost [of ok "ay_att s" a] writer(3) go True ne by simp
      moreover have "lost (at_log (ay_att s)) = []"
        using inv writer(2) by (auto simp: flushed_inv_def in_order_def carried_def)
      ultimately show ?thesis
        using inv o' e' go write_pump_ready [OF writer(3)] writer(1) by (simp add: flushed_inv_def)
    qed (use inv o' e' write_pump_ready [OF writer(3)] writer(1) in \<open>simp add: flushed_inv_def\<close>)
  next
    case (read_chunk a b p a' e)
    then have "\<not> exit_sent (ay_att s)" using inv by (auto simp: flushed_inv_def exit_inv_def)
    moreover have "exit_sent a' = exit_sent (ay_att s)"
      using exit_frame_head [OF read_chunk(3)] exit_frame_deliver [OF read_chunk(5)] by (simp add: exit_frame_def)
    moreover have "at_ready a' = at_ready (ay_att s)"
      using ready_carried [OF carried_head [OF read_chunk(3)]] read_chunk(5)
      by (auto simp: deliver_locked_def split: if_splits)
    ultimately show ?thesis using inv o' e' read_chunk(1) by (simp add: flushed_inv_def)
  next
    case (read_push b e)
    then have "\<not> exit_sent (ay_att s)" using inv by (auto simp: flushed_inv_def exit_inv_def)
    then show ?thesis using inv o' e' read_push
      by (simp add: flushed_inv_def exit_sent_def on_queue_def)
  next
    case main_flush
    then have "\<not> at_ready (ay_att s)" using inv by (auto simp: flushed_inv_def in_order_def carried_def)
    with inv show ?thesis by (simp add: flushed_inv_def)
  next
    case (read_stop a)
    then show ?thesis using carried_head exit_frame_head by (intro same) (auto simp: exit_frame_def)
  next
    case (read_hold a)
    then show ?thesis using carried_head exit_frame_head by (intro same) (auto simp: exit_frame_def)
  next
    case (read_empty_eof a code)
    then show ?thesis using carried_head exit_frame_head by (intro same) (auto simp: exit_frame_def)
  next
    case (input_msg f m go a)
    then show ?thesis using carried_input exit_frame_input by (intro same) (auto simp: exit_frame_def)
  next
    case (read_eof code)
    then show ?thesis
      by (intro same) (auto simp: on_output_end_def on_queue_def emit_def exit_sent_def carried_def q_close_with_exit_def)
  next
    case main_ready
    then show ?thesis using exit_frame_idle(7) [of "ay_att s"] by (intro same) (auto simp: exit_frame_def)
  next
    case main_repaint
    then show ?thesis using exit_frame_idle(8) [of "ay_att s"] by (intro same) (auto simp: exit_frame_def)
  next
    case shutdown
    then show ?thesis using exit_frame_idle(5) [of "ay_att s"] by (intro same) (auto simp: exit_frame_def)
  next
    case force
    then show ?thesis using exit_frame_idle(6) [of "ay_att s"] by (intro same) (auto simp: exit_frame_def)
  next
    case read_more
    then show ?thesis by (intro same) auto
  qed
qed

section \<open>Properties\<close>

lemma att_run_inv:
  assumes "att_step\<^sup>*\<^sup>* s s'" and "P s" and "\<And>x y. att_step x y \<Longrightarrow> P x \<Longrightarrow> P y"
  shows "P s'"
  using assms(1) by (induction rule: rtranclp_induct) (auto intro: assms)

lemma start_in_order: "in_order (start_sys (new_attachment opts n c r))"
  by (simp add: in_order_def start_sys_def new_attachment_def carried_def new_staging_def new_output_queue_def)

lemma start_exit_inv: "exit_inv (start_sys (new_attachment opts n c r))"
  by (simp add: exit_inv_def start_sys_def new_attachment_def new_output_queue_def exit_sent_def)


text \<open>Once the ready frame has been flushed and the process has not ended yet, an exit frame
  is sent only after every byte read from the process that survived staging.\<close>

theorem exit_after_output:
  assumes "att_step\<^sup>*\<^sup>* (start_sys (new_attachment opts n c r)) s"
    and "at_ready (ay_att s)" and "ay_reader s \<noteq> ReadDone"
    and "att_step\<^sup>*\<^sup>* s s'" and "exit_sent (ay_att s')"
  shows "\<exists>evicted. ay_history s' = evicted @ sent (at_log (ay_att s'))"
proof -
  have "in_order s" using assms(1) start_in_order att_step_in_order by (rule att_run_inv)
  moreover have "exit_inv s" using assms(1) start_exit_inv att_step_exit_inv by (rule att_run_inv)
  ultimately have "flushed_inv s" using assms(2,3) by (auto simp: flushed_inv_def exit_inv_def)
  with assms(4) have "flushed_inv s'" by (rule att_run_inv) (rule att_step_flushed)
  with assms(5) show ?thesis
    by (auto simp: flushed_inv_def in_order_def exit_inv_def carried_def suffix_def)
qed

text \<open>An attachment leaves the manager at most once, exactly when it has finished, and every
  size it ever gives the process lies between one and the maximal dimension.\<close>

theorem untracked_once_and_sizes_valid:
  assumes "att_step\<^sup>*\<^sup>* (start_sys (new_attachment opts n c r)) s"
    and "1 \<le> c" "c \<le> o_max_dimension opts" "1 \<le> r" "r \<le> o_max_dimension opts"
  shows "count_list (at_log (ay_att s)) Untracked = (if at_finished (ay_att s) then 1 else 0)
    \<and> (\<forall>c r. ProcResize c r \<in> set (at_log (ay_att s)) \<longrightarrow> in_range (ay_att s) c r)"
proof -
  have "orderly (ay_att (start_sys (new_attachment opts n c r)))"
    using assms(2-5) by (simp add: orderly_def in_range_def start_sys_def new_attachment_def)
  with assms(1) have "orderly (ay_att s)" by (rule att_run_inv) (rule att_step_orderly)
  then show ?thesis by (simp add: orderly_def)
qed

section \<open>Runs\<close>

abbreviation example_attachment :: attachment where
  "example_attachment \<equiv> new_attachment default_options ''dev'' 80 24"

lemmas att_eval = start_sys_def new_attachment_def default_options_def new_staging_def new_output_queue_def
  output_pump_head_def q_should_read_def deliver_locked_def staging_write_def on_output_end_def on_queue_def
  q_close_with_exit_def emit_def write_pump_step_def q_pop_def finish_def cancel_ctx_def send_ready_def
  mark_ready_and_flush_def staging_drain_def q_push_def exit_sent_def status_normal_closure_def
  force_repaint_def min_repaint_rows_def

lemma exit_overtakes_run:
  "\<exists>s. att_step\<^sup>*\<^sup>* (start_sys example_attachment) s \<and> ay_history s = [[104]]
     \<and> at_log (ay_att s) = [ProcClose, ProcWait, SendExit 1, PeerClose 1000 [], CtxCancel, Untracked]
     \<and> sb_chunks (at_stage (ay_att s)) = [[104]]"
proof -
  let ?a = "example_attachment"
  define a1 where "a1 = snd (deliver_locked [104] ?a)"
  define s1 where "s1 = (start_sys ?a)\<lparr>ay_att := a1, ay_history := [[104]], ay_reader := ReadEnd (Some (Some 1))\<rparr>"
  define a2 where "a2 = on_output_end (Some 1) a1"
  define s2 where "s2 = s1\<lparr>ay_att := a2, ay_reader := ReadDone\<rparr>"
  define a3 where "a3 = snd (write_pump_step True a2)"
  define s3 where "s3 = s2\<lparr>ay_att := a3, ay_writing := False\<rparr>"
  have "output_pump_head ?a = (PumpRead, ?a)" "deliver_locked [104] ?a = (None, a1)"
    by (simp_all add: a1_def output_pump_head_def q_should_read_def deliver_locked_def new_attachment_def
        new_output_queue_def default_options_def)
  then have "att_step (start_sys ?a) s1"
    using att_step.read_chunk [of "start_sys ?a" ?a "[104]" None a1 "Some (Some 1)"]
    by (simp add: s1_def start_sys_def)
  moreover have "att_step s1 s2"
    using att_step.read_eof [of s1 "Some 1"] by (simp add: s1_def s2_def a2_def)
  moreover have q: "q_pop (at_queue a2) = (PopEnd, at_queue a2)" "q_exit (at_queue a2) = Some 1"
      "at_log a2 = [ProcClose, ProcWait]" "\<not> at_finished a2" "sb_chunks (at_stage a2) = [[104]]"
    by (simp_all add: a2_def a1_def q_pop_def att_eval)
  then have "write_pump_step True a2 = (False, a3)"
    by (simp add: a3_def write_pump_step_def)
  then have "att_step s2 s3"
    using att_step.writer [of s2 True False a3] by (simp add: s1_def s2_def s3_def start_sys_def)
  ultimately have "att_step\<^sup>*\<^sup>* (start_sys ?a) s3" by simp
  moreover have "at_log a3 = [ProcClose, ProcWait, SendExit 1, PeerClose 1000 [], CtxCancel, Untracked]
     \<and> sb_chunks (at_stage a3) = [[104]]"
    using q by (simp add: a3_def write_pump_step_def emit_def finish_def cancel_ctx_def status_normal_closure_def)
  ultimately show ?thesis by (intro exI [of _ s3]) (simp add: s3_def s2_def s1_def)
qed

text \<open>A process that prints one byte and exits before the starting goroutine has flushed the
  staged output has its exit frame and the close sent while the byte stays in the staging buffer:
  output can be lost behind an exit.\<close>

theorem exit_overtakes_staged_output:
  "\<exists>s. att_step\<^sup>*\<^sup>* (start_sys example_attachment) s \<and> ay_history s = [[104]]
     \<and> at_log (ay_att s) = [ProcClose, ProcWait, SendExit 1, PeerClose 1000 [], CtxCancel, Untracked]
     \<and> sb_chunks (at_stage (ay_att s)) = [[104]]"
  by (rule exit_overtakes_run)


definition run_att :: "bool \<Rightarrow> chunk list \<Rightarrow> int option \<Rightarrow> bool \<Rightarrow> effect list \<Rightarrow> attachment" where
  "run_att ready cs code fin es =
     \<lparr> at_host = [], at_epoch = 0, at_opts = default_options, at_session = ''dev'', at_cols = 80, at_rows = 24,
       at_ready = ready, at_stage = \<lparr> sb_chunks = [], sb_size = 0, sb_cap = 2097152 \<rparr>,
       at_queue = \<lparr> q_chunks = cs, q_bytes = total_bytes cs, q_paused = False, q_closed = (code \<noteq> None),
         q_exit = code, q_high = 1048576, q_low = 131072 \<rparr>,
       at_cancelled = fin, at_finished = fin, at_log = es \<rparr>"

definition run_sys :: "attachment \<Rightarrow> reader_pc \<Rightarrow> bool \<Rightarrow> main_pc \<Rightarrow> chunk list \<Rightarrow> att_sys" where
  "run_sys a r w m h = \<lparr> ay_att = a, ay_reader = r, ay_writing = w, ay_reading_input = True,
     ay_main = m, ay_history = h \<rparr>"

abbreviation ready_frame :: effect where "ready_frame \<equiv> SendReady ''dev'' 80 24"

abbreviation run_log :: "effect list" where
  "run_log \<equiv> [ready_frame, ProcClose, ProcWait, SendBinary [104], SendExit 0, PeerClose 1000 [], CtxCancel, Untracked]"

definition ready_sys :: att_sys where
  "ready_sys = run_sys (run_att True [] None False [ready_frame]) ReadLoop True MainRepaint []"

definition exit_sys :: att_sys where
  "exit_sys = run_sys (run_att True [] (Some 0) True run_log) ReadDone False MainRepaint [[104]]"

lemma run_start: "start_sys example_attachment = run_sys (run_att False [] None False []) ReadLoop True MainReady []"
  by (simp add: start_sys_def new_attachment_def run_sys_def run_att_def new_staging_def
      new_output_queue_def default_options_def)

lemma run_steps:
  "att_step (run_sys (run_att False [] None False []) ReadLoop True MainReady [])
     (run_sys (run_att False [] None False [ready_frame]) ReadLoop True MainFlush [])"
  "att_step (run_sys (run_att False [] None False [ready_frame]) ReadLoop True MainFlush []) ready_sys"
  "att_step ready_sys
     (run_sys (run_att True [] None False [ready_frame]) (ReadPush [104] (Some (Some 0))) True MainRepaint [[104]])"
  "att_step (run_sys (run_att True [] None False [ready_frame]) (ReadPush [104] (Some (Some 0))) True MainRepaint [[104]])
     (run_sys (run_att True [[104]] None False [ready_frame]) (ReadEnd (Some (Some 0))) True MainRepaint [[104]])"
  "att_step (run_sys (run_att True [[104]] None False [ready_frame]) (ReadEnd (Some (Some 0))) True MainRepaint [[104]])
     (run_sys (run_att True [[104]] (Some 0) False [ready_frame, ProcClose, ProcWait]) ReadDone True MainRepaint [[104]])"
  "att_step (run_sys (run_att True [[104]] (Some 0) False [ready_frame, ProcClose, ProcWait]) ReadDone True MainRepaint [[104]])
     (run_sys (run_att True [] (Some 0) False [ready_frame, ProcClose, ProcWait, SendBinary [104]]) ReadDone True MainRepaint [[104]])"
  "att_step (run_sys (run_att True [] (Some 0) False [ready_frame, ProcClose, ProcWait, SendBinary [104]]) ReadDone True MainRepaint [[104]])
     exit_sys"
proof -
  let ?r = "run_att True [] None False [ready_frame]"
  show "att_step (run_sys (run_att False [] None False []) ReadLoop True MainReady [])
     (run_sys (run_att False [] None False [ready_frame]) ReadLoop True MainFlush [])"
    using att_step.main_ready [of "run_sys (run_att False [] None False []) ReadLoop True MainReady []"]
    by (simp add: run_sys_def run_att_def send_ready_def emit_def)
  show "att_step (run_sys (run_att False [] None False [ready_frame]) ReadLoop True MainFlush []) ready_sys"
    using att_step.main_flush [of "run_sys (run_att False [] None False [ready_frame]) ReadLoop True MainFlush []"]
    by (simp add: ready_sys_def run_sys_def run_att_def mark_ready_and_flush_def staging_drain_def)
  have "output_pump_head ?r = (PumpRead, ?r)" "deliver_locked [104] ?r = (Some [104], ?r)"
    by (simp_all add: run_att_def output_pump_head_def q_should_read_def deliver_locked_def)
  then show "att_step ready_sys (run_sys ?r (ReadPush [104] (Some (Some 0))) True MainRepaint [[104]])"
    using att_step.read_chunk [of ready_sys ?r "[104]" "Some [104]" ?r "Some (Some 0)"]
    by (simp add: ready_sys_def run_sys_def)
  show "att_step (run_sys ?r (ReadPush [104] (Some (Some 0))) True MainRepaint [[104]])
     (run_sys (run_att True [[104]] None False [ready_frame]) (ReadEnd (Some (Some 0))) True MainRepaint [[104]])"
    using att_step.read_push [of "run_sys ?r (ReadPush [104] (Some (Some 0))) True MainRepaint [[104]]"]
    by (simp add: run_sys_def run_att_def on_queue_def q_push_def)
  show "att_step (run_sys (run_att True [[104]] None False [ready_frame]) (ReadEnd (Some (Some 0))) True MainRepaint [[104]])
     (run_sys (run_att True [[104]] (Some 0) False [ready_frame, ProcClose, ProcWait]) ReadDone True MainRepaint [[104]])"
    using att_step.read_eof [of "run_sys (run_att True [[104]] None False [ready_frame]) (ReadEnd (Some (Some 0))) True MainRepaint [[104]]"]
    by (simp add: run_sys_def run_att_def on_output_end_def on_queue_def emit_def q_close_with_exit_def)
  have "write_pump_step True (run_att True [[104]] (Some 0) False [ready_frame, ProcClose, ProcWait])
      = (True, run_att True [] (Some 0) False [ready_frame, ProcClose, ProcWait, SendBinary [104]])"
    by (simp add: run_att_def write_pump_step_def q_pop_def emit_def)
  then show "att_step (run_sys (run_att True [[104]] (Some 0) False [ready_frame, ProcClose, ProcWait]) ReadDone True MainRepaint [[104]])
     (run_sys (run_att True [] (Some 0) False [ready_frame, ProcClose, ProcWait, SendBinary [104]]) ReadDone True MainRepaint [[104]])"
    using att_step.writer [of "run_sys (run_att True [[104]] (Some 0) False [ready_frame, ProcClose, ProcWait]) ReadDone True MainRepaint [[104]]" True]
    by (simp add: run_sys_def)
  have "write_pump_step True (run_att True [] (Some 0) False [ready_frame, ProcClose, ProcWait, SendBinary [104]])
      = (False, run_att True [] (Some 0) True run_log)"
    by (simp add: run_att_def write_pump_step_def q_pop_def emit_def finish_def cancel_ctx_def status_normal_closure_def)
  then show "att_step (run_sys (run_att True [] (Some 0) False [ready_frame, ProcClose, ProcWait, SendBinary [104]]) ReadDone True MainRepaint [[104]]) exit_sys"
    using att_step.writer [of "run_sys (run_att True [] (Some 0) False [ready_frame, ProcClose, ProcWait, SendBinary [104]]) ReadDone True MainRepaint [[104]]" True False]
    by (simp add: run_sys_def exit_sys_def)
qed

lemma run_reach:
  "att_step\<^sup>*\<^sup>* (start_sys example_attachment) ready_sys" "att_step\<^sup>*\<^sup>* ready_sys exit_sys"
  unfolding run_start
  by (meson run_steps converse_rtranclp_into_rtranclp rtranclp.rtrancl_refl)+

lemma exit_after_output_witness:
  "exit_sent (ay_att exit_sys) \<and> (\<exists>evicted. ay_history exit_sys = evicted @ sent (at_log (ay_att exit_sys)))"
proof -
  have e: "exit_sent (ay_att exit_sys)" by (simp add: exit_sys_def run_sys_def run_att_def exit_sent_def)
  have "at_ready (ay_att ready_sys)" "ay_reader ready_sys \<noteq> ReadDone"
    by (simp_all add: ready_sys_def run_sys_def run_att_def)
  from exit_after_output [OF run_reach(1) this run_reach(2) e] e show ?thesis by blast
qed

lemma untracked_once_and_sizes_valid_witness:
  "count_list (at_log (ay_att ready_sys)) Untracked = 0"
  using untracked_once_and_sizes_valid [OF run_reach(1)]
  by (simp add: default_options_def ready_sys_def run_sys_def run_att_def)

end
