(* ===== verification/TerminalManager.thy ===== *)
theory TerminalManager
  imports Attachment
begin

text \<open>
  \<open>hub/internal/terminal/manager.go\<close>: the set of live attachments, the per-host epochs and
  shutdown.  Attachments are held by address: the manager tracks a set of addresses, the
  attachments themselves live in a store.  The \<open>untrack\<close> callback of an attachment is the
  removal of its address.
\<close>

section \<open>State\<close>

datatype manager_error = ManagerClosing | HostClosed

record manager =
  mg_attachments :: "nat set"
  mg_epochs :: "string \<Rightarrow> nat"
  mg_closing :: bool
  mg_timeout :: int

record terminals =
  tm_mgr :: manager
  tm_store :: "nat \<Rightarrow> attachment option"

definition default_shutdown_timeout :: int where "default_shutdown_timeout = 3 * 10 ^ 9"

definition new_manager :: "int \<Rightarrow> manager" where
  "new_manager timeout =
     \<lparr> mg_attachments = {}, mg_epochs = (\<lambda>_. 0), mg_closing = False,
       mg_timeout = (if timeout \<le> 0 then default_shutdown_timeout else timeout) \<rparr>"

definition current_epoch :: "manager \<Rightarrow> string \<Rightarrow> nat" where
  "current_epoch m h = mg_epochs m h"

section \<open>Operations\<close>

definition register :: "nat \<Rightarrow> attachment \<Rightarrow> manager \<Rightarrow> (manager_error + unit) \<times> manager" where
  "register i a m =
     (if mg_closing m then (Inl ManagerClosing, m)
      else if at_host a \<noteq> [] \<and> at_epoch a \<noteq> mg_epochs m (at_host a) then (Inl HostClosed, m)
      else (Inr (), m\<lparr>mg_attachments := insert i (mg_attachments m)\<rparr>))"

definition untrack :: "nat \<Rightarrow> manager \<Rightarrow> manager" where
  "untrack i m = m\<lparr>mg_attachments := mg_attachments m - {i}\<rparr>"

text \<open>An operation that may finish an attachment, with the callback it then makes.\<close>

definition finishing :: "(attachment \<Rightarrow> attachment) \<Rightarrow> nat \<Rightarrow> terminals \<Rightarrow> terminals" where
  "finishing f i t =
     (case tm_store t i of
        None \<Rightarrow> t
      | Some a \<Rightarrow>
          (let a' = f a; t' = t\<lparr>tm_store := (tm_store t)(i \<mapsto> a')\<rparr> in
           if at_finished a' \<and> \<not> at_finished a then t'\<lparr>tm_mgr := untrack i (tm_mgr t')\<rparr> else t'))"

definition add_attachment :: "nat \<Rightarrow> attachment \<Rightarrow> terminals \<Rightarrow> (manager_error + unit) \<times> terminals" where
  "add_attachment i a t =
     (case register i a (tm_mgr t) of
        (Inl e, _) \<Rightarrow> (Inl e, t)
      | (Inr _, m) \<Rightarrow> (Inr (), t\<lparr>tm_mgr := m, tm_store := (tm_store t)(i \<mapsto> a)\<rparr>))"

definition on_host :: "string \<Rightarrow> terminals \<Rightarrow> nat \<Rightarrow> bool" where
  "on_host h t i \<longleftrightarrow> i \<in> mg_attachments (tm_mgr t)
     \<and> (case tm_store t i of Some a \<Rightarrow> at_host a = h | None \<Rightarrow> False)"

text \<open>\<open>CloseHost\<close>: the epoch and the snapshot under the lock, then the forced closes.  The
  addresses are the snapshot in the iteration order of the map.\<close>

definition close_host_locked :: "string \<Rightarrow> terminals \<Rightarrow> terminals" where
  "close_host_locked h t =
     t\<lparr>tm_mgr := (tm_mgr t)\<lparr>mg_epochs := (mg_epochs (tm_mgr t))(h := Suc (mg_epochs (tm_mgr t) h))\<rparr>\<rparr>"

definition close_host :: "string \<Rightarrow> nat list \<Rightarrow> terminals \<Rightarrow> terminals" where
  "close_host h snapshot t = fold (finishing force_close) snapshot (close_host_locked h t)"

datatype wait_outcome = AllDone | TimedOut | ContextDone

text \<open>\<open>Shutdown\<close>: the attachments shut down concurrently; those in \<open>done\<close> got there before the
  wait ended.\<close>

definition manager_shutdown :: "nat list \<Rightarrow> nat list \<Rightarrow> wait_outcome \<Rightarrow> terminals \<Rightarrow> bool \<times> terminals" where
  "manager_shutdown snapshot done outcome t =
     (let t1 = t\<lparr>tm_mgr := (tm_mgr t)\<lparr>mg_closing := True\<rparr>\<rparr> in
      (case outcome of
         AllDone \<Rightarrow> (True, fold (finishing attachment_shutdown) snapshot t1)
       | TimedOut \<Rightarrow> (True, fold (finishing force_close) snapshot (fold (finishing attachment_shutdown) done t1))
       | ContextDone \<Rightarrow> (False, fold (finishing force_close) snapshot (fold (finishing attachment_shutdown) done t1))))"

section \<open>Facts\<close>

lemma finish_finished [simp]: "at_finished (finish a)"
  by (simp add: finish_def cancel_ctx_def emit_def)

lemma force_close_finished [simp]: "at_finished (force_close a)" "at_finished (attachment_shutdown a)"
  by (simp_all add: force_close_def attachment_shutdown_def)

lemma finish_host [simp]: "at_host (finish a) = at_host a" "at_epoch (finish a) = at_epoch a"
  by (simp_all add: finish_def cancel_ctx_def emit_def)

lemma force_close_host [simp]:
  "at_host (force_close a) = at_host a" "at_epoch (force_close a) = at_epoch a"
  "at_host (attachment_shutdown a) = at_host a" "at_epoch (attachment_shutdown a) = at_epoch a"
  by (simp_all add: force_close_def attachment_shutdown_def emit_def cancel_ctx_def on_queue_def)

text \<open>The manager's invariant: what it tracks exists and has not finished.\<close>

definition tracked_live :: "terminals \<Rightarrow> bool" where
  "tracked_live t \<longleftrightarrow> (\<forall>i \<in> mg_attachments (tm_mgr t). \<exists>a. tm_store t i = Some a \<and> \<not> at_finished a)"

lemma finishing_tracked: "tracked_live t \<Longrightarrow> tracked_live (finishing f i t)"
  by (auto simp: tracked_live_def finishing_def untrack_def Let_def split: option.splits)

lemma finishing_mgr:
  "mg_epochs (tm_mgr (finishing f i t)) = mg_epochs (tm_mgr t)"
  "mg_closing (tm_mgr (finishing f i t)) = mg_closing (tm_mgr t)"
  "mg_attachments (tm_mgr (finishing f i t)) \<subseteq> mg_attachments (tm_mgr t)"
  by (auto simp: finishing_def untrack_def Let_def split: option.splits)

lemma fold_finishing_mgr:
  "mg_epochs (tm_mgr (fold (finishing f) is t)) = mg_epochs (tm_mgr t)"
  "mg_closing (tm_mgr (fold (finishing f) is t)) = mg_closing (tm_mgr t)"
  "mg_attachments (tm_mgr (fold (finishing f) is t)) \<subseteq> mg_attachments (tm_mgr t)"
proof -
  show "mg_epochs (tm_mgr (fold (finishing f) is t)) = mg_epochs (tm_mgr t)"
    by (induction "is" arbitrary: t) (simp_all add: finishing_mgr)
  show "mg_closing (tm_mgr (fold (finishing f) is t)) = mg_closing (tm_mgr t)"
    by (induction "is" arbitrary: t) (simp_all add: finishing_mgr)
  show "mg_attachments (tm_mgr (fold (finishing f) is t)) \<subseteq> mg_attachments (tm_mgr t)"
    by (induction "is" arbitrary: t) (use finishing_mgr(3) in fastforce)+
qed

lemma fold_finishing_tracked: "tracked_live t \<Longrightarrow> tracked_live (fold (finishing f) is t)"
  by (induction "is" arbitrary: t) (simp_all add: finishing_tracked)

lemma finishing_gone:
  assumes "tracked_live t" and "\<And>a. at_finished (f a)"
  shows "i \<notin> mg_attachments (tm_mgr (finishing f i t))"
  using assms by (auto simp: tracked_live_def finishing_def untrack_def Let_def split: option.splits)

lemma fold_finishing_gone:
  assumes "tracked_live t" and "\<And>a. at_finished (f a)"
  shows "mg_attachments (tm_mgr (fold (finishing f) is t)) \<inter> set is = {}"
  using assms(1)
proof (induction "is" arbitrary: t)
  case (Cons i "is")
  have "i \<notin> mg_attachments (tm_mgr (finishing f i t))" using finishing_gone Cons.prems assms(2) by blast
  with Cons.IH [OF finishing_tracked [OF Cons.prems]] fold_finishing_mgr(3) [of f "is" "finishing f i t"]
  show ?case by auto
qed simp

lemma finishing_store:
  assumes "\<And>a. at_host (f a) = at_host a \<and> at_epoch (f a) = at_epoch a" and "tm_store (finishing f i t) j = Some b"
  obtains a where "tm_store t j = Some a" "at_host b = at_host a" "at_epoch b = at_epoch a"
  using assms by (cases "tm_store t i"; cases "i = j") (auto simp: finishing_def Let_def split: if_splits)

definition on_current_epoch :: "terminals \<Rightarrow> bool" where
  "on_current_epoch t \<longleftrightarrow> (\<forall>i \<in> mg_attachments (tm_mgr t). \<forall>a. tm_store t i = Some a \<longrightarrow> at_host a \<noteq> [] \<longrightarrow>
     at_epoch a = current_epoch (tm_mgr t) (at_host a))"

text \<open>As \<open>on_current_epoch\<close>, but for the attachments of a host being closed.\<close>

definition on_current_epoch_but :: "nat set \<Rightarrow> terminals \<Rightarrow> bool" where
  "on_current_epoch_but X t \<longleftrightarrow> (\<forall>i \<in> mg_attachments (tm_mgr t) - X. \<forall>a. tm_store t i = Some a \<longrightarrow> at_host a \<noteq> [] \<longrightarrow>
     at_epoch a = current_epoch (tm_mgr t) (at_host a))"

definition keeps_host :: "(attachment \<Rightarrow> attachment) \<Rightarrow> bool" where
  "keeps_host f \<longleftrightarrow> (\<forall>a. at_host (f a) = at_host a \<and> at_epoch (f a) = at_epoch a)"

lemma finishing_epoch_but:
  assumes "keeps_host f" and "on_current_epoch_but X t"
  shows "on_current_epoch_but X (finishing f i t)"
  unfolding on_current_epoch_but_def
proof (intro ballI allI impI)
  fix j b assume j: "j \<in> mg_attachments (tm_mgr (finishing f i t)) - X"
    and b: "tm_store (finishing f i t) j = Some b" "at_host b \<noteq> []"
  obtain a where a: "tm_store t j = Some a" "at_host b = at_host a" "at_epoch b = at_epoch a"
    using finishing_store [OF _ b(1)] assms(1) by (auto simp: keeps_host_def)
  have "j \<in> mg_attachments (tm_mgr t) - X" using j finishing_mgr(3) by blast
  with assms(2) a b show "at_epoch b = current_epoch (tm_mgr (finishing f i t)) (at_host b)"
    by (auto simp: on_current_epoch_but_def current_epoch_def finishing_mgr)
qed

lemma fold_finishing_epoch_but:
  "keeps_host f \<Longrightarrow> on_current_epoch_but X t \<Longrightarrow> on_current_epoch_but X (fold (finishing f) is t)"
  by (induction "is" arbitrary: t) (simp_all add: finishing_epoch_but)

lemma keeps_host_closers [simp]: "keeps_host force_close" "keeps_host attachment_shutdown" "keeps_host on_client_gone"
  by (simp_all add: keeps_host_def on_client_gone_def emit_def cancel_ctx_def on_queue_def)

lemma but_empty: "on_current_epoch_but {} t = on_current_epoch t"
  by (simp add: on_current_epoch_but_def on_current_epoch_def)

lemma close_host_epochs:
  assumes "tracked_live t" and "on_current_epoch t" and "set snapshot = {i. on_host h t i}"
  shows "tracked_live (close_host h snapshot t) \<and> on_current_epoch (close_host h snapshot t)
    \<and> (\<forall>i. \<not> on_host h (close_host h snapshot t) i)"
proof -
  let ?t1 = "close_host_locked h t" and ?t2 = "close_host h snapshot t"
  have live1: "tracked_live ?t1" using assms(1) by (simp add: tracked_live_def close_host_locked_def)
  then have live2: "tracked_live ?t2" by (simp add: close_host_def fold_finishing_tracked)
  have gone: "mg_attachments (tm_mgr ?t2) \<inter> set snapshot = {}"
    unfolding close_host_def by (rule fold_finishing_gone [OF live1]) simp
  have "on_current_epoch_but (set snapshot) ?t1"
    using assms(2) unfolding assms(3)
    by (auto simp: on_current_epoch_but_def on_current_epoch_def close_host_locked_def current_epoch_def on_host_def)
  then have "on_current_epoch_but (set snapshot) ?t2"
    unfolding close_host_def by (rule fold_finishing_epoch_but [rotated]) simp
  with gone have ep: "on_current_epoch ?t2"
    by (auto simp: on_current_epoch_but_def on_current_epoch_def)
  have sub: "mg_attachments (tm_mgr ?t2) \<subseteq> mg_attachments (tm_mgr t)"
    using fold_finishing_mgr(3) [of force_close snapshot ?t1] by (simp add: close_host_def close_host_locked_def)
  have st: "\<exists>a. tm_store t j = Some a \<and> at_host b = at_host a" if "tm_store ?t2 j = Some b" for j b
  proof -
    have "\<exists>a. tm_store u j = Some a \<and> at_host b = at_host a"
      if "tm_store (fold (finishing force_close) is u) j = Some b" for "is" u
      using that
    proof (induction "is" arbitrary: u)
      case (Cons i "is")
      then obtain a where a: "tm_store (finishing force_close i u) j = Some a" "at_host b = at_host a" by auto
      show ?case using finishing_store [OF _ a(1)] a(2) by auto
    qed simp
    from this [OF that [unfolded close_host_def]] show ?thesis by (simp add: close_host_locked_def)
  qed
  have "\<not> on_host h ?t2 i" for i
  proof
    assume "on_host h ?t2 i"
    then obtain b where b: "i \<in> mg_attachments (tm_mgr ?t2)" "tm_store ?t2 i = Some b" "at_host b = h"
      by (auto simp: on_host_def split: option.splits)
    with st sub have "on_host h t i" by (fastforce simp: on_host_def)
    with assms(3) gone b(1) show False by blast
  qed
  with live2 ep show ?thesis by blast
qed

section \<open>Histories\<close>

inductive tm_step :: "terminals \<Rightarrow> terminals \<Rightarrow> bool" where
  add: "tm_store t i = None \<Longrightarrow> \<not> at_finished a \<Longrightarrow> add_attachment i a t = (r, t') \<Longrightarrow> tm_step t t'"
| close: "set snapshot = {i. on_host h t i} \<Longrightarrow> tm_step t (close_host h snapshot t)"
| leave: "f \<in> {force_close, attachment_shutdown, on_client_gone} \<Longrightarrow> tm_step t (finishing f i t)"
| stop: "set snapshot = mg_attachments (tm_mgr t) \<Longrightarrow> set done \<subseteq> set snapshot \<Longrightarrow>
    manager_shutdown snapshot done outcome t = (ok, t') \<Longrightarrow> tm_step t t'"

definition manager_inv :: "terminals \<Rightarrow> bool" where
  "manager_inv t \<longleftrightarrow> tracked_live t \<and> on_current_epoch t"

lemma shutdown_inv:
  assumes "manager_inv t" and "manager_shutdown snapshot done outcome t = (ok, t')"
  shows "manager_inv t'"
proof -
  let ?t1 = "t\<lparr>tm_mgr := (tm_mgr t)\<lparr>mg_closing := True\<rparr>\<rparr>"
  have 1: "tracked_live ?t1" "on_current_epoch_but {} ?t1"
    using assms(1) by (simp_all add: manager_inv_def tracked_live_def on_current_epoch_def
        on_current_epoch_but_def current_epoch_def)
  show ?thesis using assms(2) 1
    by (cases outcome)
       (auto simp: manager_shutdown_def Let_def manager_inv_def but_empty [symmetric]
         intro!: fold_finishing_tracked fold_finishing_epoch_but)
qed

lemma tm_step_inv: "tm_step t t' \<Longrightarrow> manager_inv t \<Longrightarrow> manager_inv t'"
proof (induction rule: tm_step.induct)
  case (add t i a r t')
  then show ?case
    by (auto simp: add_attachment_def register_def manager_inv_def tracked_live_def on_current_epoch_def
        current_epoch_def split: if_splits)
next
  case (close snapshot h t)
  then show ?case using close_host_epochs by (simp add: manager_inv_def)
next
  case (leave f t i)
  then show ?case using finishing_tracked finishing_epoch_but [of f "{}" t i]
    by (auto simp: manager_inv_def but_empty)
next
  case (stop snapshot t "done" outcome ok t')
  then show ?case using shutdown_inv by blast
qed

lemma tm_step_epochs: "tm_step t t' \<Longrightarrow> current_epoch (tm_mgr t) h \<le> current_epoch (tm_mgr t') h"
proof (induction rule: tm_step.induct)
  case (stop snapshot t "done" outcome ok t')
  then show ?case
    by (cases outcome) (auto simp: manager_shutdown_def Let_def current_epoch_def fold_finishing_mgr)
qed (auto simp: add_attachment_def register_def current_epoch_def close_host_def fold_finishing_mgr
      finishing_mgr close_host_locked_def split: if_splits)

lemma tm_run_epochs: "tm_step\<^sup>*\<^sup>* t t' \<Longrightarrow> current_epoch (tm_mgr t) h \<le> current_epoch (tm_mgr t') h"
  by (induction rule: rtranclp_induct) (auto dest: tm_step_epochs [of _ _ h])

lemma tm_step_closing: "tm_step t t' \<Longrightarrow> mg_closing (tm_mgr t) \<Longrightarrow> mg_closing (tm_mgr t')"
proof (induction rule: tm_step.induct)
  case (stop snapshot t "done" outcome ok t')
  then show ?case
    by (cases outcome) (auto simp: manager_shutdown_def Let_def fold_finishing_mgr)
qed (auto simp: add_attachment_def register_def close_host_def fold_finishing_mgr
      finishing_mgr close_host_locked_def split: if_splits)

definition start_terminals :: "int \<Rightarrow> terminals" where
  "start_terminals timeout = \<lparr> tm_mgr = new_manager timeout, tm_store = Map.empty \<rparr>"

lemma start_inv: "manager_inv (start_terminals timeout)"
  by (simp add: manager_inv_def tracked_live_def on_current_epoch_def start_terminals_def new_manager_def)

lemma tm_run_inv: "tm_step\<^sup>*\<^sup>* (start_terminals timeout) t \<Longrightarrow> manager_inv t"
  by (induction rule: rtranclp_induct) (auto intro: start_inv tm_step_inv)

section \<open>Properties\<close>

text \<open>Over any history of the manager, every attachment it tracks exists, has not finished and
  was admitted under its host's current epoch; closing a host leaves none of its attachments.\<close>

theorem tracked_attachments_current:
  assumes "tm_step\<^sup>*\<^sup>* (start_terminals timeout) t"
  shows "(\<forall>i \<in> mg_attachments (tm_mgr t). \<exists>a. tm_store t i = Some a \<and> \<not> at_finished a
            \<and> (at_host a \<noteq> [] \<longrightarrow> at_epoch a = current_epoch (tm_mgr t) (at_host a)))
     \<and> (\<forall>h snapshot i. set snapshot = {i. on_host h t i} \<longrightarrow> \<not> on_host h (close_host h snapshot t) i)"
proof -
  have inv: "manager_inv t" using assms by (rule tm_run_inv)
  then show ?thesis using close_host_epochs [of t]
    by (fastforce simp: manager_inv_def tracked_live_def on_current_epoch_def)
qed

text \<open>An attachment that captured its epoch before its host was closed is never admitted
  afterwards, whatever happens in between, and nothing is admitted once shutdown has begun.\<close>

theorem stale_attachment_rejected:
  assumes "at_epoch a = current_epoch (tm_mgr t) (at_host a)" and "at_host a \<noteq> []"
    and "tm_step\<^sup>*\<^sup>* (close_host (at_host a) snapshot t) t'"
  shows "\<not> is_ok (fst (register i a (tm_mgr t')))
    \<and> (mg_closing (tm_mgr t') \<longrightarrow> fst (register i b (tm_mgr t')) = Inl ManagerClosing)"
proof -
  have "Suc (at_epoch a) = current_epoch (tm_mgr (close_host (at_host a) snapshot t)) (at_host a)"
    using assms(1) by (simp add: current_epoch_def close_host_def fold_finishing_mgr close_host_locked_def)
  also have "\<dots> \<le> current_epoch (tm_mgr t') (at_host a)" using assms(3) by (rule tm_run_epochs)
  finally show ?thesis using assms(2) by (simp add: register_def current_epoch_def)
qed

text \<open>C26: shutdown leaves no attachment tracked, however the wait for them ends, and nothing is
  admitted in any later state.\<close>

theorem shutdown_complete:
  assumes "tm_step\<^sup>*\<^sup>* (start_terminals timeout) t" and "set snapshot = mg_attachments (tm_mgr t)"
    and "manager_shutdown snapshot done outcome t = (ok, t')" and "tm_step\<^sup>*\<^sup>* t' t''"
  shows "mg_attachments (tm_mgr t') = {} \<and> fst (register i a (tm_mgr t'')) = Inl ManagerClosing"
proof -
  let ?t1 = "t\<lparr>tm_mgr := (tm_mgr t)\<lparr>mg_closing := True\<rparr>\<rparr>"
  have "tracked_live t" using tm_run_inv [OF assms(1)] by (simp add: manager_inv_def)
  then have live: "tracked_live ?t1" by (simp add: tracked_live_def)
  have gone: "mg_attachments (tm_mgr (fold (finishing f) snapshot u)) = {}"
    if "tracked_live u" "mg_attachments (tm_mgr u) \<subseteq> mg_attachments (tm_mgr t)" "\<And>a. at_finished (f a)" for f u
    using fold_finishing_gone [OF that(1), of f snapshot] fold_finishing_mgr(3) [of f snapshot u] that assms(2)
    by blast
  have none: "mg_attachments (tm_mgr t') = {}"
    using assms(3) live gone [of ?t1 attachment_shutdown]
      gone [of "fold (finishing attachment_shutdown) done ?t1" force_close]
      fold_finishing_tracked [OF live, of attachment_shutdown "done"]
      fold_finishing_mgr(3) [of attachment_shutdown "done" ?t1]
    by (cases outcome) (auto simp: manager_shutdown_def Let_def)
  have "mg_closing (tm_mgr t')"
    using assms(3) by (cases outcome) (auto simp: manager_shutdown_def Let_def fold_finishing_mgr)
  with assms(4) have "mg_closing (tm_mgr t'')"
    by (induction rule: rtranclp_induct) (auto dest: tm_step_closing)
  with none show ?thesis by (simp add: register_def)
qed

section \<open>Witnesses\<close>

definition host_attachment :: attachment where
  "host_attachment = with_host ''h1'' example_attachment"

definition one_terminal :: terminals where
  "one_terminal = snd (add_attachment 7 host_attachment (start_terminals 0))"

lemma one_terminal: "tm_step (start_terminals 0) one_terminal" "mg_attachments (tm_mgr one_terminal) = {7}"
    "tm_store one_terminal 7 = Some host_attachment" "tm_store one_terminal = [7 \<mapsto> host_attachment]"
proof -
  have a: "add_attachment 7 host_attachment (start_terminals 0) = (Inr (), one_terminal)"
    by (simp add: one_terminal_def add_attachment_def register_def start_terminals_def new_manager_def
        host_attachment_def with_host_def new_attachment_def)
  show "tm_step (start_terminals 0) one_terminal"
    by (rule tm_step.add [OF _ _ a])
       (simp_all add: start_terminals_def host_attachment_def with_host_def new_attachment_def)
  show "mg_attachments (tm_mgr one_terminal) = {7}" "tm_store one_terminal 7 = Some host_attachment"
      "tm_store one_terminal = [7 \<mapsto> host_attachment]"
    by (simp_all add: one_terminal_def add_attachment_def register_def start_terminals_def new_manager_def
        host_attachment_def with_host_def new_attachment_def)
qed

lemma tracked_attachments_current_witness:
  "\<not> at_finished host_attachment \<and> \<not> on_host ''h1'' (close_host ''h1'' [7] one_terminal) 7"
proof -
  have "set [7] = {i. on_host ''h1'' one_terminal i}"
    by (auto simp: on_host_def one_terminal host_attachment_def with_host_def)
  with tracked_attachments_current [OF r_into_rtranclp [of tm_step, OF one_terminal(1)]] show ?thesis
    by (metis one_terminal(2,3) insertI1 option.inject)
qed

lemma stale_attachment_rejected_witness:
  "\<not> is_ok (fst (register 8 host_attachment (tm_mgr (close_host ''h1'' [7] one_terminal))))"
  using stale_attachment_rejected [of host_attachment one_terminal "[7]"]
  by (simp add: host_attachment_def with_host_def new_attachment_def current_epoch_def one_terminal_def
      add_attachment_def register_def start_terminals_def new_manager_def)

lemma shutdown_complete_witness:
  "\<exists>t'. manager_shutdown [7] [] TimedOut one_terminal = (True, t') \<and> mg_attachments (tm_mgr t') = {}
     \<and> fst (register 9 host_attachment (tm_mgr t')) = Inl ManagerClosing"
proof -
  obtain t' where t': "manager_shutdown [7] [] TimedOut one_terminal = (True, t')"
    by (simp add: manager_shutdown_def Let_def)
  from shutdown_complete [OF r_into_rtranclp [of tm_step, OF one_terminal(1)] _ t'] t' show ?thesis
    by (auto simp: one_terminal)
qed

end
