(* ===== verification/RemoteSessions.thy ===== *)
theory RemoteSessions
  imports TmuxClient ShellEncoder
begin

text \<open>
  \<open>hub/internal/host/remote_sessions.go\<close> and \<open>env_probe.go\<close>: the session backend over an SSH
  lease.  The lease and the SSH channel are the parameter \<open>ssh_ops\<close>; \<open>rs_exec\<close> is the Go
  \<open>exec\<close> with every outcome of the select, and the operations share the argument builders and
  parsers of the tmux package with the local client.
\<close>

section \<open>Running a command over a lease\<close>

datatype wait_result =
    WaitOk string string
  | WaitExit string string int
  | WaitFailed string string
  | WaitCancelled string string

record 'w ssh_ops =
  sh_target :: target
  sh_check_valid :: "'w \<Rightarrow> host_error option"
  sh_get_control :: "('w, host_error, nat) action"
  sh_invalidate_control :: "nat \<Rightarrow> 'w \<Rightarrow> 'w"
  sh_new_session :: "nat \<Rightarrow> 'w \<Rightarrow> bool \<times> 'w"
  sh_start :: "nat \<Rightarrow> string \<Rightarrow> 'w \<Rightarrow> bool \<times> 'w"
  sh_wait :: "nat \<Rightarrow> 'w \<Rightarrow> wait_result \<times> 'w"

record remote_backend =
  rb_home :: string
  rb_tmux_path :: string

definition new_remote_backend :: "string \<Rightarrow> string \<Rightarrow> remote_backend" where
  "new_remote_backend home tmux =
     \<lparr> rb_home = (if home = [] then ''.'' else home), rb_tmux_path = (if tmux = [] then ''tmux'' else tmux) \<rparr>"

definition lost_outcome :: "bool \<Rightarrow> host_code" where
  "lost_outcome mutation = (if mutation then OutcomeUnknown else HostUnavailable)"

definition rs_exec :: "'w ssh_ops \<Rightarrow> remote_backend \<Rightarrow> bool \<Rightarrow> string list \<Rightarrow> 'w \<Rightarrow> (session_error + exec_result) \<times> 'w" where
  "rs_exec sh b mutation args w =
     (case sh_check_valid sh w of
        Some e \<Rightarrow> (Inl (ErrHost e), w)
      | None \<Rightarrow>
          (case sh_get_control sh w of
             (Inl e, w1) \<Rightarrow> (Inl (ErrHost e), w1)
           | (Inr conn, w1) \<Rightarrow>
               (case sh_new_session sh conn w1 of
                  (False, w2) \<Rightarrow>
                    (Inl (ErrHost (HostError (sh_target sh) HostUnavailable ''session'')), sh_invalidate_control sh conn w2)
                | (True, w2) \<Rightarrow>
                    (case sh_start sh conn (encode_posix_command (rb_tmux_path b # args)) w2 of
                       (False, w3) \<Rightarrow>
                         (Inl (ErrHost (HostError (sh_target sh) HostUnavailable ''start'')), sh_invalidate_control sh conn w3)
                     | (True, w3) \<Rightarrow>
                         (case sh_wait sh conn w3 of
                            (WaitOk out err, w4) \<Rightarrow> (Inr (out, err, 0), w4)
                          | (WaitExit out err code, w4) \<Rightarrow> (Inr (out, err, code), w4)
                          | (WaitFailed out err, w4) \<Rightarrow>
                              (Inl (ErrHost (HostError (sh_target sh) (lost_outcome mutation) ''wait'')),
                               sh_invalidate_control sh conn w4)
                          | (WaitCancelled out err, w4) \<Rightarrow>
                              (Inl (ErrHost (HostError (sh_target sh) (lost_outcome mutation) ''context'')),
                               sh_invalidate_control sh conn w4))))))"

section \<open>The backend\<close>

definition rs_has_session :: "'w ssh_ops \<Rightarrow> remote_backend \<Rightarrow> string \<Rightarrow> 'w \<Rightarrow> bool \<times> 'w" where
  "rs_has_session sh b = has_session_by (rs_exec sh b False)"

definition rs_generate_unique_name :: "'w ssh_ops \<Rightarrow> remote_backend \<Rightarrow> ('w \<Rightarrow> string) \<Rightarrow> ('w, session_error, string) action" where
  "rs_generate_unique_name sh b stamp = generate_unique_name (rs_exec sh b False) stamp"

definition rs_list :: "'w ssh_ops \<Rightarrow> remote_backend \<Rightarrow> ('w, session_error, session list) action" where
  "rs_list sh b = list_by (rs_exec sh b False)"

definition rs_get :: "'w ssh_ops \<Rightarrow> remote_backend \<Rightarrow> string \<Rightarrow> ('w, session_error, session) action" where
  "rs_get sh b name = act_bind (rs_list sh b) (\<lambda>ss. act_lift (find_session name ss))"

definition rs_create :: "'w ssh_ops \<Rightarrow> remote_backend \<Rightarrow> ('w \<Rightarrow> string) \<Rightarrow> string \<Rightarrow> ('w, session_error, session) action" where
  "rs_create sh b stamp name0 =
     act_bind (if name0 = [] then act_wrap ''generate unique name'' (rs_generate_unique_name sh b stamp)
               else act_return name0)
       (\<lambda>name.
         act_bind (act_wrap ''exec new-session'' (rs_exec sh b True (create_args name (rb_home b))))
           (\<lambda>(_, stderr, code).
             if code \<noteq> 0 then
               (if contains_sub stderr ''duplicate session'' then act_fail ErrNameInUse
                else act_fail (tmux_failure ''tmux new-session'' stderr))
             else act_bind (act_try (rs_get sh b name)) (\<lambda>r.
               act_return (case r of
                   Inr s \<Rightarrow> s
                 | Inl _ \<Rightarrow> \<lparr> s_name = name, s_windows = 1, s_attached = 0, s_created = 0, s_pane = None \<rparr>))))"

definition rs_rename :: "'w ssh_ops \<Rightarrow> remote_backend \<Rightarrow> string \<Rightarrow> string \<Rightarrow> ('w, session_error, unit) action" where
  "rs_rename sh b old new =
     (if old = new then act_return ()
      else act_bind (act_wrap ''exec rename-session'' (rs_exec sh b True (rename_args old new)))
        (\<lambda>(_, stderr, code).
          if code \<noteq> 0 then
            (if contains_sub stderr ''duplicate session'' then act_fail ErrNameInUse
             else if contains_sub stderr cant_find \<or> is_no_server stderr then act_fail ErrNotFound
             else act_fail (tmux_failure ''tmux rename-session'' stderr))
          else act_return ()))"

definition rs_kill :: "'w ssh_ops \<Rightarrow> remote_backend \<Rightarrow> string \<Rightarrow> ('w, session_error, unit) action" where
  "rs_kill sh b name =
     act_bind (act_wrap ''exec kill-session'' (rs_exec sh b True (kill_args name)))
       (\<lambda>(_, stderr, code).
         if code \<noteq> 0 then
           (if contains_sub stderr cant_find \<or> is_no_server stderr then act_fail ErrNotFound
            else act_fail (tmux_failure ''tmux kill-session'' stderr))
         else act_return ())"

definition rs_list_panes :: "'w ssh_ops \<Rightarrow> remote_backend \<Rightarrow> ('w, session_error, pane list) action" where
  "rs_list_panes sh b =
     act_bind (rs_exec sh b False list_panes_args) (\<lambda>(stdout, stderr, code).
       if code \<noteq> 0 then
         (if is_no_server stderr then act_return [] else act_fail (tmux_failure ''tmux list-panes'' stderr))
       else act_return (parse_panes stdout))"

definition rs_pane_working_directory :: "'w ssh_ops \<Rightarrow> remote_backend \<Rightarrow> string \<Rightarrow> ('w, session_error, string) action" where
  "rs_pane_working_directory sh b name =
     act_bind (rs_exec sh b False (working_directory_args name)) (\<lambda>(stdout, stderr, code).
       if code \<noteq> 0 then
         (if contains_sub stderr cant_find \<or> is_no_server stderr then act_fail ErrNotFound
          else act_fail (tmux_failure ''tmux pane working directory'' stderr))
       else (let path = trim_space stdout in
         if path = [] then act_fail ErrNotFound else act_return path))"

definition remote_session_backend :: "'w ssh_ops \<Rightarrow> remote_backend \<Rightarrow> ('w \<Rightarrow> string) \<Rightarrow> 'w backend" where
  "remote_session_backend sh b stamp =
     \<lparr> bk_list = rs_list sh b,
       bk_create = rs_create sh b stamp,
       bk_rename = rs_rename sh b,
       bk_kill = rs_kill sh b,
       bk_list_panes = Some (rs_list_panes sh b),
       bk_get = Some (rs_get sh b),
       bk_has = Some (rs_has_session sh b),
       bk_pane_dir = Some (rs_pane_working_directory sh b) \<rparr>"

interpretation remote_sessions: session_backend "remote_session_backend sh b stamp" "rs_get sh b"
  for sh :: "'w ssh_ops" and b stamp
  by unfold_locales (simp_all add: remote_session_backend_def rs_get_def)

section \<open>Probing the environment (env_probe.go)\<close>

datatype probe_error = UnsupportedEnvironment string | TmuxUnavailable string

record remote_env =
  re_os :: string
  re_home :: string
  re_tmux_version :: string

definition env_separator :: string where "env_separator = ''---ENV-SEP---''"

text \<open>\<open>strings.Split\<close> on a separator of several bytes; \<open>skip\<close> counts separator bytes left to drop.\<close>

fun split_str :: "nat \<Rightarrow> string \<Rightarrow> string \<Rightarrow> string list" where
  "split_str skip sep [] = [[]]"
| "split_str (Suc n) sep (c # s) = split_str n sep s"
| "split_str 0 sep (c # s) =
     (if has_prefix (c # s) sep then [] # split_str (length sep - 1) sep s
      else (case split_str 0 sep s of [] \<Rightarrow> [[c]] | p # ps \<Rightarrow> (c # p) # ps))"

text \<open>The reading of the probe's output: \<open>ok\<close> is whether the script exited zero.\<close>

definition read_probe :: "bool \<Rightarrow> string \<Rightarrow> string \<Rightarrow> probe_error + remote_env" where
  "read_probe ok stdout stderr =
     (if \<not> ok then
        (let msg = trim_space stderr in
         if contains_sub msg ''tmux'' \<or> contains_sub stdout ''not found'' then Inl (TmuxUnavailable msg)
         else Inl (UnsupportedEnvironment msg))
      else (let parts = split_str 0 env_separator stdout in
        if length parts < 3 then Inl (UnsupportedEnvironment ''structure'')
        else (let os_name = trim_space (parts ! 0); home = trim_space (parts ! 1); ver = trim_space (parts ! 2) in
          if lower_for_match os_name \<notin> {''linux'', ''darwin'', ''freebsd'', ''openbsd'', ''netbsd''}
            then Inl (UnsupportedEnvironment os_name)
          else if home = [] then Inl (UnsupportedEnvironment ''home'')
          else if \<not> has_prefix (ascii_lower ver) ''tmux'' then Inl (TmuxUnavailable ver)
          else Inr \<lparr> re_os = os_name, re_home = home, re_tmux_version = ver \<rparr>)))"

section \<open>Facts\<close>

text \<open>Whether the command reached the remote shell.\<close>

definition rs_started :: "'w ssh_ops \<Rightarrow> remote_backend \<Rightarrow> string list \<Rightarrow> 'w \<Rightarrow> bool" where
  "rs_started sh b args w \<longleftrightarrow>
     sh_check_valid sh w = None
     \<and> (\<exists>conn w1 w2 w3. sh_get_control sh w = (Inr conn, w1) \<and> sh_new_session sh conn w1 = (True, w2)
         \<and> sh_start sh conn (encode_posix_command (rb_tmux_path b # args)) w2 = (True, w3))"

text \<open>The errors a lease reports of its own accord never claim an unknown outcome.\<close>

definition lease_errors_known :: "'w ssh_ops \<Rightarrow> bool" where
  "lease_errors_known sh \<longleftrightarrow>
     (\<forall>w e. sh_check_valid sh w = Some e \<longrightarrow> he_code e \<noteq> OutcomeUnknown)
     \<and> (\<forall>w e w'. sh_get_control sh w = (Inl e, w') \<longrightarrow> he_code e \<noteq> OutcomeUnknown)"

section \<open>Properties\<close>

text \<open>A remote operation reports an unknown outcome only when it changes sessions and its
  command was started on the remote host; a command that never started, or one that only
  reads, never does.\<close>

theorem outcome_unknown_only_if_started:
  assumes "rs_exec sh b mutation args w = (Inl (ErrHost e), w')" and "lease_errors_known sh"
    and "he_code e = OutcomeUnknown"
  shows "mutation \<and> rs_started sh b args w"
  using assms
  by (auto simp: rs_exec_def rs_started_def lease_errors_known_def lost_outcome_def
      split: option.splits prod.splits sum.splits bool.splits wait_result.splits if_splits) blast

text \<open>Fetching one session through the fast getter of either backend is the scan of its listing:
  the local client and the remote backend answer \<open>GetSession\<close> exactly as a backend without the
  getter would.\<close>

theorem get_session_is_scan:
  "svc_get_session (local_backend os c) name = svc_get_session ((local_backend os c)\<lparr>bk_get := None\<rparr>) name
   \<and> svc_get_session (remote_session_backend sh b stamp) name
       = svc_get_session ((remote_session_backend sh b stamp)\<lparr>bk_get := None\<rparr>) name"
  using local_sessions.get_is_scan remote_sessions.get_is_scan by blast

definition dropped_line :: "unit ssh_ops" where
  "dropped_line =
     \<lparr> sh_target = host_only ''h1'', sh_check_valid = (\<lambda>_. None), sh_get_control = (\<lambda>w. (Inr 0, w)),
       sh_invalidate_control = (\<lambda>_ w. w), sh_new_session = (\<lambda>_ w. (True, w)), sh_start = (\<lambda>_ _ w. (True, w)),
       sh_wait = (\<lambda>_ w. (WaitFailed [] [], w)) \<rparr>"

lemma outcome_unknown_only_if_started_witness:
  "rs_exec dropped_line (new_remote_backend [] []) True (kill_args ''dev'') ()
     = (Inl (ErrHost (HostError (host_only ''h1'') OutcomeUnknown ''wait'')), ())
   \<and> rs_started dropped_line (new_remote_backend [] []) (kill_args ''dev'') ()"
proof -
  have e: "rs_exec dropped_line (new_remote_backend [] []) True (kill_args ''dev'') ()
     = (Inl (ErrHost (HostError (host_only ''h1'') OutcomeUnknown ''wait'')), ())"
    by (simp add: rs_exec_def dropped_line_def lost_outcome_def)
  have "lease_errors_known dropped_line" by (simp add: lease_errors_known_def dropped_line_def)
  from outcome_unknown_only_if_started [OF e this] e show ?thesis by simp
qed

end
