(* ===== verification/GoPath.thy ===== *)
theory GoPath
  imports GoStrings "HOL-Library.Sublist"
begin

text \<open>
  Go's \<open>path/filepath\<close> on Unix (and \<open>path\<close>, which agrees with it there): \<open>Clean\<close>, \<open>Dir\<close>,
  \<open>Base\<close>, \<open>Join\<close>, \<open>IsAbs\<close> and \<open>Rel\<close>, all lexical.  A clean absolute path is its list of
  segments; containment of one path in another is prefixing of those lists.
\<close>

section \<open>Cleaning\<close>

abbreviation slash :: char where "slash \<equiv> CHR ''/''"

definition dot :: string where "dot = ''.''"
definition dotdot :: string where "dotdot = ''..''"

text \<open>The segments kept so far, in reverse; \<open>rooted\<close> says whether the path starts with a slash.\<close>

fun clean_segs :: "bool \<Rightarrow> string list \<Rightarrow> string list \<Rightarrow> string list" where
  "clean_segs rooted acc [] = rev acc"
| "clean_segs rooted acc (p # ps) =
     (if p = [] \<or> p = dot then clean_segs rooted acc ps
      else if p = dotdot then
        (case acc of
           [] \<Rightarrow> clean_segs rooted (if rooted then [] else [dotdot]) ps
         | a # as \<Rightarrow> clean_segs rooted (if a = dotdot then dotdot # acc else as) ps)
      else clean_segs rooted (p # acc) ps)"

definition is_abs :: "string \<Rightarrow> bool" where
  "is_abs p = has_prefix p ''/''"

definition segs :: "string \<Rightarrow> string list" where
  "segs p = clean_segs (is_abs p) [] (split_on slash p)"

definition of_segs :: "bool \<Rightarrow> string list \<Rightarrow> string" where
  "of_segs rooted ss =
     (if rooted then slash # join_with ''/'' ss
      else if ss = [] then dot else join_with ''/'' ss)"

definition clean :: "string \<Rightarrow> string" where
  "clean p = (if p = [] then dot else of_segs (is_abs p) (segs p))"

text \<open>The text up to and including the last slash, and the text after it.\<close>

definition upto_last_slash :: "string \<Rightarrow> string" where
  "upto_last_slash p = rev (dropWhile (\<lambda>c. c \<noteq> slash) (rev p))"

definition after_last_slash :: "string \<Rightarrow> string" where
  "after_last_slash p = rev (takeWhile (\<lambda>c. c \<noteq> slash) (rev p))"

definition dir_of :: "string \<Rightarrow> string" where
  "dir_of p = clean (upto_last_slash p)"

definition base_of :: "string \<Rightarrow> string" where
  "base_of p =
     (if p = [] then dot
      else (let q = rev (dropWhile (\<lambda>c. c = slash) (rev p)); b = after_last_slash q in
        if b = [] then ''/'' else b))"

definition join_path :: "string list \<Rightarrow> string" where
  "join_path es =
     (case dropWhile (\<lambda>e. e = []) es of [] \<Rightarrow> [] | xs \<Rightarrow> clean (join_with ''/'' xs))"

section \<open>Relative paths\<close>

fun strip_common :: "string list \<Rightarrow> string list \<Rightarrow> string list \<times> string list" where
  "strip_common (a # as) (b # bs) = (if a = b then strip_common as bs else (a # as, b # bs))"
| "strip_common as bs = (as, bs)"

text \<open>\<open>filepath.Rel\<close>; None is its error.\<close>

definition rel_path :: "string \<Rightarrow> string \<Rightarrow> string option" where
  "rel_path base targ =
     (let b = clean base; t = clean targ in
      if t = b then Some dot
      else if is_abs b \<noteq> is_abs t then None
      else (case strip_common (if b = dot then [] else segs b) (segs t) of
          ([], ts) \<Rightarrow> Some (join_with ''/'' ts)
        | (x # bs, ts) \<Rightarrow>
            if x = dotdot then None
            else Some (join_with ''/'' (replicate (Suc (length bs)) dotdot @ ts))))"

section \<open>Clean paths\<close>

definition clean_seg :: "string \<Rightarrow> bool" where
  "clean_seg s \<longleftrightarrow> s \<noteq> [] \<and> s \<noteq> dot \<and> s \<noteq> dotdot \<and> slash \<notin> set s"

definition clean_abs :: "string \<Rightarrow> bool" where
  "clean_abs p \<longleftrightarrow> (\<exists>ss. p = of_segs True ss \<and> list_all clean_seg ss)"

lemma strip_common_left [simp]: "strip_common [] ys = ([], ys)"
  by (cases ys) simp_all

lemma dots_differ [simp]: "dot \<noteq> []" "dotdot \<noteq> []" "dot \<noteq> dotdot" "dotdot \<noteq> dot" "slash \<notin> set dot"
    "slash \<notin> set dotdot"
  by (simp_all add: dot_def dotdot_def)

lemma clean_segs_clean:
  "list_all (\<lambda>p. slash \<notin> set p) ps \<Longrightarrow> list_all clean_seg acc \<Longrightarrow> list_all clean_seg (clean_segs True acc ps)"
proof (induction ps arbitrary: acc)
  case Nil
  then show ?case by (simp add: list_all_iff)
next
  case (Cons p ps)
  show ?case
  proof (cases "p = dotdot")
    case True
    have "list_all clean_seg (case acc of [] \<Rightarrow> [] | a # as \<Rightarrow> as)" using Cons.prems by (cases acc) simp_all
    moreover have "clean_segs True acc (p # ps) = clean_segs True (case acc of [] \<Rightarrow> [] | a # as \<Rightarrow> as) ps"
      using True Cons.prems by (cases acc) (auto simp: clean_seg_def)
    ultimately show ?thesis using Cons.IH [of "case acc of [] \<Rightarrow> [] | a # as \<Rightarrow> as"] Cons.prems by simp
  next
    case False
    then show ?thesis using Cons.IH [of acc] Cons.IH [of "p # acc"] Cons.prems by (simp add: clean_seg_def)
  qed
qed

lemma clean_segs_id: "list_all clean_seg ps \<Longrightarrow> clean_segs r acc ps = rev acc @ ps"
  by (induction ps arbitrary: acc) (auto simp: clean_seg_def)

lemma is_abs_of_segs [simp]: "is_abs (of_segs True ss)"
  by (simp add: is_abs_def of_segs_def)

lemma segs_abs_clean: "is_abs p \<Longrightarrow> list_all clean_seg (segs p)"
  unfolding segs_def using clean_segs_clean [of "split_on slash p" "[]"]
  by (simp add: list_all_iff split_on_parts)

lemma clean_abs_clean: "is_abs p \<Longrightarrow> clean_abs (clean p)"
  using segs_abs_clean [of p] by (auto simp: clean_abs_def clean_def is_abs_def)

lemma segs_of_segs:
  assumes "list_all clean_seg ss"
  shows "segs (of_segs True ss) = ss"
proof (cases ss)
  case Nil
  then show ?thesis by (simp add: segs_def of_segs_def is_abs_def)
next
  case (Cons x xs)
  have "split_on slash (join_with [slash] ss) = ss"
    by (rule split_join) (use Cons assms in \<open>auto simp: clean_seg_def list_all_iff\<close>)
  then have "split_on slash (of_segs True ss) = [] # ss" by (simp add: of_segs_def)
  then show ?thesis using clean_segs_id [OF assms, of True "[]"] by (simp add: segs_def)
qed

lemma clean_of_segs: "list_all clean_seg ss \<Longrightarrow> clean (of_segs True ss) = of_segs True ss"
  by (simp add: clean_def segs_of_segs) (simp add: of_segs_def)

lemma clean_idem_abs: "clean_abs p \<Longrightarrow> clean p = p"
  by (auto simp: clean_abs_def clean_of_segs)

lemma clean_abs_is_abs: "clean_abs p \<Longrightarrow> is_abs p"
  by (auto simp: clean_abs_def)

lemma clean_abs_segs: "clean_abs p \<Longrightarrow> of_segs True (segs p) = p \<and> list_all clean_seg (segs p)"
  by (auto simp: clean_abs_def segs_of_segs)

lemma clean_abs_eq: "clean_abs p \<Longrightarrow> clean_abs q \<Longrightarrow> segs p = segs q \<Longrightarrow> p = q"
  by (metis clean_abs_segs)

lemma split_of_segs:
  assumes "list_all clean_seg ss" "ss \<noteq> []"
  shows "split_on slash (slash # join_with ''/'' ss) = [] # ss"
    and "split_on slash (slash # join_with ''/'' ss @ ''/'') = [] # ss @ [[]]"
proof -
  have s: "split_on slash (join_with [slash] ss) = ss"
    by (rule split_join) (use assms in \<open>auto simp: clean_seg_def list_all_iff\<close>)
  then show "split_on slash (slash # join_with ''/'' ss) = [] # ss" by simp
  have "split_on slash (join_with [slash] (ss @ [[]])) = ss @ [[]]"
    by (rule split_join) (use assms in \<open>auto simp: clean_seg_def list_all_iff\<close>)
  moreover have "join_with [slash] (ss @ [[]]) = join_with ''/'' ss @ ''/''"
    using join_with_append [of ss "[[]]" "''/''"] assms by simp
  ultimately show "split_on slash (slash # join_with ''/'' ss @ ''/'') = [] # ss @ [[]]" by simp
qed

lemma last_slash_split:
  assumes "slash \<notin> set x"
  shows "upto_last_slash (p @ slash # x) = p @ [slash]" "after_last_slash (p @ slash # x) = x"
proof -
  have "rev (p @ slash # x) = rev x @ slash # rev p" by simp
  moreover have "\<forall>c \<in> set (rev x). c \<noteq> slash" using assms by auto
  ultimately show "upto_last_slash (p @ slash # x) = p @ [slash]" "after_last_slash (p @ slash # x) = x"
    by (simp_all add: upto_last_slash_def after_last_slash_def dropWhile_append_all takeWhile_append_all)
qed

lemma of_segs_snoc:
  "of_segs True (bs @ [x]) = (if bs = [] then [] else slash # join_with ''/'' bs) @ slash # x"
  using join_with_append [of bs "[x]" "''/''"] by (simp add: of_segs_def)

lemma dir_of_of_segs:
  assumes "list_all clean_seg ss"
  shows "dir_of (of_segs True ss) = of_segs True (butlast ss)"
proof (cases ss rule: rev_cases)
  case Nil
  then show ?thesis by (simp add: dir_of_def of_segs_def upto_last_slash_def clean_def segs_def is_abs_def)
next
  case (snoc bs x)
  have x: "slash \<notin> set x" and bs: "list_all clean_seg bs" using assms snoc by (auto simp: clean_seg_def)
  let ?p = "(if bs = [] then [] else slash # join_with ''/'' bs) @ [slash]"
  have u: "upto_last_slash (of_segs True ss) = ?p"
    unfolding snoc of_segs_snoc by (rule last_slash_split(1) [OF x])
  have "split_on slash ?p = [] # bs @ [[]]"
  proof (cases "bs = []")
    case False
    then show ?thesis using split_of_segs(2) [OF bs False] by simp
  qed simp
  then have "segs ?p = clean_segs True [] ([] # bs @ [[]])" by (simp add: segs_def is_abs_def)
  also have "\<dots> = clean_segs True [] (bs @ [[]])" by simp
  also have "\<dots> = bs"
  proof -
    have "clean_segs True acc (bs @ [[]]) = rev acc @ bs" for acc
      using bs by (induction bs arbitrary: acc) (auto simp: clean_seg_def)
    from this [of "[]"] show ?thesis by simp
  qed
  finally have "clean ?p = of_segs True bs" by (simp add: clean_def is_abs_def)
  then show ?thesis using u snoc by (simp add: dir_of_def)
qed

lemma base_of_of_segs:
  assumes "list_all clean_seg ss" "ss \<noteq> []"
  shows "base_of (of_segs True ss) = last ss"
proof (cases ss rule: rev_cases)
  case (snoc bs x)
  have x: "slash \<notin> set x" "x \<noteq> []" using assms snoc by (auto simp: clean_seg_def)
  let ?p = "of_segs True ss"
  obtain pre where pre: "?p = pre @ slash # x" unfolding snoc of_segs_snoc by blast
  have "last x \<noteq> slash" using x by (metis last_in_set)
  then have "dropWhile (\<lambda>c. c = slash) (rev ?p) = rev ?p"
    using x pre by (cases x rule: rev_cases) auto
  then have "base_of ?p = (let b = after_last_slash ?p in if b = [] then ''/'' else b)"
    by (simp add: base_of_def of_segs_def)
  then show ?thesis using last_slash_split(2) [OF x(1), of pre] pre x snoc by simp
qed (use assms in simp)

lemma dir_of_clean_abs: "clean_abs p \<Longrightarrow> clean_abs (dir_of p) \<and> segs (dir_of p) = butlast (segs p)"
proof -
  assume p: "clean_abs p"
  note q = clean_abs_segs [OF p]
  have b: "list_all clean_seg (butlast (segs p))" using q by (auto simp: list_all_iff dest: in_set_butlastD)
  have "dir_of p = of_segs True (butlast (segs p))" using dir_of_of_segs [of "segs p"] q by simp
  with b show ?thesis by (auto simp: clean_abs_def segs_of_segs)
qed

lemma dir_of_root: "clean_abs p \<Longrightarrow> dir_of p = p \<longleftrightarrow> segs p = []"
proof
  assume p: "clean_abs p" and "dir_of p = p"
  then have "butlast (segs p) = segs p" using dir_of_clean_abs [OF p] by simp
  then show "segs p = []" by (metis append_butlast_last_id append_self_conv list.simps(3))
next
  assume p: "clean_abs p" and "segs p = []"
  with dir_of_clean_abs [OF p] show "dir_of p = p" by (simp add: clean_abs_eq)
qed

lemma clean_abs_nonempty: "clean_abs p \<Longrightarrow> p \<noteq> []"
  by (auto simp: clean_abs_def of_segs_def)

section \<open>Containment\<close>

text \<open>\<open>relativeTo\<close> of confine.go: the place of \<open>resolved\<close> inside \<open>root\<close>, if it is there.\<close>

definition relative_to :: "string \<Rightarrow> string \<Rightarrow> string option" where
  "relative_to root resolved =
     (case rel_path root resolved of
        None \<Rightarrow> None
      | Some rel \<Rightarrow>
          if rel = dot then Some rel
          else if rel = dotdot \<or> has_prefix rel ''../'' then None
          else Some rel)"

lemma strip_common_prefix: "strip_common xs (xs @ ys) = ([], ys)"
  by (induction xs) simp_all

lemma strip_common_Nil: "strip_common xs ys = ([], zs) \<Longrightarrow> ys = xs @ zs"
  by (induction xs ys rule: strip_common.induct) (auto split: if_splits)

lemma strip_common_sub: "strip_common xs ys = (x # as, bs) \<Longrightarrow> x \<in> set xs"
  by (induction xs ys rule: strip_common.induct) (auto split: if_splits)

lemma join_clean_not_up:
  assumes "list_all clean_seg ts" "ts \<noteq> []"
  shows "join_with ''/'' ts \<noteq> dot" "join_with ''/'' ts \<noteq> dotdot" "\<not> has_prefix (join_with ''/'' ts) ''../''"
proof -
  have sp: "split_on slash (join_with [slash] ts) = ts"
    by (rule split_join) (use assms in \<open>auto simp: clean_seg_def list_all_iff\<close>)
  have d: "split_on slash dot = [dot]" "split_on slash dotdot = [dotdot]"
    by (simp_all add: dot_def dotdot_def)
  have hd_ne: "hd ts \<noteq> dot" "hd ts \<noteq> dotdot" using assms by (cases ts; simp add: clean_seg_def)+
  show "join_with ''/'' ts \<noteq> dot" using sp d hd_ne by (metis list.sel(1))
  show "join_with ''/'' ts \<noteq> dotdot" using sp d hd_ne by (metis list.sel(1))
  show "\<not> has_prefix (join_with ''/'' ts) ''../''"
  proof
    assume "has_prefix (join_with ''/'' ts) ''../''"
    then obtain r where "join_with ''/'' ts = dotdot @ slash # r" by (auto simp: has_prefix_iff dotdot_def)
    with sp have "ts = dotdot # split_on slash r" by (simp add: split_on_append_sep)
    with hd_ne show False by simp
  qed
qed

lemma relative_to_iff:
  assumes "clean_abs root" "clean_abs p"
  shows "relative_to root p \<noteq> None \<longleftrightarrow> prefix (segs root) (segs p)"
    and "prefix (segs root) (segs p) \<Longrightarrow>
      relative_to root p = Some (if p = root then dot else join_with ''/'' (drop (length (segs root)) (segs p)))"
proof -
  have c: "clean root = root" "clean p = p" "is_abs root" "is_abs p"
    using assms clean_idem_abs clean_abs_is_abs by auto
  moreover have "\<not> is_abs dot" by (simp add: is_abs_def dot_def)
  ultimately have nd: "root \<noteq> dot" by auto
  note c = c nd
  have in_root: "relative_to root p = Some (if p = root then dot else join_with ''/'' (drop (length (segs root)) (segs p)))"
    if pre: "prefix (segs root) (segs p)"
  proof (cases "p = root")
    case False
    from pre obtain ts where ts: "segs p = segs root @ ts" by (auto simp: prefix_def)
    have "ts \<noteq> []" using False ts clean_abs_eq [OF assms] by auto
    moreover have "list_all clean_seg ts" using clean_abs_segs [OF assms(2)] ts by simp
    ultimately show ?thesis using False ts c join_clean_not_up [of ts]
      by (simp add: relative_to_def rel_path_def Let_def strip_common_prefix)
  qed (simp add: relative_to_def rel_path_def)
  then show "prefix (segs root) (segs p) \<Longrightarrow>
      relative_to root p = Some (if p = root then dot else join_with ''/'' (drop (length (segs root)) (segs p)))" .
  have "relative_to root p = None" if no: "\<not> prefix (segs root) (segs p)"
  proof -
    have ne: "p \<noteq> root" using no by auto
    obtain as bs where s: "strip_common (segs root) (segs p) = (as, bs)" by (cases "strip_common (segs root) (segs p)")
    then obtain x xs where as: "as = x # xs" using no strip_common_Nil [of "segs root" "segs p" bs]
      by (cases as) (auto simp: prefix_def)
    have up: "has_prefix (join_with ''/'' (replicate (Suc (length xs)) dotdot @ bs)) ''../''
        \<or> join_with ''/'' (replicate (Suc (length xs)) dotdot @ bs) = dotdot"
      by (cases "replicate (length xs) dotdot @ bs") (auto simp: dotdot_def)
    then have "join_with ''/'' (replicate (Suc (length xs)) dotdot @ bs) \<noteq> dot"
      by (auto simp: dot_def dotdot_def has_prefix_def)
    with up ne s as c show ?thesis
      by (auto simp: relative_to_def rel_path_def Let_def)
  qed
  with in_root show "relative_to root p \<noteq> None \<longleftrightarrow> prefix (segs root) (segs p)" by fastforce
qed

end
