(* ===== verification/FileGuard.thy ===== *)
theory FileGuard
  imports GoPath
begin

text \<open>
  \<open>hub/internal/files/guard.go\<close>, \<open>errors.go\<close> and the path side of \<open>confine.go\<close>: the shape of a
  path, its canonical form, the boundary and the confined form a syscall is given.  The
  operating system's view of links is the parameter \<open>fs_view\<close>, so that what is proved of the
  boundary holds whatever the file system answers.
\<close>

section \<open>Errors (errors.go)\<close>

datatype file_kind =
    InvalidPath | PathNotAllowed | PathNotFound | PermissionDenied | FileTooLarge | Conflict
  | InvalidBody | DirNotEmpty | WriteFailed | CrossRoot | HasOtherNames

text \<open>The causes the service tells apart: errnos, the link walker's message, a closed handle, a
  cancelled context.\<close>

datatype os_error =
    NotExist | Permission | NotDir | Loop | Inval | NameTooLong | NotEmpty | Closed | Exist
  | TooManyLinks | EscapesRoot | Cancelled | OtherError string

text \<open>An error of the vocabulary, a raw cause, or \<open>fmt.Errorf("%w: %w", kind, err)\<close>.\<close>

datatype file_error = Kind file_kind | Raw os_error | Wrap file_kind file_error

fun cause_of :: "file_error \<Rightarrow> os_error option" where
  "cause_of (Kind k) = None"
| "cause_of (Raw e) = Some e"
| "cause_of (Wrap k e) = cause_of e"

fun kind_is :: "file_error \<Rightarrow> file_kind \<Rightarrow> bool" where
  "kind_is (Kind k) k' = (k = k')"
| "kind_is (Raw e) k' = False"
| "kind_is (Wrap k e) k' = (k = k' \<or> kind_is e k')"

section \<open>Classification (guard.go)\<close>

definition closed_root_error :: "file_error \<Rightarrow> file_error option" where
  "closed_root_error e = (if cause_of e = Some Closed then Some (Kind PathNotAllowed) else None)"

definition classify_path_error :: "file_error \<Rightarrow> file_error" where
  "classify_path_error e =
     (case closed_root_error e of
        Some c \<Rightarrow> c
      | None \<Rightarrow>
          (case cause_of e of
             Some NotExist \<Rightarrow> Kind PathNotFound
           | Some Permission \<Rightarrow> Kind PermissionDenied
           | Some NotDir \<Rightarrow> Kind InvalidPath
           | Some Loop \<Rightarrow> Kind InvalidPath
           | Some Inval \<Rightarrow> Kind InvalidPath
           | Some NameTooLong \<Rightarrow> Kind InvalidPath
           | Some TooManyLinks \<Rightarrow> (case e of Raw _ \<Rightarrow> Kind InvalidPath | _ \<Rightarrow> e)
           | Some NotEmpty \<Rightarrow> Kind DirNotEmpty
           | _ \<Rightarrow> e))"

section \<open>Paths the caller may name\<close>

definition max_path_length :: nat where "max_path_length = 4096"

datatype guard_mode = ModeRead | ModeCreate

definition blocked_prefixes :: "string list" where
  "blocked_prefixes = [''/proc'', ''/sys'', ''/dev'']"

definition is_blocked :: "string \<Rightarrow> bool" where
  "is_blocked path =
     (let low = ascii_lower path in
      list_ex (\<lambda>p. low = p \<or> has_prefix low (p @ ''/'')) blocked_prefixes)"

definition validate_path_shape :: "string \<Rightarrow> file_error + unit" where
  "validate_path_shape path =
     (if path = [] then Inl (Kind InvalidPath)
      else if \<not> is_abs path then Inl (Kind InvalidPath)
      else if length path > max_path_length then Inl (Kind InvalidPath)
      else if list_ex (\<lambda>sg. sg = dotdot) (split_on slash path) then Inl (Kind InvalidPath)
      else Inr ())"

section \<open>Canonical paths\<close>

text \<open>\<open>filepath.EvalSymlinks\<close> and \<open>os.Lstat\<close>: the canonical path or the failure, and whether
  an entry is a symbolic link.\<close>

record fs_view =
  fv_eval :: "string \<Rightarrow> os_error + string"
  fv_lstat :: "string \<Rightarrow> os_error + bool"

definition check_dangling_link :: "fs_view \<Rightarrow> string \<Rightarrow> string \<Rightarrow> file_error + unit" where
  "check_dangling_link fs ancestor segment =
     (case fv_lstat fs (join_path [ancestor, segment]) of
        Inl _ \<Rightarrow> Inr ()
      | Inr is_link \<Rightarrow> if is_link then Inl (Kind PathNotAllowed) else Inr ())"

text \<open>The upward walk: \<open>missing\<close> are the segments that do not exist, deepest first, as the code
  collects them.  Each step drops a segment, so the length of the path bounds them
  (\<open>walk_up_enough\<close>).\<close>

fun walk_up :: "fs_view \<Rightarrow> guard_mode \<Rightarrow> string \<Rightarrow> nat \<Rightarrow> string \<Rightarrow> string list \<Rightarrow> file_error + string" where
  "walk_up fs mode path 0 current missing = Inr (clean path)"
| "walk_up fs mode path (Suc n) current missing =
     (let parent = dir_of current in
      if parent = current then Inr (clean path)
      else (let missing' = missing @ [base_of current] in
        (case fv_eval fs parent of
           Inr resolved \<Rightarrow>
             rbind (if mode = ModeCreate \<and> length missing' > 1
                    then check_dangling_link fs parent (last missing') else Inr ())
               (\<lambda>_. Inr (fold (\<lambda>m r. join_path [r, m]) (rev missing') resolved))
         | Inl e \<Rightarrow>
             if e \<noteq> NotExist then Inl (classify_path_error (Raw e))
             else walk_up fs mode path n parent missing')))"

definition canonicalize_missing :: "fs_view \<Rightarrow> string \<Rightarrow> guard_mode \<Rightarrow> file_error + string" where
  "canonicalize_missing fs path0 mode =
     (let path = clean path0 in walk_up fs mode path (Suc (length path)) path [])"

definition canonicalize :: "fs_view \<Rightarrow> string \<Rightarrow> guard_mode \<Rightarrow> file_error + string" where
  "canonicalize fs path mode =
     (case fv_eval fs path of
        Inr r \<Rightarrow> Inr r
      | Inl e \<Rightarrow> if e \<noteq> NotExist then Inl (classify_path_error (Raw e)) else canonicalize_missing fs path mode)"

section \<open>The root set\<close>

text \<open>\<open>handles\<close> are the open descriptors, in the order of the roots, identified by number.\<close>

record root_set =
  rs_roots :: "string list"
  rs_handles :: "nat list"
  rs_closed :: bool

definition unrestricted :: "root_set \<Rightarrow> bool" where
  "unrestricted s = (length (rs_roots s) = 0)"

definition rs_contains :: "root_set \<Rightarrow> string \<Rightarrow> bool" where
  "rs_contains s resolved = list_ex (\<lambda>root. relative_to root resolved \<noteq> None) (rs_roots s)"

fun resolve_roots :: "fs_view \<Rightarrow> string list \<Rightarrow> file_error + string list" where
  "resolve_roots fs [] = Inr []"
| "resolve_roots fs (root # rest) =
     (if is_blocked (clean root) then Inl (Raw (OtherError ''root not reachable''))
      else (case fv_eval fs root of
          Inl e \<Rightarrow> Inl (Raw e)
        | Inr resolved \<Rightarrow>
            if is_blocked resolved then Inl (Raw (OtherError ''root not reachable''))
            else rbind (resolve_roots fs rest) (\<lambda>rs. Inr (resolved # rs))))"

text \<open>\<open>openRoots\<close>: a root that cannot be opened closes those already opened and fails.\<close>

fun open_roots :: "(string \<Rightarrow> os_error + nat) \<Rightarrow> nat list \<Rightarrow> string list \<Rightarrow> (os_error \<times> nat list) + nat list" where
  "open_roots op handles [] = Inr handles"
| "open_roots op handles (r # rs) =
     (case op r of Inl e \<Rightarrow> Inl (e, handles) | Inr h \<Rightarrow> open_roots op (handles @ [h]) rs)"

definition new_root_set :: "fs_view \<Rightarrow> (string \<Rightarrow> os_error + nat) \<Rightarrow> string list \<Rightarrow> file_error + root_set" where
  "new_root_set fs op roots =
     rbind (resolve_roots fs roots) (\<lambda>rs.
       case open_roots op [] rs of
         Inl (e, _) \<Rightarrow> Inl (Raw e)
       | Inr hs \<Rightarrow> Inr \<lparr> rs_roots = rs, rs_handles = hs, rs_closed = False \<rparr>)"

definition close_root_set :: "root_set \<Rightarrow> root_set" where
  "close_root_set s = s\<lparr>rs_handles := [], rs_closed := True\<rparr>"

definition resolve :: "fs_view \<Rightarrow> root_set \<Rightarrow> string \<Rightarrow> guard_mode \<Rightarrow> file_error + string" where
  "resolve fs s path mode =
     rbind (validate_path_shape path) (\<lambda>_.
       if is_blocked path then Inl (Kind PathNotAllowed)
       else rbind (canonicalize fs path mode) (\<lambda>resolved.
         if is_blocked resolved then Inl (Kind PathNotAllowed)
         else if \<not> unrestricted s \<and> \<not> rs_contains s resolved then Inl (Kind PathNotAllowed)
         else if mode = ModeRead then
           (case fv_lstat fs resolved of
              Inl e \<Rightarrow> Inl (classify_path_error (Raw e))
            | Inr _ \<Rightarrow> Inr resolved)
         else Inr resolved))"

section \<open>Confined paths (confine.go)\<close>

record confined =
  cf_root :: "nat option"
  cf_path :: string
  cf_abs :: string
  cf_err :: "file_error option"

definition cf_join :: "confined \<Rightarrow> string \<Rightarrow> confined" where
  "cf_join c name = c\<lparr>cf_path := join_path [cf_path c, name], cf_abs := join_path [cf_abs c, name]\<rparr>"

definition cf_dir :: "confined \<Rightarrow> confined" where
  "cf_dir c = c\<lparr>cf_path := dir_of (cf_path c), cf_abs := dir_of (cf_abs c)\<rparr>"

fun confine_in :: "string list \<Rightarrow> nat list \<Rightarrow> string \<Rightarrow> confined option" where
  "confine_in (root # rs) (h # hs) path =
     (case relative_to root path of
        Some rel \<Rightarrow> Some \<lparr> cf_root = Some h, cf_path = rel, cf_abs = path, cf_err = None \<rparr>
      | None \<Rightarrow> confine_in rs hs path)"
| "confine_in _ _ path = None"

definition refused :: "string \<Rightarrow> confined" where
  "refused path = \<lparr> cf_root = None, cf_path = path, cf_abs = path, cf_err = Some (Kind PathNotAllowed) \<rparr>"

definition confine :: "root_set \<Rightarrow> string \<Rightarrow> confined" where
  "confine s path =
     (if rs_closed s then refused path
      else (case confine_in (rs_roots s) (rs_handles s) path of
          Some c \<Rightarrow> c
        | None \<Rightarrow>
            if length (rs_roots s) > 0 then refused path
            else \<lparr> cf_root = None, cf_path = path, cf_abs = path, cf_err = None \<rparr>))"

text \<open>\<open>escapedWithin\<close>: a handle's refusal to leave its tree becomes not-found.\<close>

definition escaped_within :: "os_error \<Rightarrow> os_error" where
  "escaped_within e = (if e = EscapesRoot then NotExist else e)"

section \<open>Facts\<close>

definition roots_ok :: "root_set \<Rightarrow> bool" where
  "roots_ok s \<longleftrightarrow> (\<forall>r \<in> set (rs_roots s). clean_abs r) \<and> (rs_closed s \<or> length (rs_handles s) = length (rs_roots s))"

definition view_ok :: "fs_view \<Rightarrow> bool" where
  "view_ok fs \<longleftrightarrow> (\<forall>p r. is_abs p \<longrightarrow> fv_eval fs p = Inr r \<longrightarrow> clean_abs r)"

lemma confine_in_Some:
  "length hs = length rs \<Longrightarrow> confine_in rs hs p = Some c \<Longrightarrow>
     \<exists>root \<in> set rs. \<exists>h \<in> set hs. relative_to root p = Some (cf_path c) \<and> cf_root c = Some h
        \<and> cf_abs c = p \<and> cf_err c = None"
  by (induction rs hs p rule: confine_in.induct) (auto split: option.splits)

lemma confine_in_None:
  "length hs = length rs \<Longrightarrow> confine_in rs hs p = None \<longleftrightarrow> (\<forall>root \<in> set rs. relative_to root p = None)"
  by (induction rs hs p rule: confine_in.induct) (auto split: option.splits)

lemma is_abs_clean [simp]: "is_abs p \<Longrightarrow> is_abs (clean p)"
  using clean_abs_clean clean_abs_is_abs by blast

lemma join_clean_abs:
  assumes "clean_abs r"
  shows "clean_abs (join_path [r, m])"
proof -
  have ne: "r \<noteq> []" and ab: "is_abs r" using assms clean_abs_is_abs clean_abs_nonempty by auto
  then have "is_abs (join_with ''/'' [r, m])" by (cases r) (auto simp: is_abs_def)
  then show ?thesis using ne by (simp add: join_path_def clean_abs_clean del: join_with.simps)
qed

lemma fold_join_clean_abs: "clean_abs r \<Longrightarrow> clean_abs (fold (\<lambda>m r. join_path [r, m]) ms r)"
  by (induction ms arbitrary: r) (simp_all add: join_clean_abs)

lemma walk_up_abs:
  "view_ok fs \<Longrightarrow> is_abs path \<Longrightarrow> clean_abs current \<Longrightarrow> walk_up fs mode path n current missing = Inr r \<Longrightarrow> clean_abs r"
proof (induction n arbitrary: current missing)
  case (Suc n)
  have pa: "clean_abs (dir_of current)" using Suc.prems(3) dir_of_clean_abs by blast
  have res: "fv_eval fs (dir_of current) = Inr x \<Longrightarrow> clean_abs x" for x
    using Suc.prems(1) clean_abs_is_abs [OF pa] by (auto simp: view_ok_def)
  show ?case
  proof (cases "dir_of current = current")
    case True
    then show ?thesis using Suc.prems by (auto simp: clean_abs_clean)
  next
    case False
    show ?thesis
    proof (cases "fv_eval fs (dir_of current)")
      case (Inl e)
      then show ?thesis using Suc.IH [OF Suc.prems(1,2) pa] Suc.prems(4) False
        by (auto simp: Let_def split: if_splits)
    next
      case (Inr x)
      then have "r = fold (\<lambda>m r. join_path [r, m]) (rev (missing @ [base_of current])) x"
        using Suc.prems(4) False by (auto simp: Let_def simp del: fold_simps rev_append split: if_splits)
      then show ?thesis using fold_join_clean_abs res Inr by blast
    qed
  qed
qed (auto simp: clean_abs_clean)

text \<open>Fuel beyond the number of segments changes nothing, so the walk always ends of its own.\<close>

lemma walk_up_enough:
  "clean_abs current \<Longrightarrow> length (segs current) < n \<Longrightarrow>
     walk_up fs mode path (n + k) current missing = walk_up fs mode path n current missing"
proof (induction n arbitrary: current missing)
  case (Suc n)
  note d = dir_of_clean_abs [OF Suc.prems(1)]
  show ?case
  proof (cases "segs current = []")
    case True
    then show ?thesis using dir_of_root [OF Suc.prems(1)] by simp
  next
    case False
    then have "length (segs (dir_of current)) < n" using d Suc.prems(2) by (cases "segs current") auto
    then have "walk_up fs mode path (n + k) (dir_of current) m = walk_up fs mode path n (dir_of current) m" for m
      using Suc.IH d by blast
    then show ?thesis by (auto simp: Let_def split: sum.split)
  qed
qed simp

lemma canonicalize_abs:
  assumes "view_ok fs" and "is_abs path" and "canonicalize fs path mode = Inr r"
  shows "clean_abs r"
proof (cases "fv_eval fs path")
  case (Inr x)
  with assms show ?thesis by (auto simp: canonicalize_def view_ok_def)
next
  case (Inl e)
  with assms(3) have "canonicalize_missing fs path mode = Inr r" by (auto simp: canonicalize_def split: if_splits)
  then show ?thesis
    using walk_up_abs [OF assms(1) is_abs_clean [OF assms(2)] clean_abs_clean [OF assms(2)]]
    unfolding canonicalize_missing_def Let_def by blast
qed

lemma resolve_Inr:
  assumes "resolve fs s path mode = Inr r"
  shows "validate_path_shape path = Inr ()" "\<not> is_blocked path" "canonicalize fs path mode = Inr r"
    "\<not> is_blocked r" "unrestricted s \<or> rs_contains s r" "mode = ModeRead \<Longrightarrow> \<exists>l. fv_lstat fs r = Inr l"
  using assms by (auto simp: resolve_def split: if_splits sum.splits)

lemma shape_abs: "validate_path_shape path = Inr () \<Longrightarrow> is_abs path"
  by (auto simp: validate_path_shape_def split: if_splits)

lemma resolve_inside:
  assumes "resolve fs s path mode = Inr r" and "view_ok fs" and "roots_ok s"
  shows "clean_abs r \<and> \<not> is_blocked r
    \<and> (rs_roots s = [] \<or> (\<exists>root \<in> set (rs_roots s). prefix (segs root) (segs r)))"
proof -
  note r = resolve_Inr [OF assms(1)]
  have c: "clean_abs r" using canonicalize_abs [OF assms(2) shape_abs [OF r(1)] r(3)] .
  have "rs_roots s = [] \<or> (\<exists>root \<in> set (rs_roots s). prefix (segs root) (segs r))"
    using r(5) relative_to_iff(1) [OF _ c] assms(3)
    by (auto simp: unrestricted_def rs_contains_def list_ex_iff roots_ok_def)
  with c r(4) show ?thesis by blast
qed

section \<open>Properties\<close>

text \<open>C11: whatever links the file system holds, an authorized path is a clean absolute path, lies
  segment by segment under one of the configured roots, if there are any, and is under none
  of the kernel interfaces.\<close>

theorem resolve_contained:
  assumes "resolve fs s path mode = Inr r" and "view_ok fs" and "roots_ok s"
  shows "clean_abs r \<and> \<not> is_blocked r
    \<and> (rs_roots s = [] \<or> (\<exists>root \<in> set (rs_roots s). prefix (segs root) (segs r)))"
  using resolve_inside [OF assms] .

text \<open>Every path the guard authorizes on an open root set gets a confined form that acts
  through an open handle when roots are configured; a closed set, and a path outside every
  root, get one that refuses.\<close>

theorem confine_total:
  assumes "roots_ok s" and "clean_abs p"
  shows "(rs_closed s \<longrightarrow> cf_err (confine s p) = Some (Kind PathNotAllowed))
    \<and> (\<not> rs_closed s \<longrightarrow> rs_roots s \<noteq> [] \<longrightarrow>
        (if rs_contains s p then cf_err (confine s p) = None \<and> (\<exists>h \<in> set (rs_handles s). cf_root (confine s p) = Some h)
           \<and> (\<exists>root \<in> set (rs_roots s). relative_to root p = Some (cf_path (confine s p)))
         else cf_err (confine s p) = Some (Kind PathNotAllowed)))
    \<and> cf_abs (confine s p) = p"
proof (cases "rs_closed s")
  case True
  then show ?thesis by (simp add: confine_def refused_def)
next
  case False
  then have len: "length (rs_handles s) = length (rs_roots s)" using assms(1) by (simp add: roots_ok_def)
  show ?thesis
  proof (cases "confine_in (rs_roots s) (rs_handles s) p")
    case None
    then have "\<not> rs_contains s p" using confine_in_None [OF len] by (auto simp: rs_contains_def list_ex_iff)
    with None False show ?thesis by (simp add: confine_def refused_def)
  next
    case (Some c)
    with confine_in_Some [OF len Some] have "rs_contains s p" by (auto simp: rs_contains_def list_ex_iff)
    with Some False confine_in_Some [OF len Some] show ?thesis by (auto simp: confine_def)
  qed
qed

text \<open>A path outside every configured root is refused as not allowed before its existence is
  looked at: the answer does not depend on what is there.\<close>

theorem outside_refused_blindly:
  assumes "rs_roots s \<noteq> []" and "canonicalize fs path mode = Inr r" and "\<not> rs_contains s r"
    and "validate_path_shape path = Inr ()"
  shows "resolve fs s path mode = Inl (Kind PathNotAllowed)"
  using assms by (auto simp: resolve_def unrestricted_def)

section \<open>Witnesses\<close>

text \<open>A tree where "/srv/link" leads to "/etc" and everything else is itself.\<close>

definition linked_view :: fs_view where
  "linked_view = \<lparr> fv_eval = (\<lambda>p. if p = ''/srv/link'' then Inr ''/etc'' else Inr (clean p)),
     fv_lstat = (\<lambda>p. Inr False) \<rparr>"

definition srv_roots :: root_set where
  "srv_roots = \<lparr> rs_roots = [''/srv''], rs_handles = [3], rs_closed = False \<rparr>"

lemma srv_clean: "clean_abs ''/srv''" "clean_abs ''/etc''" "clean_abs ''/srv/a''"
  by (auto simp: clean_abs_def of_segs_def clean_seg_def dot_def dotdot_def
      intro: exI [of _ "[''srv'']"] exI [of _ "[''etc'']"] exI [of _ "[''srv'', ''a'']"])

lemma srv_segs: "segs ''/srv'' = [''srv'']" "segs ''/srv/a'' = [''srv'', ''a'']" "segs ''/etc'' = [''etc'']"
  by (simp_all add: segs_def is_abs_def dot_def dotdot_def)

lemma linked_view_ok: "view_ok linked_view"
  by (auto simp: view_ok_def linked_view_def srv_clean clean_abs_clean split: if_splits)

lemma srv_roots_ok: "roots_ok srv_roots"
  by (simp add: roots_ok_def srv_roots_def srv_clean)

lemma srv_contains: "rs_contains srv_roots ''/srv/a''" "\<not> rs_contains srv_roots ''/etc''"
  using relative_to_iff(1) [OF srv_clean(1,3)] relative_to_iff(1) [OF srv_clean(1,2)]
  by (auto simp: rs_contains_def srv_roots_def srv_segs)

lemma resolve_contained_witness:
  "resolve linked_view srv_roots ''/srv/a'' ModeRead = Inr ''/srv/a'' \<and> prefix (segs ''/srv'') (segs ''/srv/a'')"
proof -
  have c: "clean ''/srv/a'' = ''/srv/a''" using clean_idem_abs [OF srv_clean(3)] .
  have "resolve linked_view srv_roots ''/srv/a'' ModeRead = Inr ''/srv/a''"
    using srv_contains(1)
    by (simp add: resolve_def validate_path_shape_def is_abs_def max_path_length_def dotdot_def is_blocked_def
        blocked_prefixes_def ascii_lower_def ascii_lower_char_def canonicalize_def linked_view_def c Let_def)
  with resolve_contained [OF this linked_view_ok srv_roots_ok] show ?thesis by (simp add: srv_roots_def)
qed

lemma confine_total_witness:
  "cf_root (confine srv_roots ''/srv/a'') = Some 3
   \<and> cf_err (confine (close_root_set srv_roots) ''/srv/a'') = Some (Kind PathNotAllowed)"
proof -
  have "roots_ok (close_root_set srv_roots)" using srv_roots_ok by (simp add: roots_ok_def close_root_set_def)
  from confine_total [OF this srv_clean(3)] confine_total [OF srv_roots_ok srv_clean(3)] srv_contains(1)
  show ?thesis by (auto simp: srv_roots_def close_root_set_def)
qed

lemma outside_refused_blindly_witness:
  "resolve linked_view srv_roots ''/srv/link'' ModeCreate = Inl (Kind PathNotAllowed)"
  by (rule outside_refused_blindly [where r = "''/etc''"])
     (use srv_contains(2) in \<open>simp_all add: srv_roots_def canonicalize_def linked_view_def
        validate_path_shape_def is_abs_def max_path_length_def dotdot_def\<close>)

end
