(* ===== verification/FileSystem.thy ===== *)
theory FileSystem
  imports FileGuard "HOL-Library.AList"
begin

text \<open>
  The file system as the file service uses it (\<open>confine.go\<close>'s helpers over \<open>os\<close> and
  \<open>os.Root\<close>, \<open>metadata.go\<close>): named inodes, one syscall per operation, each of which may fail
  as the world's fault schedule says.  Names are canonical absolute paths.  A syscall on a
  confined path is refused when the path carries a refusal, and a handle's refusal to leave
  its tree is reported as not-found.
\<close>

section \<open>Worlds\<close>

datatype inode_kind = Regular | Directory | Symlink | Special

record inode =
  in_kind :: inode_kind
  in_data :: string
  in_mtime :: int
  in_mode :: nat
  in_uid :: nat
  in_gid :: nat
  in_nlink :: nat

text \<open>\<open>fw_fault n\<close> is the failure of the \<open>n\<close>-th syscall and \<open>fw_cancelled n\<close> whether the request's
  context is cancelled by then; \<open>fw_rand\<close> is the random source, drawn from \<open>fw_draws\<close> times;
  \<open>fw_chown\<close> says whether the hub may give a file away; \<open>fw_staging\<close> is the service's record of
  files it is writing.\<close>

record fworld =
  fw_names :: "(string \<times> nat) list"
  fw_inodes :: "nat \<Rightarrow> inode option"
  fw_next :: nat
  fw_now :: int
  fw_uid :: nat
  fw_gid :: nat
  fw_chown :: bool
  fw_umask :: nat
  fw_fault :: "nat \<Rightarrow> os_error option"
  fw_calls :: nat
  fw_cancelled :: "nat \<Rightarrow> bool"
  fw_rand :: "nat \<Rightarrow> os_error + string"
  fw_draws :: nat
  fw_staging :: "string list"

definition lookup :: "fworld \<Rightarrow> string \<Rightarrow> nat option" where
  "lookup w p = map_of (fw_names w) p"

definition content_at :: "fworld \<Rightarrow> string \<Rightarrow> string option" where
  "content_at w p = (case lookup w p of None \<Rightarrow> None | Some i \<Rightarrow> map_option in_data (fw_inodes w i))"

section \<open>Syscalls\<close>

type_synonym 'a syscall = "fworld \<Rightarrow> (os_error + 'a) \<times> fworld"

definition faulty :: "'a syscall \<Rightarrow> 'a syscall" where
  "faulty op w =
     (let w' = w\<lparr>fw_calls := Suc (fw_calls w)\<rparr> in
      (case fw_fault w (fw_calls w) of Some e \<Rightarrow> (Inl e, w') | None \<Rightarrow> op w'))"

text \<open>A call on a confined path.\<close>

definition confined_call :: "confined \<Rightarrow> (string \<Rightarrow> 'a syscall) \<Rightarrow> (fworld, file_error, 'a) action" where
  "confined_call c op w =
     (case cf_err c of
        Some e \<Rightarrow> (Inl e, w)
      | None \<Rightarrow>
          (case faulty (op (cf_abs c)) w of
             (Inl e, w') \<Rightarrow> (Inl (Raw (if cf_root c = None then e else escaped_within e)), w')
           | (Inr x, w') \<Rightarrow> (Inr x, w')))"

text \<open>A call on an open descriptor.\<close>

definition descriptor_call :: "'a syscall \<Rightarrow> (fworld, file_error, 'a) action" where
  "descriptor_call op w =
     (case faulty op w of (Inl e, w') \<Rightarrow> (Inl (Raw e), w') | (Inr x, w') \<Rightarrow> (Inr x, w'))"

text \<open>\<open>ctx.Err()\<close>.\<close>

definition ctx_check :: "(fworld, file_error, unit) action" where
  "ctx_check w = (if fw_cancelled w (fw_calls w) then (Inl (Raw Cancelled), w) else (Inr (), w))"

definition sys_lstat :: "string \<Rightarrow> (nat \<times> inode) syscall" where
  "sys_lstat p w =
     (case lookup w p of
        None \<Rightarrow> (Inl NotExist, w)
      | Some i \<Rightarrow> (case fw_inodes w i of None \<Rightarrow> (Inl NotExist, w) | Some n \<Rightarrow> (Inr (i, n), w)))"

text \<open>Following a final link: its data is the path it names.\<close>

fun follow :: "nat \<Rightarrow> fworld \<Rightarrow> string \<Rightarrow> os_error + (nat \<times> inode)" where
  "follow 0 w p = Inl Loop"
| "follow (Suc n) w p =
     (case lookup w p of
        None \<Rightarrow> Inl NotExist
      | Some i \<Rightarrow>
          (case fw_inodes w i of
             None \<Rightarrow> Inl NotExist
           | Some nd \<Rightarrow> if in_kind nd = Symlink then follow n w (in_data nd) else Inr (i, nd)))"

definition sys_stat :: "string \<Rightarrow> (nat \<times> inode) syscall" where
  "sys_stat p w = (follow 40 w p, w)"

definition dir_exists :: "fworld \<Rightarrow> string \<Rightarrow> bool" where
  "dir_exists w p =
     (case lookup w p of
        None \<Rightarrow> False
      | Some i \<Rightarrow> (case fw_inodes w i of None \<Rightarrow> False | Some n \<Rightarrow> in_kind n = Directory))"

definition new_inode :: "inode_kind \<Rightarrow> nat \<Rightarrow> fworld \<Rightarrow> inode" where
  "new_inode k mode w =
     \<lparr> in_kind = k, in_data = [], in_mtime = fw_now w, in_mode = mode, in_uid = fw_uid w,
       in_gid = fw_gid w, in_nlink = 1 \<rparr>"

text \<open>\<open>O_CREATE|O_EXCL\<close> and \<open>mkdir\<close>: the name must be free and its directory exist.\<close>

definition sys_create :: "inode_kind \<Rightarrow> nat \<Rightarrow> string \<Rightarrow> nat syscall" where
  "sys_create k mode p w =
     (if lookup w p \<noteq> None then (Inl Exist, w)
      else if \<not> dir_exists w (dir_of p) then (Inl NotExist, w)
      else (let i = fw_next w in
        (Inr i, w\<lparr>fw_names := (p, i) # fw_names w,
                  fw_inodes := (fw_inodes w)(i \<mapsto> new_inode k (mode - and mode (fw_umask w)) w), fw_next := Suc i\<rparr>)))"

definition sys_write :: "nat \<Rightarrow> string \<Rightarrow> unit syscall" where
  "sys_write i bs w =
     (case fw_inodes w i of
        None \<Rightarrow> (Inl (OtherError ''bad descriptor''), w)
      | Some n \<Rightarrow> (Inr (), w\<lparr>fw_inodes := (fw_inodes w)(i \<mapsto> n\<lparr>in_data := in_data n @ bs, in_mtime := fw_now w\<rparr>)\<rparr>))"

definition sys_chmod :: "nat \<Rightarrow> nat \<Rightarrow> unit syscall" where
  "sys_chmod i mode w =
     (case fw_inodes w i of
        None \<Rightarrow> (Inl (OtherError ''bad descriptor''), w)
      | Some n \<Rightarrow> (Inr (), w\<lparr>fw_inodes := (fw_inodes w)(i \<mapsto> n\<lparr>in_mode := mode\<rparr>)\<rparr>))"

definition sys_chown :: "nat \<Rightarrow> nat \<Rightarrow> nat \<Rightarrow> unit syscall" where
  "sys_chown i uid gid w =
     (if \<not> fw_chown w then (Inl Permission, w)
      else (case fw_inodes w i of
        None \<Rightarrow> (Inl (OtherError ''bad descriptor''), w)
      | Some n \<Rightarrow> (Inr (), w\<lparr>fw_inodes := (fw_inodes w)(i \<mapsto> n\<lparr>in_uid := uid, in_gid := gid\<rparr>)\<rparr>)))"

definition sys_fstat :: "nat \<Rightarrow> inode syscall" where
  "sys_fstat i w =
     (case fw_inodes w i of None \<Rightarrow> (Inl (OtherError ''bad descriptor''), w) | Some n \<Rightarrow> (Inr n, w))"

definition sys_read :: "nat \<Rightarrow> string syscall" where
  "sys_read i w = (case fw_inodes w i of None \<Rightarrow> (Inl (OtherError ''bad descriptor''), w) | Some n \<Rightarrow> (Inr (in_data n), w))"

definition sys_sync :: "nat \<Rightarrow> unit syscall" where
  "sys_sync i w = (Inr (), w)"

definition sys_close :: "nat \<Rightarrow> unit syscall" where
  "sys_close i w = (Inr (), w)"

definition sys_remove :: "string \<Rightarrow> unit syscall" where
  "sys_remove p w =
     (if lookup w p = None then (Inl NotExist, w)
      else if list_ex (\<lambda>(q, _). q \<noteq> p \<and> dir_of q = p) (fw_names w) then (Inl NotEmpty, w)
      else (Inr (), w\<lparr>fw_names := AList.delete p (fw_names w)\<rparr>))"

text \<open>Everything at or below a path.\<close>

definition below :: "string \<Rightarrow> string \<Rightarrow> bool" where
  "below p q = (q = p \<or> has_prefix q (p @ ''/''))"

definition sys_remove_all :: "string \<Rightarrow> unit syscall" where
  "sys_remove_all p w = (Inr (), w\<lparr>fw_names := filter (\<lambda>(q, _). \<not> below p q) (fw_names w)\<rparr>)"

text \<open>The name an entry has once \<open>a\<close> is renamed to \<open>b\<close>: a directory takes its subtree along.\<close>

definition rebase :: "bool \<Rightarrow> string \<Rightarrow> string \<Rightarrow> string \<Rightarrow> string" where
  "rebase subtree a b q =
     (if q = a then b else if subtree \<and> below a q then b @ drop (length a) q else q)"

definition sys_rename :: "string \<Rightarrow> string \<Rightarrow> unit syscall" where
  "sys_rename a b w =
     (case Option.bind (lookup w a) (fw_inodes w) of
        None \<Rightarrow> (Inl NotExist, w)
      | Some n \<Rightarrow>
          if dir_exists w b then (Inl Exist, w)
          else if a = b then (Inr (), w)
          else if below a b then (Inl (if in_kind n = Directory then Inval else NotDir), w)
          else if \<not> dir_exists w (dir_of b) then (Inl NotExist, w)
          else (Inr (), w\<lparr>fw_names := map (\<lambda>(q, j). (rebase (in_kind n = Directory) a b q, j))
                                      (AList.delete b (fw_names w))\<rparr>))"

definition sys_has_entries :: "string \<Rightarrow> bool syscall" where
  "sys_has_entries p w = (Inr (list_ex (\<lambda>(q, _). q \<noteq> p \<and> dir_of q = p) (fw_names w)), w)"

section \<open>The helpers of confine.go\<close>

definition fs_lstat :: "confined \<Rightarrow> (fworld, file_error, nat \<times> inode) action" where
  "fs_lstat c = confined_call c sys_lstat"

definition fs_stat :: "confined \<Rightarrow> (fworld, file_error, nat \<times> inode) action" where
  "fs_stat c = confined_call c sys_stat"

text \<open>Opening an existing entry: what the descriptor then denotes.\<close>

definition fs_open :: "confined \<Rightarrow> (fworld, file_error, nat \<times> inode) action" where
  "fs_open c = confined_call c sys_stat"

definition fs_create_excl :: "confined \<Rightarrow> nat \<Rightarrow> (fworld, file_error, nat) action" where
  "fs_create_excl c mode = confined_call c (sys_create Regular mode)"

definition fs_mkdir :: "confined \<Rightarrow> nat \<Rightarrow> (fworld, file_error, unit) action" where
  "fs_mkdir c mode = act_bind (confined_call c (sys_create Directory mode)) (\<lambda>_. act_return ())"

definition fs_remove :: "confined \<Rightarrow> (fworld, file_error, unit) action" where
  "fs_remove c = confined_call c sys_remove"

definition fs_remove_all :: "confined \<Rightarrow> (fworld, file_error, unit) action" where
  "fs_remove_all c = confined_call c sys_remove_all"

definition dir_has_entries :: "confined \<Rightarrow> (fworld, file_error, bool) action" where
  "dir_has_entries c = act_bind (fs_open c) (\<lambda>_. descriptor_call (sys_has_entries (cf_abs c)))"

definition rename_at :: "confined \<Rightarrow> confined \<Rightarrow> (fworld, file_error, unit) action" where
  "rename_at from to =
     (case cf_err from of
        Some e \<Rightarrow> act_fail e
      | None \<Rightarrow>
          (case cf_err to of
             Some e \<Rightarrow> act_fail e
           | None \<Rightarrow>
               if cf_root from = None \<and> cf_root to = None then
                 confined_call from (\<lambda>p. sys_rename p (cf_abs to))
               else if cf_root from \<noteq> cf_root to then act_fail (Kind CrossRoot)
               else confined_call from (\<lambda>p. sys_rename p (cf_abs to))))"

section \<open>Metadata (metadata.go)\<close>

text \<open>The pinned inode of an existing target.\<close>

definition pin_metadata :: "confined \<Rightarrow> (fworld, file_error, nat) action" where
  "pin_metadata c = act_bind (confined_call c sys_stat) (\<lambda>(i, _). act_return i)"

definition other_names :: "inode \<Rightarrow> nat" where
  "other_names n = (if in_nlink n \<le> 1 then 0 else in_nlink n - 1)"

definition take_owner :: "nat \<Rightarrow> inode option \<Rightarrow> (fworld, file_error, unit) action" where
  "take_owner i origin =
     (case origin of
        None \<Rightarrow> act_return ()
      | Some wanted \<Rightarrow>
          act_bind (descriptor_call (sys_fstat i)) (\<lambda>current.
            if in_uid current = in_uid wanted \<and> in_gid current = in_gid wanted then act_return ()
            else act_bind (act_try (descriptor_call (sys_chown i (in_uid wanted) (in_gid wanted))))
              (\<lambda>_. act_return ())))"

section \<open>Facts\<close>

lemma faulty_frame:
  assumes "faulty op w = (r, w')"
  obtains e where "r = Inl e" "w' = w\<lparr>fw_calls := Suc (fw_calls w)\<rparr>"
    | "op (w\<lparr>fw_calls := Suc (fw_calls w)\<rparr>) = (r, w')"
  using assms by (auto simp: faulty_def Let_def split: option.splits)

lemma lookup_frame [simp]:
  "lookup (w\<lparr>fw_calls := n\<rparr>) p = lookup w p" "lookup (w\<lparr>fw_inodes := f\<rparr>) p = lookup w p"
  "lookup (w\<lparr>fw_staging := s\<rparr>) p = lookup w p"
  by (simp_all add: lookup_def)

lemma content_frame [simp]:
  "content_at (w\<lparr>fw_calls := n\<rparr>) p = content_at w p" "content_at (w\<lparr>fw_staging := s\<rparr>) p = content_at w p"
  by (simp_all add: content_at_def split: option.split)

text \<open>Worlds whose names and next inode number are consistent.\<close>

definition fworld_ok :: "fworld \<Rightarrow> bool" where
  "fworld_ok w \<longleftrightarrow> distinct (map fst (fw_names w)) \<and> (\<forall>(p, i) \<in> set (fw_names w). i < fw_next w)
     \<and> (\<forall>i. fw_inodes w i \<noteq> None \<longrightarrow> i < fw_next w) \<and> (\<forall>(p, i) \<in> set (fw_names w). fw_inodes w i \<noteq> None)"

end
