(* ===== verification/TextScan.thy ===== *)
theory TextScan
  imports GoUtf8 "HOL-Library.Sublist"
begin

text \<open>
  \<open>looksBinary\<close> and \<open>textScan\<close> of \<open>hub/internal/files/service.go\<close>: deciding in bounded memory
  whether a file is text.  The scan reads the file chunk by chunk and holds back a rune a
  chunk boundary may have cut; the reference definition looks at the whole contents.
\<close>

section \<open>The scanner\<close>

definition nul :: char where "nul = CHR 0x00"

definition utf_max :: nat where "utf_max = 4"

definition scan_chunk :: nat where "scan_chunk = 32 * 1024"

definition partial_width :: "nat \<Rightarrow> nat" where
  "partial_width lead =
     (if 194 \<le> lead \<and> lead \<le> 223 then 2
      else if 224 \<le> lead \<and> lead \<le> 239 then 3
      else if 240 \<le> lead \<and> lead \<le> 244 then 4
      else 0)"

definition is_partial_rune :: "string \<Rightarrow> bool" where
  "is_partial_rune b =
     (case b of
        [] \<Rightarrow> False
      | c # r \<Rightarrow>
          (let width = partial_width (ccode c) in
           if width = 0 then False
           else if length b \<ge> width then False
           else list_all (\<lambda>d. 128 \<le> ccode d \<and> ccode d \<le> 191) r))"

text \<open>The loop over \<open>drop\<close>: the first length of a held-back tail that explains the chunk.\<close>

fun find_tail :: "string \<Rightarrow> nat \<Rightarrow> nat \<Rightarrow> string option" where
  "find_tail sample d 0 = None"
| "find_tail sample d (Suc n) =
     (if d < utf_max \<and> d \<le> length sample then
        (let tail = drop (length sample - d) sample in
         if utf8_valid (take (length sample - d) sample) \<and> is_partial_rune tail then Some tail
         else find_tail sample (Suc d) n)
      else None)"

text \<open>\<open>decidedBy\<close>: whether the chunk proves the contents are not text, with the new carry.\<close>

definition decided_by :: "string \<Rightarrow> string \<Rightarrow> bool \<times> string" where
  "decided_by carry chunk =
     (let sample = carry @ chunk in
      if nul \<in> set sample then (True, [])
      else if utf8_valid sample then (False, [])
      else (case find_tail sample 1 utf_max of Some tail \<Rightarrow> (False, tail) | None \<Rightarrow> (True, [])))"

text \<open>The reading loop, with chunks of at most \<open>n\<close> bytes; \<open>data\<close> is what is left of the file.\<close>

function scan_text :: "nat \<Rightarrow> string \<Rightarrow> string \<Rightarrow> bool" where
  "scan_text n carry data =
     (if data = [] \<or> n = 0 then carry \<noteq> []
      else (case decided_by carry (take n data) of
          (True, _) \<Rightarrow> True
        | (False, carry') \<Rightarrow> scan_text n carry' (drop n data)))"
  by pat_completeness auto
termination
  by (relation "measure (\<lambda>(_, _, data). length data)") auto

declare scan_text.simps [simp del]

text \<open>\<open>size\<close> is what the file's metadata said; no byte past it is examined.\<close>

definition looks_binary :: "nat \<Rightarrow> string \<Rightarrow> bool" where
  "looks_binary sz contents =
     (if sz = 0 then False else scan_text scan_chunk [] (take sz contents))"

section \<open>The reference\<close>

definition is_text :: "string \<Rightarrow> bool" where
  "is_text s \<longleftrightarrow> nul \<notin> set s \<and> utf8_valid s"

section \<open>Facts about encodings\<close>

lemma utf8_valid_append: "utf8_valid p \<Longrightarrow> utf8_valid (p @ s) = utf8_valid s"
proof -
  assume "utf8_valid p"
  then have p: "p = encode_runes (runes p)" by (simp add: encode_runes_runes)
  have "list_all is_scalar rs \<Longrightarrow> utf8_valid (encode_runes rs @ s) = utf8_valid s" for rs
    by (induction rs) (simp_all add: encode_runes_def utf8_valid_encode_append)
  with p runes_scalar [of p] show ?thesis by metis
qed

lemma utf8_valid_encode: "is_scalar r \<Longrightarrow> utf8_valid (encode_rune r)"
  using utf8_valid_encode_append [of r "[]"] by simp

lemma encode_codes_partial:
  assumes "is_scalar r" and "encode_codes r = c # cs @ d # ds"
  shows "partial_width c = length (encode_codes r) \<and> list_all (\<lambda>x. 128 \<le> x \<and> x \<le> 191) cs"
proof -
  have m: "x mod 64 \<le> 63" for x :: nat using mod_less_divisor [of 64 x] by linarith
  consider "r < 128" | "128 \<le> r" "r < 2048" | "2048 \<le> r" "r < 65536" | "65536 \<le> r" by linarith
  then show ?thesis
  proof cases
    case 2
    then have "2 \<le> r div 64" "r div 64 \<le> 31" by auto
    with 2 assms m show ?thesis
      by (cases cs) (auto simp: encode_codes_def partial_width_def)
  next
    case 3
    then have "r div 4096 \<le> 15" by auto
    with 3 assms m show ?thesis
      by (cases cs; cases "tl cs") (auto simp: encode_codes_def partial_width_def add.commute)
  next
    case 4
    then have "r div 262144 \<le> 4" using assms(1) by (auto simp: is_scalar_def)
    with 4 assms m show ?thesis
      by (cases cs; cases "tl cs"; cases "tl (tl cs)") (auto simp: encode_codes_def partial_width_def add.commute)
  qed (use assms in \<open>auto simp: encode_codes_def\<close>)
qed

lemma strict_prefix_partial:
  assumes "is_scalar r" and "encode_rune r = t @ u" "t \<noteq> []" "u \<noteq> []"
  shows "is_partial_rune t \<and> length t < 4"
proof -
  obtain c cs where t: "t = c # cs" using assms(3) by (cases t) auto
  obtain d ds where u: "u = d # ds" using assms(4) by (cases u) auto
  have e: "encode_codes r = ccode c # map ccode cs @ ccode d # map ccode ds"
    using codes_encode_rune [OF assms(1)] assms(2) t u by simp
  note p = encode_codes_partial [OF assms(1) e]
  have "length (encode_codes r) \<le> 4" by (simp add: encode_codes_def)
  with p e t show ?thesis
    by (auto simp: is_partial_rune_def list_all_iff)
qed

text \<open>A prefix of valid text is valid text followed by at most one cut rune.\<close>

lemma valid_prefix_cut:
  assumes "utf8_valid (a @ b)"
  shows "\<exists>q t. a = q @ t \<and> utf8_valid q \<and> (t = [] \<or> (is_partial_rune t \<and> length t < 4))"
proof -
  have "\<exists>q t. a = q @ t \<and> utf8_valid q \<and> (t = [] \<or> (is_partial_rune t \<and> length t < 4))"
    if "list_all is_scalar rs" "encode_runes rs = a @ b" for rs
    using that
  proof (induction rs arbitrary: a)
    case (Cons r rs)
    have e: "encode_rune r @ encode_runes rs = a @ b" using Cons.prems(2) by (simp add: encode_runes_def)
    have r: "is_scalar r" using Cons.prems(1) by simp
    from e consider us where "a = encode_rune r @ us" "encode_runes rs = us @ b"
      | us where "encode_rune r = a @ us" "us \<noteq> []"
      by (auto simp: append_eq_append_conv2) (metis append_self_conv append_Nil)+
    then show ?case
    proof cases
      case 1
      then obtain q t where "us = q @ t" "utf8_valid q" "t = [] \<or> (is_partial_rune t \<and> length t < 4)"
        using Cons by auto
      with 1 r show ?thesis
        by (intro exI [of _ "encode_rune r @ q"] exI [of _ t]) (simp add: utf8_valid_encode_append)
    next
      case 2
      have "a = [] \<or> (is_partial_rune a \<and> length a < 4)"
        using 2 strict_prefix_partial [OF r 2(1)] by blast
      then show ?thesis by (intro exI [of _ "[]"] exI [of _ a]) simp
    qed
  qed (simp add: encode_runes_def)
  from this [OF runes_scalar encode_runes_runes [OF assms]] show ?thesis .
qed

lemma partial_invalid: "is_partial_rune t \<Longrightarrow> \<not> utf8_valid t"
proof
  assume p: "is_partial_rune t" and v: "utf8_valid t"
  obtain c r where t: "t = c # r" using p by (cases t) (auto simp: is_partial_rune_def)
  then have w: "partial_width (ccode c) \<noteq> 0" "length r + 1 < partial_width (ccode c)"
    using p by (auto simp: is_partial_rune_def Let_def split: if_splits)
  then have "\<exists>lo hi. lead_info (ccode c) = Some (partial_width (ccode c), lo, hi)"
    by (auto simp: partial_width_def lead_info_def split: if_splits)
  then obtain lo hi where "lead_info (ccode c) = Some (partial_width (ccode c), lo, hi)" by blast
  moreover have "1 < partial_width (ccode c)" using w(2) by linarith
  moreover have "length r < partial_width (ccode c) - 1" using w(2) by linarith
  ultimately have "decode_rune t = (rune_error, 1)" using t by (simp add: decode_rune_def)
  with v t show False using utf8_valid_step [of t rune_error 1] by simp
qed

section \<open>The scan decides the whole file\<close>

lemma find_tail_Some:
  "find_tail s d n = Some t \<Longrightarrow> \<exists>q. s = q @ t \<and> utf8_valid q \<and> is_partial_rune t"
proof (induction s d n rule: find_tail.induct)
  case (2 s d n)
  show ?case
  proof (cases "utf8_valid (take (length s - d) s) \<and> is_partial_rune (drop (length s - d) s)")
    case True
    with 2(2) have "t = drop (length s - d) s" by (auto simp: Let_def split: if_splits)
    with True show ?thesis by (intro exI [of _ "take (length s - d) s"]) simp
  next
    case False
    with 2 show ?thesis by (auto simp: Let_def split: if_splits)
  qed
qed simp

lemma find_tail_None:
  "find_tail s d n = None \<Longrightarrow> s = q @ t \<Longrightarrow> utf8_valid q \<Longrightarrow> is_partial_rune t \<Longrightarrow>
     d \<le> length t \<Longrightarrow> length t < utf_max \<Longrightarrow> length t < d + n \<Longrightarrow> False"
proof (induction n arbitrary: d)
  case (Suc n)
  show ?case
  proof (cases "length t = d")
    case True
    with Suc.prems show ?thesis by (auto simp: Let_def split: if_splits)
  next
    case False
    with Suc.prems have "d < utf_max" "d \<le> length s" by auto
    with Suc.prems(1) have "find_tail s (Suc d) n = None" by (auto simp: Let_def split: if_splits)
    with Suc.IH [of "Suc d"] Suc.prems False show ?thesis by simp
  qed
qed simp

lemma partial_no_nul: "is_partial_rune t \<Longrightarrow> nul \<notin> set t"
  by (auto simp: is_partial_rune_def Let_def partial_width_def nul_def list_all_iff split: list.splits if_splits)

lemma decided_by_True:
  assumes "decided_by carry chunk = (True, c)"
  shows "\<not> is_text (carry @ chunk @ rest)"
proof
  assume t: "is_text (carry @ chunk @ rest)"
  let ?s = "carry @ chunk"
  from t have "nul \<notin> set ?s" by (auto simp: is_text_def)
  with assms have inv: "\<not> utf8_valid ?s" and nt: "find_tail ?s 1 utf_max = None"
    by (auto simp: decided_by_def Let_def split: if_splits option.splits)
  obtain q u where q: "?s = q @ u" "utf8_valid q" "u = [] \<or> (is_partial_rune u \<and> length u < 4)"
    using valid_prefix_cut [of ?s rest] t by (auto simp: is_text_def)
  with inv have "is_partial_rune u" "length u < 4" by auto
  moreover then have "1 \<le> length u" by (cases u) (auto simp: is_partial_rune_def)
  ultimately show False using find_tail_None [OF nt q(1,2)] by (simp add: utf_max_def)
qed

lemma decided_by_False:
  assumes "decided_by carry chunk = (False, c)"
  shows "\<exists>q. carry @ chunk = q @ c \<and> is_text q \<and> (c = [] \<or> is_partial_rune c)"
proof (cases "utf8_valid (carry @ chunk)")
  case True
  with assms show ?thesis
    by (intro exI [of _ "carry @ chunk"]) (auto simp: decided_by_def Let_def is_text_def split: if_splits)
next
  case False
  with assms have n: "nul \<notin> set (carry @ chunk)" and "find_tail (carry @ chunk) 1 utf_max = Some c"
    by (auto simp: decided_by_def Let_def split: if_splits option.splits)
  from find_tail_Some [OF this(2)] obtain q where "carry @ chunk = q @ c" "utf8_valid q" "is_partial_rune c"
    by blast
  moreover from this(1) n have "nul \<notin> set q" by (metis Un_iff set_append)
  ultimately show ?thesis by (auto simp: is_text_def)
qed

lemma is_text_append: "is_text p \<Longrightarrow> is_text (p @ s) = is_text s"
  by (auto simp: is_text_def utf8_valid_append)

lemma scan_text_correct:
  "0 < n \<Longrightarrow> c = [] \<or> is_partial_rune c \<Longrightarrow> scan_text n c data \<longleftrightarrow> \<not> is_text (c @ data)"
proof (induction n c data rule: scan_text.induct)
  case (1 n c data)
  show ?case
  proof (cases "data = []")
    case True
    then show ?thesis using 1(2,3) partial_invalid [of c]
      by (subst scan_text.simps) (auto simp: is_text_def)
  next
    case False
    obtain b c' where d: "decided_by c (take n data) = (b, c')" by (cases "decided_by c (take n data)")
    show ?thesis
    proof (cases b)
      case True
      with decided_by_True [of c "take n data" c' "drop n data"] d False show ?thesis
        by (subst scan_text.simps) (use \<open>0 < n\<close> in auto)
    next
      case b: False
      then obtain q where q: "c @ take n data = q @ c'" "is_text q" "c' = [] \<or> is_partial_rune c'"
        using decided_by_False [of c "take n data" c'] d by auto
      have "c @ data = q @ c' @ drop n data" using q(1) by (metis append_assoc append_take_drop_id)
      then have "is_text (c @ data) = is_text (c' @ drop n data)" using q(2) by (simp add: is_text_append)
      moreover have "scan_text n c data = scan_text n c' (drop n data)"
        using d b False \<open>0 < n\<close> by (subst scan_text.simps) simp
      moreover have "scan_text n c' (drop n data) \<longleftrightarrow> \<not> is_text (c' @ drop n data)"
        using 1(1) [OF _ d [symmetric]] b False 1(2) q(3) by auto
      ultimately show ?thesis by simp
    qed
  qed
qed

section \<open>Properties\<close>

text \<open>C25: the bounded-memory scan gives the answer of the whole file: contents are binary exactly
  when they hold a NUL byte or are not valid UTF-8, whatever runes the chunk boundaries cut.\<close>

theorem looks_binary_whole_file:
  "looks_binary sz contents = (\<not> (nul \<notin> set (take sz contents) \<and> utf8_valid (take sz contents)))"
  using scan_text_correct [of scan_chunk "[]" "take sz contents"]
  by (auto simp: looks_binary_def scan_chunk_def is_text_def)

end
