(* ===== verification/FileService.thy ===== *)
theory FileService
  imports FileSystem TextScan "HOL-Library.Multiset" "HOL-Library.List_Lexorder" "HOL-Library.Char_ord" "HOL-Library.Product_Lexorder"
begin

text \<open>
  \<open>hub/internal/files/service.go\<close> and \<open>model.go\<close>: listing, reading, the atomic write with its
  optimistic checks, create, rename and delete, over the file system of \<open>FileSystem\<close> and the
  guard of \<open>FileGuard\<close>.  \<open>vw w\<close> is how the operating system resolves links in world \<open>w\<close>.
  A context is its error state, as an argument where the code looks at it.
\<close>

section \<open>Types (model.go)\<close>

record entry =
  e_name :: string
  e_is_dir :: bool
  e_size :: int
  e_mtime :: int

record list_result =
  lr_path :: string
  lr_entries :: "entry list"
  lr_truncated :: bool

record read_result =
  rr_inode :: nat
  rr_size :: int
  rr_mtime :: int
  rr_mtime_nanos :: int
  rr_binary :: bool

record write_result =
  wr_mtime :: int
  wr_mtime_nanos :: int

record expected_mtime =
  em_millis :: int
  em_nanos :: "int option"
  em_digest :: string

definition unix_milli :: "int \<Rightarrow> int" where
  "unix_milli nanos = nanos div 10 ^ 6"

definition mtime_matches :: "expected_mtime \<Rightarrow> inode \<Rightarrow> bool" where
  "mtime_matches e n =
     (case em_nanos e of
        Some ns \<Rightarrow> in_mtime n = ns
      | None \<Rightarrow> unix_milli (in_mtime n) = em_millis e)"

section \<open>The service\<close>

record file_service =
  fsv_roots :: root_set
  fsv_max_size :: int
  fsv_max_entries :: nat
  fsv_enabled :: bool

definition temp_file_prefix :: string where "temp_file_prefix = ''.vtc-write-''"
definition staging_name_attempts :: nat where "staging_name_attempts = 100"
definition staging_mode :: nat where "staging_mode = 384"
definition create_file_mode :: nat where "create_file_mode = 420"
definition create_dir_mode :: nat where "create_dir_mode = 493"

definition fsv_boundary :: "file_service \<Rightarrow> string" where
  "fsv_boundary s = (if length (rs_roots (fsv_roots s)) > 0 then ''root_confined'' else ''account_bound'')"

definition fsv_close :: "file_service \<Rightarrow> file_service" where
  "fsv_close s = s\<lparr>fsv_roots := close_root_set (fsv_roots s)\<rparr>"

type_synonym view = "fworld \<Rightarrow> fs_view"

definition fsv_resolve :: "view \<Rightarrow> file_service \<Rightarrow> string \<Rightarrow> guard_mode \<Rightarrow> (fworld, file_error, string) action" where
  "fsv_resolve vw s path mode w = (resolve (vw w) (fsv_roots s) path mode, w)"

definition start_directory :: "view \<Rightarrow> file_service \<Rightarrow> string \<Rightarrow> fworld \<Rightarrow> string \<times> bool" where
  "start_directory vw s candidate w =
     (case resolve (vw w) (fsv_roots s) candidate ModeRead of
        Inr _ \<Rightarrow> (candidate, False)
      | Inl e \<Rightarrow>
          if \<not> kind_is e PathNotAllowed then (candidate, False)
          else (case rs_roots (fsv_roots s) of [] \<Rightarrow> (candidate, False) | r # _ \<Rightarrow> (r, True)))"

text \<open>\<open>classifyPathError\<close> on what an action returns.\<close>

definition classified :: "(fworld, file_error, 'a) action \<Rightarrow> (fworld, file_error, 'a) action" where
  "classified m w = (case m w of (Inl e, w') \<Rightarrow> (Inl (classify_path_error e), w') | (Inr x, w') \<Rightarrow> (Inr x, w'))"

section \<open>Listing\<close>

text \<open>-1, 0 or 1, as \<open>cmp.Compare\<close> does on the names.\<close>

definition compare_entries :: "entry \<Rightarrow> entry \<Rightarrow> int" where
  "compare_entries a b =
     (if e_is_dir a \<noteq> e_is_dir b then (if e_is_dir a then -1 else 1)
      else if e_name a < e_name b then -1
      else if e_name b < e_name a then 1
      else 0)"

definition entry_key :: "entry \<Rightarrow> bool \<times> string" where
  "entry_key e = (\<not> e_is_dir e, e_name e)"

text \<open>The batched read: \<open>ReadDir\<close> is asked for as many entries as the bound still lacks, and the
  skipped ones do not count.  The result says whether entries were left unread.\<close>

function read_batches ::
  "nat \<Rightarrow> ('c \<Rightarrow> bool) \<Rightarrow> 'c list \<Rightarrow> 'c list \<Rightarrow> (fworld, file_error, 'c list \<times> bool) action" where
  "read_batches want skip acc rest w =
     (if length acc \<ge> want then (Inr (acc, True), w)
      else (case ctx_check w of
        (Inl e, w1) \<Rightarrow> (Inl e, w1)
      | (Inr _, w1) \<Rightarrow>
          (let k = want - length acc in
           (case descriptor_call (\<lambda>w. (Inr (take k rest), w)) w1 of
              (Inl e, w2) \<Rightarrow> (Inl e, w2)
            | (Inr batch, w2) \<Rightarrow>
                if rest = [] then (Inr (acc, False), w2)
                else read_batches want skip (acc @ filter (\<lambda>c. \<not> skip c) batch) (drop k rest) w2))))"
  by pat_completeness auto
termination
proof (relation "measure (\<lambda>(_, _, _, rest, _). length rest)")
  fix want :: nat and acc rest :: "'c list"
  assume "\<not> want \<le> length acc" and "rest \<noteq> []"
  then have "length (drop (want - length acc) rest) < length rest" by (cases rest) auto
  then show "((want, skip, acc @ filter (\<lambda>c. \<not> skip c) batch, drop k rest, w2), want, skip, acc, rest, w)
      \<in> measure (\<lambda>(_, _, _, rest, _). length rest)"
    if "k = want - length acc" for skip batch k w2 w using that by simp
qed simp

declare read_batches.simps [simp del]

definition read_listing ::
  "nat \<Rightarrow> ('c \<Rightarrow> bool) \<Rightarrow> 'c list \<Rightarrow> (fworld, file_error, 'c list \<times> bool) action" where
  "read_listing limit skip children = read_batches (limit + 1) skip [] children"

text \<open>A directory child: its name and inode.\<close>

type_synonym dir_child = "string \<times> nat"

definition children_of :: "fworld \<Rightarrow> string \<Rightarrow> dir_child list" where
  "children_of w p = map (\<lambda>(q, i). (base_of q, i)) (filter (\<lambda>(q, _). q \<noteq> p \<and> dir_of q = p) (fw_names w))"

definition child_info :: "view \<Rightarrow> file_service \<Rightarrow> confined \<Rightarrow> dir_child \<Rightarrow> (fworld, file_error, inode) action" where
  "child_info vw s dir child w =
     (case fw_inodes w (snd child) of
        None \<Rightarrow> (Inl (Raw NotExist), w)
      | Some n \<Rightarrow>
          if in_kind n \<noteq> Symlink then descriptor_call (\<lambda>w. (Inr n, w)) w
          else act_bind (fsv_resolve vw s (cf_abs (cf_join dir (fst child))) ModeRead) (\<lambda>target.
                 act_bind (fs_stat (confine (fsv_roots s) target)) (\<lambda>(_, m). act_return m)) w)"

text \<open>An entry that cannot be described is reported by name only.\<close>

definition entry_for :: "view \<Rightarrow> file_service \<Rightarrow> confined \<Rightarrow> dir_child \<Rightarrow> fworld \<Rightarrow> entry \<times> fworld" where
  "entry_for vw s dir child w =
     (case child_info vw s dir child w of
        (Inl _, w') \<Rightarrow> (\<lparr> e_name = fst child, e_is_dir = False, e_size = 0, e_mtime = 0 \<rparr>, w')
      | (Inr n, w') \<Rightarrow>
          (\<lparr> e_name = fst child, e_is_dir = (in_kind n = Directory),
             e_size = (if in_kind n = Directory then 0 else int (length (in_data n))),
             e_mtime = (if in_kind n = Directory then 0 else unix_milli (in_mtime n)) \<rparr>, w'))"

fun entries_for :: "view \<Rightarrow> file_service \<Rightarrow> confined \<Rightarrow> dir_child list \<Rightarrow> (fworld, file_error, entry list) action" where
  "entries_for vw s dir [] w = (Inr [], w)"
| "entries_for vw s dir (c # cs) w =
     (case ctx_check w of
        (Inl e, w1) \<Rightarrow> (Inl e, w1)
      | (Inr _, w1) \<Rightarrow>
          (case entry_for vw s dir c w1 of (x, w2) \<Rightarrow>
             (case entries_for vw s dir cs w2 of
                (Inl e, w3) \<Rightarrow> (Inl e, w3)
              | (Inr es, w3) \<Rightarrow> (Inr (x # es), w3))))"

definition is_staging :: "fworld \<Rightarrow> string \<Rightarrow> bool" where
  "is_staging w path = (path \<in> set (fw_staging w))"

definition list_dir :: "view \<Rightarrow> file_service \<Rightarrow> string \<Rightarrow> (fworld, file_error, list_result) action" where
  "list_dir vw s path =
     act_bind (fsv_resolve vw s path ModeRead) (\<lambda>resolved.
       act_bind (classified (fs_open (confine (fsv_roots s) resolved))) (\<lambda>(i, _).
         act_bind (classified (descriptor_call (sys_fstat i))) (\<lambda>info.
           if in_kind info \<noteq> Directory then act_fail (Kind InvalidPath)
           else (let target = confine (fsv_roots s) resolved in
             act_bind (\<lambda>w. classified (read_listing (fsv_max_entries s)
                 (\<lambda>c. is_staging w (cf_abs (cf_join target (fst c)))) (children_of w resolved)) w) (\<lambda>(kept, trunc).
               act_bind (entries_for vw s target kept) (\<lambda>entries.
                 act_return \<lparr> lr_path = resolved, lr_entries = take (fsv_max_entries s) (sort_key entry_key entries),
                              lr_truncated = trunc \<rparr>))))))"

section \<open>Reading\<close>

definition readable_kind :: "inode \<Rightarrow> int \<Rightarrow> file_error + unit" where
  "readable_kind n limit =
     (if in_kind n = Directory then Inl (Kind InvalidPath)
      else if in_kind n \<noteq> Regular then Inl (Kind InvalidPath)
      else if int (length (in_data n)) > limit then Inl (Kind FileTooLarge)
      else Inr ())"

text \<open>\<open>looksBinary\<close> with its failures: the contents are scanned by \<open>TextScan\<close>.\<close>

definition scan_file :: "nat \<Rightarrow> nat \<Rightarrow> (fworld, file_error, bool) action" where
  "scan_file i sz =
     (if sz = 0 then act_return False
      else act_bind ctx_check (\<lambda>_. act_bind (descriptor_call (sys_read i)) (\<lambda>contents.
        act_return (looks_binary sz contents))))"

definition read_file :: "view \<Rightarrow> file_service \<Rightarrow> string \<Rightarrow> (fworld, file_error, read_result) action" where
  "read_file vw s path =
     act_bind (fsv_resolve vw s path ModeRead) (\<lambda>resolved.
       act_bind (classified (fs_open (confine (fsv_roots s) resolved))) (\<lambda>(i, _).
         act_bind (classified (descriptor_call (sys_fstat i))) (\<lambda>info.
           act_bind (act_lift (readable_kind info (fsv_max_size s))) (\<lambda>_.
             act_bind (classified (scan_file i (length (in_data info)))) (\<lambda>binary.
               act_return
                 \<lparr> rr_inode = i, rr_size = int (length (in_data info)),
                   rr_mtime = unix_milli (in_mtime info), rr_mtime_nanos = in_mtime info,
                   rr_binary = binary \<rparr>)))))"

section \<open>Writing\<close>

text \<open>What other processes do to the file system while a write is in progress: while the body
  travels, between the two checks, and between the last check and the rename.\<close>

record interference =
  iv_during :: "fworld \<Rightarrow> fworld"
  iv_late :: "fworld \<Rightarrow> fworld"
  iv_gap :: "fworld \<Rightarrow> fworld"

definition quiet :: interference where
  "quiet = \<lparr> iv_during = (\<lambda>w. w), iv_late = (\<lambda>w. w), iv_gap = (\<lambda>w. w) \<rparr>"

definition others_act :: "(fworld \<Rightarrow> fworld) \<Rightarrow> (fworld, file_error, unit) action" where
  "others_act f w = (Inr (), f w)"

text \<open>A body: the bytes its reader yields and how it ends.\<close>

record body =
  bd_bytes :: string
  bd_error :: "os_error option"

record write_options =
  wo_mode :: nat
  wo_preserve :: bool
  wo_origin :: "nat option"
  wo_expected :: "expected_mtime option"
  wo_allow_other_names :: bool

definition wrap_error :: "file_kind \<Rightarrow> (fworld, file_error, 'a) action \<Rightarrow> (fworld, file_error, 'a) action" where
  "wrap_error k m w = (case m w of (Inl e, w') \<Rightarrow> (Inl (Wrap k e), w') | (Inr x, w') \<Rightarrow> (Inr x, w'))"

definition draw_suffix :: "(fworld, file_error, string) action" where
  "draw_suffix w =
     (let w' = w\<lparr>fw_draws := Suc (fw_draws w)\<rparr> in
      (case fw_rand w (fw_draws w) of Inl e \<Rightarrow> (Inl (Raw e), w') | Inr s \<Rightarrow> (Inr s, w')))"

definition mark_staging :: "string \<Rightarrow> fworld \<Rightarrow> fworld" where
  "mark_staging p w = w\<lparr>fw_staging := p # fw_staging w\<rparr>"

definition unmark_staging :: "string \<Rightarrow> fworld \<Rightarrow> fworld" where
  "unmark_staging p w = w\<lparr>fw_staging := removeAll p (fw_staging w)\<rparr>"

fun create_staged :: "nat \<Rightarrow> confined \<Rightarrow> nat \<Rightarrow> (fworld, file_error, nat \<times> confined) action" where
  "create_staged 0 dir mode w = (Inl (Kind WriteFailed), w)"
| "create_staged (Suc n) dir mode w =
     (case draw_suffix w of
        (Inl e, w1) \<Rightarrow> (Inl e, w1)
      | (Inr sfx, w1) \<Rightarrow>
          (let stage = cf_join dir (temp_file_prefix @ sfx) in
           (case fs_create_excl stage mode w1 of
              (Inr i, w2) \<Rightarrow> (Inr (i, stage), mark_staging (cf_abs stage) w2)
            | (Inl e, w2) \<Rightarrow> if e = Raw Exist then create_staged n dir mode w2 else (Inl e, w2))))"

definition staging_failure :: "file_error \<Rightarrow> file_error" where
  "staging_failure e = (if cause_of e = Some NameTooLong then Kind InvalidPath else Wrap WriteFailed e)"

definition linked_error :: "inode \<Rightarrow> bool \<Rightarrow> file_error + unit" where
  "linked_error n allow =
     (if allow then Inr () else if other_names n = 0 then Inr () else Inl (Kind HasOtherNames))"

text \<open>What is at the target, checked before a byte of the body is transferred.\<close>

definition check_pinned ::
  "confined \<Rightarrow> expected_mtime option \<Rightarrow> bool \<Rightarrow> file_error + nat \<Rightarrow> (fworld, file_error, confined \<times> nat option) action" where
  "check_pinned target expected allow pinned =
     (case pinned of
        Inl e \<Rightarrow>
          if e \<noteq> Raw NotExist then act_fail e
          else if expected \<noteq> None then act_fail (Kind PathNotFound)
          else act_return (target, None)
      | Inr i \<Rightarrow>
          act_bind (descriptor_call (sys_fstat i)) (\<lambda>existing.
            if in_kind existing = Directory then act_fail (Kind InvalidPath)
            else if in_kind existing \<noteq> Regular then act_fail (Kind InvalidPath)
            else if (case expected of Some e \<Rightarrow> \<not> mtime_matches e existing | None \<Rightarrow> False)
              then act_fail (Kind Conflict)
            else act_bind (act_lift (linked_error existing allow)) (\<lambda>_. act_return (target, Some i))))"

definition write_target ::
  "view \<Rightarrow> file_service \<Rightarrow> string \<Rightarrow> expected_mtime option \<Rightarrow> bool \<Rightarrow>
     (fworld, file_error, confined \<times> nat option) action" where
  "write_target vw s path expected allow =
     act_bind (fsv_resolve vw s path ModeCreate) (\<lambda>resolved.
       (let target = confine (fsv_roots s) resolved in
        act_bind (act_try (fs_lstat target)) (\<lambda>link.
          if (case link of Inr (_, n) \<Rightarrow> in_kind n = Symlink | Inl _ \<Rightarrow> False) then act_fail (Kind PathNotFound)
          else act_bind (act_try (pin_metadata target)) (check_pinned target expected allow))))"

definition confirm_unchanged :: "confined \<Rightarrow> write_options \<Rightarrow> (fworld, file_error, inode option) action" where
  "confirm_unchanged target opts =
     (case wo_origin opts of
        None \<Rightarrow>
          act_bind (act_try (fs_lstat target)) (\<lambda>r.
            case r of
              Inl e \<Rightarrow> if e = Raw NotExist then act_return None else act_fail (classify_path_error e)
            | Inr _ \<Rightarrow> act_fail (Kind Conflict))
      | Some origin \<Rightarrow>
          act_bind (classified (fs_stat target)) (\<lambda>(i, current).
            if i \<noteq> origin then act_fail (Kind Conflict)
            else if (case wo_expected opts of Some e \<Rightarrow> \<not> mtime_matches e current | None \<Rightarrow> False)
              then act_fail (Kind Conflict)
            else act_bind (act_lift (linked_error current (wo_allow_other_names opts)))
              (\<lambda>_. act_return (Some current))))"

definition copy_body :: "file_service \<Rightarrow> nat \<Rightarrow> body \<Rightarrow> int \<Rightarrow> (fworld, file_error, unit) action" where
  "copy_body s i bd declared =
     (if declared < 0 then act_fail (Kind InvalidBody)
      else if declared > fsv_max_size s then act_fail (Kind FileTooLarge)
      else (let taken = take (nat declared + 1) (bd_bytes bd) in
        act_bind (wrap_error WriteFailed (act_bind ctx_check (\<lambda>_.
          act_bind (descriptor_call (sys_write i taken)) (\<lambda>_.
            if length taken < nat declared + 1 then
              act_bind ctx_check (\<lambda>_. case bd_error bd of Some e \<Rightarrow> act_fail (Raw e) | None \<Rightarrow> act_return ())
            else act_return ())))) (\<lambda>_.
        if int (length taken) \<noteq> declared then act_fail (Kind InvalidBody) else act_return ())))"

text \<open>A step that fails closes the staging file and keeps its own error.\<close>

definition or_close :: "nat \<Rightarrow> (fworld, file_error, 'a) action \<Rightarrow> (fworld, file_error, 'a) action" where
  "or_close i m w =
     (case m w of
        (Inl e, w') \<Rightarrow> (Inl e, snd (descriptor_call (sys_close i) w'))
      | (Inr x, w') \<Rightarrow> (Inr x, w'))"

definition carry_metadata :: "nat \<Rightarrow> write_options \<Rightarrow> inode option \<Rightarrow> (fworld, file_error, unit) action" where
  "carry_metadata i opts current =
     (if \<not> wo_preserve opts then act_return ()
      else act_bind (wrap_error WriteFailed
             (descriptor_call (sys_chmod i (case current of Some n \<Rightarrow> and (in_mode n) 511 | None \<Rightarrow> 0)))) (\<lambda>_.
           wrap_error WriteFailed (take_owner i current)))"

definition fill_staged ::
  "interference \<Rightarrow> file_service \<Rightarrow> confined \<Rightarrow> nat \<Rightarrow> body \<Rightarrow> int \<Rightarrow> write_options \<Rightarrow> (fworld, file_error, unit) action" where
  "fill_staged iv s target i bd declared opts =
     or_close i
       (act_bind (copy_body s i bd declared) (\<lambda>_.
        act_bind (others_act (iv_during iv)) (\<lambda>_.
        act_bind (confirm_unchanged target opts) (\<lambda>current.
        act_bind (carry_metadata i opts current) (\<lambda>_.
        wrap_error WriteFailed (descriptor_call (sys_sync i)))))))"

definition commit_staged ::
  "interference \<Rightarrow> file_service \<Rightarrow> confined \<Rightarrow> nat \<Rightarrow> confined \<Rightarrow> body \<Rightarrow> int \<Rightarrow> write_options \<Rightarrow> (fworld, file_error, unit) action" where
  "commit_staged iv s target i staged bd declared opts =
     act_bind (fill_staged iv s target i bd declared opts) (\<lambda>_.
     act_bind (wrap_error WriteFailed (descriptor_call (sys_close i))) (\<lambda>_.
     act_bind (others_act (iv_late iv)) (\<lambda>_.
     act_bind (confirm_unchanged target opts) (\<lambda>_.
     act_bind (others_act (iv_gap iv)) (\<lambda>_.
     wrap_error WriteFailed (rename_at staged target))))))"

definition stamp_of :: "confined \<Rightarrow> (fworld, file_error, write_result) action" where
  "stamp_of target =
     act_bind (classified (fs_stat target)) (\<lambda>(_, n).
       act_return \<lparr> wr_mtime = unix_milli (in_mtime n), wr_mtime_nanos = in_mtime n \<rparr>)"

definition write_atomically ::
  "interference \<Rightarrow> file_service \<Rightarrow> confined \<Rightarrow> body \<Rightarrow> int \<Rightarrow> write_options \<Rightarrow> (fworld, file_error, write_result) action" where
  "write_atomically iv s target bd declared opts w =
     (case create_staged staging_name_attempts (cf_dir target)
             (if wo_preserve opts then staging_mode else wo_mode opts) w of
        (Inl e, w1) \<Rightarrow> (Inl (staging_failure e), w1)
      | (Inr (i, staged), w1) \<Rightarrow>
          (case commit_staged iv s target i staged bd declared opts w1 of
             (Inl e, w2) \<Rightarrow> (Inl e, unmark_staging (cf_abs staged) (snd (fs_remove staged w2)))
           | (Inr _, w2) \<Rightarrow>
               (case stamp_of target w2 of (r, w3) \<Rightarrow> (r, unmark_staging (cf_abs staged) w3))))"

definition write_file ::
  "interference \<Rightarrow> view \<Rightarrow> file_service \<Rightarrow> string \<Rightarrow> body \<Rightarrow> int \<Rightarrow> expected_mtime option \<Rightarrow> bool \<Rightarrow>
     (fworld, file_error, write_result) action" where
  "write_file iv vw s path bd declared expected allow =
     classified (act_bind (write_target vw s path expected allow) (\<lambda>(target, existing).
       write_atomically iv s target bd declared
         \<lparr> wo_mode = (if existing = None then create_file_mode else 0), wo_preserve = (existing \<noteq> None),
           wo_origin = existing, wo_expected = expected, wo_allow_other_names = allow \<rparr>))"

section \<open>Creating, renaming, deleting\<close>

definition create_entry :: "view \<Rightarrow> file_service \<Rightarrow> string \<Rightarrow> bool \<Rightarrow> (fworld, file_error, unit) action" where
  "create_entry vw s path is_dir =
     act_bind (fsv_resolve vw s path ModeCreate) (\<lambda>resolved.
       (let target = confine (fsv_roots s) resolved in
        act_bind (classified (fs_stat (cf_dir target))) (\<lambda>(_, info).
          if in_kind info \<noteq> Directory then act_fail (Kind InvalidPath)
          else act_bind (act_try (fs_lstat target)) (\<lambda>r.
            case r of
              Inr _ \<Rightarrow> act_fail (Kind Conflict)
            | Inl e \<Rightarrow>
                if e \<noteq> Raw NotExist then act_fail (classify_path_error e)
                else if is_dir then classified (fs_mkdir target create_dir_mode)
                else act_bind (classified (fs_create_excl target create_file_mode)) (\<lambda>i.
                  descriptor_call (sys_close i))))))"

text \<open>The canonical directory that holds an entry, and the entry's name within it.\<close>

definition entry_target :: "view \<Rightarrow> file_service \<Rightarrow> string \<Rightarrow> (fworld, file_error, confined) action" where
  "entry_target vw s path =
     act_bind (act_lift (validate_path_shape path)) (\<lambda>_.
       (let cleaned = clean path in
        if cleaned = ''/'' then act_fail (Kind InvalidPath)
        else act_bind (fsv_resolve vw s (dir_of cleaned) ModeRead) (\<lambda>canonical.
          (let parent = confine (fsv_roots s) canonical in
           act_bind (classified (fs_stat parent)) (\<lambda>(_, info).
             if in_kind info \<noteq> Directory then act_fail (Kind InvalidPath)
             else (let target = cf_join parent (base_of cleaned) in
               if is_blocked (cf_abs target) then act_fail (Kind PathNotAllowed) else act_return target))))))"

definition rename_entry :: "view \<Rightarrow> file_service \<Rightarrow> string \<Rightarrow> string \<Rightarrow> (fworld, file_error, unit) action" where
  "rename_entry vw s path new_path =
     act_bind (entry_target vw s path) (\<lambda>source.
       act_bind (entry_target vw s new_path) (\<lambda>target.
         act_bind (act_try (fs_lstat target)) (\<lambda>r.
           case r of
             Inr _ \<Rightarrow> act_fail (Kind Conflict)
           | Inl e \<Rightarrow>
               if e \<noteq> Raw NotExist then act_fail (classify_path_error e)
               else classified (rename_at source target))))"

definition delete_entry :: "view \<Rightarrow> file_service \<Rightarrow> string \<Rightarrow> bool \<Rightarrow> (fworld, file_error, unit) action" where
  "delete_entry vw s path recursive =
     classified (act_bind (entry_target vw s path) (\<lambda>target.
       act_bind (fs_lstat target) (\<lambda>(_, info).
         if in_kind info \<noteq> Directory then fs_remove target
         else if \<not> recursive then
           act_bind (dir_has_entries target) (\<lambda>has_entries.
             if has_entries then act_fail (Kind DirNotEmpty) else fs_remove target)
         else wrap_error WriteFailed (fs_remove_all target))))"


section \<open>Listings\<close>

lemma act_bind_Inr:
  "act_bind m k w = (Inr x, w') \<longleftrightarrow> (\<exists>y w1. m w = (Inr y, w1) \<and> k y w1 = (Inr x, w'))"
  by (auto simp: act_bind_def split: prod.split sum.split)

lemma classified_Inr: "classified m w = (Inr x, w') \<longleftrightarrow> m w = (Inr x, w')"
  by (auto simp: classified_def split: prod.split sum.split)

lemma confine_abs [simp]: "cf_abs (confine s p) = p"
proof -
  have "cf_abs c = p" if "confine_in rs hs p = Some c" for rs hs c
    using that by (induction rs hs p rule: confine_in.induct) (auto split: option.splits)
  then show ?thesis by (auto simp: confine_def refused_def split: option.splits)
qed

lemma join_abs [simp]: "cf_abs (cf_join c name) = join_path [cf_abs c, name]"
  by (simp add: cf_join_def)

lemma dir_abs [simp]: "cf_abs (cf_dir c) = dir_of (cf_abs c)"
  by (simp add: cf_dir_def)

lemma read_batches_spec:
  "read_batches want skip acc rest w = (Inr (kept, trunc), w') \<Longrightarrow> length acc \<le> want \<Longrightarrow>
     kept = take want (acc @ filter (\<lambda>c. \<not> skip c) rest)
     \<and> (trunc \<longleftrightarrow> want \<le> length (acc @ filter (\<lambda>c. \<not> skip c) rest))"
proof (induction want skip acc rest w rule: read_batches.induct)
  case (1 want skip acc rest w)
  show ?case
  proof (cases "length acc \<ge> want")
    case True
    with "1.prems" show ?thesis by (auto simp: read_batches.simps)
  next
    case False
    define k where "k = want - length acc"
    obtain u w1 where c: "ctx_check w = (Inr u, w1)"
      using "1.prems"(1) False by (auto simp: read_batches.simps [of want] split: prod.splits sum.splits)
    obtain batch w2 where d: "descriptor_call (\<lambda>w. (Inr (take k rest), w)) w1 = (Inr batch, w2)"
      using "1.prems"(1) False c by (auto simp: read_batches.simps [of want] k_def Let_def split: prod.splits sum.splits)
    then have b: "batch = take k rest"
      by (auto simp: descriptor_call_def faulty_def Let_def split: option.splits)
    show ?thesis
    proof (cases "rest = []")
      case True
      then show ?thesis using "1.prems"(1) False c d
        by (auto simp: read_batches.simps [of want] k_def Let_def split: prod.splits sum.splits)
    next
      case ne: False
      have run: "read_batches want skip (acc @ filter (\<lambda>c. \<not> skip c) batch) (drop k rest) w2 = (Inr (kept, trunc), w')"
        using "1.prems"(1) False c d ne
        by (auto simp: read_batches.simps [of want] k_def Let_def split: prod.splits sum.splits)
      have "length (filter (\<lambda>c. \<not> skip c) batch) \<le> k" unfolding b by (rule order_trans [OF length_filter_le]) simp
      then have "length (acc @ filter (\<lambda>c. \<not> skip c) batch) \<le> want" using False by (simp add: k_def)
      moreover have "filter (\<lambda>c. \<not> skip c) batch @ filter (\<lambda>c. \<not> skip c) (drop k rest) = filter (\<lambda>c. \<not> skip c) rest"
        unfolding b by (metis append_take_drop_id filter_append)
      ultimately show ?thesis
        using "1.IH" [OF False c [symmetric] refl k_def d [symmetric] refl ne run] by simp
    qed
  qed
qed

lemma entry_name: "entry_for vw s dir c w = (x, w') \<Longrightarrow> e_name x = fst c"
  by (auto simp: entry_for_def split: prod.splits sum.splits)

lemma entries_names: "entries_for vw s dir cs w = (Inr es, w') \<Longrightarrow> map e_name es = map fst cs"
  by (induction cs arbitrary: w es w') (auto split: prod.splits sum.splits dest: entry_name)



lemma same_children:
  "fw_names w' = fw_names w \<Longrightarrow> children_of w' p = children_of w p"
  by (simp add: children_of_def)

lemma open_frame:
  "fs_open c w = (r, w') \<Longrightarrow> fw_names w' = fw_names w \<and> fw_staging w' = fw_staging w"
  "descriptor_call (sys_fstat i) w = (r', w') \<Longrightarrow> fw_names w' = fw_names w \<and> fw_staging w' = fw_staging w"
  by (auto simp: fs_open_def confined_call_def descriptor_call_def faulty_def sys_stat_def sys_fstat_def Let_def
        split: option.splits prod.splits sum.splits)

text \<open>C24: a successful listing shows the entries a write in flight is not staging: directories
  first and then by name, at most the configured number, flagged as truncated exactly when there are
  more, and every one of them when there are not.\<close>

theorem list_dir_exact:
  assumes "list_dir vw s path w = (Inr r, w')"
  defines "shown \<equiv> filter (\<lambda>c. \<not> is_staging w (join_path [lr_path r, fst c])) (children_of w (lr_path r))"
  shows "resolve (vw w) (fsv_roots s) path ModeRead = Inr (lr_path r)
    \<and> sorted (map entry_key (lr_entries r))
    \<and> length (lr_entries r) = min (fsv_max_entries s) (length shown)
    \<and> lr_truncated r = (fsv_max_entries s < length shown)
    \<and> mset (map e_name (lr_entries r)) \<subseteq># mset (map fst shown)"
proof -
  define n where "n = fsv_max_entries s"
  obtain resolved where res: "resolve (vw w) (fsv_roots s) path ModeRead = Inr resolved"
    using assms(1) by (auto simp: list_dir_def act_bind_Inr fsv_resolve_def)
  define target where "target = confine (fsv_roots s) resolved"
  obtain i nd w1 info w2 where o: "fs_open target w = (Inr (i, nd), w1)" "descriptor_call (sys_fstat i) w1 = (Inr info, w2)"
    and rest: "act_bind (\<lambda>w. classified (read_listing n
                 (\<lambda>c. is_staging w (cf_abs (cf_join target (fst c)))) (children_of w resolved)) w) (\<lambda>(kept, trunc).
               act_bind (entries_for vw s target kept) (\<lambda>entries.
                 act_return \<lparr> lr_path = resolved, lr_entries = take n (sort_key entry_key entries),
                              lr_truncated = trunc \<rparr>)) w2 = (Inr r, w')"
    using assms(1) res
    by (auto simp: list_dir_def act_bind_Inr fsv_resolve_def classified_Inr target_def n_def Let_def split: if_splits)
  have same: "fw_names w2 = fw_names w" "fw_staging w2 = fw_staging w"
    using open_frame(1) [OF o(1)] open_frame(2) [OF o(2)] by auto
  obtain kept trunc w3 es where l: "read_listing n (\<lambda>c. is_staging w2 (join_path [resolved, fst c])) (children_of w2 resolved) w2
        = (Inr (kept, trunc), w3)"
    and e: "entries_for vw s target kept w3 = (Inr es, w')"
    and r: "r = \<lparr> lr_path = resolved, lr_entries = take n (sort_key entry_key es), lr_truncated = trunc \<rparr>"
    using rest by (auto simp: act_bind_Inr classified_Inr target_def)
  have sh: "shown = filter (\<lambda>c. \<not> is_staging w2 (join_path [resolved, fst c])) (children_of w2 resolved)"
    by (simp add: shown_def r is_staging_def same same_children [OF same(1)])
  have kept: "kept = take (n + 1) shown" "trunc \<longleftrightarrow> n + 1 \<le> length shown"
    using read_batches_spec [OF l [unfolded read_listing_def]] sh by auto
  have names: "map e_name es = map fst kept" by (rule entries_names [OF e])
  then have len: "length es = length kept" by (metis length_map)
  have "mset (map e_name (take n (sort_key entry_key es))) \<subseteq># mset (map e_name (sort_key entry_key es))"
    by (metis append_take_drop_id map_append mset_append mset_subset_eq_add_left)
  also have "mset (map e_name (sort_key entry_key es)) = mset (map fst kept)"
    by (metis names mset_map mset_sort)
  also have "\<dots> \<subseteq># mset (map fst shown)" unfolding kept(1)
    by (metis append_take_drop_id map_append mset_append mset_subset_eq_add_left)
  finally have sub: "mset (map e_name (lr_entries r)) \<subseteq># mset (map fst shown)" by (simp add: r)
  have "sorted (map entry_key (take n (sort_key entry_key es)))"
    by (simp add: take_map [symmetric] sorted_wrt_take)
  then show ?thesis using res sub kept len by (simp add: r n_def) linarith
qed

section \<open>A sample tree\<close>

text \<open>"/srv" holding a file "b" and a directory "a", served under the root "/srv".\<close>

definition demo_inode :: "inode_kind \<Rightarrow> string \<Rightarrow> inode" where
  "demo_inode k data = \<lparr> in_kind = k, in_data = data, in_mtime = 5000000, in_mode = 420, in_uid = 1, in_gid = 1, in_nlink = 1 \<rparr>"

definition demo_world :: fworld where
  "demo_world = \<lparr> fw_names = [(''/'', 0), (''/srv'', 1), (''/srv/b'', 2), (''/srv/a'', 3)],
     fw_inodes = map_of [(0, demo_inode Directory []), (1, demo_inode Directory []), (2, demo_inode Regular ''old''),
        (3, demo_inode Directory [])],
     fw_next = 4, fw_now = 9000000, fw_uid = 1, fw_gid = 1, fw_chown = False, fw_umask = 18,
     fw_fault = (\<lambda>_. None), fw_calls = 0, fw_cancelled = (\<lambda>_. False), fw_rand = (\<lambda>_. Inr ''00ff''), fw_draws = 0, fw_staging = [] \<rparr>"

definition demo_service :: file_service where
  "demo_service = \<lparr> fsv_roots = srv_roots, fsv_max_size = 100, fsv_max_entries = 10, fsv_enabled = True \<rparr>"

definition demo_view :: view where
  "demo_view w = \<lparr> fv_eval = (\<lambda>p. if lookup w (clean p) = None then Inl NotExist else Inr (clean p)),
     fv_lstat = (\<lambda>p. if lookup w p = None then Inl NotExist else Inr False) \<rparr>"

lemma demo_view_ok: "view_ok (demo_view w)"
  by (auto simp: view_ok_def demo_view_def clean_abs_clean split: if_splits)

lemma demo_world_ok: "fworld_ok demo_world"
  by (auto simp: fworld_ok_def demo_world_def split: if_splits)

lemma list_dir_exact_witness:
  "\<exists>r w'. list_dir demo_view demo_service ''/srv'' demo_world = (Inr r, w') \<and> lr_truncated r = False
     \<and> sorted (map entry_key (lr_entries r))"
proof -
  have "case list_dir demo_view demo_service ''/srv'' demo_world of (Inr r, _) \<Rightarrow> \<not> lr_truncated r | _ \<Rightarrow> False"
    by code_simp
  then obtain r w' where "list_dir demo_view demo_service ''/srv'' demo_world = (Inr r, w')" "\<not> lr_truncated r"
    by (auto split: prod.splits sum.splits)
  with list_dir_exact [OF this(1)] show ?thesis by auto
qed

end
