(* ===== verification/FileSafety.thy ===== *)
theory FileSafety
  imports FileService
begin

text \<open>
  What the write, create, rename and delete of \<open>FileService\<close> do to the tree, whatever syscall fails:
  the frame of every step, the atomic write, and the confinement of the entry operations.
\<close>

section \<open>Frames\<close>

text \<open>What an action leaves as it was, by a relation of the worlds before and after it.\<close>

definition along :: "(fworld \<Rightarrow> fworld \<Rightarrow> bool) \<Rightarrow> (fworld, 'e, 'a) action \<Rightarrow> bool" where
  "along R m \<longleftrightarrow> (\<forall>w. R w (snd (m w)))"

locale frame =
  fixes R :: "fworld \<Rightarrow> fworld \<Rightarrow> bool"
  assumes refl: "R w w"
    and trans: "R w1 w2 \<Longrightarrow> R w2 w3 \<Longrightarrow> R w1 w3"
begin

lemma return: "along R (act_return x)"
  by (simp add: along_def refl)

lemma fail: "along R (act_fail e)"
  by (simp add: along_def refl)

lemma lift: "along R (act_lift r)"
  by (simp add: along_def refl)

lemma bind: "along R m \<Longrightarrow> (\<And>x. along R (k x)) \<Longrightarrow> along R (act_bind m k)"
  by (auto simp: along_def act_bind_def split: prod.split sum.split) (metis snd_conv trans)+

lemma tried: "along R m \<Longrightarrow> along R (act_try m)"
  by (auto simp: along_def act_try_def split: prod.split) (metis snd_conv)

lemma classified: "along R m \<Longrightarrow> along R (classified m)"
  by (auto simp: along_def classified_def split: prod.split sum.split) (metis snd_conv)+

lemma wrapped: "along R m \<Longrightarrow> along R (wrap_error k m)"
  by (auto simp: along_def wrap_error_def split: prod.split sum.split) (metis snd_conv)+

lemma ctx: "along R ctx_check"
  by (simp add: along_def ctx_check_def refl)

lemma resolving: "along R (fsv_resolve vw s p m)"
  by (simp add: along_def fsv_resolve_def refl)

lemma descriptor:
  assumes "\<And>w. R w (w\<lparr>fw_calls := Suc (fw_calls w)\<rparr>)" and "\<And>w. R w (snd (op w))"
  shows "along R (descriptor_call op)"
  unfolding along_def descriptor_call_def faulty_def Let_def
  using assms by (auto split: option.split prod.split sum.split) (metis snd_conv trans)+

lemma confined_along:
  assumes "\<And>w. R w (w\<lparr>fw_calls := Suc (fw_calls w)\<rparr>)" and "\<And>w. R w (snd (op (cf_abs c) w))"
  shows "along R (confined_call c op)"
  unfolding along_def confined_call_def faulty_def Let_def
  using assms by (auto simp: refl split: option.split prod.split sum.split) (metis snd_conv trans)+

lemma closing: "along R m \<Longrightarrow> along R (descriptor_call (sys_close i)) \<Longrightarrow> along R (or_close i m)"
  by (auto simp: along_def or_close_def split: prod.split sum.split) (metis snd_conv trans)+

lemmas rules = return fail lift bind tried classified wrapped ctx resolving

end

text \<open>No file changes; only the inode \<open>i\<close> changes; only its metadata does.\<close>

definition same_files :: "fworld \<Rightarrow> fworld \<Rightarrow> bool" where
  "same_files w w' \<longleftrightarrow> fw_names w' = fw_names w \<and> fw_next w' = fw_next w \<and> fw_staging w' = fw_staging w
     \<and> fw_fault w' = fw_fault w \<and> fw_inodes w' = fw_inodes w"

definition same_but :: "nat \<Rightarrow> fworld \<Rightarrow> fworld \<Rightarrow> bool" where
  "same_but i w w' \<longleftrightarrow> fw_names w' = fw_names w \<and> fw_next w' = fw_next w \<and> fw_staging w' = fw_staging w
     \<and> fw_fault w' = fw_fault w \<and> (\<forall>j. j \<noteq> i \<longrightarrow> fw_inodes w' j = fw_inodes w j)
     \<and> (fw_inodes w' i = None \<longleftrightarrow> fw_inodes w i = None)"

definition data_of :: "fworld \<Rightarrow> nat \<Rightarrow> (bool \<times> string) option" where
  "data_of w i = map_option (\<lambda>n. (in_kind n = Directory, in_data n)) (fw_inodes w i)"

lemma content_cong: "lookup w' p = lookup w p \<Longrightarrow> fw_inodes w' = fw_inodes w \<Longrightarrow> content_at w' p = content_at w p"
  by (simp add: content_at_def split: option.split)

lemma content_data: "lookup w p = Some i \<Longrightarrow> content_at w p = map_option snd (data_of w i)"
  by (simp add: content_at_def data_of_def option.map_comp comp_def)

definition same_data :: "nat \<Rightarrow> fworld \<Rightarrow> fworld \<Rightarrow> bool" where
  "same_data i w w' \<longleftrightarrow> same_but i w w' \<and> data_of w' i = data_of w i"

interpretation files: frame same_files
  by unfold_locales (auto simp: same_files_def)

interpretation inode: frame "same_but i" for i
  by unfold_locales (auto simp: same_but_def)

interpretation meta: frame "same_data i" for i
  by unfold_locales (auto simp: same_data_def same_but_def)

lemma same_files_data: "same_files w w' \<Longrightarrow> same_data i w w'"
  by (auto simp: same_files_def same_data_def same_but_def data_of_def)

lemma same_data_but: "same_data i w w' \<Longrightarrow> same_but i w w'"
  by (simp add: same_data_def)

lemma along_mono: "along R m \<Longrightarrow> (\<And>w w'. R w w' \<Longrightarrow> S w w') \<Longrightarrow> along S m"
  by (simp add: along_def)

lemma alongD: "along R m \<Longrightarrow> m w = (r, w') \<Longrightarrow> R w w'"
  unfolding along_def by (metis snd_conv)

lemma same_calls [simp]: "same_files w (w\<lparr>fw_calls := n\<rparr>)"
  by (simp add: same_files_def)

lemma reading:
  "along same_files (fs_lstat c)" "along same_files (fs_stat c)" "along same_files (fs_open c)"
  "along same_files (pin_metadata c)" "along same_files (descriptor_call (sys_fstat i))"
  "along same_files (descriptor_call (sys_close i))" "along same_files (descriptor_call (sys_sync i))"
  "along same_files (descriptor_call (sys_has_entries p))"
  unfolding fs_lstat_def fs_stat_def fs_open_def pin_metadata_def
  by (auto intro!: files.confined_along files.descriptor files.rules
      simp: sys_lstat_def sys_stat_def sys_fstat_def sys_close_def sys_sync_def sys_has_entries_def files.refl
      split: option.split prod.split)

lemma confirm_reads: "along same_files (confirm_unchanged target opts)"
  unfolding confirm_unchanged_def
  by (auto intro!: files.rules reading split: option.split sum.split prod.split)

lemma write_target_reads: "along same_files (write_target vw s path expected allow)"
  unfolding write_target_def check_pinned_def Let_def
  by (auto intro!: files.rules reading split: option.split sum.split prod.split)

lemma entry_target_reads: "along same_files (entry_target vw s path)"
  unfolding entry_target_def Let_def
  by (auto intro!: files.rules reading split: option.split sum.split prod.split)

lemma stamp_reads: "along same_files (stamp_of target)"
  unfolding stamp_of_def
  by (auto intro!: files.rules reading split: prod.split)

lemma dir_has_entries_reads: "along same_files (dir_has_entries c)"
  unfolding dir_has_entries_def by (auto intro!: files.rules reading)

section \<open>What the writing calls do\<close>

lemma confined_Inr:
  "confined_call c op w = (Inr x, w') \<Longrightarrow>
     cf_err c = None \<and> op (cf_abs c) (w\<lparr>fw_calls := Suc (fw_calls w)\<rparr>) = (Inr x, w')"
  by (auto simp: confined_call_def faulty_def Let_def split: option.splits prod.splits sum.splits)

lemma confined_Inl:
  "confined_call c op w = (Inl e, w') \<Longrightarrow>
     w' = w \<or> w' = w\<lparr>fw_calls := Suc (fw_calls w)\<rparr>
     \<or> (\<exists>e'. op (cf_abs c) (w\<lparr>fw_calls := Suc (fw_calls w)\<rparr>) = (Inl e', w'))"
  by (auto simp: confined_call_def faulty_def Let_def split: option.splits prod.splits sum.splits)

lemma create_excl_effect:
  assumes "fs_create_excl c mode w = (Inr i, w')"
  shows "i = fw_next w" "lookup w (cf_abs c) = None" "fw_names w' = (cf_abs c, i) # fw_names w"
    "fw_inodes w' = (fw_inodes w)(i \<mapsto> new_inode Regular (mode - and mode (fw_umask w)) w)" "fw_next w' = Suc i"
    "fw_staging w' = fw_staging w" "fw_fault w' = fw_fault w"
  using confined_Inr [OF assms [unfolded fs_create_excl_def]]
  by (auto simp: sys_create_def new_inode_def Let_def split: if_splits)

lemma new_inode_data [simp]: "in_data (new_inode k m w) = []" "in_kind (new_inode k m w) = k"
  by (simp_all add: new_inode_def)

lemma create_excl_fail: "fs_create_excl c mode w = (Inl e, w') \<Longrightarrow> same_files w w'"
  unfolding fs_create_excl_def
  by (drule confined_Inl) (auto simp: sys_create_def same_files_def Let_def split: if_splits)

lemma draw_files: "draw_suffix w = (r, w') \<Longrightarrow> same_files w w'"
  by (auto simp: draw_suffix_def same_files_def Let_def split: sum.splits)

text \<open>\<open>i\<close> is a new inode reachable under \<open>stage\<close> only.\<close>

definition staged_in :: "fworld \<Rightarrow> string \<Rightarrow> nat \<Rightarrow> fworld \<Rightarrow> bool" where
  "staged_in w stage i w' \<longleftrightarrow> i = fw_next w \<and> lookup w stage = None \<and> fw_names w' = (stage, i) # fw_names w
     \<and> (\<exists>n. in_data n = [] \<and> in_kind n = Regular \<and> fw_inodes w' = (fw_inodes w)(i \<mapsto> n)) \<and> fw_next w' = Suc i
     \<and> fw_staging w' = stage # fw_staging w \<and> fw_fault w' = fw_fault w"

lemma staged_in_frame: "same_files w0 w \<Longrightarrow> staged_in w stage i w' \<Longrightarrow> staged_in w0 stage i w'"
  by (auto simp: staged_in_def same_files_def lookup_def)

lemma create_staged_Inr:
  "create_staged n dir mode w = (Inr (i, stage), w') \<Longrightarrow>
     staged_in w (cf_abs stage) i w' \<and> (\<exists>sfx. cf_abs stage = join_path [cf_abs dir, temp_file_prefix @ sfx])"
proof (induction n dir mode w rule: create_staged.induct)
  case (2 n dir mode w)
  obtain sfx w1 where d: "draw_suffix w = (Inr sfx, w1)"
    using "2.prems" by (auto split: prod.splits sum.splits)
  define st where "st = cf_join dir (temp_file_prefix @ sfx)"
  obtain r w2 where c: "fs_create_excl st mode w1 = (r, w2)" by fastforce
  show ?case
  proof (cases r)
    case (Inr j)
    then have "i = j" "stage = st" "w' = mark_staging (cf_abs st) w2"
      using "2.prems" d c by (auto simp: st_def Let_def)
    moreover note eff = create_excl_effect [OF c [unfolded Inr]]
    have "\<exists>n. in_data n = [] \<and> in_kind n = Regular \<and> fw_inodes w2 = (fw_inodes w1)(j \<mapsto> n)"
      using eff(4) new_inode_data by blast
    with eff have "staged_in w1 (cf_abs st) j (mark_staging (cf_abs st) w2)"
      by (simp add: staged_in_def mark_staging_def)
    ultimately show ?thesis using staged_in_frame [OF draw_files [OF d]] by (auto simp: st_def)
  next
    case (Inl e)
    then have "create_staged n dir mode w2 = (Inr (i, stage), w')"
      using "2.prems" d c by (auto simp: st_def Let_def split: if_splits)
    moreover have "same_files w w2"
      using files.trans [OF draw_files [OF d] create_excl_fail [OF c [unfolded Inl]]] .
    ultimately show ?thesis
      using "2.IH" [OF d [symmetric] refl st_def c [unfolded Inl, symmetric] refl] "2.prems" d c Inl
      by (auto simp: st_def Let_def split: if_splits dest: staged_in_frame)
  qed
qed simp

lemma create_staged_Inl: "create_staged n dir mode w = (Inl e, w') \<Longrightarrow> same_files w w'"
proof (induction n arbitrary: w)
  case (Suc n)
  show ?case using Suc.prems
    by (auto simp: Let_def split: prod.splits sum.splits if_splits dest!: draw_files create_excl_fail Suc.IH
        intro: files.trans)
qed (simp add: files.refl)

lemma lookup_delete: "map_of (AList.delete a xs) p = (if p = a then None else map_of xs p)"
  by (simp add: AList.delete_conv')

lemma lookup_rebase_file:
  "a \<noteq> b \<Longrightarrow> b \<notin> fst ` set xs \<Longrightarrow> map_of (map (\<lambda>(q, j). (rebase False a b q, j)) xs) p
     = (if p = b then map_of xs a else if p = a then None else map_of xs p)"
proof (induction xs)
  case (Cons x xs)
  obtain q j where x: "x = (q, j)" by fastforce
  have "q \<noteq> b" "b \<notin> fst ` set xs" using Cons.prems x by auto
  with Cons.IH [OF Cons.prems(1) this(2)] Cons.prems(1) show ?case
    by (auto simp: x rebase_def [of False a b q])
qed simp

lemma rename_effect:
  assumes "rename_at from to w = (Inr u, w')"
  shows "\<exists>i n. lookup w (cf_abs from) = Some i \<and> fw_inodes w i = Some n \<and> fw_inodes w' = fw_inodes w
    \<and> (if cf_abs from = cf_abs to then fw_names w' = fw_names w
       else fw_names w' = map (\<lambda>(q, j). (rebase (in_kind n = Directory) (cf_abs from) (cf_abs to) q, j))
              (AList.delete (cf_abs to) (fw_names w)))"
proof -
  have "confined_call from (\<lambda>p. sys_rename p (cf_abs to)) w = (Inr u, w')"
    using assms by (auto simp: rename_at_def split: option.splits if_splits)
  from confined_Inr [OF this] show ?thesis
    by (auto simp: sys_rename_def split: option.splits if_splits bind_splits)
qed

lemma rename_file_effect:
  assumes "rename_at from to w = (Inr u, w')" and "lookup w (cf_abs from) = Some i"
    and "\<And>n. fw_inodes w i = Some n \<Longrightarrow> in_kind n \<noteq> Directory"
  shows "fw_inodes w' = fw_inodes w
    \<and> lookup w' p = (if p = cf_abs to then Some i else if p = cf_abs from then None else lookup w p)"
proof -
  obtain n where n: "fw_inodes w i = Some n" "fw_inodes w' = fw_inodes w"
    "if cf_abs from = cf_abs to then fw_names w' = fw_names w
     else fw_names w' = map (\<lambda>(q, j). (rebase (in_kind n = Directory) (cf_abs from) (cf_abs to) q, j))
              (AList.delete (cf_abs to) (fw_names w))"
    using rename_effect [OF assms(1)] assms(2) by auto
  show ?thesis
  proof (cases "cf_abs from = cf_abs to")
    case True
    then show ?thesis using n assms(2) by (auto simp: lookup_def)
  next
    case False
    have "cf_abs to \<notin> fst ` set (AList.delete (cf_abs to) (fw_names w))"
      by (auto simp: AList.delete_eq)
    from lookup_rebase_file [OF False this] n False assms(2,3) show ?thesis
      by (auto simp: lookup_def lookup_delete)
  qed
qed

lemma rename_fail:
  assumes "rename_at from to w = (Inl e, w')"
  shows "same_files w w'"
proof (cases "\<exists>e. confined_call from (\<lambda>p. sys_rename p (cf_abs to)) w = (Inl e, w')")
  case True
  then obtain e where "confined_call from (\<lambda>p. sys_rename p (cf_abs to)) w = (Inl e, w')" ..
  from confined_Inl [OF this] show ?thesis
    by (auto simp: sys_rename_def same_files_def split: option.splits if_splits)
next
  case False
  with assms have "w' = w" by (auto simp: rename_at_def split: option.splits if_splits)
  then show ?thesis by (simp add: files.refl)
qed

lemma remove_effect:
  assumes "fs_remove c w = (r, w')"
  shows "fw_inodes w' = fw_inodes w \<and> (\<forall>p. p \<noteq> cf_abs c \<longrightarrow> lookup w' p = lookup w p)"
proof (cases r)
  case (Inl e)
  from confined_Inl [OF assms [unfolded fs_remove_def Inl]] show ?thesis
    by (auto simp: sys_remove_def split: if_splits)
next
  case (Inr u)
  from confined_Inr [OF assms [unfolded fs_remove_def Inr]] show ?thesis
    by (auto simp: sys_remove_def lookup_def lookup_delete split: if_splits)
qed

section \<open>The staged write\<close>

text \<open>The staging inode is reachable under its own name only.\<close>

definition holds_staging :: "fworld \<Rightarrow> string \<Rightarrow> nat \<Rightarrow> bool" where
  "holds_staging w stage i \<longleftrightarrow> stage \<in> set (fw_staging w) \<and> (\<forall>q. lookup w q = Some i \<longleftrightarrow> q = stage)
     \<and> fw_inodes w i \<noteq> None"

lemma staged_holds:
  assumes "fworld_ok w" and "staged_in w stage i w'"
  shows "holds_staging w' stage i" "data_of w' i = Some (False, [])"
    "p \<noteq> stage \<Longrightarrow> lookup w' p = lookup w p \<and> content_at w' p = content_at w p" "lookup w p \<noteq> Some i"
proof -
  have lt: "lookup w p = Some j \<Longrightarrow> j < i" for p j
    using assms by (auto simp: fworld_ok_def staged_in_def lookup_def dest!: map_of_SomeD)
  then show ne: "lookup w p \<noteq> Some i" by blast
  show "holds_staging w' stage i" "data_of w' i = Some (False, [])"
    using assms(2) lt by (auto simp: holds_staging_def staged_in_def lookup_def data_of_def)
  assume "p \<noteq> stage"
  then show "lookup w' p = lookup w p \<and> content_at w' p = content_at w p"
    using assms(2) ne by (auto simp: content_at_def staged_in_def lookup_def split: option.split)
qed

lemma holds_frame: "same_but i w w' \<Longrightarrow> holds_staging w stage i \<Longrightarrow> holds_staging w' stage i"
  by (auto simp: same_but_def holds_staging_def lookup_def)

lemma content_but: "same_but i w w' \<Longrightarrow> lookup w p \<noteq> Some i \<Longrightarrow> content_at w' p = content_at w p"
  by (auto simp: same_but_def content_at_def lookup_def split: option.split)

text \<open>Others may do anything but touch the staging file: its name is 64 random bits, and private.\<close>

definition spares_staging :: "(fworld \<Rightarrow> fworld) \<Rightarrow> bool" where
  "spares_staging f \<longleftrightarrow> (\<forall>w stage i. holds_staging w stage i \<longrightarrow> holds_staging (f w) stage i
     \<and> data_of (f w) i = data_of w i) \<and> (\<forall>w. fw_fault (f w) = fw_fault w)"

definition spares :: "interference \<Rightarrow> bool" where
  "spares iv \<longleftrightarrow> spares_staging (iv_during iv) \<and> spares_staging (iv_late iv) \<and> spares_staging (iv_gap iv)"

lemma writing: "along (same_but i) (descriptor_call (sys_write i bs))"
  "along (same_data i) (descriptor_call (sys_chmod i mode))" "along (same_data i) (descriptor_call (sys_chown i u g))"
  by (auto intro!: inode.descriptor meta.descriptor
      simp: same_data_def same_but_def data_of_def sys_write_def sys_chmod_def sys_chown_def split: option.split)

lemma reading_data: "along same_files m \<Longrightarrow> along (same_data i) m"
  by (erule along_mono) (rule same_files_data)

lemma data_but: "along (same_data i) m \<Longrightarrow> along (same_but i) m"
  by (erule along_mono) (rule same_data_but)

lemma owner_along: "along (same_data i) (take_owner i origin)"
proof (cases origin)
  case (Some n)
  show ?thesis unfolding take_owner_def Some option.case
    by (rule meta.bind [OF reading_data [OF reading(5)]]) (auto intro!: meta.rules writing)
qed (simp add: take_owner_def meta.return)

lemma metadata_along: "along (same_data i) (carry_metadata i opts current)"
  unfolding carry_metadata_def
  by (auto intro!: meta.rules writing owner_along)

lemma sync_close_along:
  "along (same_data i) (descriptor_call (sys_sync i))" "along (same_data i) (descriptor_call (sys_close i))"
  by (auto intro: reading_data reading)

lemma copy_along: "along (same_but i) (copy_body s i bd declared)"
  unfolding copy_body_def Let_def
  by (auto intro!: inode.rules writing split: option.split)

lemma copy_body_Inr:
  assumes "copy_body s i bd declared w = (Inr u, w')" and "data_of w i = Some (False, [])"
  shows "int (length (bd_bytes bd)) = declared" "data_of w' i = Some (False, bd_bytes bd)"
    "int (length (bd_bytes bd)) \<le> fsv_max_size s"
proof -
  define taken where "taken = take (nat declared + 1) (bd_bytes bd)"
  have d: "0 \<le> declared" "declared \<le> fsv_max_size s" "int (length taken) = declared"
    using assms(1) by (auto simp: copy_body_def taken_def act_bind_Inr Let_def split: if_splits)
  then have t: "taken = bd_bytes bd" by (auto simp: taken_def)
  show "int (length (bd_bytes bd)) = declared" "int (length (bd_bytes bd)) \<le> fsv_max_size s" using d t by auto
  have ctx: "ctx_check w = (Inr u, w1) \<Longrightarrow> w1 = w" for w w1 u by (auto simp: ctx_check_def split: if_splits)
  obtain w1 where "descriptor_call (sys_write i taken) w = (Inr (), w1)" and "fw_inodes w' = fw_inodes w1"
    using assms(1) d t
    by (auto simp: copy_body_def taken_def [symmetric] act_bind_Inr wrap_error_def Let_def dest!: ctx
        split: if_splits prod.splits sum.splits option.splits)
  then show "data_of w' i = Some (False, bd_bytes bd)"
    using assms(2) t
    by (auto simp: descriptor_call_def faulty_def sys_write_def data_of_def Let_def split: option.splits prod.splits sum.splits)
qed

definition ready :: "fworld \<Rightarrow> string \<Rightarrow> nat \<Rightarrow> string \<Rightarrow> bool" where
  "ready w stage i d \<longleftrightarrow> holds_staging w stage i \<and> data_of w i = Some (False, d)"

lemma ready_frame:
  assumes "along (same_data i) m" and "m w = (r, w')" and "ready w stage i d"
  shows "ready w' stage i d \<and> fw_fault w' = fw_fault w"
proof -
  have d: "same_data i w w'" by (rule alongD [OF assms(1,2)])
  with holds_frame [OF same_data_but] assms(3) have "holds_staging w' stage i" by (simp add: ready_def)
  with d assms(3) show ?thesis by (simp add: ready_def same_data_def same_but_def)
qed

lemma ready_spared:
  assumes "spares_staging f" and "ready w stage i d"
  shows "ready (f w) stage i d \<and> fw_fault (f w) = fw_fault w"
  using assms unfolding spares_staging_def ready_def by metis

lemma wrap_Inr: "wrap_error k m w = (Inr x, w') \<longleftrightarrow> m w = (Inr x, w')"
  by (auto simp: wrap_error_def split: prod.splits sum.splits)

lemma or_close_Inr: "or_close i m w = (Inr x, w') \<longleftrightarrow> m w = (Inr x, w')"
  by (auto simp: or_close_def split: prod.splits sum.splits)

lemma fill_ready:
  assumes "fill_staged iv s target i bd declared opts w = (Inr u, w')"
    and "ready w stage i []" and "spares iv"
  shows "ready w' stage i (bd_bytes bd) \<and> fw_fault w' = fw_fault w \<and> int (length (bd_bytes bd)) = declared"
proof -
  obtain a w1 c w2 d w3 where
    cp: "copy_body s i bd declared w = (Inr a, w1)" and
    cf: "confirm_unchanged target opts (iv_during iv w1) = (Inr c, w2)" and
    md: "carry_metadata i opts c w2 = (Inr d, w3)" and
    sy: "descriptor_call (sys_sync i) w3 = (Inr u, w')"
    using assms(1) by (auto simp: fill_staged_def or_close_Inr act_bind_Inr wrap_Inr others_act_def)
  have "data_of w i = Some (False, [])" using assms(2) by (simp add: ready_def)
  note body = copy_body_Inr [OF cp this]
  have fr: "same_but i w w1" by (rule alongD [OF copy_along cp])
  then have "ready w1 stage i (bd_bytes bd)" "fw_fault w1 = fw_fault w"
    using assms(2) body(2) holds_frame [OF fr] fr by (simp_all add: ready_def same_but_def)
  then have "ready (iv_during iv w1) stage i (bd_bytes bd) \<and> fw_fault (iv_during iv w1) = fw_fault w"
    using ready_spared assms(3) by (auto simp: spares_def)
  then show ?thesis
    using ready_frame [OF reading_data [OF confirm_reads] cf] ready_frame [OF metadata_along md]
      ready_frame [OF sync_close_along(1) sy] body(1) by metis
qed

lemma commit_Inr:
  assumes "commit_staged iv s target i staged bd declared opts w = (Inr u, w')"
    and "ready w (cf_abs staged) i []" and "spares iv"
  shows "\<exists>w1 c wl. confirm_unchanged target opts w1 = (Inr c, wl) \<and> fw_fault w1 = fw_fault w
    \<and> ready wl (cf_abs staged) i (bd_bytes bd)
    \<and> int (length (bd_bytes bd)) = declared
    \<and> content_at w' (cf_abs target) = Some (bd_bytes bd)
    \<and> (cf_abs target \<noteq> cf_abs staged \<longrightarrow> lookup w' (cf_abs staged) = None)
    \<and> (\<forall>p. p \<noteq> cf_abs target \<longrightarrow> p \<noteq> cf_abs staged \<longrightarrow> content_at w' p = content_at (iv_gap iv wl) p)"
proof -
  obtain a w1 b w2 c wl where
    fl: "fill_staged iv s target i bd declared opts w = (Inr a, w1)" and
    cl: "descriptor_call (sys_close i) w1 = (Inr b, w2)" and
    cf: "confirm_unchanged target opts (iv_late iv w2) = (Inr c, wl)" and
    rn: "rename_at staged target (iv_gap iv wl) = (Inr u, w')"
    using assms(1) by (auto simp: commit_staged_def act_bind_Inr wrap_Inr others_act_def)
  let ?stage = "cf_abs staged" and ?t = "cf_abs target" and ?d = "bd_bytes bd"
  have r2: "ready w2 ?stage i ?d \<and> fw_fault w2 = fw_fault w"
    using fill_ready [OF fl assms(2,3)] ready_frame [OF sync_close_along(2) cl] by metis
  then have r3: "ready (iv_late iv w2) ?stage i ?d" "fw_fault (iv_late iv w2) = fw_fault w"
    using ready_spared assms(3) by (auto simp: spares_def)
  have rl: "ready wl ?stage i ?d" using ready_frame [OF reading_data [OF confirm_reads] cf r3(1)] by simp
  then have rg: "ready (iv_gap iv wl) ?stage i ?d" using ready_spared assms(3) by (auto simp: spares_def)
  then have j: "lookup (iv_gap iv wl) ?stage = Some i" by (simp add: ready_def holds_staging_def)
  have reg: "fw_inodes (iv_gap iv wl) i = Some n \<Longrightarrow> in_kind n \<noteq> Directory" for n
    using rg by (auto simp: ready_def data_of_def)
  note lk = rename_file_effect [OF rn j reg, THEN conjunct2]
  have e: "fw_inodes w' = fw_inodes (iv_gap iv wl)" using rename_file_effect [OF rn j reg] by blast
  then have "content_at w' ?t = Some ?d"
    using rg e lk content_data [of w' ?t i] by (simp add: ready_def data_of_def) fastforce
  moreover have "\<forall>p. p \<noteq> ?t \<longrightarrow> p \<noteq> ?stage \<longrightarrow> content_at w' p = content_at (iv_gap iv wl) p"
    by (intro allI impI content_cong) (simp_all add: lk e)
  ultimately show ?thesis using cf r3(2) rl lk fill_ready [OF fl assms(2,3)] by auto
qed

text \<open>With nobody else at work, a commit that fails has touched only the staging inode.\<close>

lemma quiet_spares: "spares quiet"
  by (simp add: spares_def spares_staging_def quiet_def)

lemma quiet_fill_along: "along (same_but i) (fill_staged quiet s target i bd declared opts)"
  unfolding fill_staged_def quiet_def others_act_def
  by (intro inode.closing inode.bind data_but [OF sync_close_along(2)] copy_along data_but [OF reading_data [OF confirm_reads]]
      inode.wrapped data_but [OF sync_close_along(1)] data_but [OF metadata_along])
    (simp add: along_def inode.refl)

lemma quiet_fill_close_along:
  "along (same_but i) (act_bind (fill_staged quiet s target i bd declared opts) (\<lambda>_.
     act_bind (wrap_error WriteFailed (descriptor_call (sys_close i))) (\<lambda>_.
     act_bind (others_act (iv_late quiet)) (\<lambda>_.
     act_bind (confirm_unchanged target opts) (\<lambda>_. others_act (iv_gap quiet))))))"
  by (intro inode.bind quiet_fill_along inode.wrapped data_but [OF sync_close_along(2)] data_but [OF reading_data [OF confirm_reads]])
    (simp_all add: along_def inode.refl others_act_def quiet_def)

lemma quiet_commit_fails:
  assumes "commit_staged quiet s target i staged bd declared opts w = (Inl e, w')"
  shows "same_but i w w'"
proof -
  define m where "m = act_bind (fill_staged quiet s target i bd declared opts) (\<lambda>_.
     act_bind (wrap_error WriteFailed (descriptor_call (sys_close i))) (\<lambda>_.
     act_bind (others_act (iv_late quiet)) (\<lambda>_.
     act_bind (confirm_unchanged target opts) (\<lambda>_. others_act (iv_gap quiet)))))"
  have split: "commit_staged quiet s target i staged bd declared opts
      = act_bind m (\<lambda>_. wrap_error WriteFailed (rename_at staged target))"
    by (simp add: commit_staged_def m_def act_bind_assoc)
  obtain r w1 where m: "m w = (r, w1)" by fastforce
  have s1: "same_but i w w1" using alongD [OF quiet_fill_close_along [of i s target bd declared opts, folded m_def] m] .
  show ?thesis
  proof (cases r)
    case (Inl e')
    then show ?thesis using assms m s1 by (simp add: split act_bind_def)
  next
    case (Inr x)
    then have "\<exists>e'. rename_at staged target w1 = (Inl e', w')"
      using assms m by (auto simp: split act_bind_def wrap_error_def split: prod.splits sum.splits)
    then have "same_files w1 w'" using rename_fail by blast
    then show ?thesis using s1 inode.trans [OF s1] same_data_but [OF same_files_data] by blast
  qed
qed

text \<open>With nobody else at work, the tree the last check saw is the tree the write began with.\<close>

lemma quiet_commit_succeeds:
  assumes "commit_staged quiet s target i staged bd declared opts w = (Inr u, w')" "ready w (cf_abs staged) i []"
    and "p \<noteq> cf_abs target"
  shows "content_at w' p = (if p = cf_abs staged then None else content_at w p)"
proof -
  obtain a w1 b w2 c wl where
    fl: "fill_staged quiet s target i bd declared opts w = (Inr a, w1)" and
    cl: "descriptor_call (sys_close i) w1 = (Inr b, w2)" and
    cf: "confirm_unchanged target opts w2 = (Inr c, wl)" and
    rn: "rename_at staged target wl = (Inr u, w')"
    using assms(1) by (auto simp: commit_staged_def act_bind_Inr wrap_Inr others_act_def quiet_def)
  have sb: "same_but i w wl"
    using alongD [OF quiet_fill_along fl] alongD [OF data_but [OF sync_close_along(2)] cl]
      alongD [OF data_but [OF reading_data [OF confirm_reads]] cf] inode.trans by blast
  from holds_frame [OF sb] assms(2) have "holds_staging wl (cf_abs staged) i" by (simp add: ready_def)
  then have j: "lookup wl (cf_abs staged) = Some i" "q \<noteq> cf_abs staged \<Longrightarrow> lookup wl q \<noteq> Some i" for q
    by (simp_all add: holds_staging_def)
  have "ready w2 (cf_abs staged) i (bd_bytes bd)"
    using fill_ready [OF fl assms(2) quiet_spares] ready_frame [OF sync_close_along(2) cl] by blast
  from ready_frame [OF reading_data [OF confirm_reads] cf this] have rl: "ready wl (cf_abs staged) i (bd_bytes bd)" ..
  have reg: "in_kind n \<noteq> Directory" if "fw_inodes wl i = Some n" for n
    using rl that by (auto simp: ready_def data_of_def)
  note lk0 = rename_file_effect [OF rn j(1) reg]
  have e: "fw_inodes w' = fw_inodes wl" using lk0 by blast
  have lk: "lookup w' p = (if p = cf_abs staged then None else lookup wl p)"
    using assms(3) lk0 by auto
  have "content_at wl p = content_at w p" if "p \<noteq> cf_abs staged"
    using content_but [OF sb] assms(2) that by (simp add: ready_def holds_staging_def)
  moreover have "content_at w' p = content_at wl p" if "p \<noteq> cf_abs staged"
    by (rule content_cong) (simp_all add: lk e that)
  moreover have "content_at w' (cf_abs staged) = None" if "p = cf_abs staged"
    using lk that by (simp add: content_at_def)
  ultimately show ?thesis by auto
qed

section \<open>All or nothing\<close>

lemma content_files: "same_files w w' \<Longrightarrow> content_at w' p = content_at w p"
  by (rule content_cong) (simp_all add: same_files_def lookup_def)

text \<open>A name the write itself may have taken and, if removing it failed too, left behind.\<close>

definition leftover :: "fworld \<Rightarrow> string \<Rightarrow> string \<Rightarrow> bool" where
  "leftover w t p \<longleftrightarrow> lookup w p = None \<and> (\<exists>sfx. p = join_path [dir_of t, temp_file_prefix @ sfx])"

definition untouched :: "fworld \<Rightarrow> string \<Rightarrow> fworld \<Rightarrow> bool" where
  "untouched w t w' \<longleftrightarrow> (\<forall>p. content_at w' p = content_at w p \<or> leftover w t p)"

definition replaced :: "fworld \<Rightarrow> string \<Rightarrow> string \<Rightarrow> fworld \<Rightarrow> bool" where
  "replaced w t d w' \<longleftrightarrow> content_at w' t = Some d \<and> (\<forall>p. p \<noteq> t \<longrightarrow> content_at w' p = content_at w p)"

lemma write_atomically_quiet:
  assumes "write_atomically quiet s target bd declared opts w = (r, w')" and "fworld_ok w"
  shows "(\<not> is_ok r \<and> untouched w (cf_abs target) w')
    \<or> (replaced w (cf_abs target) (bd_bytes bd) w' \<and> int (length (bd_bytes bd)) = declared)"
proof -
  obtain cs w1 where cs: "create_staged staging_name_attempts (cf_dir target)
      (if wo_preserve opts then staging_mode else wo_mode opts) w = (cs, w1)" by fastforce
  show ?thesis
  proof (cases cs)
    case (Inl e)
    then have "same_files w w'" "\<not> is_ok r"
      using assms(1) cs create_staged_Inl [OF cs [unfolded Inl]] by (auto simp: write_atomically_def)
    then show ?thesis by (auto simp: untouched_def content_files)
  next
    case (Inr x)
    obtain i staged where x: "x = (i, staged)" by fastforce
    note st = create_staged_Inr [OF cs [unfolded Inr x]]
    let ?stage = "cf_abs staged" and ?t = "cf_abs target"
    note hs = staged_holds [OF assms(2) conjunct1 [OF st]]
    have rd: "ready w1 ?stage i []" using hs(1,2) by (simp add: ready_def data_of_def)
    have left: "leftover w ?t ?stage" using st by (auto simp: leftover_def staged_in_def)
    obtain cm w2 where cm: "commit_staged quiet s target i staged bd declared opts w1 = (cm, w2)" by fastforce
    show ?thesis
    proof (cases cm)
      case (Inl e)
      obtain rr w3 where rm: "fs_remove staged w2 = (rr, w3)" by fastforce
      have res: "r = Inl e" "w' = unmark_staging ?stage w3"
        using assms(1) cs Inr x cm Inl rm by (auto simp: write_atomically_def)
      have "content_at w' p = content_at w p" if "p \<noteq> ?stage" for p
      proof -
        have "content_at w' p = content_at w3 p" by (rule content_cong) (simp_all add: res unmark_staging_def)
        also have "\<dots> = content_at w2 p" using remove_effect [OF rm] that by (intro content_cong) auto
        also have "\<dots> = content_at w1 p"
          using content_but [OF quiet_commit_fails [OF cm [unfolded Inl]]] hs(1) that by (simp add: holds_staging_def)
        also have "\<dots> = content_at w p" using hs(3) [OF that] by simp
        finally show ?thesis .
      qed
      then have "untouched w ?t w'" using left unfolding untouched_def by metis
      then show ?thesis using res(1) by simp
    next
      case (Inr u)
      obtain sr w3 where sm: "stamp_of target w2 = (sr, w3)" by fastforce
      have w': "w' = unmark_staging ?stage w3"
        using assms(1) cs \<open>cs = Inr x\<close> x cm Inr sm by (auto simp: write_atomically_def)
      have same: "content_at w' p = content_at w2 p" for p
        using content_files [OF alongD [OF stamp_reads sm]] by (simp add: w' unmark_staging_def)
      have "content_at w' p = content_at w p" if "p \<noteq> ?t" for p
        using quiet_commit_succeeds [OF cm [unfolded Inr] rd that] hs(3) [of p] left same
        by (auto simp: leftover_def content_at_def)
      moreover have "content_at w' ?t = Some (bd_bytes bd)" "int (length (bd_bytes bd)) = declared"
        using commit_Inr [OF cm [unfolded Inr] rd quiet_spares] same by auto
      ultimately show ?thesis by (simp add: replaced_def)
    qed
  qed
qed

lemma classified_ok: "classified m w = (r, w') \<Longrightarrow> \<exists>r0. m w = (r0, w') \<and> is_ok r0 = is_ok r"
  by (auto simp: classified_def split: prod.splits sum.splits)

lemma act_try_Inr: "act_try m w = (Inr r, w') \<longleftrightarrow> m w = (r, w')"
  by (auto simp: act_try_def split: prod.split)

lemma write_target_Inr:
  assumes "write_target vw s path expected allow w = (Inr (target, origin), w1)"
    and "resolve (vw w) (fsv_roots s) path ModeCreate = Inr t"
  obtains link w2 pinned w3 where "target = confine (fsv_roots s) t" "fs_lstat target w = (link, w2)"
    "pin_metadata target w2 = (pinned, w3)"
    "case pinned of Inl e \<Rightarrow> e = Raw NotExist \<and> expected = None \<and> origin = None | Inr i \<Rightarrow> origin = Some i"
proof -
  let ?c = "confine (fsv_roots s) t"
  obtain link w2 where l: "fs_lstat ?c w = (link, w2)" by fastforce
  obtain pinned w3 where p: "pin_metadata ?c w2 = (pinned, w3)" by fastforce
  have run: "check_pinned ?c expected allow pinned w3 = (Inr (target, origin), w1)"
    using assms l p
    by (auto simp: write_target_def fsv_resolve_def act_bind_Inr act_try_Inr Let_def split: if_splits)
  then have "target = ?c \<and> (case pinned of Inl e \<Rightarrow> e = Raw NotExist \<and> expected = None \<and> origin = None
      | Inr i \<Rightarrow> origin = Some i)"
    by (auto simp: check_pinned_def act_bind_Inr split: sum.splits if_splits)
  then show thesis using that [of link w2 pinned w3] l p by simp
qed

lemma write_target_abs:
  assumes "write_target vw s path expected allow w = (Inr (target, origin), w1)"
    and "resolve (vw w) (fsv_roots s) path ModeCreate = Inr t"
  shows "cf_abs target = t"
  by (rule write_target_Inr [OF assms]) simp


section \<open>No lost update\<close>

text \<open>A fault schedule under which a syscall never reports a missing entry that is there.\<close>

definition honest :: "fworld \<Rightarrow> bool" where
  "honest w \<longleftrightarrow> (\<forall>n. fw_fault w n \<noteq> Some NotExist \<and> fw_fault w n \<noteq> Some EscapesRoot)"

text \<open>Whether the target is in \<open>w1\<close> what the write found in \<open>w\<close>: the same inode, with the expected
  time and no name the caller was not told about, or still free.\<close>

definition target_as_found :: "fworld \<Rightarrow> string \<Rightarrow> expected_mtime option \<Rightarrow> bool \<Rightarrow> fworld \<Rightarrow> bool" where
  "target_as_found w t expected allow w1 =
     (case follow 40 w t of
        Inl _ \<Rightarrow> content_at w1 t = None
      | Inr (i, _) \<Rightarrow>
          (case follow 40 w1 t of
             Inl _ \<Rightarrow> False
           | Inr (j, n) \<Rightarrow>
               j = i \<and> (case expected of Some e \<Rightarrow> mtime_matches e n | None \<Rightarrow> True) \<and> (allow \<or> other_names n = 0)))"

lemma follow_files: "fw_names w' = fw_names w \<Longrightarrow> fw_inodes w' = fw_inodes w \<Longrightarrow> follow n w' p = follow n w p"
  by (induction n arbitrary: p) (auto simp: lookup_def split: option.split)

lemma follow_calls [simp]: "follow n (w\<lparr>fw_calls := k\<rparr>) p = follow n w p"
  by (rule follow_files) simp_all

lemma stat_Inr: "confined_call c sys_stat w = (Inr x, w') \<Longrightarrow> follow 40 w (cf_abs c) = Inr x"
  by (drule confined_Inr) (simp add: sys_stat_def)

lemma missing_honest:
  assumes "confined_call c op w = (Inl (Raw NotExist), w')" and "honest w" and "cf_err c = None \<or> cf_err c = Some (Kind k)"
  shows "\<exists>e. (e = NotExist \<or> e = EscapesRoot) \<and> fst (op (cf_abs c) (w\<lparr>fw_calls := Suc (fw_calls w)\<rparr>)) = Inl e"
  using assms
  by (auto simp: confined_call_def faulty_def honest_def escaped_within_def Let_def
      split: option.splits prod.splits sum.splits if_splits)

lemma confine_err: "cf_err (confine s p) = None \<or> cf_err (confine s p) = Some (Kind PathNotAllowed)"
proof -
  have "cf_err c = None" if "confine_in rs hs p = Some c" for rs hs c
    using that by (induction rs hs p rule: confine_in.induct) (auto split: option.splits)
  then show ?thesis by (auto simp: confine_def refused_def split: option.split)
qed

lemma write_target_found:
  assumes "write_target vw s path expected allow w = (Inr (target, origin), w1)" and "honest w"
    and "resolve (vw w) (fsv_roots s) path ModeCreate = Inr t"
  shows "target = confine (fsv_roots s) t \<and> origin = (case follow 40 w t of Inl _ \<Rightarrow> None | Inr (i, _) \<Rightarrow> Some i)"
proof (rule write_target_Inr [OF assms(1,3)])
  fix link w2 pinned w3
  assume t: "target = confine (fsv_roots s) t" and l: "fs_lstat target w = (link, w2)"
    and p: "pin_metadata target w2 = (pinned, w3)"
    and o: "case pinned of Inl e \<Rightarrow> e = Raw NotExist \<and> expected = None \<and> origin = None | Inr i \<Rightarrow> origin = Some i"
  have f: "same_files w w2" by (rule alongD [OF reading(1) l])
  then have h: "honest w2" using assms(2) by (simp add: honest_def same_files_def)
  have fo: "follow n w2 p = follow n w p" for n p using f by (intro follow_files) (simp_all add: same_files_def)
  show ?thesis
  proof (cases pinned)
    case (Inr i)
    then obtain n where "confined_call target sys_stat w2 = (Inr (i, n), w3)"
      using p by (auto simp: pin_metadata_def act_bind_Inr)
    from stat_Inr [OF this] show ?thesis using o Inr t by (simp add: fo)
  next
    case (Inl e)
    then have "confined_call target sys_stat w2 = (Inl (Raw NotExist), w3)"
      using p o by (auto simp: pin_metadata_def act_bind_def split: prod.splits sum.splits)
    from missing_honest [OF this h, of PathNotAllowed] confine_err t
    obtain e' where "fst (sys_stat t (w2\<lparr>fw_calls := Suc (fw_calls w2)\<rparr>)) = Inl e'" by auto
    then have "follow 40 w t = Inl e'" by (simp add: sys_stat_def fo)
    then show ?thesis using o Inl t by simp
  qed
qed

lemma confirm_found:
  assumes "confirm_unchanged (confine rs t) opts w1 = (Inr c, w2)" and "honest w1"
    and "wo_origin opts = (case follow 40 w t of Inl _ \<Rightarrow> None | Inr (i, _) \<Rightarrow> Some i)"
  shows "target_as_found w t (wo_expected opts) (wo_allow_other_names opts) w1"
proof (cases "follow 40 w t")
  case (Inl e)
  obtain r w' where l: "confined_call (confine rs t) sys_lstat w1 = (r, w')" by fastforce
  have "r = Inl (Raw NotExist)" using assms(1,3) Inl l
    by (cases r) (auto simp: confirm_unchanged_def act_bind_run(1) [OF act_try_run] fs_lstat_def split: if_splits)
  with l have "confined_call (confine rs t) sys_lstat w1 = (Inl (Raw NotExist), w')" by simp
  from missing_honest [OF this assms(2), of PathNotAllowed] confine_err
  have "content_at w1 t = None"
    by (auto simp: sys_lstat_def content_at_def split: option.splits)
  then show ?thesis using Inl by (simp add: target_as_found_def)
next
  case (Inr x)
  obtain i n0 where x: "x = (i, n0)" by fastforce
  obtain j n w' where st: "confined_call (confine rs t) sys_stat w1 = (Inr (j, n), w')"
    and c: "j = i" "case wo_expected opts of Some e \<Rightarrow> mtime_matches e n | None \<Rightarrow> True"
      "linked_error n (wo_allow_other_names opts) = Inr ()"
    using assms(1,3) Inr x
    by (auto simp: confirm_unchanged_def act_bind_Inr classified_Inr fs_stat_def split: if_splits option.splits sum.splits)
  have "wo_allow_other_names opts \<or> other_names n = 0" using c(3) by (auto simp: linked_error_def split: if_splits)
  then show ?thesis using stat_Inr [OF st] Inr x c(1,2) by (simp add: target_as_found_def)
qed

text \<open>C23: a write is never applied over a change it has not seen.  If what others do before the
  last check leaves the target a different file, a changed one when the caller said what it last
  observed, one with a name the caller was not told about, or no longer free, the write fails,
  whatever syscalls fail and however else others interfere.\<close>

theorem write_no_lost_update:
  assumes "fworld_ok w" and "honest w" and "spares iv"
    and "resolve (vw w) (fsv_roots s) path ModeCreate = Inr t"
    and "\<And>w1. \<not> target_as_found w t expected allow (iv_late iv w1)"
  shows "\<not> is_ok (fst (write_file iv vw s path bd declared expected allow w))"
proof
  assume ok: "is_ok (fst (write_file iv vw s path bd declared expected allow w))"
  then obtain res w' where "write_file iv vw s path bd declared expected allow w = (Inr res, w')"
    by (metis is_ok_iff prod.collapse)
  then obtain target origin w1 opts where
    wt: "write_target vw s path expected allow w = (Inr (target, origin), w1)" and
    opts: "wo_origin opts = origin" "wo_expected opts = expected" "wo_allow_other_names opts = allow" and
    wa: "write_atomically iv s target bd declared opts w1 = (Inr res, w')"
    by (auto simp: write_file_def classified_Inr act_bind_Inr) (metis write_options.select_convs(3,4,5))
  have f1: "same_files w w1" by (rule alongD [OF write_target_reads wt])
  then have k1: "fworld_ok w1" using assms(1) by (simp add: fworld_ok_def same_files_def)
  note found = write_target_found [OF wt assms(2,4)]
  obtain i staged w2 u w3 where
    cs: "create_staged staging_name_attempts (cf_dir target)
          (if wo_preserve opts then staging_mode else wo_mode opts) w1 = (Inr (i, staged), w2)" and
    cm: "commit_staged iv s target i staged bd declared opts w2 = (Inr u, w3)"
    using wa by (auto simp: write_atomically_def split: prod.splits sum.splits)
  note st = create_staged_Inr [OF cs, THEN conjunct1]
  have rd: "ready w2 (cf_abs staged) i []" using staged_holds(1,2) [OF k1 st] by (simp add: ready_def data_of_def)
  obtain a w4 b w5 c wl where
    fl: "fill_staged iv s target i bd declared opts w2 = (Inr a, w4)" and
    cl: "descriptor_call (sys_close i) w4 = (Inr b, w5)" and
    cf: "confirm_unchanged target opts (iv_late iv w5) = (Inr c, wl)"
    using cm by (auto simp: commit_staged_def act_bind_Inr wrap_Inr others_act_def)
  have "fw_fault (iv_late iv w5) = fw_fault w5" using assms(3) by (auto simp: spares_def spares_staging_def)
  also have "\<dots> = fw_fault w2"
    using fill_ready [OF fl rd assms(3)] alongD [OF sync_close_along(2) cl] by (simp add: same_data_def same_but_def)
  also have "\<dots> = fw_fault w" using st f1 by (simp add: staged_in_def same_files_def)
  finally have "honest (iv_late iv w5)" using assms(2) by (simp add: honest_def)
  then have "target_as_found w t expected allow (iv_late iv w5)"
    using confirm_found [of "fsv_roots s" t opts "iv_late iv w5" c wl w] cf found opts by simp
  with assms(5) show False by blast
qed

section \<open>Entries\<close>

lemma split_on_snoc: "slash \<notin> set n \<Longrightarrow> split_on slash (p @ slash # n) = split_on slash p @ [n]"
proof (induction p)
  case (Cons x p)
  obtain q qs where "split_on slash p = q # qs" by (meson neq_Nil_conv split_on_nonempty)
  with Cons show ?case by (auto split: list.splits)
qed (simp add: split_on_no_sep)

lemma clean_segs_snoc: "clean_seg n \<Longrightarrow> clean_segs True acc (ps @ [n]) = clean_segs True acc ps @ [n]"
proof (induction ps arbitrary: acc)
  case Nil
  then show ?case by (auto simp: clean_seg_def)
next
  case (Cons p ps)
  then show ?case by (auto split: list.split)
qed

text \<open>A clean name joined to a canonical directory is one segment below it.\<close>

lemma join_segment:
  assumes "clean_abs p" and "clean_seg n"
  shows "clean_abs (join_path [p, n])" "segs (join_path [p, n]) = segs p @ [n]"
proof -
  have ne: "p \<noteq> []" and ab: "is_abs p" using assms(1) clean_abs_is_abs clean_abs_nonempty by auto
  then have j: "join_path [p, n] = clean (p @ slash # n)" by (simp add: join_path_def)
  have ab': "is_abs (p @ slash # n)" using ab ne by (cases p) (auto simp: is_abs_def)
  have "segs (p @ slash # n) = segs p @ [n]"
    using assms(2) ab ab' by (simp add: segs_def split_on_snoc clean_seg_def clean_segs_snoc [unfolded clean_seg_def])
  moreover have "segs (clean (p @ slash # n)) = segs (p @ slash # n)"
    using segs_of_segs [OF segs_abs_clean [OF ab']] ab' by (simp add: clean_def)
  ultimately show "segs (join_path [p, n]) = segs p @ [n]" by (simp add: j)
  show "clean_abs (join_path [p, n])" by (rule join_clean_abs [OF assms(1)])
qed

text \<open>An entry the operations may act on: strictly inside a root, and no kernel interface.\<close>

definition entry_inside :: "root_set \<Rightarrow> string \<Rightarrow> bool" where
  "entry_inside s t \<longleftrightarrow> clean_abs t \<and> segs t \<noteq> [] \<and> \<not> is_blocked t
     \<and> (rs_roots s = [] \<or> list_ex (\<lambda>root. strict_prefix (segs root) (segs t)) (rs_roots s))"

lemma entry_target_inside:
  assumes "entry_target vw s path w = (Inr c, w1)" and "view_ok (vw w)" and "roots_ok (fsv_roots s)"
  shows "entry_inside (fsv_roots s) (cf_abs c)"
proof -
  obtain parent where sh: "validate_path_shape path = Inr ()" and nr: "clean path \<noteq> ''/''"
    and res: "resolve (vw w) (fsv_roots s) (dir_of (clean path)) ModeRead = Inr parent"
    and c: "cf_abs c = join_path [parent, base_of (clean path)]" and nb: "\<not> is_blocked (cf_abs c)"
    using assms(1)
    by (auto simp: entry_target_def act_bind_Inr fsv_resolve_def Let_def split: if_splits sum.splits)
  note p = resolve_inside [OF res assms(2,3)]
  have ca: "clean_abs (clean path)" by (rule clean_abs_clean [OF shape_abs [OF sh]])
  have seg: "clean_seg (base_of (clean path))"
  proof -
    note q = clean_abs_segs [OF ca]
    have "segs (clean path) \<noteq> []" using q nr by (auto simp: of_segs_def)
    then show ?thesis using base_of_of_segs [of "segs (clean path)"] q
      by (metis last_in_set list_all_iff)
  qed
  note j = join_segment [OF conjunct1 [OF p] seg]
  have sp: "strict_prefix (segs root) (segs (cf_abs c))" if "prefix (segs root) (segs parent)" for root
    unfolding c j(2) using that by (rule prefix_order.le_less_trans) (simp add: strict_prefix_def)
  have "list_ex (\<lambda>root. strict_prefix (segs root) (segs (cf_abs c))) (rs_roots (fsv_roots s))"
    if "rs_roots (fsv_roots s) \<noteq> []"
    using p that sp unfolding list_ex_iff by blast
  then show ?thesis using j nb unfolding entry_inside_def c by auto
qed

lemma entry_target_err:
  assumes "entry_target vw s path w = (Inr c, w1)"
  shows "cf_err c = None \<or> cf_err c = Some (Kind PathNotAllowed)"
proof -
  obtain parent where "c = cf_join (confine (fsv_roots s) parent) (base_of (clean path))"
    using assms by (auto simp: entry_target_def act_bind_Inr Let_def split: if_splits sum.splits)
  then show ?thesis using confine_err [of "fsv_roots s" parent] by (simp add: cf_join_def)
qed

lemma remove_all_effect:
  assumes "fs_remove_all c w = (r, w')"
  shows "fw_inodes w' = fw_inodes w \<and> (\<forall>p. lookup w' p = lookup w p \<or> below (cf_abs c) p \<and> lookup w' p = None)"
proof (cases r)
  case (Inl e)
  from confined_Inl [OF assms [unfolded fs_remove_all_def Inl]] show ?thesis
    by (auto simp: sys_remove_all_def)
next
  case (Inr u)
  have "map_of (filter (\<lambda>(q, _). \<not> P q) xs) p = (if P p then None else map_of xs p)" for P p and xs :: "(string \<times> nat) list"
    by (induction xs) (auto split: if_splits)
  then show ?thesis
    using confined_Inr [OF assms [unfolded fs_remove_all_def Inr]]
    by (auto simp: sys_remove_all_def lookup_def split: if_splits)
qed

lemma remove_lookup:
  assumes "fs_remove c w = (r, w')"
  shows "lookup w' p = lookup w p \<or> p = cf_abs c \<and> lookup w' p = None"
proof (cases r)
  case (Inl e)
  from confined_Inl [OF assms [unfolded fs_remove_def Inl]] show ?thesis
    by (auto simp: sys_remove_def split: if_splits)
next
  case (Inr u)
  from confined_Inr [OF assms [unfolded fs_remove_def Inr]] show ?thesis
    by (auto simp: sys_remove_def lookup_def lookup_delete split: if_splits)
qed

text \<open>C10: whatever links the file system holds and whatever syscalls fail, a delete removes
  names only at or below one entry strictly inside a configured root that is no kernel interface,
  only that entry itself unless it was asked to recurse, and touches no file's contents.\<close>

theorem delete_confined:
  assumes "delete_entry vw s path recursive w = (r, w')" and "view_ok (vw w)" and "roots_ok (fsv_roots s)"
  shows "fw_inodes w' = fw_inodes w
    \<and> ((\<forall>p. lookup w' p = lookup w p)
       \<or> (\<exists>t. entry_inside (fsv_roots s) t
            \<and> (\<forall>p. lookup w' p = lookup w p \<or> (lookup w' p = None \<and> below t p \<and> (recursive \<or> p = t)))))"
proof -
  obtain r0 where run: "act_bind (entry_target vw s path) (\<lambda>target.
       act_bind (fs_lstat target) (\<lambda>(_, info).
         if in_kind info \<noteq> Directory then fs_remove target
         else if \<not> recursive then
           act_bind (dir_has_entries target) (\<lambda>has_entries.
             if has_entries then act_fail (Kind DirNotEmpty) else fs_remove target)
         else wrap_error WriteFailed (fs_remove_all target))) w = (r0, w')"
    using classified_ok [OF assms(1) [unfolded delete_entry_def]] by blast
  obtain tr w1 where tr: "entry_target vw s path w = (tr, w1)" by fastforce
  have f1: "same_files w w1" by (rule alongD [OF entry_target_reads tr])
  show ?thesis
  proof (cases tr)
    case (Inl e)
    then show ?thesis using run tr f1 by (auto simp: act_bind_def same_files_def lookup_def)
  next
    case (Inr c)
    note inside = entry_target_inside [OF tr [unfolded Inr] assms(2,3)]
    obtain lr w2 where lr: "fs_lstat c w1 = (lr, w2)" by fastforce
    obtain hr w3 where hr: "dir_has_entries c w2 = (hr, w3)" by fastforce
    have f2: "same_files w w2" using files.trans [OF f1 alongD [OF reading(1) lr]] .
    have f3: "same_files w w3" using files.trans [OF f2 alongD [OF dir_has_entries_reads hr]] .
    have nop: "?thesis" if "same_files w w'" using that by (auto simp: same_files_def lookup_def)
    have one: "?thesis" if "same_files w v" "fs_remove c v = (r', w')" for v r'
    proof -
      have "lookup w' p = lookup w p \<or> (lookup w' p = None \<and> below (cf_abs c) p \<and> (recursive \<or> p = cf_abs c))" for p
        using remove_lookup [OF that(2), of p] that(1) by (auto simp: same_files_def lookup_def below_def)
      then show ?thesis using inside remove_effect [OF that(2)] that(1) by (auto simp: same_files_def)
    qed
    have all: "?thesis" if "recursive" "fs_remove_all c w2 = (r', w')" for r'
    proof -
      have "lookup w' p = lookup w p \<or> (lookup w' p = None \<and> below (cf_abs c) p \<and> (recursive \<or> p = cf_abs c))" for p
        using remove_all_effect [OF that(2)] that(1) f2 by (auto simp: same_files_def lookup_def)
      then show ?thesis using inside remove_all_effect [OF that(2)] f2 by (auto simp: same_files_def)
    qed
    have "same_files w w' \<or> (\<exists>v r'. same_files w v \<and> fs_remove c v = (r', w'))
        \<or> (recursive \<and> (\<exists>r'. fs_remove_all c w2 = (r', w')))"
      using run tr Inr lr hr f2 f3
      by (auto simp: act_bind_def wrap_error_def split: sum.splits if_splits prod.splits)
    then show ?thesis using nop one all by blast
  qed
qed

lemma below_rebased: "below a q \<Longrightarrow> below b (rebase True a b q)"
  by (auto simp: rebase_def below_def has_prefix_iff)

lemma lookup_rebase_outside:
  assumes "\<not> below a p" and "\<not> below b p"
  shows "map_of (map (\<lambda>(q, j). (rebase d a b q, j)) xs) p = map_of xs p"
proof (induction xs)
  case (Cons x xs)
  obtain q j where x: "x = (q, j)" by fastforce
  have "rebase d a b q = p \<longleftrightarrow> q = p"
    using assms below_rebased [of a q b] by (auto simp: rebase_def below_def split: if_splits)
  moreover have "map_of (map (\<lambda>(q, j). (rebase d a b q, j)) (x # xs)) p
      = (if rebase d a b q = p then Some j else map_of (map (\<lambda>(q, j). (rebase d a b q, j)) xs) p)" by (simp add: x)
  ultimately show ?case using Cons.IH by (auto simp: x)
qed simp

lemma lookup_rebase_target:
  "b \<notin> fst ` set xs \<Longrightarrow> map_of (map (\<lambda>(q, j). (rebase d a b q, j)) xs) b = map_of xs a"
proof (induction xs)
  case (Cons x xs)
  obtain q j where x: "x = (q, j)" by fastforce
  have "rebase d a b q = b \<longleftrightarrow> q = a"
    using Cons.prems x by (auto simp: rebase_def below_def has_prefix_iff split: if_splits)
  moreover have "map_of (map (\<lambda>(q, j). (rebase d a b q, j)) (x # xs)) b
      = (if rebase d a b q = b then Some j else map_of (map (\<lambda>(q, j). (rebase d a b q, j)) xs) b)" by (simp add: x)
  ultimately show ?case using Cons.IH Cons.prems by (auto simp: x)
qed simp

lemma rename_moves:
  assumes "rename_at from to w = (Inr u, w')" and "cf_abs from \<noteq> cf_abs to"
  shows "lookup w' (cf_abs to) = lookup w (cf_abs from) \<and> fw_inodes w' = fw_inodes w
    \<and> (\<forall>p. \<not> below (cf_abs from) p \<longrightarrow> \<not> below (cf_abs to) p \<longrightarrow> lookup w' p = lookup w p)
    \<and> (\<exists>i n. lookup w (cf_abs from) = Some i \<and> fw_inodes w i = Some n)"
proof -
  let ?a = "cf_abs from" and ?b = "cf_abs to"
  obtain i n where e: "lookup w ?a = Some i" "fw_inodes w i = Some n" "fw_inodes w' = fw_inodes w"
    "fw_names w' = map (\<lambda>(q, j). (rebase (in_kind n = Directory) ?a ?b q, j)) (AList.delete ?b (fw_names w))"
    using rename_effect [OF assms(1)] assms(2) by auto
  have nb: "?b \<notin> fst ` set (AList.delete ?b (fw_names w))" by (auto simp: AList.delete_eq)
  have "lookup w' ?b = lookup w ?a"
    using lookup_rebase_target [OF nb] assms(2) by (simp add: lookup_def e(4) lookup_delete)
  moreover have "lookup w' p = lookup w p" if "\<not> below ?a p" "\<not> below ?b p" for p
    unfolding lookup_def e(4) lookup_rebase_outside [OF that] lookup_delete using that(2) by (auto simp: below_def)
  ultimately show ?thesis using e by blast
qed

text \<open>A rename that succeeds moves one entry strictly inside the configured roots to a name
  strictly inside them at which nothing was, changes no file's contents and no name outside the two;
  a rename that fails, one between two roots included, changes nothing.\<close>

theorem rename_confined:
  assumes "rename_entry vw s path new_path w = (r, w')" and "\<And>v. view_ok (vw v)" and "roots_ok (fsv_roots s)"
    and "honest w"
  shows "if is_ok r then
      (\<exists>a b i. entry_inside (fsv_roots s) a \<and> entry_inside (fsv_roots s) b
         \<and> lookup w a = Some i \<and> content_at w b = None \<and> lookup w' b = Some i \<and> fw_inodes w' = fw_inodes w
         \<and> (\<forall>p. \<not> below a p \<longrightarrow> \<not> below b p \<longrightarrow> lookup w' p = lookup w p))
    else same_files w w'"
proof -
  obtain sr w1 where sr: "entry_target vw s path w = (sr, w1)" by fastforce
  obtain tr w2 where tr: "entry_target vw s new_path w1 = (tr, w2)" by fastforce
  have f2: "same_files w w2"
    using files.trans [OF alongD [OF entry_target_reads sr] alongD [OF entry_target_reads tr]] .
  show ?thesis
  proof (cases "(\<exists>e. sr = Inl e) \<or> (\<exists>e. tr = Inl e)")
    case True
    then have "\<not> is_ok r \<and> (w' = w1 \<or> w' = w2)"
      using assms(1) sr tr by (auto simp: rename_entry_def act_bind_def split: sum.splits)
    then show ?thesis using f2 alongD [OF entry_target_reads sr] by auto
  next
    case False
    then obtain a b where ab: "sr = Inr a" "tr = Inr b" by (meson sum.exhaust)
    obtain lr w3 where lr: "fs_lstat b w2 = (lr, w3)" by fastforce
    have f3: "same_files w w3" using files.trans [OF f2 alongD [OF reading(1) lr]] .
    have run: "act_bind (act_try (fs_lstat b)) (\<lambda>r.
           case r of
             Inr _ \<Rightarrow> act_fail (Kind Conflict)
           | Inl e \<Rightarrow>
               if e \<noteq> Raw NotExist then act_fail (classify_path_error e)
               else classified (rename_at a b)) w2 = (r, w')"
      using assms(1) sr tr ab by (simp add: rename_entry_def act_bind_run(1) [where m = "entry_target vw s path"]
          act_bind_run(1) [where m = "entry_target vw s new_path"])
    show ?thesis
    proof (cases "lr = Inl (Raw NotExist)")
      case False
      then have "\<not> is_ok r \<and> w' = w3"
        using run lr by (auto simp: act_bind_run(1) [OF act_try_run] split: sum.splits)
      then show ?thesis using f3 by simp
    next
      case True
      then have rn: "classified (rename_at a b) w3 = (r, w')"
        using run lr by (simp add: act_bind_run(1) [OF act_try_run])
      obtain r0 where rn0: "rename_at a b w3 = (r0, w')" "is_ok r0 = is_ok r" using classified_ok [OF rn] by blast
      show ?thesis
      proof (cases r0)
        case (Inl e)
        then show ?thesis using rn0 files.trans [OF f3 rename_fail [OF rn0(1) [unfolded Inl]]] by auto
      next
        case (Inr u)
        have h2: "honest w2" using assms(4) f2 by (simp add: honest_def same_files_def)
        have "cf_err b = None \<or> cf_err b = Some (Kind PathNotAllowed)"
          using entry_target_err tr ab by blast
        from missing_honest [OF lr [unfolded True fs_lstat_def] h2 this] have "content_at w2 (cf_abs b) = None"
          by (auto simp: sys_lstat_def content_at_def split: option.splits)
        then have free: "content_at w (cf_abs b) = None" "content_at w3 (cf_abs b) = None"
          using content_files [OF f2] content_files [OF f3] by simp_all
        obtain i n where "lookup w3 (cf_abs a) = Some i" "fw_inodes w3 i = Some n"
          using rename_effect [OF rn0(1) [unfolded Inr]] by auto
        then have "cf_abs a \<noteq> cf_abs b" using free by (auto simp: content_at_def)
        note mv = rename_moves [OF rn0(1) [unfolded Inr] this]
        have "lookup w3 p = lookup w p" for p using f3 by (simp add: same_files_def lookup_def)
        then have "\<exists>i. lookup w (cf_abs a) = Some i \<and> content_at w (cf_abs b) = None \<and> lookup w' (cf_abs b) = Some i
            \<and> fw_inodes w' = fw_inodes w
            \<and> (\<forall>p. \<not> below (cf_abs a) p \<longrightarrow> \<not> below (cf_abs b) p \<longrightarrow> lookup w' p = lookup w p)"
          using mv free f3 by (auto simp: same_files_def)
        moreover have "entry_inside (fsv_roots s) (cf_abs a)" "entry_inside (fsv_roots s) (cf_abs b)"
          using entry_target_inside [OF sr [unfolded ab] assms(2,3)] entry_target_inside [OF tr [unfolded ab] assms(2,3)]
          by auto
        ultimately show ?thesis using rn0(2) Inr by auto
      qed
    qed
  qed
qed

section \<open>Witnesses\<close>

lemma demo_resolves: "resolve (demo_view demo_world) (fsv_roots demo_service) ''/srv/b'' ModeCreate = Inr ''/srv/b''"
  by code_simp

lemma demo_roots_ok: "roots_ok (fsv_roots demo_service)"
  by (simp add: demo_service_def srv_roots_ok)

lemma demo_honest: "honest demo_world"
  by (simp add: honest_def demo_world_def)


text \<open>Another writer touches "b" between the two checks.\<close>

definition touch_b :: "fworld \<Rightarrow> fworld" where
  "touch_b w = w\<lparr>fw_inodes := (fw_inodes w)(2 := map_option (\<lambda>n. n\<lparr>in_mtime := 7000000\<rparr>) (fw_inodes w 2))\<rparr>"

lemma touch_b_spares: "spares_staging touch_b"
  by (auto simp: spares_staging_def holds_staging_def touch_b_def data_of_def option.map_comp comp_def)

lemma follow_touched: "follow k (touch_b w) p = Inr (2, n) \<Longrightarrow> in_mtime n = 7000000"
  by (induction k arbitrary: p) (auto simp: touch_b_def split: option.splits if_splits)

lemma write_no_lost_update_witness:
  "\<not> is_ok (fst (write_file (quiet\<lparr>iv_late := touch_b\<rparr>) demo_view demo_service ''/srv/b''
     \<lparr> bd_bytes = ''new'', bd_error = None \<rparr> 3
     (Some \<lparr> em_millis = 5, em_nanos = Some 5000000, em_digest = [] \<rparr>) False demo_world))"
proof (rule write_no_lost_update [where vw = demo_view and t = "''/srv/b''", OF demo_world_ok demo_honest _ demo_resolves])
  show "spares (quiet\<lparr>iv_late := touch_b\<rparr>)"
    using quiet_spares touch_b_spares by (simp add: spares_def)
  fix w1
  have "case follow 40 demo_world ''/srv/b'' of Inr (i, _) \<Rightarrow> i = 2 | _ \<Rightarrow> False" by code_simp
  then obtain n0 where "follow 40 demo_world ''/srv/b'' = Inr (2, n0)" by (auto split: sum.splits)
  then show "\<not> target_as_found demo_world ''/srv/b'' (Some \<lparr> em_millis = 5, em_nanos = Some 5000000, em_digest = [] \<rparr>)
      False (iv_late (quiet\<lparr>iv_late := touch_b\<rparr>) w1)"
    using follow_touched [of 40 w1 "''/srv/b''"]
    by (auto simp: target_as_found_def mtime_matches_def split: sum.splits)
qed

lemma delete_confined_witness:
  "lookup (snd (delete_entry demo_view demo_service ''/srv/b'' False demo_world)) ''/srv/b'' = None
   \<and> lookup (snd (delete_entry demo_view demo_service ''/srv/b'' False demo_world)) ''/srv/a'' = Some 3
   \<and> fw_inodes (snd (delete_entry demo_view demo_service ''/srv/b'' False demo_world)) = fw_inodes demo_world"
proof -
  have "lookup (snd (delete_entry demo_view demo_service ''/srv/b'' False demo_world)) ''/srv/b'' = None"
    "lookup (snd (delete_entry demo_view demo_service ''/srv/b'' False demo_world)) ''/srv/a'' = Some 3"
    by code_simp+
  with delete_confined [where vw = demo_view and path = "''/srv/b''" and recursive = False and w = demo_world,
      OF surjective_pairing demo_view_ok demo_roots_ok]
  show ?thesis by blast
qed

lemma rename_confined_witness:
  "\<exists>a b i. entry_inside srv_roots a \<and> entry_inside srv_roots b \<and> lookup demo_world a = Some i
     \<and> lookup (snd (rename_entry demo_view demo_service ''/srv/b'' ''/srv/a/c'' demo_world)) b = Some i"
proof -
  have ok: "is_ok (fst (rename_entry demo_view demo_service ''/srv/b'' ''/srv/a/c'' demo_world))" by code_simp
  from rename_confined [where vw = demo_view and path = "''/srv/b''" and new_path = "''/srv/a/c''",
      OF surjective_pairing demo_view_ok demo_roots_ok demo_honest] ok
  show ?thesis by (auto simp: demo_service_def)
qed

section \<open>An error after the commit\<close>

text \<open>The metadata read that follows the rename may fail, and the write then reports an error
  although it has replaced the target: an error does not imply that the target is as it was.\<close>

theorem write_error_after_commit:
  "let (r, w') = write_file quiet demo_view demo_service ''/srv/b'' \<lparr> bd_bytes = ''new'', bd_error = None \<rparr> 3 None False
         (demo_world\<lparr>fw_fault := (\<lambda>n. if n = 12 then Some Permission else None)\<rparr>)
   in r = Inl (Kind PermissionDenied) \<and> content_at w' ''/srv/b'' = Some ''new''"
  by code_simp

end
