(* ===== verification/ConnectionPool.thy ===== *)
theory ConnectionPool
  imports HostIdentity "HOL-Library.Multiset"
begin

text \<open>
  \<open>hub/internal/host/connection.go\<close>: the connection manager.  Pools, transports and stop channels
  are numbered; \<open>connections\<close> holds the manager's map of pools, every pool ever made (a lease may
  point to one the manager has dropped), the dials in progress, the keepalive loops and the
  dedicated transports.  The rules of \<open>cn_step\<close> are the critical sections of the goroutines, so
  that its runs are their interleavings.  Times and durations are nanoseconds.
\<close>

section \<open>Configuration\<close>

record conn_config =
  cc_dial_timeout :: int
  cc_handshake_timeout :: int
  cc_operation_timeout :: int
  cc_keepalive_interval :: int
  cc_max_backoff :: int
  cc_max_connections :: int

definition second :: int where "second = 10 ^ 9"

definition default_connection_config :: conn_config where
  "default_connection_config =
     \<lparr> cc_dial_timeout = 10 * second, cc_handshake_timeout = 10 * second, cc_operation_timeout = 30 * second,
       cc_keepalive_interval = 15 * second, cc_max_backoff = 30 * second, cc_max_connections = 16 \<rparr>"

definition or_default :: "int \<Rightarrow> int \<Rightarrow> int" where
  "or_default d x = (if x \<le> 0 then d else x)"

definition complete_config :: "conn_config \<Rightarrow> conn_config" where
  "complete_config c =
     (let d = default_connection_config in
      \<lparr> cc_dial_timeout = or_default (cc_dial_timeout d) (cc_dial_timeout c),
        cc_handshake_timeout = or_default (cc_handshake_timeout d) (cc_handshake_timeout c),
        cc_operation_timeout = or_default (cc_operation_timeout d) (cc_operation_timeout c),
        cc_keepalive_interval = or_default (cc_keepalive_interval d) (cc_keepalive_interval c),
        cc_max_backoff = or_default (cc_max_backoff d) (cc_max_backoff c),
        cc_max_connections = or_default (cc_max_connections d) (cc_max_connections c) \<rparr>)"

definition max_backoff_exponent :: nat where "max_backoff_exponent = 6"
definition base_backoff_duration :: int where "base_backoff_duration = 250 * 10 ^ 6"

definition compute_backoff :: "nat \<Rightarrow> int \<Rightarrow> int" where
  "compute_backoff failures max_backoff =
     (let shift = min failures max_backoff_exponent; backoff = 2 ^ shift * base_backoff_duration in
      if backoff > max_backoff then max_backoff else backoff)"

section \<open>State\<close>

record conn_pool =
  pl_target :: target
  pl_failures :: nat
  pl_next_dial :: int
  pl_control :: "nat option"
  pl_stop :: "nat option"
  pl_dedicated :: "nat set"
  pl_revoked :: bool
  pl_flight :: bool
  pl_used :: nat

text \<open>A dial in progress: for the control connection of a captured pool, or for a dedicated
  transport; where it is, with the pool whose permit it holds.\<close>

datatype dial_pc =
    Starting
  | Dialing nat
  | Dialed nat nat
  | Homing nat nat nat

record dial =
  dl_target :: target
  dl_control :: "nat option"
  dl_pc :: dial_pc

record keep_loop =
  kl_client :: nat
  kl_pool :: nat
  kl_permit :: nat
  kl_stop :: nat

text \<open>An open dedicated transport; \<open>mc_armed\<close> says whether its \<open>onClose\<close> is set yet.\<close>

record managed =
  mc_client :: nat
  mc_target :: target
  mc_home :: nat
  mc_permit :: nat
  mc_armed :: bool

record connections =
  cn_cfg :: conn_config
  cn_pools :: "host_id \<rightharpoonup> nat"
  cn_closed :: bool
  cn_heap :: "nat \<Rightarrow> conn_pool"
  cn_next :: nat
  cn_ids :: nat
  cn_stopped :: "nat set"
  cn_dead :: "nat set"
  cn_dials :: "dial multiset"
  cn_loops :: "keep_loop multiset"
  cn_conns :: "managed multiset"
  cn_leaked :: "managed multiset"

definition new_pool :: "host_id \<Rightarrow> revision \<Rightarrow> conn_pool" where
  "new_pool i r =
     \<lparr> pl_target = \<lparr> t_host = i, t_revision = r, t_conn_revision = r, t_session = [] \<rparr>, pl_failures = 0,
       pl_next_dial = 0, pl_control = None, pl_stop = None, pl_dedicated = {}, pl_revoked = False,
       pl_flight = False, pl_used = 0 \<rparr>"

definition new_connection_manager :: "conn_config \<Rightarrow> connections" where
  "new_connection_manager cfg =
     \<lparr> cn_cfg = complete_config cfg, cn_pools = Map.empty, cn_closed = False, cn_heap = (\<lambda>_. new_pool [] 0),
       cn_next = 0, cn_ids = 0, cn_stopped = {}, cn_dead = {}, cn_dials = {#}, cn_loops = {#},
       cn_conns = {#}, cn_leaked = {#} \<rparr>"

definition on_pool :: "nat \<Rightarrow> (conn_pool \<Rightarrow> conn_pool) \<Rightarrow> connections \<Rightarrow> connections" where
  "on_pool p f s = s\<lparr>cn_heap := (cn_heap s)(p := f (cn_heap s p))\<rparr>"

definition conn_limit :: "connections \<Rightarrow> nat" where
  "conn_limit s = nat (cc_max_connections (cn_cfg s))"

definition record_failure :: "int \<Rightarrow> int \<Rightarrow> conn_pool \<Rightarrow> conn_pool" where
  "record_failure now max_backoff q =
     (let n = Suc (pl_failures q) in
      q\<lparr>pl_failures := n, pl_next_dial := now + compute_backoff n max_backoff\<rparr>)"

definition record_success :: "conn_pool \<Rightarrow> conn_pool" where
  "record_success q = q\<lparr>pl_failures := 0, pl_next_dial := 0\<rparr>"

definition release :: "conn_pool \<Rightarrow> conn_pool" where
  "release q = q\<lparr>pl_used := pl_used q - 1\<rparr>"

section \<open>Closing\<close>

text \<open>\<open>ManagedConn.Close\<close> on a set of open transports: each is closed once and, if its \<open>onClose\<close> is
  set, leaves its pool and gives its permit back.\<close>

definition close_managed :: "managed multiset \<Rightarrow> connections \<Rightarrow> connections" where
  "close_managed gone s =
     s\<lparr>cn_conns := cn_conns s - gone,
       cn_dead := cn_dead s \<union> mc_client ` set_mset gone,
       cn_leaked := cn_leaked s + filter_mset (\<lambda>m. \<not> mc_armed m) gone,
       cn_heap := (\<lambda>q. (cn_heap s q)
         \<lparr>pl_used := pl_used (cn_heap s q) - size (filter_mset (\<lambda>m. mc_armed m \<and> mc_permit m = q) gone),
          pl_dedicated := pl_dedicated (cn_heap s q) -
            mc_client ` set_mset (filter_mset (\<lambda>m. mc_armed m \<and> mc_home m = q) gone)\<rparr>)\<rparr>"

definition stop_channel :: "nat option \<Rightarrow> connections \<Rightarrow> connections" where
  "stop_channel c s = (case c of None \<Rightarrow> s | Some k \<Rightarrow> s\<lparr>cn_stopped := insert k (cn_stopped s)\<rparr>)"

definition kill_client :: "nat option \<Rightarrow> connections \<Rightarrow> connections" where
  "kill_client c s = (case c of None \<Rightarrow> s | Some k \<Rightarrow> s\<lparr>cn_dead := insert k (cn_dead s)\<rparr>)"

definition close_pool :: "nat \<Rightarrow> connections \<Rightarrow> connections" where
  "close_pool p s =
     (let q = cn_heap s p;
          s1 = stop_channel (pl_stop q) s;
          s2 = on_pool p (\<lambda>q. q\<lparr>pl_stop := None, pl_control := None, pl_dedicated := {}\<rparr>) s1;
          s3 = kill_client (pl_control q) s2
      in close_managed (filter_mset (\<lambda>m. mc_home m = p \<and> mc_client m \<in> pl_dedicated q) (cn_conns s3)) s3)"

definition revoke :: "nat \<Rightarrow> connections \<Rightarrow> connections" where
  "revoke p s = on_pool p (\<lambda>q. q\<lparr>pl_revoked := True\<rparr>) s"

definition invalidate :: "host_id \<Rightarrow> connections \<Rightarrow> connections" where
  "invalidate i s =
     (case cn_pools s i of
        None \<Rightarrow> s
      | Some p \<Rightarrow> close_pool p (revoke p (s\<lparr>cn_pools := (cn_pools s)(i := None)\<rparr>)))"

text \<open>\<open>Close\<close> walks the map in some order \<open>hosts\<close> of its keys.\<close>

definition close_manager :: "host_id list \<Rightarrow> connections \<Rightarrow> connections" where
  "close_manager hosts s = fold invalidate hosts (s\<lparr>cn_closed := True\<rparr>)"

section \<open>Pools and leases\<close>

definition make_pool :: "host_id \<Rightarrow> revision \<Rightarrow> connections \<Rightarrow> nat \<times> connections" where
  "make_pool i r s =
     (let p = cn_next s in
      (p, s\<lparr>cn_pools := (cn_pools s)(i \<mapsto> p), cn_heap := (cn_heap s)(p := new_pool i r), cn_next := Suc p\<rparr>))"

definition get_pool :: "host_id \<Rightarrow> revision \<Rightarrow> connections \<Rightarrow> nat \<times> connections" where
  "get_pool i r s =
     (case cn_pools s i of
        None \<Rightarrow> make_pool i r s
      | Some p \<Rightarrow>
          if t_conn_revision (pl_target (cn_heap s p)) = r then (p, s)
          else make_pool i r (close_pool p (revoke p s)))"

record lease =
  ls_target :: target
  ls_pool :: "nat option"

text \<open>What the registry answers for the host: its record's revisions, or an error.\<close>

datatype registry_answer =
    HostRecord revision revision
  | IsLocal
  | NoHost
  | RegistryError string

definition lease_error :: "host_id \<Rightarrow> host_code \<Rightarrow> host_error" where
  "lease_error i c = HostError (host_only i) c []"

definition lease_for :: "registry_answer option \<Rightarrow> host_id \<Rightarrow> connections \<Rightarrow> (host_error + lease) \<times> connections" where
  "lease_for answer i s =
     (let local_lease = \<lparr> ls_target = \<lparr> t_host = local_id, t_revision = local_revision,
            t_conn_revision = local_revision, t_session = [] \<rparr>, ls_pool = None \<rparr> in
      case answer of
        None \<Rightarrow> if i = local_id then (Inr local_lease, s) else (Inl (lease_error i HostNotFound), s)
      | Some IsLocal \<Rightarrow> (Inr \<lparr> ls_target = host_only i, ls_pool = None \<rparr>, s)
      | Some NoHost \<Rightarrow> if i = local_id then (Inr local_lease, s) else (Inl (lease_error i HostNotFound), s)
      | Some (RegistryError e) \<Rightarrow> (Inl (HostError (host_only i) HostUnavailable e), s)
      | Some (HostRecord r c) \<Rightarrow>
          (let conn = (if c = 0 then r else c) in
           case get_pool i conn s of (p, s') \<Rightarrow>
             (Inr \<lparr> ls_target = \<lparr> t_host = i, t_revision = r, t_conn_revision = conn, t_session = [] \<rparr>,
                    ls_pool = Some p \<rparr>, s')))"

definition check_valid :: "connections \<Rightarrow> lease \<Rightarrow> host_error option" where
  "check_valid s l =
     (case ls_pool l of
        None \<Rightarrow> None
      | Some p \<Rightarrow>
          if pl_revoked (cn_heap s p) then Some (HostError (ls_target l) StaleRevision ''superseded'') else None)"

definition conn_rev :: "target \<Rightarrow> revision" where
  "conn_rev t = (if t_conn_revision t = 0 then t_revision t else t_conn_revision t)"

section \<open>Dialing\<close>

datatype begin_result = BeginFailed host_error | BeginBlocked | BeginOk nat

text \<open>\<open>dialTransport\<close> up to the semaphore.\<close>

definition dial_begin :: "int \<Rightarrow> target \<Rightarrow> connections \<Rightarrow> begin_result \<times> connections" where
  "dial_begin now t s =
     (if cn_closed s then (BeginFailed (HostError t HostUnavailable ''closed''), s)
      else (case get_pool (t_host t) (conn_rev t) s of (p, s1) \<Rightarrow>
        if pl_revoked (cn_heap s1 p) then (BeginFailed (HostError t StaleRevision ''revoked''), s1)
        else if now < pl_next_dial (cn_heap s1 p) then (BeginFailed (HostError t HostUnavailable ''backoff''), s1)
        else if pl_used (cn_heap s1 p) \<ge> conn_limit s1 then (BeginBlocked, s1)
        else (BeginOk p, on_pool p (\<lambda>q. q\<lparr>pl_used := Suc (pl_used q)\<rparr>) s1)))"

text \<open>\<open>resolveSSHConfig\<close>, from what the registry answers when the permit is held.\<close>

definition resolve_ssh_config :: "target \<Rightarrow> registry_answer \<Rightarrow> bool \<Rightarrow> bool \<Rightarrow> host_error option" where
  "resolve_ssh_config t answer trusted auth_ok =
     (case answer of
        IsLocal \<Rightarrow> Some (HostError t HostUnsupported [])
      | NoHost \<Rightarrow> Some (HostError t HostNotFound [])
      | RegistryError e \<Rightarrow> Some (HostError t HostUnavailable e)
      | HostRecord r c \<Rightarrow>
          if conn_rev t \<noteq> 0 \<and> (if c = 0 then r else c) \<noteq> conn_rev t
            then Some (HostError t StaleRevision ''host revision mismatch'')
          else if \<not> trusted then Some (HostError t HostUnavailable ''trust required'')
          else if \<not> auth_ok then Some (HostError t HostUnavailable ''auth'')
          else None)"

datatype dial_outcome = ConfigRefused host_error | DialCancelled | DialFailed | DialOk

text \<open>The rest of \<open>dialTransport\<close> for a permit of pool \<open>p\<close>.\<close>

definition dial_end :: "int \<Rightarrow> nat \<Rightarrow> dial_outcome \<Rightarrow> connections \<Rightarrow> connections" where
  "dial_end now p out s =
     (case out of
        ConfigRefused e \<Rightarrow> on_pool p release s
      | DialCancelled \<Rightarrow> on_pool p release s
      | DialFailed \<Rightarrow> on_pool p (record_failure now (cc_max_backoff (cn_cfg s))) (on_pool p release s)
      | DialOk \<Rightarrow> on_pool p record_success s)"

text \<open>\<open>createControlConnection\<close> once dialed: the client becomes the captured pool's control
  connection and its keepalive loop holds the permit.\<close>

definition install_control :: "nat \<Rightarrow> nat \<Rightarrow> nat \<Rightarrow> connections \<Rightarrow> connections" where
  "install_control p permit client s =
     (let k = cn_ids s in
      (on_pool p (\<lambda>q. q\<lparr>pl_control := Some client, pl_stop := Some k, pl_flight := False\<rparr>) s)
        \<lparr>cn_ids := Suc k,
         cn_loops := add_mset \<lparr> kl_client = client, kl_pool = p, kl_permit = permit, kl_stop = k \<rparr> (cn_loops s)\<rparr>)"

definition clear_control :: "nat \<Rightarrow> nat \<Rightarrow> connections \<Rightarrow> connections" where
  "clear_control p client s =
     (if pl_control (cn_heap s p) = Some client then
        stop_channel (pl_stop (cn_heap s p)) (on_pool p (\<lambda>q. q\<lparr>pl_control := None, pl_stop := None\<rparr>) s)
      else s)"

definition invalidate_control :: "target \<Rightarrow> nat \<Rightarrow> connections \<Rightarrow> connections" where
  "invalidate_control t client s =
     (case cn_pools s (t_host t) of
        None \<Rightarrow> s
      | Some p \<Rightarrow>
          if t_conn_revision (pl_target (cn_heap s p)) \<noteq> conn_rev t then s
          else if pl_control (cn_heap s p) = Some client then kill_client (Some client) (clear_control p client s)
          else s)"

text \<open>A failed or unanswered keepalive: the loop ends, and gives its permit back.\<close>

definition keepalive_fail :: "keep_loop \<Rightarrow> connections \<Rightarrow> connections" where
  "keepalive_fail l s =
     (let s1 = (if pl_control (cn_heap s (kl_pool l)) = Some (kl_client l)
                then kill_client (Some (kl_client l)) (on_pool (kl_pool l) (\<lambda>q. q\<lparr>pl_control := None\<rparr>) s)
                else s)
      in (on_pool (kl_permit l) release s1)\<lparr>cn_loops := cn_loops s - {#l#}\<rparr>)"

definition keepalive_stop :: "keep_loop \<Rightarrow> connections \<Rightarrow> connections" where
  "keepalive_stop l s = (on_pool (kl_permit l) release s)\<lparr>cn_loops := cn_loops s - {#l#}\<rparr>"

text \<open>\<open>dialDedicated\<close> once dialed and its pool fetched: the transport is recorded, then \<open>onClose\<close>
  is set.\<close>

definition register_dedicated :: "nat \<Rightarrow> nat \<Rightarrow> nat \<Rightarrow> target \<Rightarrow> connections \<Rightarrow> connections" where
  "register_dedicated home permit client t s =
     (on_pool home (\<lambda>q. q\<lparr>pl_dedicated := insert client (pl_dedicated q)\<rparr>) s)
       \<lparr>cn_conns := add_mset \<lparr> mc_client = client, mc_target = t, mc_home = home, mc_permit = permit,
          mc_armed = False \<rparr> (cn_conns s)\<rparr>"

definition arm :: "managed \<Rightarrow> connections \<Rightarrow> connections" where
  "arm m s = s\<lparr>cn_conns := add_mset (m\<lparr>mc_armed := True\<rparr>) (cn_conns s - {#m#})\<rparr>"

definition move_dial :: "dial \<Rightarrow> dial option \<Rightarrow> connections \<Rightarrow> connections" where
  "move_dial d d' s =
     s\<lparr>cn_dials := cn_dials s - {#d#} + (case d' of None \<Rightarrow> {#} | Some x \<Rightarrow> {#x#})\<rparr>"

text \<open>A dial that ends without a client lets its flight go.\<close>

definition end_flight :: "dial \<Rightarrow> connections \<Rightarrow> connections" where
  "end_flight d s =
     (case dl_control d of None \<Rightarrow> s | Some p \<Rightarrow> on_pool p (\<lambda>q. q\<lparr>pl_flight := False\<rparr>) s)"

definition fresh_client :: "connections \<Rightarrow> nat \<times> connections" where
  "fresh_client s = (cn_ids s, s\<lparr>cn_ids := Suc (cn_ids s)\<rparr>)"

section \<open>Runs\<close>

inductive cn_step :: "connections \<Rightarrow> connections \<Rightarrow> bool" where
  leased: "lease_for answer i s = (r, s') \<Longrightarrow> cn_step s s'"
| control_wanted:
    "get_pool (t_host t) (conn_rev t) s = (p, s1) \<Longrightarrow> \<not> pl_revoked (cn_heap s1 p) \<Longrightarrow>
     pl_control (cn_heap s1 p) = None \<Longrightarrow> \<not> pl_flight (cn_heap s1 p) \<Longrightarrow>
     cn_step s ((on_pool p (\<lambda>q. q\<lparr>pl_flight := True\<rparr>) s1)
       \<lparr>cn_dials := add_mset \<lparr> dl_target = t, dl_control = Some p, dl_pc = Starting \<rparr> (cn_dials s1)\<rparr>)"
| control_there:
    "get_pool (t_host t) (conn_rev t) s = (p, s1) \<Longrightarrow> cn_step s s1"
| dedicated_wanted:
    "cn_step s (s\<lparr>cn_dials := add_mset \<lparr> dl_target = t, dl_control = None, dl_pc = Starting \<rparr> (cn_dials s)\<rparr>)"
| dial_refused:
    "d \<in># cn_dials s \<Longrightarrow> dl_pc d = Starting \<Longrightarrow> dial_begin now (dl_target d) s = (BeginFailed e, s1) \<Longrightarrow>
     cn_step s (end_flight d (move_dial d None s1))"
| dial_begun:
    "d \<in># cn_dials s \<Longrightarrow> dl_pc d = Starting \<Longrightarrow> dial_begin now (dl_target d) s = (BeginOk p, s1) \<Longrightarrow>
     cn_step s (move_dial d (Some (d\<lparr>dl_pc := Dialing p\<rparr>)) s1)"
| dial_failed:
    "d \<in># cn_dials s \<Longrightarrow> dl_pc d = Dialing p \<Longrightarrow> out \<noteq> DialOk \<Longrightarrow>
     cn_step s (end_flight d (move_dial d None (dial_end now p out s)))"
| dial_done:
    "d \<in># cn_dials s \<Longrightarrow> dl_pc d = Dialing p \<Longrightarrow> fresh_client s = (c, s1) \<Longrightarrow>
     cn_step s (move_dial d (Some (d\<lparr>dl_pc := Dialed p c\<rparr>)) (dial_end now p DialOk s1))"
| control_up:
    "d \<in># cn_dials s \<Longrightarrow> dl_pc d = Dialed permit c \<Longrightarrow> dl_control d = Some p \<Longrightarrow>
     cn_step s (install_control p permit c (move_dial d None s))"
| dedicated_homed:
    "d \<in># cn_dials s \<Longrightarrow> dl_pc d = Dialed permit c \<Longrightarrow> dl_control d = None \<Longrightarrow>
     get_pool (t_host (dl_target d)) (conn_rev (dl_target d)) s = (home, s1) \<Longrightarrow>
     cn_step s (move_dial d (Some (d\<lparr>dl_pc := Homing home permit c\<rparr>)) s1)"
| dedicated_up:
    "d \<in># cn_dials s \<Longrightarrow> dl_pc d = Homing home permit c \<Longrightarrow>
     cn_step s (register_dedicated home permit c (dl_target d) (move_dial d None s))"
| armed: "m \<in># cn_conns s \<Longrightarrow> \<not> mc_armed m \<Longrightarrow> cn_step s (arm m s)"
| closed: "m \<in># cn_conns s \<Longrightarrow> cn_step s (close_managed {#m#} s)"
| client_lost: "cn_step s (clear_control p c (kill_client (Some c) s))"
| control_dropped: "cn_step s (invalidate_control t c s)"
| loop_failed: "l \<in># cn_loops s \<Longrightarrow> cn_step s (keepalive_fail l s)"
| loop_stopped: "l \<in># cn_loops s \<Longrightarrow> kl_stop l \<in> cn_stopped s \<Longrightarrow> cn_step s (keepalive_stop l s)"
| host_invalidated: "cn_step s (invalidate i s)"
| manager_closed: "set hosts = dom (cn_pools s) \<Longrightarrow> cn_step s (close_manager hosts s)"

section \<open>Pools and revocation\<close>

text \<open>The manager's map holds exactly the pools that are not revoked, each under its own host.\<close>

definition pools_ok :: "connections \<Rightarrow> bool" where
  "pools_ok s \<longleftrightarrow> (\<forall>i p. cn_pools s i = Some p \<longleftrightarrow>
     p < cn_next s \<and> \<not> pl_revoked (cn_heap s p) \<and> t_host (pl_target (cn_heap s p)) = i)"

text \<open>What no step undoes: pools keep their target, and a revoked one stays revoked.\<close>

definition pools_after :: "connections \<Rightarrow> connections \<Rightarrow> bool" where
  "pools_after s s' \<longleftrightarrow> cn_next s \<le> cn_next s' \<and> cn_cfg s' = cn_cfg s
     \<and> (\<forall>p < cn_next s. pl_target (cn_heap s' p) = pl_target (cn_heap s p)
          \<and> (pl_revoked (cn_heap s p) \<longrightarrow> pl_revoked (cn_heap s' p)))"

definition pools_step :: "connections \<Rightarrow> connections \<Rightarrow> bool" where
  "pools_step s s' \<longleftrightarrow> pools_after s s' \<and> (pools_ok s \<longrightarrow> pools_ok s')"

lemma pools_step_refl: "pools_step s s"
  by (simp add: pools_step_def pools_after_def)

lemma pools_step_trans: "pools_step s s1 \<Longrightarrow> pools_step s1 s2 \<Longrightarrow> pools_step s s2"
  by (auto simp: pools_step_def pools_after_def)

lemma pools_step_frame:
  assumes "cn_pools s' = cn_pools s" and "cn_next s' = cn_next s" and "cn_cfg s' = cn_cfg s"
    and "\<And>p. pl_target (cn_heap s' p) = pl_target (cn_heap s p)"
    and "\<And>p. pl_revoked (cn_heap s' p) = pl_revoked (cn_heap s p)"
  shows "pools_step s s'"
  using assms by (simp add: pools_step_def pools_after_def pools_ok_def)

lemma on_pool_simps [simp]:
  "cn_pools (on_pool p f s) = cn_pools s" "cn_closed (on_pool p f s) = cn_closed s"
  "cn_next (on_pool p f s) = cn_next s" "cn_cfg (on_pool p f s) = cn_cfg s"
  "cn_dials (on_pool p f s) = cn_dials s" "cn_loops (on_pool p f s) = cn_loops s"
  "cn_conns (on_pool p f s) = cn_conns s" "cn_leaked (on_pool p f s) = cn_leaked s"
  "cn_heap (on_pool p f s) q = (if q = p then f (cn_heap s p) else cn_heap s q)"
  "conn_limit (on_pool p f s) = conn_limit s"
  by (auto simp: on_pool_def conn_limit_def fun_eq_iff)

lemma channel_simps [simp]:
  "cn_heap (stop_channel c s) = cn_heap s" "cn_heap (kill_client c s) = cn_heap s"
  "cn_next (stop_channel c s) = cn_next s" "cn_next (kill_client c s) = cn_next s"
  "cn_cfg (stop_channel c s) = cn_cfg s" "cn_cfg (kill_client c s) = cn_cfg s"
  "cn_conns (stop_channel c s) = cn_conns s" "cn_conns (kill_client c s) = cn_conns s"
  "cn_pools (stop_channel c s) = cn_pools s" "cn_pools (kill_client c s) = cn_pools s"
  "cn_dials (stop_channel c s) = cn_dials s" "cn_dials (kill_client c s) = cn_dials s"
  "cn_loops (stop_channel c s) = cn_loops s" "cn_loops (kill_client c s) = cn_loops s"
  "cn_leaked (stop_channel c s) = cn_leaked s" "cn_leaked (kill_client c s) = cn_leaked s"
  by (auto simp: stop_channel_def kill_client_def split: option.split)

lemma move_simps [simp]:
  "cn_heap (move_dial d d' s) = cn_heap s" "cn_next (move_dial d d' s) = cn_next s" "cn_cfg (move_dial d d' s) = cn_cfg s"
  "cn_pools (move_dial d d' s) = cn_pools s"
  by (simp_all add: move_dial_def)

lemma close_pool_frame:
  "cn_pools (close_pool p s) = cn_pools s" "cn_next (close_pool p s) = cn_next s" "cn_cfg (close_pool p s) = cn_cfg s"
  "pl_target (cn_heap (close_pool p s) q) = pl_target (cn_heap s q)"
  "pl_revoked (cn_heap (close_pool p s) q) = pl_revoked (cn_heap s q)"
  "cn_dials (close_pool p s) = cn_dials s"
  by (simp_all add: close_pool_def close_managed_def Let_def)

lemma make_pool_step:
  assumes "make_pool i r s = (p, s')" and "\<And>j q. j \<noteq> i \<Longrightarrow> cn_pools s j = Some q \<longleftrightarrow>
      q < cn_next s \<and> \<not> pl_revoked (cn_heap s q) \<and> t_host (pl_target (cn_heap s q)) = j"
    and "\<And>q. q < cn_next s \<Longrightarrow> \<not> pl_revoked (cn_heap s q) \<Longrightarrow> t_host (pl_target (cn_heap s q)) \<noteq> i"
  shows "pools_ok s'"
  unfolding pools_ok_def
proof (intro allI)
  fix j q
  have s': "p = cn_next s" "s' = s\<lparr>cn_pools := (cn_pools s)(i \<mapsto> p), cn_heap := (cn_heap s)(p := new_pool i r), cn_next := Suc p\<rparr>"
    using assms(1) by (auto simp: make_pool_def Let_def)
  show "cn_pools s' j = Some q \<longleftrightarrow> q < cn_next s' \<and> \<not> pl_revoked (cn_heap s' q) \<and> t_host (pl_target (cn_heap s' q)) = j"
  proof (cases "q = p")
    case True
    then show ?thesis using assms(2) [of j q] by (auto simp: s' new_pool_def)
  next
    case False
    then show ?thesis using assms(2) [of j q] assms(3) [of q] by (auto simp: s')
  qed
qed

lemma make_pool_after: "make_pool i r s = (p, s') \<Longrightarrow> pools_after s s'"
  by (auto simp: make_pool_def Let_def pools_after_def)

lemma closed_pool:
  "pl_revoked (cn_heap (close_pool p (revoke p s)) q) = (q = p \<or> pl_revoked (cn_heap s q))"
  "pl_target (cn_heap (close_pool p (revoke p s)) q) = pl_target (cn_heap s q)"
  "cn_pools (close_pool p (revoke p s)) = cn_pools s" "cn_next (close_pool p (revoke p s)) = cn_next s"
  "cn_cfg (close_pool p (revoke p s)) = cn_cfg s"
  by (simp_all add: close_pool_frame revoke_def)

lemma get_pool_step:
  assumes "get_pool i r s = (p, s')"
  shows "pools_step s s'"
proof (cases "cn_pools s i")
  case None
  then have m: "make_pool i r s = (p, s')" using assms by (simp add: get_pool_def)
  have "pools_ok s'" if ok: "pools_ok s"
  proof (rule make_pool_step [OF m])
    show "t_host (pl_target (cn_heap s q)) \<noteq> i" if "q < cn_next s" "\<not> pl_revoked (cn_heap s q)" for q
      using ok None that by (metis option.distinct(1) pools_ok_def)
  qed (use ok in \<open>simp add: pools_ok_def\<close>)
  then show ?thesis using make_pool_after [OF m] by (simp add: pools_step_def)
next
  case (Some old)
  show ?thesis
  proof (cases "t_conn_revision (pl_target (cn_heap s old)) = r")
    case True
    then show ?thesis using assms Some by (simp add: get_pool_def pools_step_refl)
  next
    case False
    let ?s1 = "close_pool old (revoke old s)"
    have m: "make_pool i r ?s1 = (p, s')" using assms Some False by (simp add: get_pool_def)
    have "pools_ok s'" if ok: "pools_ok s"
    proof (rule make_pool_step [OF m])
      have old: "t_host (pl_target (cn_heap s old)) = i" using ok Some by (simp add: pools_ok_def)
      show "t_host (pl_target (cn_heap ?s1 q)) \<noteq> i" if "q < cn_next ?s1" "\<not> pl_revoked (cn_heap ?s1 q)" for q
        using ok Some that unfolding closed_pool pools_ok_def by (metis option.inject)
      show "cn_pools ?s1 j = Some q \<longleftrightarrow> q < cn_next ?s1 \<and> \<not> pl_revoked (cn_heap ?s1 q)
          \<and> t_host (pl_target (cn_heap ?s1 q)) = j" if "j \<noteq> i" for j q
        using ok old that unfolding closed_pool pools_ok_def by metis
    qed
    moreover have "pools_after s s'"
      using make_pool_after [OF m] closed_pool by (simp add: pools_after_def)
    ultimately show ?thesis by (simp add: pools_step_def)
  qed
qed

lemma get_pool_result:
  assumes "get_pool i r s = (p, s')" and "pools_ok s"
  shows "cn_pools s' i = Some p \<and> t_conn_revision (pl_target (cn_heap s' p)) = r"
  using assms(1) by (auto simp: get_pool_def make_pool_def new_pool_def Let_def split: option.splits if_splits)

lemma invalidate_step: "pools_step s (invalidate i s)"
proof (cases "cn_pools s i")
  case (Some p)
  let ?s0 = "s\<lparr>cn_pools := (cn_pools s)(i := None)\<rparr>"
  have e: "invalidate i s = close_pool p (revoke p ?s0)" using Some by (simp add: invalidate_def)
  have "pools_ok (invalidate i s)" if ok: "pools_ok s"
  proof -
    have p: "t_host (pl_target (cn_heap s p)) = i" using ok Some by (simp add: pools_ok_def)
    show ?thesis
      unfolding pools_ok_def e closed_pool
      using ok Some p unfolding pools_ok_def by (auto split: if_splits) (metis option.inject)
  qed
  then show ?thesis by (simp add: pools_step_def pools_after_def e closed_pool)
qed (simp add: invalidate_def pools_step_refl)

lemma close_manager_step: "pools_step s (close_manager hosts s)"
proof -
  have "pools_step s (fold invalidate hosts s')" if "pools_step s s'" for s'
    using that
  proof (induction hosts arbitrary: s')
    case (Cons i hosts)
    then show ?case using pools_step_trans [OF Cons.prems invalidate_step] by simp
  qed simp
  moreover have "pools_step s (s\<lparr>cn_closed := True\<rparr>)" by (rule pools_step_frame) simp_all
  ultimately show ?thesis unfolding close_manager_def by blast
qed

lemma dial_begin_step: "dial_begin now t s = (r, s') \<Longrightarrow> pools_step s s'"
proof (unfold dial_begin_def, goal_cases)
  case 1
  obtain p s1 where g: "get_pool (t_host t) (conn_rev t) s = (p, s1)" by fastforce
  have "pools_step s1 (on_pool p (\<lambda>q. q\<lparr>pl_used := Suc (pl_used q)\<rparr>) s1)" by (rule pools_step_frame) simp_all
  with get_pool_step [OF g] 1 g show ?case
    by (auto split: if_splits intro: pools_step_trans pools_step_refl)
qed

lemma end_flight_step: "pools_step s (end_flight d s)"
  by (rule pools_step_frame) (auto simp: end_flight_def split: option.split)

lemma cn_step_pools: "cn_step s s' \<Longrightarrow> pools_step s s'"
proof (induction rule: cn_step.induct)
  case (leased answer i s r s')
  then show ?case
    by (auto simp: lease_for_def Let_def split: option.splits registry_answer.splits prod.splits if_splits
        intro: get_pool_step pools_step_refl)
next
  case (control_wanted t s p s1)
  show ?case by (rule pools_step_trans [OF get_pool_step [OF control_wanted(1)]], rule pools_step_frame) simp_all
next
  case (control_there t s p s1)
  then show ?case by (rule get_pool_step)
next
  case (dial_refused d s now e s1)
  show ?case
    by (rule pools_step_trans [OF dial_begin_step [OF dial_refused(3)]], rule pools_step_trans [OF _ end_flight_step],
        rule pools_step_frame) simp_all
next
  case (dial_begun d s now p s1)
  show ?case by (rule pools_step_trans [OF dial_begin_step [OF dial_begun(3)]], rule pools_step_frame) simp_all
next
  case (dial_failed d s p out now)
  show ?case
    by (rule pools_step_trans [OF _ end_flight_step], rule pools_step_frame)
      (auto simp: dial_end_def release_def record_failure_def record_success_def Let_def split: dial_outcome.split)
next
  case (dedicated_homed d s permit c home s1)
  show ?case by (rule pools_step_trans [OF get_pool_step [OF dedicated_homed(4)]], rule pools_step_frame) simp_all
next
  case (host_invalidated s i)
  show ?case by (rule invalidate_step)
next
  case (manager_closed hosts s)
  show ?case by (rule close_manager_step)
next
  case (dial_done d s p c s1 now)
  then show ?case by (intro pools_step_frame) (auto simp: fresh_client_def dial_end_def record_success_def)
next
  case (control_up d s permit c p)
  show ?case by (rule pools_step_frame) (simp_all add: install_control_def Let_def)
next
  case (dedicated_up d s home permit c)
  show ?case by (rule pools_step_frame) (simp_all add: register_dedicated_def)
next
  case (client_lost s p c)
  show ?case by (rule pools_step_frame) (simp_all add: clear_control_def)
next
  case (control_dropped s t c)
  show ?case by (rule pools_step_frame) (auto simp: invalidate_control_def clear_control_def split: option.split)
next
  case (loop_failed l s)
  show ?case by (rule pools_step_frame) (simp_all add: keepalive_fail_def release_def Let_def)
next
  case (loop_stopped l s)
  show ?case by (rule pools_step_frame) (simp_all add: keepalive_stop_def release_def)
next
  case (armed m s)
  show ?case by (rule pools_step_frame) (simp_all add: arm_def)
next
  case (closed m s)
  show ?case by (rule pools_step_frame) (simp_all add: close_managed_def)
next
  case (dedicated_wanted s t)
  show ?case by (rule pools_step_frame) simp_all
qed

lemma cn_run_pools: "cn_step\<^sup>*\<^sup>* s s' \<Longrightarrow> pools_step s s'"
  by (induction rule: rtranclp_induct) (auto intro: pools_step_refl pools_step_trans cn_step_pools)

section \<open>Permits\<close>

definition dial_holds :: "dial \<Rightarrow> nat option" where
  "dial_holds d = (case dl_pc d of Starting \<Rightarrow> None | Dialing p \<Rightarrow> Some p | Dialed p _ \<Rightarrow> Some p | Homing _ p _ \<Rightarrow> Some p)"

text \<open>Who holds a permit of pool \<open>p\<close>: dials past the semaphore, keepalive loops, open dedicated
  transports, and those closed before their \<open>onClose\<close> was set.\<close>

definition held :: "connections \<Rightarrow> nat \<Rightarrow> nat" where
  "held s p = size (filter_mset (\<lambda>d. dial_holds d = Some p) (cn_dials s))
     + size (filter_mset (\<lambda>l. kl_permit l = p) (cn_loops s))
     + size (filter_mset (\<lambda>m. mc_permit m = p) (cn_conns s))
     + size (filter_mset (\<lambda>m. mc_permit m = p) (cn_leaked s))"

definition permits_ok :: "connections \<Rightarrow> bool" where
  "permits_ok s \<longleftrightarrow> (\<forall>p. pl_used (cn_heap s p) = held s p) \<and> (\<forall>p. held s p \<le> conn_limit s)
     \<and> (\<forall>p \<ge> cn_next s. held s p = 0)"

lemma permits_frame:
  assumes "permits_ok s" and "\<And>p. pl_used (cn_heap s' p) = pl_used (cn_heap s p)"
    and "\<And>p. held s' p = held s p" and "cn_next s' = cn_next s" and "cn_cfg s' = cn_cfg s"
  shows "permits_ok s'"
  using assms by (simp add: permits_ok_def conn_limit_def)

lemma permits_drop:
  assumes "permits_ok s" and "\<And>q. held s q = held s' q + n q"
    and "\<And>q. pl_used (cn_heap s' q) = pl_used (cn_heap s q) - n q" and "cn_next s' = cn_next s" and "cn_cfg s' = cn_cfg s"
  shows "permits_ok s'"
proof -
  have "held s' q = held s q - n q" for q using assms(2) [of q] by simp
  then show ?thesis using assms(1,3-5)
    by (auto simp: permits_ok_def conn_limit_def intro: le_trans [OF diff_le_self])
qed

lemma held_simps [simp]:
  "held (on_pool p f s) = held s" "held (stop_channel c s) = held s" "held (kill_client c s) = held s"
  by (auto simp: held_def fun_eq_iff)

lemma permits_close_managed:
  assumes "permits_ok s" and "gone \<subseteq># cn_conns s"
  shows "permits_ok (close_managed gone s)"
proof -
  obtain rest where rest: "cn_conns s = gone + rest" using assms(2) by (metis subset_mset.add_diff_inverse)
  have split: "size (filter_mset (\<lambda>m. mc_permit m = p) gone)
      = size (filter_mset (\<lambda>m. mc_armed m \<and> mc_permit m = p) gone)
        + size (filter_mset (\<lambda>m. mc_permit m = p) (filter_mset (\<lambda>m. \<not> mc_armed m) gone))" for p
    by (induction gone) auto
  have "held s p = held (close_managed gone s) p + size (filter_mset (\<lambda>m. mc_armed m \<and> mc_permit m = p) gone)" for p
    by (simp add: held_def close_managed_def rest split)
  then show ?thesis
    by (rule permits_drop [OF assms(1)]) (simp_all add: close_managed_def)
qed

lemma permits_close_pool: "permits_ok s \<Longrightarrow> permits_ok (close_pool p s)"
  unfolding close_pool_def Let_def
  by (rule permits_close_managed) (auto elim!: permits_frame)

lemma permits_revoke: "permits_ok s \<Longrightarrow> permits_ok (revoke p s)"
  by (erule permits_frame) (simp_all add: revoke_def)

lemma permits_make_pool:
  assumes "permits_ok s" and "make_pool i r s = (p, s')"
  shows "permits_ok s'"
proof -
  have "p = cn_next s" "s' = s\<lparr>cn_pools := (cn_pools s)(i \<mapsto> p), cn_heap := (cn_heap s)(p := new_pool i r), cn_next := Suc p\<rparr>"
    using assms(2) by (auto simp: make_pool_def Let_def)
  moreover have "held s p = 0" using assms(1) calculation(1) by (simp add: permits_ok_def)
  moreover have "held s' = held s" using calculation by (simp add: held_def fun_eq_iff)
  ultimately show ?thesis using assms(1) by (auto simp: permits_ok_def new_pool_def conn_limit_def)
qed

lemma permits_get_pool: "permits_ok s \<Longrightarrow> get_pool i r s = (p, s') \<Longrightarrow> permits_ok s'"
  by (auto simp: get_pool_def split: option.splits if_splits
      intro: permits_make_pool permits_close_pool permits_revoke)

lemma permits_invalidate: "permits_ok s \<Longrightarrow> permits_ok (invalidate i s)"
  unfolding invalidate_def
  by (auto split: option.split intro!: permits_close_pool permits_revoke)
    (erule permits_frame; simp add: held_def)

lemma permits_close_manager: "permits_ok s \<Longrightarrow> permits_ok (close_manager hosts s)"
proof -
  assume "permits_ok s"
  then have "permits_ok (s\<lparr>cn_closed := True\<rparr>)" by (rule permits_frame) (simp_all add: held_def)
  then show ?thesis unfolding close_manager_def
    by (induction hosts arbitrary: s rule: rev_induct) (auto intro: permits_invalidate)
qed

lemma held_move:
  "d \<in># cn_dials s \<Longrightarrow> held (move_dial d d' s) p + (if dial_holds d = Some p then 1 else 0)
     = held s p + (case d' of None \<Rightarrow> 0 | Some x \<Rightarrow> if dial_holds x = Some p then 1 else 0)"
  by (auto simp: held_def move_dial_def dest!: multi_member_split split: option.split)

lemma permits_end_flight: "permits_ok s \<Longrightarrow> permits_ok (end_flight d s)"
  by (erule permits_frame) (auto simp: end_flight_def split: option.split)

lemma get_pool_dials: "get_pool i r s = (p, s') \<Longrightarrow> cn_dials s' = cn_dials s"
  by (auto simp: get_pool_def make_pool_def close_pool_def close_managed_def revoke_def Let_def
      split: option.splits if_splits)

lemma dial_begin_dials: "dial_begin now t s = (r, s') \<Longrightarrow> cn_dials s' = cn_dials s"
  by (auto simp: dial_begin_def dest: get_pool_dials split: prod.splits if_splits)

lemma permits_dial_end:
  assumes "permits_ok s" and "d \<in># cn_dials s" and "dl_pc d = Dialing p" and "out \<noteq> DialOk"
  shows "permits_ok (move_dial d None (dial_end now p out s))"
proof -
  let ?s' = "move_dial d None (dial_end now p out s)"
  have dd: "cn_dials (dial_end now p out s) = cn_dials s" "held (dial_end now p out s) = held s"
    by (cases out; simp add: dial_end_def)+
  have "held s q = held ?s' q + (if q = p then 1 else 0)" for q
    using held_move [of d "dial_end now p out s" None q] assms(2,3) dd by (auto simp: dial_holds_def)
  then show ?thesis
    by (rule permits_drop [OF assms(1)])
      (use assms(4) in \<open>cases out; simp add: dial_end_def release_def record_failure_def Let_def\<close>)+
qed

lemma permits_loop_end:
  assumes "permits_ok s" and "l \<in># cn_loops s" and "\<And>q. pl_used (cn_heap s1 q) = pl_used (cn_heap s q)"
    and "held s1 = held s" and "cn_next s1 = cn_next s" and "cn_cfg s1 = cn_cfg s" and "cn_loops s1 = cn_loops s"
  shows "permits_ok ((on_pool (kl_permit l) release s1)\<lparr>cn_loops := cn_loops s - {#l#}\<rparr>)" (is "permits_ok ?s'")
proof -
  have "held s1 q = held ?s' q + (if q = kl_permit l then 1 else 0)" for q
    using assms(2,7) by (auto simp: held_def dest!: multi_member_split)
  then have "held s q = held ?s' q + (if q = kl_permit l then 1 else 0)" for q using assms(4) by metis
  then show ?thesis
    by (rule permits_drop [OF assms(1)]) (simp_all add: assms release_def)
qed

lemma cn_step_permits: "cn_step s s' \<Longrightarrow> permits_ok s \<Longrightarrow> pools_ok s \<Longrightarrow> permits_ok s'"
proof (induction rule: cn_step.induct)
  case (leased answer i s r s')
  then show ?case
    by (auto simp: lease_for_def Let_def split: option.splits registry_answer.splits prod.splits if_splits
        intro: permits_get_pool)
next
  case (control_wanted t s p s1)
  from permits_get_pool [OF control_wanted(5,1)] show ?case
    by (rule permits_frame) (simp_all add: held_def dial_holds_def)
next
  case (control_there t s p s1)
  then show ?case by (blast intro: permits_get_pool)
next
  case (dedicated_wanted s t)
  show ?case by (rule permits_frame [OF dedicated_wanted(1)]) (simp_all add: held_def dial_holds_def)
next
  case (dial_refused d s now e s1)
  have "permits_ok s1" using dial_refused(3,4)
    by (auto simp: dial_begin_def split: prod.splits if_splits intro: permits_get_pool)
  moreover have "held (move_dial d None s1) q = held s1 q" for q
    using held_move [of d s1 None q] dial_refused(1,2) dial_begin_dials [OF dial_refused(3)] by (simp add: dial_holds_def)
  ultimately show ?case by (intro permits_end_flight) (erule permits_frame; simp)
next
  case (dial_begun d s now p s1)
  obtain s0 where g: "get_pool (t_host (dl_target d)) (conn_rev (dl_target d)) s = (p, s0)"
    and lim: "pl_used (cn_heap s0 p) < conn_limit s0"
    and s1: "s1 = on_pool p (\<lambda>q. q\<lparr>pl_used := Suc (pl_used q)\<rparr>) s0"
    using dial_begun(3) by (auto simp: dial_begin_def split: prod.splits if_splits)
  have ok: "permits_ok s0" by (rule permits_get_pool [OF dial_begun(4) g])
  let ?s' = "move_dial d (Some (d\<lparr>dl_pc := Dialing p\<rparr>)) s1"
  have h: "held ?s' q = held s0 q + (if q = p then 1 else 0)" for q
    using held_move [of d s1 "Some (d\<lparr>dl_pc := Dialing p\<rparr>)" q] dial_begun(1,2) dial_begin_dials [OF dial_begun(3)]
    by (auto simp: dial_holds_def s1)
  have "cn_pools s0 (t_host (dl_target d)) = Some p" "pools_ok s0"
    using get_pool_result [OF g dial_begun(5)] get_pool_step [OF g] dial_begun(5) by (auto simp: pools_step_def)
  then have "p < cn_next s0" by (simp add: pools_ok_def)
  moreover have "pl_used (cn_heap ?s' q) = pl_used (cn_heap s0 q) + (if q = p then 1 else 0)" for q by (simp add: s1)
  moreover have "pl_used (cn_heap s0 q) = held s0 q" "held s0 q \<le> conn_limit s0" "cn_next s0 \<le> q \<Longrightarrow> held s0 q = 0" for q
    using ok by (auto simp: permits_ok_def)
  moreover have "cn_next ?s' = cn_next s0" "conn_limit ?s' = conn_limit s0" by (simp_all add: s1 conn_limit_def)
  moreover have "held s0 p < conn_limit s0" using lim ok by (simp add: permits_ok_def)
  ultimately show ?case using h by (auto simp: permits_ok_def)
next
  case (dial_failed d s p out now)
  then show ?case by (intro permits_end_flight permits_dial_end)
next
  case (dial_done d s p c s1 now)
  have s1: "s1 = s\<lparr>cn_ids := Suc (cn_ids s)\<rparr>" using dial_done(3) by (auto simp: fresh_client_def)
  have "held (move_dial d (Some (d\<lparr>dl_pc := Dialed p c\<rparr>)) (dial_end now p DialOk s1)) q = held s q" for q
    using held_move [of d "dial_end now p DialOk s1" "Some (d\<lparr>dl_pc := Dialed p c\<rparr>)" q] dial_done(1,2)
    by (auto simp: dial_holds_def s1 dial_end_def) (simp add: held_def)
  then show ?case
    by (intro permits_frame [OF dial_done(4)]) (simp_all add: s1 dial_end_def record_success_def)
next
  case (control_up d s permit c p)
  have "held (install_control p permit c (move_dial d None s)) q = held s q" for q
  proof -
    have "held (install_control p permit c (move_dial d None s)) q = held (move_dial d None s) q + (if q = permit then 1 else 0)"
      by (simp add: held_def install_control_def Let_def)
    then show ?thesis using held_move [of d s None q] control_up(1,2) by (auto simp: dial_holds_def)
  qed
  then show ?case by (intro permits_frame [OF control_up(4)]) (simp_all add: install_control_def Let_def)
next
  case (dedicated_homed d s permit c home s1)
  have "held (move_dial d (Some (d\<lparr>dl_pc := Homing home permit c\<rparr>)) s1) q = held s1 q" for q
    using held_move [of d s1 "Some (d\<lparr>dl_pc := Homing home permit c\<rparr>)" q] dedicated_homed(1,2) get_pool_dials [OF dedicated_homed(4)]
    by (auto simp: dial_holds_def)
  then show ?case by (intro permits_frame [OF permits_get_pool [OF dedicated_homed(5,4)]]) simp_all
next
  case (dedicated_up d s home permit c)
  have "held (register_dedicated home permit c (dl_target d) (move_dial d None s)) q = held s q" for q
  proof -
    have "held (register_dedicated home permit c (dl_target d) (move_dial d None s)) q
        = held (move_dial d None s) q + (if q = permit then 1 else 0)"
      by (simp add: held_def register_dedicated_def)
    then show ?thesis using held_move [of d s None q] dedicated_up(1,2) by (auto simp: dial_holds_def)
  qed
  then show ?case by (intro permits_frame [OF dedicated_up(3)]) (simp_all add: register_dedicated_def)
next
  case (armed m s)
  have "held (arm m s) q = held s q" for q
    using armed(1) by (auto simp: held_def arm_def dest!: multi_member_split)
  then show ?case by (intro permits_frame [OF armed(3)]) (simp_all add: arm_def)
next
  case (closed m s)
  then show ?case by (intro permits_close_managed) simp_all
next
  case (client_lost s p c)
  show ?case by (rule permits_frame [OF client_lost(1)]) (auto simp: clear_control_def)
next
  case (control_dropped s t c)
  show ?case by (rule permits_frame [OF control_dropped(1)]) (auto simp: invalidate_control_def clear_control_def split: option.split)
next
  case (loop_failed l s)
  then show ?case unfolding keepalive_fail_def Let_def by (intro permits_loop_end) auto
next
  case (loop_stopped l s)
  then show ?case unfolding keepalive_stop_def by (intro permits_loop_end) auto
next
  case (host_invalidated s i)
  from host_invalidated(1) show ?case by (rule permits_invalidate)
next
  case (manager_closed hosts s)
  from manager_closed(2) show ?case by (rule permits_close_manager)
qed

section \<open>Properties\<close>

lemma start_ok: "permits_ok (new_connection_manager cfg)" "pools_ok (new_connection_manager cfg)"
  by (simp_all add: permits_ok_def pools_ok_def new_connection_manager_def held_def new_pool_def)

lemma cn_run_ok:
  assumes "cn_step\<^sup>*\<^sup>* (new_connection_manager cfg) s"
  shows "permits_ok s \<and> pools_ok s"
  using assms
proof (induction rule: rtranclp_induct)
  case base
  then show ?case by (simp add: start_ok)
next
  case (step y z)
  then show ?case using cn_step_permits [OF step(2)] cn_step_pools [OF step(2)] by (simp add: pools_step_def)
qed

text \<open>C8: in every interleaving of leases, dials, keepalives, closes and invalidations, a pool's used
  permits are exactly those of the dials past its semaphore, the keepalive loops, the dedicated
  transports and those of them closed before their \<open>onClose\<close> was set; they never exceed the
  configured number of connections.\<close>

theorem connection_permits_exact:
  assumes "cn_step\<^sup>*\<^sup>* (new_connection_manager cfg) s"
  shows "pl_used (cn_heap s p) = held s p \<and> held s p \<le> nat (cc_max_connections (complete_config cfg))"
proof -
  have "cn_cfg s = complete_config cfg"
    using cn_run_pools [OF assms] by (simp add: pools_step_def pools_after_def new_connection_manager_def)
  then show ?thesis using cn_run_ok [OF assms] by (simp add: permits_ok_def conn_limit_def)
qed

lemma lease_pool:
  assumes "lease_for answer i s = (Inr l, s')" and "ls_pool l = Some p"
  shows "\<exists>r. get_pool i r s = (p, s') \<and> t_conn_revision (ls_target l) = r"
  using assms
  by (auto simp: lease_for_def Let_def split: option.splits registry_answer.splits prod.splits if_splits)

text \<open>C28: a lease that still checks valid is for the pool the manager has for its host, at the
  connection revision the lease was taken for; once the host is invalidated the lease is refused for
  good, whatever happens afterwards.\<close>

theorem lease_current_or_refused:
  assumes "cn_step\<^sup>*\<^sup>* (new_connection_manager cfg) s" and "lease_for answer i s = (Inr l, s1)"
    and "ls_pool l = Some p" and "cn_step\<^sup>*\<^sup>* s1 s2"
  shows "(check_valid s2 l = None \<longrightarrow> cn_pools s2 i = Some p
            \<and> t_conn_revision (pl_target (cn_heap s2 p)) = t_conn_revision (ls_target l))
    \<and> (cn_step\<^sup>*\<^sup>* (invalidate i s2) s3 \<longrightarrow> check_valid s3 l \<noteq> None)"
proof -
  obtain r where g: "get_pool i r s = (p, s1)" and r: "t_conn_revision (ls_target l) = r"
    using lease_pool [OF assms(2,3)] by blast
  have ok: "pools_ok s" using cn_run_ok [OF assms(1)] by simp
  note got = get_pool_result [OF g ok]
  have ok1: "pools_ok s1" using get_pool_step [OF g] ok by (simp add: pools_step_def)
  then have p1: "p < cn_next s1" "t_host (pl_target (cn_heap s1 p)) = i" using got by (auto simp: pools_ok_def)
  have st: "pools_step s1 s2" by (rule cn_run_pools [OF assms(4)])
  then have ok2: "pools_ok s2" and p2: "p < cn_next s2" "pl_target (cn_heap s2 p) = pl_target (cn_heap s1 p)"
    using ok1 p1 by (auto simp: pools_step_def pools_after_def)
  have one: "cn_pools s2 i = Some p \<longleftrightarrow> \<not> pl_revoked (cn_heap s2 p)" using ok2 p2 p1 by (simp add: pools_ok_def)
  have "check_valid s3 l \<noteq> None" if run: "cn_step\<^sup>*\<^sup>* (invalidate i s2) s3"
  proof -
    have "pl_revoked (cn_heap (invalidate i s2) p)"
    proof (cases "cn_pools s2 i = Some p")
      case True
      then show ?thesis by (simp add: invalidate_def closed_pool)
    next
      case False
      then show ?thesis using one p2(1) invalidate_step [of s2 i] by (simp add: pools_step_def pools_after_def)
    qed
    then have "pl_revoked (cn_heap s3 p)"
      using cn_run_pools [OF run] p2(1) invalidate_step [of s2 i] by (auto simp: pools_step_def pools_after_def)
    then show ?thesis by (simp add: check_valid_def assms(3))
  qed
  then show ?thesis using one p2(2) got r by (auto simp: check_valid_def assms(3) split: if_splits)
qed

lemma compute_backoff_bounds:
  "0 \<le> m \<Longrightarrow> 0 \<le> compute_backoff n m \<and> compute_backoff n m \<le> m \<and> compute_backoff n m \<le> 16 * second"
proof -
  have "(2::int) ^ min n 6 \<le> 2 ^ 6" by (rule power_increasing) auto
  then show "0 \<le> m \<Longrightarrow> ?thesis"
    by (auto simp: compute_backoff_def max_backoff_exponent_def base_backoff_duration_def second_def Let_def)
qed

text \<open>After a failed dial no dial for the same host and revision gets a permit until the backoff
  of the failures so far has passed; it is refused as unavailable and changes nothing.\<close>

theorem failure_backs_off:
  assumes "cn_pools s (t_host t) = Some p" and "t_conn_revision (pl_target (cn_heap s p)) = conn_rev t"
    and "\<not> cn_closed s" and "\<not> pl_revoked (cn_heap s p)"
    and "later < now + compute_backoff (Suc (pl_failures (cn_heap s p))) (cc_max_backoff (cn_cfg s))"
  shows "dial_begin later t (dial_end now p DialFailed s)
     = (BeginFailed (HostError t HostUnavailable ''backoff''), dial_end now p DialFailed s)"
  using assms
  by (simp add: dial_begin_def get_pool_def dial_end_def record_failure_def release_def on_pool_def Let_def)

section \<open>Witnesses\<close>

definition h1_lease :: "(host_error + lease) \<times> connections" where
  "h1_lease = lease_for (Some (HostRecord 1 1)) ''h1'' (new_connection_manager default_connection_config)"

lemma h1_lease_eq:
  "\<exists>l s. h1_lease = (Inr l, s) \<and> ls_pool l = Some 0 \<and> cn_pools s ''h1'' = Some 0"
  by (simp add: h1_lease_def lease_for_def get_pool_def make_pool_def new_connection_manager_def Let_def)

lemma connection_permits_exact_witness:
  "\<exists>s. cn_step\<^sup>*\<^sup>* (new_connection_manager default_connection_config) s \<and> cn_pools s ''h1'' = Some 0
     \<and> pl_used (cn_heap s 0) = held s 0 \<and> held s 0 \<le> 16"
proof -
  obtain l s where h: "h1_lease = (Inr l, s)" "cn_pools s ''h1'' = Some 0" using h1_lease_eq by blast
  then have "cn_step\<^sup>*\<^sup>* (new_connection_manager default_connection_config) s"
    unfolding h1_lease_def by (blast intro: cn_step.leased)
  with connection_permits_exact [OF this, of 0] h show ?thesis
    by (auto simp: complete_config_def default_connection_config_def or_default_def Let_def)
qed

lemma lease_current_or_refused_witness:
  "\<exists>l s. h1_lease = (Inr l, s) \<and> check_valid (invalidate ''h1'' s) l \<noteq> None"
proof -
  obtain l s where h: "h1_lease = (Inr l, s)" "ls_pool l = Some 0" using h1_lease_eq by blast
  with lease_current_or_refused [OF rtranclp.rtrancl_refl h(1) [unfolded h1_lease_def] h(2) rtranclp.rtrancl_refl,
      of "invalidate ''h1'' s"]
  show ?thesis by blast
qed

definition one_pool :: connections where
  "one_pool = snd (make_pool ''h1'' 1 (new_connection_manager default_connection_config))"

lemma failure_backs_off_witness:
  "fst (dial_begin 5 \<lparr> t_host = ''h1'', t_revision = 1, t_conn_revision = 1, t_session = [] \<rparr> (dial_end 0 0 DialFailed one_pool))
     = BeginFailed (HostError \<lparr> t_host = ''h1'', t_revision = 1, t_conn_revision = 1, t_session = [] \<rparr> HostUnavailable ''backoff'')"
  by (subst failure_backs_off)
    (simp_all add: one_pool_def make_pool_def new_connection_manager_def new_pool_def conn_rev_def compute_backoff_def
      base_backoff_duration_def max_backoff_exponent_def complete_config_def default_connection_config_def or_default_def
      second_def Let_def)

text \<open>A transport closed between being recorded in its pool and having \<open>onClose\<close> set never gives its
  permit back: the pool, revoked by then, keeps one permit used with nothing open.\<close>

lemma close_before_armed_leaks:
  "let s = (snd (dial_begin 0 (pl_target (new_pool ''h1'' 1)) one_pool));
       s' = invalidate ''h1'' (register_dedicated 0 0 7 (pl_target (new_pool ''h1'' 1)) s)
   in pl_used (cn_heap s' 0) = 1 \<and> cn_conns s' = {#} \<and> size (cn_leaked s') = 1"
  by (simp add: Let_def dial_begin_def get_pool_def make_pool_def one_pool_def new_connection_manager_def new_pool_def
      conn_rev_def register_dedicated_def invalidate_def close_pool_def close_managed_def revoke_def on_pool_def
      conn_limit_def complete_config_def default_connection_config_def or_default_def kill_client_def stop_channel_def)

end
