(* ===== verification/SftpWire.thy ===== *)
theory SftpWire
  imports GoPath GoUtf8
begin

text \<open>
  The SFTP wire codec of \<open>hub/internal/host/sftp_adapter.go\<close>: the packets the bounded directory
  reader builds and parses, and its loop.  A packet is a string of bytes; \<open>uint32\<close> sums wrap as in
  Go, and a slice expression out of range is the result \<open>None\<close>.  The SSH channel is the stream of
  bytes it delivers and whether its writes and the context are still good at each request.
\<close>

unbundle bit_operations_syntax

section \<open>Big-endian integers\<close>

definition u32 :: "string \<Rightarrow> 32 word" where
  "u32 s = of_nat (foldl (\<lambda>a c. a * 256 + ccode c) 0 (take 4 s))"

definition u64 :: "string \<Rightarrow> 64 word" where
  "u64 s = of_nat (foldl (\<lambda>a c. a * 256 + ccode c) 0 (take 8 s))"

fun put_be :: "nat \<Rightarrow> nat \<Rightarrow> string" where
  "put_be 0 n = []"
| "put_be (Suc k) n = char_of ((n div 256 ^ k) mod 256) # put_be k n"

definition put_u32 :: "32 word \<Rightarrow> string" where
  "put_u32 w = put_be 4 (unat w)"

definition put_u64 :: "64 word \<Rightarrow> string" where
  "put_u64 w = put_be 8 (unat w)"

section \<open>Constants\<close>

definition fxp_opendir :: char where "fxp_opendir = char_of (11::nat)"
definition fxp_close :: char where "fxp_close = char_of (4::nat)"
definition fxp_readdir :: char where "fxp_readdir = char_of (12::nat)"
definition fxp_version :: char where "fxp_version = char_of (2::nat)"
definition fxp_status :: char where "fxp_status = char_of (101::nat)"
definition fxp_handle :: char where "fxp_handle = char_of (102::nat)"
definition fxp_name :: char where "fxp_name = char_of (104::nat)"

definition fx_eof :: "32 word" where "fx_eof = 1"
definition fx_no_such_file :: "32 word" where "fx_no_such_file = 2"
definition fx_permission_denied :: "32 word" where "fx_permission_denied = 3"
definition fx_failure :: "32 word" where "fx_failure = 4"

definition attr_size :: "32 word" where "attr_size = 1"
definition attr_uidgid :: "32 word" where "attr_uidgid = 2"
definition attr_permissions :: "32 word" where "attr_permissions = 4"
definition attr_acmodtime :: "32 word" where "attr_acmodtime = 8"
definition attr_extended :: "32 word" where "attr_extended = 0x80000000"

definition default_max_entries :: int where "default_max_entries = 1000"
definition max_sftp_packet_size :: nat where "max_sftp_packet_size = 256 * 1024"

record remote_entry =
  sr_name :: string
  sr_is_dir :: bool
  sr_is_link :: bool
  sr_size :: int
  sr_mtime :: "int option"
  sr_mode :: "32 word"

section \<open>Packets\<close>

definition build_string_packet :: "char \<Rightarrow> 32 word \<Rightarrow> string \<Rightarrow> string" where
  "build_string_packet typ i str =
     put_u32 (of_nat (1 + 4 + 4 + length str)) @ [typ] @ put_u32 i @ put_u32 (of_nat (length str)) @ str"

datatype wire_error = ShortRead | BadLength | BadType char | StatusError "32 word" | NotFoundError | DeniedError | WriteError | ContextError

definition read_sftp_packet :: "string \<Rightarrow> wire_error + (char \<times> string \<times> string)" where
  "read_sftp_packet s =
     (if length s < 4 then Inl ShortRead
      else (let n = unat (u32 s); rest = drop 4 s in
        if n = 0 \<or> n > max_sftp_packet_size then Inl BadLength
        else if length rest < n then Inl ShortRead
        else Inr (hd rest, tl (take n rest), drop n rest)))"

definition init_packet :: string where
  "init_packet = put_u32 5 @ [char_of (1::nat)] @ put_u32 3"

definition send_sftp_init :: "bool \<Rightarrow> string \<Rightarrow> wire_error + string" where
  "send_sftp_init can_write s =
     (if \<not> can_write then Inl WriteError
      else (case read_sftp_packet s of
          Inl e \<Rightarrow> Inl e
        | Inr (typ, _, rest) \<Rightarrow> if typ \<noteq> fxp_version then Inl (BadType typ) else Inr rest))"

text \<open>\<open>data[a:b]\<close> with \<open>uint32\<close> bounds.\<close>

definition slice32 :: "32 word \<Rightarrow> 32 word \<Rightarrow> string \<Rightarrow> string option" where
  "slice32 a b s = (if unat a \<le> unat b \<and> unat b \<le> length s then Some (take (unat b - unat a) (drop (unat a) s)) else None)"

definition parse_status :: "string \<Rightarrow> (32 word \<times> 32 word \<times> string) option" where
  "parse_status s =
     (if length s < 8 then Some (0, fx_failure, [])
      else (let i = u32 s; code = u32 (drop 4 s) in
        if length s \<ge> 12 then
          (let n = u32 (drop 8 s) in
           if length s \<ge> unat (12 + n) then map_option (\<lambda>msg. (i, code, msg)) (slice32 12 (12 + n) s)
           else Some (i, code, []))
        else Some (i, code, [])))"

definition parse_handle :: "string \<Rightarrow> string option" where
  "parse_handle s =
     (if length s < 8 then Some []
      else (let n = u32 (drop 4 s) in
        if length s \<ge> unat (8 + n) then slice32 8 (8 + n) s else Some []))"

section \<open>Directory entries\<close>

definition s_ifmt :: "32 word" where "s_ifmt = 0xF000"

text \<open>The \<open>os.FileMode\<close> bits.\<close>

definition mode_dir :: "32 word" where "mode_dir = 0x80000000"
definition mode_symlink :: "32 word" where "mode_symlink = 0x08000000"
definition mode_device :: "32 word" where "mode_device = 0x04000000"
definition mode_named_pipe :: "32 word" where "mode_named_pipe = 0x02000000"
definition mode_socket :: "32 word" where "mode_socket = 0x01000000"
definition mode_char_device :: "32 word" where "mode_char_device = 0x00200000"

definition decode_file_perm :: "32 word \<Rightarrow> 32 word \<times> bool \<times> bool" where
  "decode_file_perm perm =
     (let m = perm AND 0x1FF; t = perm AND s_ifmt in
      if t = 0x4000 then (m OR mode_dir, True, False)
      else if t = 0xA000 then (m OR mode_symlink, False, True)
      else if t = 0xC000 then (m OR mode_socket, False, False)
      else if t = 0x1000 then (m OR mode_named_pipe, False, False)
      else if t = 0x2000 then (m OR mode_char_device, False, False)
      else if t = 0x6000 then (m OR mode_device, False, False)
      else (m, False, False))"

fun skip_ext_pairs :: "nat \<Rightarrow> string \<Rightarrow> string" where
  "skip_ext_pairs 0 s = s"
| "skip_ext_pairs (Suc n) s =
     (if length s < 4 then s
      else (let k = unat (u32 s); s1 = drop 4 s in
        if length s1 < k then s1
        else (let s2 = drop k s1 in
          if length s2 < 4 then s2
          else (let v = unat (u32 s2); s3 = drop 4 s2 in
            if length s3 < v then s3 else skip_ext_pairs n (drop v s3)))))"

definition skip_extended_attrs :: "string \<Rightarrow> string" where
  "skip_extended_attrs s = (if length s < 4 then s else skip_ext_pairs (unat (u32 s)) (drop 4 s))"

text \<open>A field the flags announce: its bytes and what follows, or nothing when the data is short.\<close>

definition field :: "bool \<Rightarrow> nat \<Rightarrow> string \<Rightarrow> (string option \<times> string) option" where
  "field present n s =
     (if \<not> present then Some (None, s) else if length s < n then None else Some (Some (take n s), drop n s))"

definition flag_set :: "32 word \<Rightarrow> 32 word \<Rightarrow> bool" where
  "flag_set flags f = (flags AND f \<noteq> 0)"

definition parse_entry_attrs :: "string \<Rightarrow> string \<Rightarrow> (remote_entry \<times> string) option" where
  "parse_entry_attrs filename s0 =
     (if length s0 < 4 then None
      else (let flags = u32 s0 in
        Option.bind (field (flag_set flags attr_size) 8 (drop 4 s0)) (\<lambda>(sz, s1).
        Option.bind (field (flag_set flags attr_uidgid) 8 s1) (\<lambda>(_, s2).
        Option.bind (field (flag_set flags attr_permissions) 4 s2) (\<lambda>(perm, s3).
        Option.bind (field (flag_set flags attr_acmodtime) 8 s3) (\<lambda>(times, s4).
          (let (mode, dir, link) = (case perm of None \<Rightarrow> (0, False, False) | Some p \<Rightarrow> decode_file_perm (u32 p));
               rest = (if flag_set flags attr_extended then skip_extended_attrs s4 else s4) in
           Some (\<lparr> sr_name = base_of filename, sr_is_dir = dir, sr_is_link = link,
                   sr_size = (case sz of None \<Rightarrow> 0 | Some x \<Rightarrow> sint (u64 x)),
                   sr_mtime = map_option (\<lambda>x. uint (u32 (drop 4 x))) times,
                   sr_mode = mode \<rparr>, rest))))))))"

text \<open>\<open>parseSingleNameEntry\<close>, on at least four bytes.\<close>

definition parse_single_name_entry :: "string \<Rightarrow> (remote_entry \<times> string) option" where
  "parse_single_name_entry s =
     (let n = unat (u32 s); s1 = drop 4 s in
      if length s1 < n then None
      else (let filename = take n s1; s2 = drop n s1 in
        if length s2 < 4 then None
        else (let l = unat (u32 s2); s3 = drop 4 s2 in
          if length s3 < l then None else parse_entry_attrs filename (drop l s3))))"

fun parse_entries :: "nat \<Rightarrow> string \<Rightarrow> remote_entry list" where
  "parse_entries 0 s = []"
| "parse_entries (Suc n) s =
     (if length s < 4 then []
      else (case parse_single_name_entry s of None \<Rightarrow> [] | Some (e, rest) \<Rightarrow> e # parse_entries n rest))"

definition parse_name_entries :: "string \<Rightarrow> remote_entry list" where
  "parse_name_entries s = (if length s < 8 then [] else parse_entries (unat (u32 (drop 4 s))) (drop 8 s))"

section \<open>The bounded directory read\<close>

text \<open>The filter and bound over one batch: the entries so far and whether one more came.\<close>

fun take_batch :: "nat \<Rightarrow> remote_entry list \<Rightarrow> remote_entry list \<Rightarrow> remote_entry list \<times> bool" where
  "take_batch m acc [] = (acc, False)"
| "take_batch m acc (e # es) =
     (if sr_name e = dot \<or> sr_name e = dotdot then take_batch m acc es
      else if length acc < m then take_batch m (acc @ [e]) es
      else (acc, True))"

lemma read_sftp_packet_shorter: "read_sftp_packet s = Inr (t, d, rest) \<Longrightarrow> length rest < length s"
  by (auto simp: read_sftp_packet_def Let_def split: if_splits)

text \<open>\<open>good k\<close> and \<open>live k\<close>: whether request \<open>k\<close> can be written and the context is live when it is
  made.  Each round consumes a reply, so the loop ends with the stream.  The result is the last
  request number, the packets written and the outcome, of which \<open>None\<close> is a panic.\<close>

type_synonym fetched = "nat \<times> string list \<times> (wire_error + remote_entry list \<times> bool) option"

function fetch_dir_entries ::
  "(nat \<Rightarrow> bool) \<Rightarrow> (nat \<Rightarrow> bool) \<Rightarrow> string \<Rightarrow> nat \<Rightarrow> nat \<Rightarrow> remote_entry list \<Rightarrow> string list \<Rightarrow> string
     \<Rightarrow> fetched" where
  "fetch_dir_entries good live handle req m acc sent s =
     (if \<not> live req then (req, sent, Some (Inl ContextError))
      else (let req = Suc req in
        if \<not> good req then (req, sent, Some (Inl WriteError))
        else (let sent = sent @ [build_string_packet fxp_readdir (of_nat req) handle] in
          case read_sftp_packet s of
            Inl e \<Rightarrow> (req, sent, Some (Inl (if live req then e else ContextError)))
          | Inr (typ, d, rest) \<Rightarrow>
              if typ = fxp_status then
                (case parse_status d of
                   None \<Rightarrow> (req, sent, None)
                 | Some (_, code, _) \<Rightarrow>
                     if code = fx_eof then (req, sent, Some (Inr (acc, False)))
                     else if code = fx_no_such_file then (req, sent, Some (Inl NotFoundError))
                     else (req, sent, Some (Inl (StatusError code))))
              else if typ \<noteq> fxp_name then (req, sent, Some (Inl (BadType typ)))
              else (case take_batch m acc (parse_name_entries d) of
                  (acc', True) \<Rightarrow> (req, sent, Some (Inr (acc', True)))
                | (acc', False) \<Rightarrow> fetch_dir_entries good live handle req m acc' sent rest))))"
  by pat_completeness auto
termination
  by (relation "measure (\<lambda>(_, _, _, _, _, _, _, s). length s)") (auto simp: read_sftp_packet_shorter)

declare fetch_dir_entries.simps [simp del]

definition open_sftp_dir :: "bool \<Rightarrow> string \<Rightarrow> (wire_error + string \<times> string) option" where
  "open_sftp_dir can_write s =
     (if \<not> can_write then Some (Inl WriteError)
      else (case read_sftp_packet s of
          Inl e \<Rightarrow> Some (Inl e)
        | Inr (typ, d, rest) \<Rightarrow>
            if typ = fxp_status then
              (case parse_status d of
                 None \<Rightarrow> None
               | Some (_, code, _) \<Rightarrow>
                   if code = fx_no_such_file then Some (Inl NotFoundError)
                   else if code = fx_permission_denied then Some (Inl DeniedError)
                   else Some (Inl (StatusError code)))
            else if typ \<noteq> fxp_handle then Some (Inl (BadType typ))
            else map_option (\<lambda>h. Inr (h, rest)) (parse_handle d)))"

text \<open>\<open>ReadDirBounded\<close> once the channel is open: the packets it writes and its result.  The handle is
  closed by a last request whatever the loop returned.\<close>

definition read_dir_bounded ::
  "(nat \<Rightarrow> bool) \<Rightarrow> (nat \<Rightarrow> bool) \<Rightarrow> string \<Rightarrow> int \<Rightarrow> string
     \<Rightarrow> string list \<times> (wire_error + remote_entry list \<times> bool) option" where
  "read_dir_bounded good live dir_path max_entries s =
     (let m = nat (if max_entries \<le> 0 then default_max_entries else max_entries);
          init = (if good 0 then [init_packet] else []) in
      case send_sftp_init (good 0) s of
        Inl e \<Rightarrow> (init, Some (Inl e))
      | Inr s1 \<Rightarrow>
          (let opened = (if good 1 then init @ [build_string_packet fxp_opendir 1 dir_path] else init) in
           case open_sftp_dir (good 1) s1 of
             None \<Rightarrow> (opened, None)
           | Some (Inl e) \<Rightarrow> (opened, Some (Inl e))
           | Some (Inr (h, s2)) \<Rightarrow>
               (case fetch_dir_entries good live h 1 m [] opened s2 of
                  (req, sent, r) \<Rightarrow>
                    (if good (Suc req) then sent @ [build_string_packet fxp_close (of_nat (Suc req)) h] else sent, r))))"

section \<open>The server's side of the protocol\<close>

text \<open>The reference encoding of a directory reply (SFTP version 3), by which the parser is judged.\<close>

definition put_string :: "string \<Rightarrow> string" where
  "put_string s = put_u32 (of_nat (length s)) @ s"

record wire_file =
  wf_name :: string
  wf_long :: string
  wf_size :: "64 word option"
  wf_ids :: "(32 word \<times> 32 word) option"
  wf_perm :: "32 word option"
  wf_times :: "(32 word \<times> 32 word) option"
  wf_ext :: "(string \<times> string) list option"

definition opt_bytes :: "('a \<Rightarrow> string) \<Rightarrow> 'a option \<Rightarrow> string" where
  "opt_bytes f x = (case x of None \<Rightarrow> [] | Some y \<Rightarrow> f y)"

definition flag_if :: "'a option \<Rightarrow> 32 word \<Rightarrow> 32 word" where
  "flag_if x f = (if x = None then 0 else f)"

definition wire_flags :: "wire_file \<Rightarrow> 32 word" where
  "wire_flags f = flag_if (wf_size f) attr_size OR flag_if (wf_ids f) attr_uidgid
     OR flag_if (wf_perm f) attr_permissions OR flag_if (wf_times f) attr_acmodtime
     OR flag_if (wf_ext f) attr_extended"

definition put_pair :: "32 word \<times> 32 word \<Rightarrow> string" where
  "put_pair p = put_u32 (fst p) @ put_u32 (snd p)"

definition put_ext :: "(string \<times> string) list \<Rightarrow> string" where
  "put_ext kvs = put_u32 (of_nat (length kvs)) @ concat (map (\<lambda>(k, v). put_string k @ put_string v) kvs)"

definition put_file :: "wire_file \<Rightarrow> string" where
  "put_file f = put_string (wf_name f) @ put_string (wf_long f) @ put_u32 (wire_flags f)
     @ opt_bytes put_u64 (wf_size f) @ opt_bytes put_pair (wf_ids f) @ opt_bytes put_u32 (wf_perm f)
     @ opt_bytes put_pair (wf_times f) @ opt_bytes put_ext (wf_ext f)"

definition put_names :: "32 word \<Rightarrow> wire_file list \<Rightarrow> string" where
  "put_names i fs = put_u32 i @ put_u32 (of_nat (length fs)) @ concat (map put_file fs)"

definition put_packet :: "char \<Rightarrow> string \<Rightarrow> string" where
  "put_packet typ payload = put_u32 (of_nat (Suc (length payload))) @ typ # payload"

definition put_eof :: "32 word \<Rightarrow> string \<Rightarrow> string" where
  "put_eof i msg = put_packet fxp_status (put_u32 i @ put_u32 fx_eof @ put_string msg @ put_string [])"

text \<open>What a listing should show of a file.\<close>

definition observed :: "wire_file \<Rightarrow> remote_entry" where
  "observed f =
     (let (mode, dir, link) = (case wf_perm f of None \<Rightarrow> (0, False, False) | Some p \<Rightarrow> decode_file_perm p) in
      \<lparr> sr_name = base_of (wf_name f), sr_is_dir = dir, sr_is_link = link,
        sr_size = (case wf_size f of None \<Rightarrow> 0 | Some x \<Rightarrow> sint x),
        sr_mtime = map_option (\<lambda>t. uint (snd t)) (wf_times f), sr_mode = mode \<rparr>)"

definition fits32 :: "nat \<Rightarrow> bool" where "fits32 n \<longleftrightarrow> n < 2 ^ 32"

definition wire_ok :: "wire_file \<Rightarrow> bool" where
  "wire_ok f \<longleftrightarrow> fits32 (length (wf_name f)) \<and> fits32 (length (wf_long f))
     \<and> (case wf_ext f of None \<Rightarrow> True
        | Some kvs \<Rightarrow> fits32 (length kvs) \<and> list_all (\<lambda>(k, v). fits32 (length k) \<and> fits32 (length v)) kvs)"

section \<open>Round trips\<close>

lemma length_put_be [simp]: "length (put_be k n) = k"
  by (induction k) simp_all

lemma length_put [simp]: "length (put_u32 w) = 4" "length (put_u64 v) = 8"
  by (simp_all add: put_u32_def put_u64_def)

lemma foldl_put_be: "foldl (\<lambda>a c. a * 256 + ccode c) a (put_be k n) = a * 256 ^ k + n mod 256 ^ k"
proof (induction k arbitrary: a)
  case (Suc k)
  have "n mod 256 ^ Suc k = 256 ^ k * (n div 256 ^ k mod 256) + n mod 256 ^ k"
    using mod_mult2_eq [of n "256 ^ k" 256] by (simp add: mult.commute)
  with Suc show ?case by (simp add: algebra_simps)
qed simp

lemma u32_put [simp]: "u32 (put_u32 w @ s) = w"
proof -
  have "unat w < 2 ^ 32" using unsigned_less [of w] by simp
  then show ?thesis by (simp add: u32_def put_u32_def foldl_put_be)
qed

lemma u64_put [simp]: "u64 (put_u64 w @ s) = w"
proof -
  have "unat w < 2 ^ 64" using unsigned_less [of w] by simp
  then show ?thesis by (simp add: u64_def put_u64_def foldl_put_be)
qed

lemma u32_put_nil [simp]: "u32 (put_u32 w) = w"
  using u32_put [of w "[]"] by simp

lemma u64_put_nil [simp]: "u64 (put_u64 w) = w"
  using u64_put [of w "[]"] by simp

lemma unat_of_length: "fits32 n \<Longrightarrow> unat (of_nat n :: 32 word) = n"
  by (simp add: fits32_def unsigned_of_nat take_bit_nat_eq_self)

lemma drop_put [simp]: "drop 4 (put_u32 w @ s) = s" "drop 8 (put_u64 v @ s) = s" "drop 8 (put_u32 w @ put_u32 x @ s) = s"
  by simp_all

lemma not_short [simp]: "\<not> length (put_u32 w @ s) < 4" "\<not> length (put_u32 w @ put_u32 x @ s) < 8"
  by simp_all

lemma skip_ext_step:
  assumes "fits32 (length k)" and "fits32 (length v)"
  shows "skip_ext_pairs (Suc n) (put_string k @ put_string v @ s) = skip_ext_pairs n s"
proof -
  note u = unat_of_length [OF assms(1)] unat_of_length [OF assms(2)]
  show ?thesis
    unfolding skip_ext_pairs.simps Let_def put_string_def append_assoc drop_put u32_put u
    by (simp only: not_short if_False) (simp add: u)
qed

lemma skip_ext_put:
  "list_all (\<lambda>(k, v). fits32 (length k) \<and> fits32 (length v)) kvs \<Longrightarrow>
     skip_ext_pairs (length kvs) (concat (map (\<lambda>(k, v). put_string k @ put_string v) kvs) @ rest) = rest"
proof (induction kvs)
  case (Cons x kvs)
  then show ?case by (cases x) (simp add: skip_ext_step del: skip_ext_pairs.simps(2))
qed simp

lemma skip_extended_put:
  "fits32 (length kvs) \<Longrightarrow> list_all (\<lambda>(k, v). fits32 (length k) \<and> fits32 (length v)) kvs \<Longrightarrow>
     skip_extended_attrs (put_ext kvs @ rest) = rest"
  using skip_ext_put [of kvs rest] by (simp add: skip_extended_attrs_def put_ext_def unat_of_length)

definition present :: "'a option \<Rightarrow> bool" where
  "present x = (case x of None \<Rightarrow> False | Some _ \<Rightarrow> True)"

lemma wire_flags_set:
  "flag_set (wire_flags f) attr_size = present (wf_size f)"
  "flag_set (wire_flags f) attr_uidgid = present (wf_ids f)"
  "flag_set (wire_flags f) attr_permissions = present (wf_perm f)"
  "flag_set (wire_flags f) attr_acmodtime = present (wf_times f)"
  "flag_set (wire_flags f) attr_extended = present (wf_ext f)"
  by (simp_all add: flag_set_def wire_flags_def flag_if_def attr_size_def attr_uidgid_def attr_permissions_def
      attr_acmodtime_def attr_extended_def present_def split: option.split)

lemma field_put:
  "\<forall>y. length (f y) = n \<Longrightarrow> field (present x) n (opt_bytes f x @ rest) = Some (map_option f x, rest)"
  by (cases x) (simp_all add: field_def opt_bytes_def present_def)

lemma length_put_pair [simp]: "length (put_pair p) = 8"
  by (simp add: put_pair_def)

lemma parse_attrs_put:
  assumes "wire_ok f"
  shows "parse_entry_attrs (wf_name f) (put_u32 (wire_flags f) @ opt_bytes put_u64 (wf_size f)
     @ opt_bytes put_pair (wf_ids f) @ opt_bytes put_u32 (wf_perm f) @ opt_bytes put_pair (wf_times f)
     @ opt_bytes put_ext (wf_ext f) @ rest) = Some (observed f, rest)"
proof -
  have ext: "(if flag_set (wire_flags f) attr_extended then skip_extended_attrs (opt_bytes put_ext (wf_ext f) @ rest)
      else opt_bytes put_ext (wf_ext f) @ rest) = rest"
    using assms by (auto simp: wire_flags_set present_def wire_ok_def opt_bytes_def skip_extended_put split: option.splits)
  have times: "map_option (\<lambda>x. uint (u32 (drop 4 x))) (map_option put_pair (wf_times f))
      = map_option (\<lambda>t. uint (snd t)) (wf_times f)"
    by (cases "wf_times f") (simp_all add: put_pair_def)
  show ?thesis
    unfolding parse_entry_attrs_def observed_def
    by (cases "wf_perm f"; cases "wf_size f")
      (simp_all only: not_short if_False Let_def u32_put drop_put wire_flags_set(1-4) field_put length_put
        length_put_pair simp_thms Option.bind.simps prod.case ext times option.map option.case u32_put_nil u64_put_nil,
       simp_all split: prod.split)
qed

lemma parse_single_put:
  assumes "wire_ok f"
  shows "parse_single_name_entry (put_file f @ rest) = Some (observed f, rest)"
  using assms parse_attrs_put [OF assms, of rest]
  by (simp add: parse_single_name_entry_def put_file_def put_string_def unat_of_length wire_ok_def Let_def)

lemma parse_entries_put:
  "list_all wire_ok fs \<Longrightarrow> parse_entries (length fs) (concat (map put_file fs) @ rest) = map observed fs"
proof (induction fs)
  case (Cons f fs)
  have "4 \<le> length (put_file f)" by (simp add: put_file_def put_string_def)
  with Cons show ?case by (simp add: parse_single_put)
qed simp

lemma parse_names_put:
  assumes "list_all wire_ok fs" and "fits32 (length fs)"
  shows "parse_name_entries (put_names i fs) = map observed fs"
  using parse_entries_put [OF assms(1), of "[]"] assms(2)
  by (simp add: parse_name_entries_def put_names_def unat_of_length)

lemma read_packet_put:
  assumes "Suc (length payload) \<le> max_sftp_packet_size"
  shows "read_sftp_packet (put_packet typ payload @ rest) = Inr (typ, payload, rest)"
proof -
  have "fits32 (Suc (length payload))" using assms by (simp add: fits32_def max_sftp_packet_size_def)
  from unat_of_length [OF this] assms show ?thesis
    by (simp add: read_sftp_packet_def put_packet_def Let_def del: of_nat_Suc)
qed

lemma parse_status_eof:
  "fits32 (12 + length msg) \<Longrightarrow> \<exists>m. parse_status (put_u32 i @ put_u32 fx_eof @ put_string msg @ put_string [])
     = Some (i, fx_eof, m)"
proof -
  assume f: "fits32 (12 + length msg)"
  have "(12::32 word) + of_nat (length msg) = of_nat (12 + length msg)" by simp
  then have "unat (12 + of_nat (length msg) :: 32 word) = 12 + length msg" using unat_of_length [OF f] by simp
  then show ?thesis by (simp add: parse_status_def put_string_def slice32_def Let_def)
qed

section \<open>Properties\<close>

definition shown :: "wire_file list \<Rightarrow> remote_entry list" where
  "shown fs = filter (\<lambda>e. sr_name e \<noteq> dot \<and> sr_name e \<noteq> dotdot) (map observed fs)"

lemma take_batch_spec:
  "length acc \<le> m \<Longrightarrow> take_batch m acc es = (acc', b) \<Longrightarrow>
     (let v = filter (\<lambda>e. sr_name e \<noteq> dot \<and> sr_name e \<noteq> dotdot) es in
      acc' = take m (acc @ v) \<and> (b \<longleftrightarrow> m < length (acc @ v)))"
  by (induction m acc es rule: take_batch.induct) (auto simp: Let_def split: if_splits)

definition batch_ok :: "wire_file list \<Rightarrow> bool" where
  "batch_ok fs \<longleftrightarrow> list_all wire_ok fs \<and> Suc (length (put_names 0 fs)) \<le> max_sftp_packet_size"

definition server_stream :: "wire_file list list \<Rightarrow> string \<Rightarrow> string" where
  "server_stream batches msg = concat (map (\<lambda>fs. put_packet fxp_name (put_names 0 fs)) batches) @ put_eof 0 msg"

text \<open>C29: against a server that sends its directory in any number of well-formed replies, with any
  attributes, extended ones included, the bounded read returns the entries other than the directory
  and its parent, in order and with their decoded attributes, up to the bound, and says exactly when
  there are more.\<close>

theorem fetch_shows_directory:
  assumes "list_all batch_ok batches" and "length msg \<le> 1000" and "length acc \<le> m"
  shows "snd (snd (fetch_dir_entries (\<lambda>_. True) (\<lambda>_. True) handle req m acc sent (server_stream batches msg)))
     = Some (Inr (take m (acc @ shown (concat batches)), m < length (acc @ shown (concat batches))))"
  using assms(1,3)
proof (induction batches arbitrary: acc req sent)
  case Nil
  let ?pl = "put_u32 0 @ put_u32 fx_eof @ put_string msg @ put_string []"
  have "Suc (length ?pl) \<le> max_sftp_packet_size" using assms(2) by (simp add: put_string_def max_sftp_packet_size_def)
  then have "read_sftp_packet (put_eof 0 msg) = Inr (fxp_status, ?pl, [])"
    using read_packet_put [of ?pl fxp_status "[]"] by (simp add: put_eof_def)
  moreover obtain mm where "parse_status ?pl = Some (0, fx_eof, mm)"
    using parse_status_eof [of msg 0] assms(2) by (auto simp: fits32_def)
  ultimately show ?case using Nil(2)
    by (subst fetch_dir_entries.simps) (simp add: server_stream_def shown_def Let_def)
next
  case (Cons fs batches)
  have ok: "list_all wire_ok fs" "Suc (length (put_names 0 fs)) \<le> max_sftp_packet_size"
    using Cons.prems(1) by (simp_all add: batch_ok_def)
  have "length fs \<le> length (concat (map put_file fs))"
    by (induction fs) (auto simp: put_file_def put_string_def)
  then have "fits32 (length fs)" using ok(2) by (simp add: put_names_def fits32_def max_sftp_packet_size_def)
  note names = parse_names_put [OF ok(1) this, of 0]
  have rd: "read_sftp_packet (server_stream (fs # batches) msg)
      = Inr (fxp_name, put_names 0 fs, server_stream batches msg)"
    using read_packet_put [OF ok(2)] by (simp add: server_stream_def)
  have types: "fxp_name \<noteq> fxp_status" by (simp add: fxp_name_def fxp_status_def)
  obtain acc' b where tb: "take_batch m acc (map observed fs) = (acc', b)" by fastforce
  have sp: "acc' = take m (acc @ shown fs)" "b \<longleftrightarrow> m < length (acc @ shown fs)"
    using take_batch_spec [OF Cons.prems(2) tb] by (simp_all add: shown_def Let_def)
  show ?case
  proof (cases b)
    case True
    then show ?thesis
      using sp by (subst fetch_dir_entries.simps) (simp add: rd types names tb shown_def Let_def)
  next
    case False
    then have "acc' = acc @ shown fs" using sp by simp
    with False show ?thesis
      using Cons.IH [of acc'] Cons.prems(1) sp
      by (subst fetch_dir_entries.simps) (simp add: rd types names tb shown_def Let_def)
  qed
qed

definition demo_wire :: "wire_file list list" where
  "demo_wire =
     (let f = \<lparr> wf_name = ''.'', wf_long = [], wf_size = None, wf_ids = None, wf_perm = None, wf_times = None, wf_ext = None \<rparr> in
      [[f, f\<lparr> wf_name := ''a'', wf_size := Some 7, wf_perm := Some 0x81A4, wf_ext := Some [(''k'', ''v'')] \<rparr>],
       [f\<lparr> wf_name := ''b'' \<rparr>]])"

theorem fetch_shows_directory_witness:
  "snd (snd (fetch_dir_entries (\<lambda>_. True) (\<lambda>_. True) ''h'' 1 1 [] [] (server_stream demo_wire ''eof'')))
     = Some (Inr ([\<lparr> sr_name = ''a'', sr_is_dir = False, sr_is_link = False, sr_size = 7, sr_mtime = None,
        sr_mode = 0x1A4 \<rparr>], True))"
proof -
  have ok: "list_all batch_ok demo_wire"
    by (simp add: demo_wire_def Let_def batch_ok_def wire_ok_def fits32_def put_names_def put_file_def
        put_string_def opt_bytes_def put_ext_def max_sftp_packet_size_def)
  have sh: "shown (concat demo_wire) = [\<lparr> sr_name = ''a'', sr_is_dir = False, sr_is_link = False, sr_size = 7,
      sr_mtime = None, sr_mode = 0x1A4 \<rparr>, \<lparr> sr_name = ''b'', sr_is_dir = False, sr_is_link = False, sr_size = 0,
      sr_mtime = None, sr_mode = 0 \<rparr>]"
  proof -
    have "base_of ''.'' = ''.''" "base_of ''a'' = ''a''" "base_of ''b'' = ''b''" by code_simp+
    then show ?thesis
      by (simp add: demo_wire_def Let_def shown_def observed_def decode_file_perm_def s_ifmt_def dot_def dotdot_def)
  qed
  show ?thesis using fetch_shows_directory [OF ok, of "''eof''" "[]" 1 "''h''" 1 "[]"] by (simp add: sh)
qed

end
