(* ===== verification/Vault.thy ===== *)
theory Vault
  imports HostIdentity GoUtf8
begin

text \<open>
  \<open>hub/internal/host/credentials.go\<close>: the sealed credentials and the master key file.  The AEAD is
  the record \<open>aead\<close> of its two functions; JSON documents are values of datatypes, with the one
  thing JSON changes in a Go string: bytes that are not UTF-8 become U+FFFD.
\<close>

section \<open>JSON strings\<close>

definition json_text :: "string \<Rightarrow> string" where
  "json_text s = encode_runes (runes s)"

lemma json_text_valid [simp]: "utf8_valid s \<Longrightarrow> json_text s = s"
  by (simp add: json_text_def encode_runes_runes)

lemma json_text_idem [simp]: "json_text (json_text s) = json_text s"
  by (simp add: json_text_def runes_encode_runes runes_scalar)

lemma json_text_Nil [simp]: "json_text [] = []"
  by (simp add: json_text_def encode_runes_def)

section \<open>Credentials\<close>

record credentials =
  cr_password :: string
  cr_private_key :: string
  cr_passphrase :: string

definition no_credentials :: credentials where
  "no_credentials = \<lparr> cr_password = [], cr_private_key = [], cr_passphrase = [] \<rparr>"

definition credentials_string :: "credentials \<Rightarrow> string" where
  "credentials_string c = ''[redacted credentials]''"

text \<open>The document \<open>json.Marshal\<close> makes of credentials, and any other bytes.\<close>

datatype plaintext = CredentialDoc credentials | OtherPlaintext string

definition marshal_credentials :: "credentials \<Rightarrow> plaintext" where
  "marshal_credentials c =
     CredentialDoc \<lparr> cr_password = json_text (cr_password c), cr_private_key = json_text (cr_private_key c),
       cr_passphrase = json_text (cr_passphrase c) \<rparr>"

text \<open>The additional data: identity, kind and envelope version, as JSON.\<close>

type_synonym aad = "string \<times> string \<times> int"

definition credential_envelope_version :: int where "credential_envelope_version = 1"
definition master_key_length :: nat where "master_key_length = 32"

definition credential_aad :: "host_id \<Rightarrow> string \<Rightarrow> int \<Rightarrow> aad" where
  "credential_aad i kind version = (json_text i, json_text kind, version)"

text \<open>AES-GCM under a key: \<open>ae_seal key nonce plaintext aad\<close> and \<open>ae_open key nonce ciphertext aad\<close>.\<close>

record 'c aead =
  ae_seal :: "string \<Rightarrow> string \<Rightarrow> plaintext \<Rightarrow> aad \<Rightarrow> 'c"
  ae_open :: "string \<Rightarrow> string \<Rightarrow> 'c \<Rightarrow> aad \<Rightarrow> plaintext option"
  ae_nonce_size :: nat

text \<open>A \<open>credential_envelope\<close> as stored, or bytes that are not one.\<close>

datatype 'c envelope = Envelope (en_version: int) (en_nonce: string) (en_cipher: 'c) | NotEnvelope

datatype vault_error =
    BadKeyLength
  | RandFailed
  | InvalidEnvelope
  | DecryptionFailed
  | InvalidPlaintext
  | KeyNotPrivateError
  | KeyStatFailed
  | KeyReadFailed
  | KeyMissingError
  | KeyDirFailed
  | KeyCreateFailed
  | KeyWriteFailed

text \<open>A vault is its 32-byte key.\<close>

definition new_vault :: "string \<Rightarrow> vault_error + string" where
  "new_vault key = (if length key \<noteq> master_key_length then Inl BadKeyLength else Inr key)"

definition seal :: "'c aead \<Rightarrow> string option \<Rightarrow> string \<Rightarrow> host_id \<Rightarrow> string \<Rightarrow> credentials \<Rightarrow> vault_error + 'c envelope" where
  "seal ae rand key i kind c =
     (case rand of
        None \<Rightarrow> Inl RandFailed
      | Some bytes \<Rightarrow>
          (let nonce = take (ae_nonce_size ae) bytes; v = credential_envelope_version in
           Inr (Envelope v nonce (ae_seal ae key nonce (marshal_credentials c) (credential_aad i kind v)))))"

definition open_sealed :: "'c aead \<Rightarrow> string \<Rightarrow> host_id \<Rightarrow> string \<Rightarrow> 'c envelope \<Rightarrow> vault_error + credentials" where
  "open_sealed ae key i kind e =
     (case e of
        NotEnvelope \<Rightarrow> Inl InvalidEnvelope
      | Envelope v nonce c \<Rightarrow>
          if v \<noteq> credential_envelope_version \<or> length nonce \<noteq> ae_nonce_size ae then Inl InvalidEnvelope
          else (case ae_open ae key nonce c (credential_aad i kind v) of
              None \<Rightarrow> Inl DecryptionFailed
            | Some (OtherPlaintext _) \<Rightarrow> Inl InvalidPlaintext
            | Some (CredentialDoc d) \<Rightarrow> Inr d))"

section \<open>The master key file\<close>

datatype key_file =
    KeyMissing
  | KeyBytes string
  | KeyExposed
  | KeyUnreadable
  | KeyStatError

text \<open>What may fail while a key is made; a failed write leaves the bytes written so far.\<close>

record key_faults =
  kf_mkdir :: bool
  kf_rand :: "string option"
  kf_create :: bool
  kf_write :: "nat option"

definition load_vault :: "key_faults \<Rightarrow> bool \<Rightarrow> key_file \<Rightarrow> (vault_error + string) \<times> key_file" where
  "load_vault kf existing file =
     (case file of
        KeyExposed \<Rightarrow> (Inl KeyNotPrivateError, file)
      | KeyUnreadable \<Rightarrow> (Inl KeyReadFailed, file)
      | KeyBytes key \<Rightarrow> (new_vault key, file)
      | KeyStatError \<Rightarrow> (Inl KeyStatFailed, file)
      | KeyMissing \<Rightarrow>
          if existing then (Inl KeyMissingError, file)
          else if kf_mkdir kf then (Inl KeyDirFailed, file)
          else (case kf_rand kf of
              None \<Rightarrow> (Inl RandFailed, file)
            | Some bytes \<Rightarrow>
                (let key = take master_key_length bytes in
                 if kf_create kf then (Inl KeyCreateFailed, file)
                 else (case kf_write kf of
                     Some n \<Rightarrow> (Inl KeyWriteFailed, KeyBytes (take n key))
                   | None \<Rightarrow> (new_vault key, KeyBytes key)))))"

section \<open>Properties\<close>

text \<open>What is used of AES-GCM: decryption succeeds exactly on what encryption under the same key,
  nonce and additional data makes; and, ideally, no two additional data share a ciphertext.\<close>

definition aead_correct :: "'c aead \<Rightarrow> bool" where
  "aead_correct ae \<longleftrightarrow> (\<forall>k n c a p. ae_open ae k n c a = Some p \<longleftrightarrow> c = ae_seal ae k n p a)"

definition aead_binding :: "'c aead \<Rightarrow> bool" where
  "aead_binding ae \<longleftrightarrow> (\<forall>k n p a k' n' p' a'. ae_seal ae k n p a = ae_seal ae k' n' p' a' \<longrightarrow> k = k' \<and> a = a')"

definition creds_valid :: "credentials \<Rightarrow> bool" where
  "creds_valid c \<longleftrightarrow> utf8_valid (cr_password c) \<and> utf8_valid (cr_private_key c) \<and> utf8_valid (cr_passphrase c)"

lemma marshal_valid: "creds_valid c \<Longrightarrow> marshal_credentials c = CredentialDoc c"
  by (simp add: creds_valid_def marshal_credentials_def)

lemma open_seal:
  assumes "aead_correct ae" and "seal ae (Some bytes) key i kind c = Inr e" and "ae_nonce_size ae \<le> length bytes"
  shows "open_sealed ae key i kind e = (case marshal_credentials c of CredentialDoc d \<Rightarrow> Inr d | OtherPlaintext _ \<Rightarrow> Inl InvalidPlaintext)"
proof -
  let ?n = "take (ae_nonce_size ae) bytes"
  have e: "e = Envelope credential_envelope_version ?n
      (ae_seal ae key ?n (marshal_credentials c) (credential_aad i kind credential_envelope_version))"
    using assms(2) by (simp add: seal_def Let_def)
  have "ae_open ae key ?n (ae_seal ae key ?n (marshal_credentials c) a) a = Some (marshal_credentials c)" for a
    using assms(1) unfolding aead_correct_def by blast
  with assms(3) show ?thesis by (simp add: e open_sealed_def marshal_credentials_def)
qed

text \<open>Credentials that are UTF-8 come back from \<open>Open\<close> exactly as they were sealed, under the
  same master key and for the same host identity and kind; under another key, or for another host
  or kind, the envelope is refused.\<close>

theorem sealed_credentials_bound:
  assumes "aead_correct ae" and "aead_binding ae" and "ae_nonce_size ae \<le> length bytes"
    and "creds_valid c" and "utf8_valid i" and "utf8_valid kind" and "utf8_valid i'" and "utf8_valid kind'"
    and "seal ae (Some bytes) key i kind c = Inr e"
  shows "open_sealed ae key' i' kind' e =
     (if key' = key \<and> i' = i \<and> kind' = kind then Inr c else Inl DecryptionFailed)"
proof (cases "key' = key \<and> i' = i \<and> kind' = kind")
  case True
  with open_seal [OF assms(1,9,3)] assms(4) show ?thesis by (simp add: marshal_valid)
next
  case False
  let ?n = "take (ae_nonce_size ae) bytes" and ?v = credential_envelope_version
  let ?c = "ae_seal ae key ?n (marshal_credentials c) (credential_aad i kind ?v)"
  have e: "e = Envelope ?v ?n ?c" using assms(9) by (simp add: seal_def Let_def)
  have aad: "credential_aad i' kind' ?v = credential_aad i kind ?v \<longleftrightarrow> i' = i \<and> kind' = kind"
    using assms(5-8) by (simp add: credential_aad_def)
  have "ae_open ae key' ?n ?c (credential_aad i' kind' ?v) \<noteq> Some p" for p
  proof
    assume "ae_open ae key' ?n ?c (credential_aad i' kind' ?v) = Some p"
    then have "?c = ae_seal ae key' ?n p (credential_aad i' kind' ?v)"
      using assms(1) unfolding aead_correct_def by blast
    then have "key = key' \<and> credential_aad i kind ?v = credential_aad i' kind' ?v"
      using assms(2) unfolding aead_binding_def by blast
    with False aad show False by simp
  qed
  then have "ae_open ae key' ?n ?c (credential_aad i' kind' ?v) = None" using not_None_eq by blast
  with False assms(3) show ?thesis by (simp add: e open_sealed_def)
qed

text \<open>The symbolic cipher, a box that shows its key and additional data.\<close>

datatype box = Box string string plaintext aad

definition box_aead :: "box aead" where
  "box_aead = \<lparr> ae_seal = Box,
     ae_open = (\<lambda>k n c a. case c of Box k' n' p a' \<Rightarrow> if k' = k \<and> n' = n \<and> a' = a then Some p else None),
     ae_nonce_size = 12 \<rparr>"

lemma box_correct: "aead_correct box_aead"
  by (auto simp: aead_correct_def box_aead_def split: box.split)

lemma box_binding: "aead_binding box_aead"
  by (simp add: aead_binding_def box_aead_def)

definition demo_creds :: credentials where
  "demo_creds = \<lparr> cr_password = ''pw'', cr_private_key = [], cr_passphrase = [] \<rparr>"

lemma demo_creds_valid: "creds_valid demo_creds"
  by (simp add: creds_valid_def demo_creds_def ascii_utf8_valid ascii_def)

definition demo_key :: string where "demo_key = replicate 32 CHR ''k''"
definition demo_rand :: string where "demo_rand = replicate 12 CHR ''n''"

definition demo_envelope :: "box envelope" where
  "demo_envelope = Envelope 1 demo_rand (Box demo_key demo_rand (CredentialDoc demo_creds) (''h1'', ''password'', 1))"

lemma seal_demo: "seal box_aead (Some demo_rand) demo_key ''h1'' ''password'' demo_creds = Inr demo_envelope"
  by (simp add: seal_def Let_def box_aead_def demo_envelope_def credential_envelope_version_def marshal_valid
      [OF demo_creds_valid] credential_aad_def ascii_utf8_valid ascii_def demo_rand_def)

theorem sealed_credentials_bound_witness:
  "open_sealed box_aead demo_key ''h1'' ''password'' demo_envelope = Inr demo_creds
     \<and> open_sealed box_aead demo_key ''h2'' ''password'' demo_envelope = Inl DecryptionFailed"
proof -
  have valid: "utf8_valid ''h1''" "utf8_valid ''h2''" "utf8_valid ''password''"
    by (simp_all add: ascii_utf8_valid ascii_def)
  have nonce: "ae_nonce_size box_aead \<le> length demo_rand" by (simp add: box_aead_def demo_rand_def)
  note t = sealed_credentials_bound [OF box_correct box_binding nonce demo_creds_valid valid(1,3) _ valid(3) seal_demo]
  show ?thesis using t [OF valid(1), of demo_key] t [OF valid(2), of demo_key] by simp
qed

text \<open>A key that could not be fully written is refused ever after.\<close>

lemma torn_key_stays_refused:
  assumes "load_vault kf False KeyMissing = (Inl KeyWriteFailed, file)"
    and "kf_write kf = Some n" and "n < master_key_length"
  shows "load_vault kf' existing file = (Inl BadKeyLength, file)"
  using assms by (auto simp: load_vault_def Let_def new_vault_def split: if_splits option.splits)

end
