(* ===== verification/HostStore.thy ===== *)
theory HostStore
  imports Vault "HOL-Library.AList" "HOL-Library.List_Lexorder" "HOL-Library.Char_ord"
begin

text \<open>
  \<open>hub/internal/host/store.go\<close>: the durable store.  A database is the content of its tables; an
  operation is given the statements that fail, by their position (\<open>faults\<close>), and works on a copy
  that a commit installs.  A record's JSON column is \<open>Doc\<close> of the record it decodes to, or bytes
  that do not decode.  Revisions are natural numbers.
\<close>

section \<open>Records and tables\<close>

record 'c host_record =
  hr_id :: host_id
  hr_revision :: revision
  hr_conn_revision :: revision
  hr_name :: string
  hr_type :: conn_type
  hr_address :: string
  hr_port :: "16 word"
  hr_username :: string
  hr_cred_type :: string
  hr_credential :: "'c envelope option"
  hr_host_key :: string

record cleanup =
  cu_id :: string
  cu_host :: host_id
  cu_path :: string
  cu_token :: string
  cu_created :: int

definition max_pending_cleanups_per_host :: nat where "max_pending_cleanups_per_host = 50"
definition schema_version :: int where "schema_version = 2"
definition initial_revision :: revision where "initial_revision = 1"

datatype 'c blob = Doc "'c host_record" | Garbage

record 'c host_row =
  rw_revision :: revision
  rw_type :: conn_type
  rw_blob :: "'c blob"

record 'c host_db =
  db_version :: int
  db_tables :: bool
  db_hosts :: "(host_id \<times> 'c host_row) list"
  db_settings :: "(host_id option \<times> revision) option"
  db_initialized :: bool
  db_marks :: "(host_id \<times> revision \<times> revision) list"
  db_cleanups :: "cleanup list"

record settings =
  st_default :: "host_id option"
  st_revision :: revision

datatype store_error =
    SqlError
  | HostCode host_code
  | StoreMessage string
  | StoreOwned
  | VaultFailed vault_error

type_synonym faults = "nat \<Rightarrow> bool"

text \<open>\<open>json.Marshal\<close> of a record, as what it decodes to.\<close>

definition json_type :: "conn_type \<Rightarrow> conn_type" where
  "json_type t = (case t of ConnOther s \<Rightarrow> ConnOther (json_text s) | _ \<Rightarrow> t)"

definition json_record :: "'c host_record \<Rightarrow> 'c host_record" where
  "json_record r =
     r\<lparr> hr_id := json_text (hr_id r), hr_name := json_text (hr_name r), hr_type := json_type (hr_type r),
        hr_address := json_text (hr_address r), hr_username := json_text (hr_username r),
        hr_cred_type := json_text (hr_cred_type r) \<rparr>"

definition no_type :: conn_type where "no_type = ConnOther []"

definition default_type :: "host_id \<Rightarrow> conn_type \<Rightarrow> conn_type" where
  "default_type i t = (if t = no_type then if i = local_id then ConnLocal else ConnSSH else t)"

definition typed :: "'c host_record \<Rightarrow> 'c host_record" where
  "typed r = r\<lparr>hr_type := default_type (hr_id r) (hr_type r)\<rparr>"

definition local_record :: "'c host_record" where
  "local_record =
     \<lparr> hr_id = local_id, hr_revision = initial_revision, hr_conn_revision = initial_revision, hr_name = ''Local'',
       hr_type = ConnLocal, hr_address = [], hr_port = 0, hr_username = [], hr_cred_type = [], hr_credential = None,
       hr_host_key = [] \<rparr>"

definition row_of :: "'c host_record \<Rightarrow> 'c host_row" where
  "row_of r = \<lparr> rw_revision = hr_revision r, rw_type = hr_type r, rw_blob = Doc (json_record r) \<rparr>"

text \<open>The upsert of \<open>revision_watermarks\<close>.\<close>

definition raise_mark ::
  "host_id \<Rightarrow> revision \<Rightarrow> revision \<Rightarrow> (host_id \<times> revision \<times> revision) list \<Rightarrow> (host_id \<times> revision \<times> revision) list" where
  "raise_mark i r c m =
     AList.update i (case map_of m i of None \<Rightarrow> (r, c) | Some (r0, c0) \<Rightarrow> (max r0 r, max c0 c)) m"

section \<open>Schema\<close>

text \<open>The tables of a new database, and \<open>initializeFreshDatabase\<close>.\<close>

definition empty_db :: "'c host_db" where
  "empty_db = \<lparr> db_version = 0, db_tables = False, db_hosts = [], db_settings = None, db_initialized = False,
     db_marks = [], db_cleanups = [] \<rparr>"

definition fresh_db :: "'c host_db" where
  "fresh_db = \<lparr> db_version = 2, db_tables = True, db_hosts = [(local_id, row_of local_record)],
     db_settings = Some (Some local_id, 1), db_initialized = True, db_marks = [(local_id, 1, 1)], db_cleanups = [] \<rparr>"

definition initialize_fresh_database :: "faults \<Rightarrow> 'c host_db \<Rightarrow> (store_error + unit) \<times> 'c host_db" where
  "initialize_fresh_database f d =
     (if f 0 then (Inl SqlError, d)
      else if db_tables d then (Inl (StoreMessage ''unrecognized host state database''), d)
      else if list_ex f [1, 2, 3, 4, 5, 6, 7, 8] then (Inl SqlError, d)
      else (Inr (), fresh_db))"

text \<open>\<open>readV1Hosts\<close>: every row with its record, its type defaulted.\<close>

fun read_v1_hosts :: "(host_id \<times> 'c host_row) list \<Rightarrow> store_error + (host_id \<times> revision \<times> 'c host_record) list" where
  "read_v1_hosts [] = Inr []"
| "read_v1_hosts ((i, w) # rows) =
     (case rw_blob w of
        Garbage \<Rightarrow> Inl (StoreMessage ''unmarshal host'')
      | Doc r \<Rightarrow>
          rbind (read_v1_hosts rows) (\<lambda>xs.
            Inr ((i, rw_revision w, r\<lparr>hr_type := if hr_type r = no_type then ConnSSH else hr_type r\<rparr>) # xs)))"

fun migrate_rows ::
  "faults \<Rightarrow> nat \<Rightarrow> (host_id \<times> revision \<times> 'c host_record) list \<Rightarrow> 'c host_db \<Rightarrow> store_error + 'c host_db" where
  "migrate_rows f k [] d = Inr d"
| "migrate_rows f k ((i, rv, r) # rs) d =
     (if f k \<or> f (Suc k) then Inl SqlError
      else migrate_rows f (k + 2) rs
        (d\<lparr> db_hosts := (case map_of (db_hosts d) i of
               None \<Rightarrow> db_hosts d
             | Some w \<Rightarrow> AList.update i (w\<lparr> rw_type := ConnSSH, rw_blob := Doc (json_record r) \<rparr>) (db_hosts d)),
            db_marks := AList.update i (rv, hr_conn_revision r) (db_marks d) \<rparr>))"

definition bootstrap_local_host_v1 :: "faults \<Rightarrow> 'c host_db \<Rightarrow> store_error + 'c host_db" where
  "bootstrap_local_host_v1 f d =
     (if f 3 then Inl SqlError
      else if map_of (db_hosts d) local_id \<noteq> None then Inr d
      else if f 4 \<or> f 5 then Inl SqlError
      else Inr (d\<lparr> db_hosts := db_hosts d @ [(local_id, row_of local_record)],
                   db_marks := AList.update local_id (1, 1) (db_marks d) \<rparr>))"

definition validate_migrated_credentials ::
  "('c host_record \<Rightarrow> store_error option) option \<Rightarrow> (host_id \<times> revision \<times> 'c host_record) list \<Rightarrow> store_error option" where
  "validate_migrated_credentials validator rs =
     (case validator of
        None \<Rightarrow> None
      | Some v \<Rightarrow>
          List.find (\<lambda>e. True)
            (List.map_filter (\<lambda>(i, rv, r). if hr_credential r = None then None else v (json_record r)) rs))"

text \<open>\<open>migrateDatabaseV1ToV2\<close>: the statements of the rows are numbered from 20.\<close>

definition migrate_v1_to_v2 ::
  "faults \<Rightarrow> ('c host_record \<Rightarrow> store_error option) option \<Rightarrow> 'c host_db \<Rightarrow> (store_error + unit) \<times> 'c host_db" where
  "migrate_v1_to_v2 f validator d =
     (if f 0 \<or> f 1 \<or> f 2 then (Inl SqlError, d)
      else (case read_v1_hosts (db_hosts d) of
          Inl e \<Rightarrow> (Inl e, d)
        | Inr rs \<Rightarrow>
            (case migrate_rows f 20 rs d of
               Inl e \<Rightarrow> (Inl e, d)
             | Inr d1 \<Rightarrow>
                 (case bootstrap_local_host_v1 f d1 of
                    Inl e \<Rightarrow> (Inl e, d)
                  | Inr d2 \<Rightarrow>
                      if f 6 \<or> f 7 then (Inl SqlError, d)
                      else (case validate_migrated_credentials validator rs of
                          Some e \<Rightarrow> (Inl e, d)
                        | None \<Rightarrow>
                            if f 8 \<or> f 9 then (Inl SqlError, d)
                            else (Inr (), d2\<lparr> db_settings := (case db_settings d2 of
                                       None \<Rightarrow> Some (Some local_id, 1) | Some s \<Rightarrow> Some s),
                                   db_initialized := True, db_version := 2 \<rparr>))))))"

section \<open>Opening\<close>

datatype file_shape = Absent | PrivateRegular | Exposed | StatFails

definition private_file :: "bool \<Rightarrow> file_shape \<Rightarrow> (store_error + unit) \<times> file_shape" where
  "private_file fails shape =
     (case shape of
        Exposed \<Rightarrow> (Inl (StoreMessage ''host state file must be private and regular''), shape)
      | StatFails \<Rightarrow> (Inl (StoreMessage ''lstat''), shape)
      | _ \<Rightarrow> if fails then (Inl (StoreMessage ''open''), shape) else (Inr (), PrivateRegular))"

text \<open>A backup file: none, one whose write failed, or a copy of the database.\<close>

datatype 'c backup = NoBackup | TornBackup | BackupOf "'c host_db"

text \<open>The state directory; \<open>sd_owned\<close> says that a Hub holds the lock.\<close>

record 'c state_dir =
  sd_private :: bool
  sd_owned :: bool
  sd_lock :: file_shape
  sd_file :: file_shape
  sd_db :: "'c host_db"
  sd_backup :: "'c backup"

record open_faults =
  of_dir :: bool
  of_lock :: bool
  of_file :: bool
  of_version :: bool
  of_read :: bool
  of_write :: bool
  of_sql :: faults

definition verify_state_directory :: "open_faults \<Rightarrow> 'c state_dir \<Rightarrow> (store_error + unit) \<times> 'c state_dir" where
  "verify_state_directory ov s =
     (if of_dir ov then (Inl (StoreMessage ''host state directory''), s)
      else if \<not> sd_private s then (Inl (StoreMessage ''host state directory must be private''), s)
      else (case private_file (of_lock ov) (sd_lock s) of
          (Inl e, shape) \<Rightarrow> (Inl e, s\<lparr>sd_lock := shape\<rparr>)
        | (Inr _, shape) \<Rightarrow>
            if sd_owned s then (Inl StoreOwned, s\<lparr>sd_lock := shape\<rparr>)
            else (Inr (), s\<lparr> sd_lock := shape, sd_owned := True \<rparr>)))"

definition backup_state :: "open_faults \<Rightarrow> 'c state_dir \<Rightarrow> (store_error + unit) \<times> 'c state_dir" where
  "backup_state ov s =
     (if of_read ov then (Inl (StoreMessage ''migration backup''), s)
      else if of_write ov then (Inl (StoreMessage ''migration backup''), s\<lparr>sd_backup := TornBackup\<rparr>)
      else (Inr (), s\<lparr>sd_backup := BackupOf (sd_db s)\<rparr>))"

text \<open>\<open>OpenStore\<close> once the lock is held; the flag says whether a backup was created.\<close>

definition open_locked ::
  "open_faults \<Rightarrow> ('c host_record \<Rightarrow> store_error option) option \<Rightarrow> 'c state_dir \<Rightarrow> (store_error + unit) \<times> bool \<times> 'c state_dir" where
  "open_locked ov validator s =
     (case private_file (of_file ov) (sd_file s) of
        (Inl e, shape) \<Rightarrow> (Inl e, False, s\<lparr>sd_file := shape\<rparr>)
      | (Inr _, shape) \<Rightarrow>
          (let s = s\<lparr>sd_file := shape\<rparr>; v = db_version (sd_db s) in
           if of_version ov then (Inl SqlError, False, s)
           else if v > schema_version then (Inl (StoreMessage ''unsupported host state schema''), False, s)
           else if v = 0 then
             (case initialize_fresh_database (of_sql ov) (sd_db s) of (r, d) \<Rightarrow> (r, False, s\<lparr>sd_db := d\<rparr>))
           else if v < schema_version then
             (case backup_state ov s of
                (Inl e, s) \<Rightarrow> (Inl e, False, s)
              | (Inr _, s) \<Rightarrow>
                  if v = 1 then
                    (case migrate_v1_to_v2 (of_sql ov) validator (sd_db s) of (r, d) \<Rightarrow> (r, True, s\<lparr>sd_db := d\<rparr>))
                  else (Inr (), True, s))
           else (Inr (), False, s)))"

text \<open>\<open>OpenStore\<close>, with the deferred cleanup of a failure.\<close>

definition open_store ::
  "open_faults \<Rightarrow> ('c host_record \<Rightarrow> store_error option) option \<Rightarrow> 'c state_dir \<Rightarrow> (store_error + unit) \<times> 'c state_dir" where
  "open_store ov validator s =
     (case verify_state_directory ov s of
        (Inl e, s) \<Rightarrow> (Inl e, s)
      | (Inr _, s) \<Rightarrow>
          (case open_locked ov validator s of
             (Inr _, _, s) \<Rightarrow> (Inr (), s)
           | (Inl e, created, s) \<Rightarrow>
               (Inl e, s\<lparr> sd_owned := False, sd_backup := if created then NoBackup else sd_backup s \<rparr>)))"

section \<open>Records\<close>

definition decode_row :: "'c host_row \<Rightarrow> store_error + 'c host_record" where
  "decode_row w =
     (case rw_blob w of Garbage \<Rightarrow> Inl (StoreMessage ''corrupt host record'') | Doc r \<Rightarrow> Inr (typed r))"

fun decode_rows :: "'c host_row list \<Rightarrow> store_error + 'c host_record list" where
  "decode_rows [] = Inr []"
| "decode_rows (w # ws) = rbind (decode_row w) (\<lambda>r. rbind (decode_rows ws) (\<lambda>rs. Inr (r # rs)))"

definition store_list :: "faults \<Rightarrow> 'c host_db \<Rightarrow> store_error + 'c host_record list" where
  "store_list f d = (if f 0 then Inl SqlError else decode_rows (map snd (sort_key fst (db_hosts d))))"

definition store_get :: "faults \<Rightarrow> host_id \<Rightarrow> 'c host_db \<Rightarrow> store_error + 'c host_record" where
  "store_get f i d =
     (if f 0 then Inl SqlError
      else (case map_of (db_hosts d) i of None \<Rightarrow> Inl (HostCode HostNotFound) | Some w \<Rightarrow> decode_row w))"

definition validate_put_record :: "'c host_record \<Rightarrow> revision \<Rightarrow> store_error option" where
  "validate_put_record r expected =
     (if hr_id r = [] \<or> hr_revision r = 0 \<or> hr_conn_revision r = 0 \<or> hr_conn_revision r > hr_revision r
        then Some (StoreMessage ''invalid host revision or identity'')
      else if expected > 0 \<and> hr_revision r \<noteq> Suc expected
        then Some (StoreMessage ''invalid host revision or identity'')
      else if hr_type r \<noteq> ConnLocal \<and> hr_type r \<noteq> ConnSSH then Some (StoreMessage ''invalid connection type'')
      else None)"

definition local_rows :: "(host_id \<times> 'c host_row) list \<Rightarrow> (host_id \<times> 'c host_row) list" where
  "local_rows hs = filter (\<lambda>(i, w). rw_type w = ConnLocal) hs"

definition upsert_host_record :: "faults \<Rightarrow> 'c host_record \<Rightarrow> revision \<Rightarrow> 'c host_db \<Rightarrow> store_error + 'c host_db" where
  "upsert_host_record f r expected d =
     (let hs = db_hosts d; i = hr_id r;
          clash = (hr_type r = ConnLocal \<and> list_ex (\<lambda>(j, w). j \<noteq> i) (local_rows hs)) in
      if hr_type r = ConnLocal \<and> expected = 0 \<and> f 1 then Inl SqlError
      else if hr_type r = ConnLocal \<and> expected = 0 \<and> local_rows hs \<noteq> [] then Inl (HostCode DuplicateLocal)
      else if f 2 then Inl SqlError
      else if expected = 0 then
        (if map_of hs i \<noteq> None then Inl (HostCode StaleRevision)
         else if clash then Inl (StoreMessage ''local host already registered'')
         else Inr (d\<lparr>db_hosts := hs @ [(i, row_of r)]\<rparr>))
      else (case map_of hs i of
          None \<Rightarrow> Inl (HostCode StaleRevision)
        | Some w \<Rightarrow>
            if rw_revision w \<noteq> expected then Inl (HostCode StaleRevision)
            else if clash then Inl (StoreMessage ''local host already registered'')
            else Inr (d\<lparr>db_hosts := AList.update i (row_of r) hs\<rparr>)))"

definition store_put :: "faults \<Rightarrow> 'c host_record \<Rightarrow> revision \<Rightarrow> 'c host_db \<Rightarrow> (store_error + unit) \<times> 'c host_db" where
  "store_put f r0 expected d =
     (let r = typed r0 in
      case validate_put_record r expected of
        Some e \<Rightarrow> (Inl e, d)
      | None \<Rightarrow>
          if f 0 then (Inl SqlError, d)
          else (case upsert_host_record f r expected d of
              Inl e \<Rightarrow> (Inl e, d)
            | Inr d' \<Rightarrow>
                if f 3 \<or> f 4 then (Inl SqlError, d)
                else (Inr (), d'\<lparr>db_marks := raise_mark (hr_id r) (hr_revision r) (hr_conn_revision r) (db_marks d')\<rparr>)))"

definition store_delete :: "faults \<Rightarrow> host_id \<Rightarrow> revision \<Rightarrow> 'c host_db \<Rightarrow> (store_error + unit) \<times> 'c host_db" where
  "store_delete f i expected d =
     (if f 0 \<or> f 1 then (Inl SqlError, d)
      else (case map_of (db_hosts d) i of
          None \<Rightarrow> (Inl (HostCode StaleRevision), d)
        | Some w \<Rightarrow>
            if rw_revision w \<noteq> expected then (Inl (HostCode StaleRevision), d)
            else (let marks = (case rw_blob w of
                        Garbage \<Rightarrow> db_marks d
                      | Doc r \<Rightarrow> raise_mark (hr_id r) (hr_revision r) (hr_conn_revision r) (db_marks d)) in
              if rw_blob w \<noteq> Garbage \<and> f 2 \<or> f 3 \<or> f 4 \<or> f 5 then (Inl SqlError, d)
              else (Inr (), d\<lparr> db_hosts := AList.delete i (db_hosts d), db_marks := marks,
                     db_settings := map_option (\<lambda>(h, r). if h = Some i then (None, Suc r) else (h, r)) (db_settings d) \<rparr>))))"

section \<open>Settings and revisions\<close>

definition get_settings :: "faults \<Rightarrow> 'c host_db \<Rightarrow> store_error + settings" where
  "get_settings f d =
     (if f 0 then Inl SqlError
      else (case db_settings d of
          None \<Rightarrow> Inr \<lparr> st_default = None, st_revision = 1 \<rparr>
        | Some (h, r) \<Rightarrow> Inr \<lparr> st_default = (if h = Some [] then None else h), st_revision = r \<rparr>))"

definition update_default_host ::
  "faults \<Rightarrow> host_id option \<Rightarrow> revision \<Rightarrow> 'c host_db \<Rightarrow> (store_error + settings) \<times> 'c host_db" where
  "update_default_host f h expected d =
     (if f 0 \<or> f 1 then (Inl SqlError, d)
      else (let (cur, inserts) = (case db_settings d of None \<Rightarrow> (1, True) | Some (_, r) \<Rightarrow> (r, False));
                named = (case h of None \<Rightarrow> None | Some i \<Rightarrow> if i = [] then None else Some i) in
        if inserts \<and> f 2 then (Inl SqlError, d)
        else if expected = 0 \<or> cur \<noteq> expected then (Inl (HostCode StaleRevision), d)
        else if named \<noteq> None \<and> f 3 then (Inl SqlError, d)
        else if named \<noteq> None \<and> map_of (db_hosts d) (the named) = None then (Inl (HostCode HostNotFound), d)
        else if f 4 \<or> f 5 then (Inl SqlError, d)
        else (Inr \<lparr> st_default = h, st_revision = Suc cur \<rparr>, d\<lparr>db_settings := Some (named, Suc cur)\<rparr>)))"

text \<open>\<open>NextRevisions\<close>: a failed query leaves its targets unset, which is the first case of the code.\<close>

definition next_revisions :: "faults \<Rightarrow> host_id \<Rightarrow> 'c host_db \<Rightarrow> revision \<times> revision" where
  "next_revisions f i d =
     (if f 0 then (1, 1)
      else (case map_of (db_marks d) i of
          None \<Rightarrow> (1, 1)
        | Some (r, c) \<Rightarrow> if r = 0 then (1, 1) else (Suc r, Suc c)))"

section \<open>Pending cleanups\<close>

definition of_host :: "host_id \<Rightarrow> cleanup list \<Rightarrow> cleanup list" where
  "of_host h cs = filter (\<lambda>c. cu_host c = h) cs"

fun upsert_cleanup :: "cleanup \<Rightarrow> cleanup list \<Rightarrow> cleanup list" where
  "upsert_cleanup c [] = [c]"
| "upsert_cleanup c (x # xs) =
     (if cu_id x = cu_id c
        then x\<lparr> cu_path := cu_path c, cu_token := cu_token c, cu_created := cu_created c \<rparr> # xs
      else x # upsert_cleanup c xs)"

definition add_pending_cleanup :: "faults \<Rightarrow> int \<Rightarrow> cleanup \<Rightarrow> 'c host_db \<Rightarrow> (store_error + unit) \<times> 'c host_db" where
  "add_pending_cleanup f now c0 d =
     (if cu_id c0 = [] \<or> cu_host c0 = [] \<or> cu_path c0 = [] \<or> cu_token c0 = []
        then (Inl (StoreMessage ''invalid pending cleanup record''), d)
      else (let c = (if cu_created c0 = 0 then c0\<lparr>cu_created := now\<rparr> else c0);
                cs = db_cleanups d; mine = of_host (cu_host c) cs; n = length mine;
                full = (n \<ge> max_pending_cleanups_per_host);
                old = map cu_id (take (n - max_pending_cleanups_per_host + 1) (sort_key cu_created mine));
                kept = (if full then filter (\<lambda>x. cu_id x \<notin> set old) cs else cs) in
        if f 0 \<or> f 1 \<or> full \<and> f 2 \<or> f 3 \<or> f 4 then (Inl SqlError, d)
        else (Inr (), d\<lparr>db_cleanups := upsert_cleanup c kept\<rparr>)))"

definition remove_pending_cleanup :: "faults \<Rightarrow> string \<Rightarrow> 'c host_db \<Rightarrow> (store_error + unit) \<times> 'c host_db" where
  "remove_pending_cleanup f i d =
     (if f 0 then (Inl SqlError, d)
      else (Inr (), d\<lparr>db_cleanups := filter (\<lambda>c. cu_id c \<noteq> i) (db_cleanups d)\<rparr>))"

definition list_pending_cleanups :: "faults \<Rightarrow> host_id \<Rightarrow> 'c host_db \<Rightarrow> store_error + cleanup list" where
  "list_pending_cleanups f h d =
     (if f 0 then Inl SqlError
      else Inr (sort_key cu_created (if h = [] then db_cleanups d else of_host h (db_cleanups d))))"

end
