(* ===== verification/HostRegistry.thy ===== *)
theory HostRegistry
  imports HostStore
begin

text \<open>
  \<open>hub/internal/host/registry.go\<close>: the registry over the store and the vault.  \<open>rg_disk\<close> and
  \<open>rg_key_file\<close> are the state directory and the master key on disk; \<open>rg_vault\<close> is the key while the
  store is open.  The mutex makes each operation one step.
\<close>

section \<open>Hosts as replies show them\<close>

record host_view =
  hv_id :: host_id
  hv_revision :: revision
  hv_conn_revision :: revision
  hv_name :: string
  hv_type :: conn_type
  hv_address :: string
  hv_port :: "16 word"
  hv_username :: string
  hv_cred_type :: string
  hv_has_credential :: bool
  hv_trusted :: bool

definition project :: "'c host_record \<Rightarrow> host_view" where
  "project r =
     (let t = default_type (hr_id r) (hr_type r); ssh = (t = ConnSSH) in
      \<lparr> hv_id = hr_id r, hv_revision = hr_revision r, hv_conn_revision = hr_conn_revision r, hv_name = hr_name r,
        hv_type = t, hv_address = (if ssh then hr_address r else []), hv_port = (if ssh then hr_port r else 0),
        hv_username = (if ssh then hr_username r else []), hv_cred_type = (if ssh then hr_cred_type r else []),
        hv_has_credential = (ssh \<and> hr_credential r \<noteq> None), hv_trusted = (ssh \<and> hr_host_key r \<noteq> []) \<rparr>)"

definition local_view :: host_view where
  "local_view =
     \<lparr> hv_id = local_id, hv_revision = local_revision, hv_conn_revision = local_revision, hv_name = ''Local'',
       hv_type = ConnLocal, hv_address = [], hv_port = 0, hv_username = [], hv_cred_type = [],
       hv_has_credential = False, hv_trusted = False \<rparr>"

record host_input =
  hi_id :: host_id
  hi_type :: conn_type
  hi_name :: string
  hi_address :: string
  hi_port :: "16 word"
  hi_username :: string
  hi_cred_type :: string
  hi_credentials :: credentials
  hi_host_key :: string
  hi_challenge :: string

definition cred_password :: string where "cred_password = ''password''"
definition cred_private_key :: string where "cred_private_key = ''privateKey''"

definition id_char :: "char \<Rightarrow> bool" where
  "id_char c \<longleftrightarrow> (CHR ''a'' \<le> c \<and> c \<le> CHR ''z'') \<or> (CHR ''A'' \<le> c \<and> c \<le> CHR ''Z'')
     \<or> (CHR ''0'' \<le> c \<and> c \<le> CHR ''9'') \<or> c = CHR ''-'' \<or> c = CHR ''_''"

definition valid_host_id :: "host_id \<Rightarrow> bool" where
  "valid_host_id i \<longleftrightarrow> 0 < length i \<and> length i \<le> 64 \<and> list_all id_char i"

definition has_secret_fields :: "credentials \<Rightarrow> bool" where
  "has_secret_fields c \<longleftrightarrow> cr_password c \<noteq> [] \<or> cr_private_key c \<noteq> [] \<or> cr_passphrase c \<noteq> []"

definition has_irrelevant_local_fields :: "host_input \<Rightarrow> bool" where
  "has_irrelevant_local_fields h \<longleftrightarrow>
     hi_address h \<noteq> [] \<or> hi_port h \<noteq> 0 \<or> hi_username h \<noteq> [] \<or> hi_cred_type h \<noteq> []
     \<or> has_secret_fields (hi_credentials h) \<or> hi_host_key h \<noteq> [] \<or> hi_challenge h \<noteq> []"

section \<open>Saving\<close>

text \<open>The failures of one save: of its query for revisions, of its read of the old record, of the
  statements of \<open>Put\<close>, and the random bytes.\<close>

record save_faults =
  sf_next :: bool
  sf_get :: bool
  sf_put :: faults
  sf_rand :: "string option"

definition seal_input_credential ::
  "'c aead \<Rightarrow> string option \<Rightarrow> string \<Rightarrow> host_id \<Rightarrow> string \<Rightarrow> credentials \<Rightarrow> store_error + 'c envelope option" where
  "seal_input_credential ae rand key i kind c =
     (if kind = [] then Inr None
      else if kind \<noteq> cred_password \<and> kind \<noteq> cred_private_key then Inl (StoreMessage ''invalid credential type'')
      else if kind = cred_password \<and> cr_password c = [] \<or> kind = cred_private_key \<and> cr_private_key c = []
        then Inl (StoreMessage ''credentials required for configured credential type'')
      else (case seal ae rand key i kind c of Inl e \<Rightarrow> Inl (VaultFailed e) | Inr e \<Rightarrow> Inr (Some e)))"

definition put_and_project :: "faults \<Rightarrow> 'c host_record \<Rightarrow> revision \<Rightarrow> 'c host_db \<Rightarrow> (store_error + host_view) \<times> 'c host_db" where
  "put_and_project f r expected d =
     (case store_put f r expected d of (Inl e, d') \<Rightarrow> (Inl e, d') | (Inr _, d') \<Rightarrow> (Inr (project r), d'))"

definition plain_local :: "host_id \<Rightarrow> revision \<Rightarrow> revision \<Rightarrow> string \<Rightarrow> 'c host_record" where
  "plain_local i r c name =
     \<lparr> hr_id = i, hr_revision = r, hr_conn_revision = c, hr_name = name, hr_type = ConnLocal, hr_address = [],
       hr_port = 0, hr_username = [], hr_cred_type = [], hr_credential = None, hr_host_key = [] \<rparr>"

definition save_new ::
  "'c aead \<Rightarrow> string \<Rightarrow> save_faults \<Rightarrow> host_input \<Rightarrow> string \<Rightarrow> 'c host_db \<Rightarrow> (store_error + host_view) \<times> 'c host_db" where
  "save_new ae key sf h name d =
     (let t = (if hi_type h = no_type then if hi_address h \<noteq> [] \<or> hi_cred_type h \<noteq> [] then ConnSSH else ConnLocal
               else hi_type h) in
      if t \<noteq> ConnLocal \<and> t \<noteq> ConnSSH then (Inl (StoreMessage ''invalid connection type''), d)
      else (let (r, c) = next_revisions (\<lambda>_. sf_next sf) (hi_id h) d in
        if t = ConnLocal then
          (if has_irrelevant_local_fields h then (Inl (StoreMessage ''irrelevant fields for local host''), d)
           else put_and_project (sf_put sf) (plain_local (hi_id h) r c name) 0 d)
        else (let addr = trim_space (hi_address h); user = trim_space (hi_username h);
                  port = (if hi_port h = 0 then 22 else hi_port h) in
          if addr = [] then (Inl (StoreMessage ''host address cannot be empty''), d)
          else if user = [] then (Inl (StoreMessage ''host username cannot be empty''), d)
          else (case seal_input_credential ae (sf_rand sf) key (hi_id h) (hi_cred_type h) (hi_credentials h) of
              Inl e \<Rightarrow> (Inl e, d)
            | Inr cred \<Rightarrow>
                put_and_project (sf_put sf)
                  \<lparr> hr_id = hi_id h, hr_revision = r, hr_conn_revision = c, hr_name = name, hr_type = ConnSSH,
                    hr_address = addr, hr_port = port, hr_username = user, hr_cred_type = hi_cred_type h,
                    hr_credential = cred, hr_host_key = hi_host_key h \<rparr> 0 d))))"

definition resolve_credential_update ::
  "'c aead \<Rightarrow> string \<Rightarrow> string option \<Rightarrow> host_input \<Rightarrow> 'c host_record
     \<Rightarrow> store_error + string \<times> 'c envelope option \<times> bool" where
  "resolve_credential_update ae key rand h old =
     (if has_secret_fields (hi_credentials h) then
        (let kind = (if hi_cred_type h \<noteq> [] then hi_cred_type h else hr_cred_type old) in
         rbind (seal_input_credential ae rand key (hi_id h) kind (hi_credentials h)) (\<lambda>e. Inr (kind, e, True)))
      else if hi_cred_type h \<noteq> [] \<and> hi_cred_type h \<noteq> hr_cred_type old
        then Inl (StoreMessage ''cannot change credential type without supplying replacement credentials'')
      else Inr (hr_cred_type old, hr_credential old, False))"

definition resolve_host_key_update :: "string \<Rightarrow> string \<Rightarrow> bool \<Rightarrow> string \<times> bool" where
  "resolve_host_key_update input_key old_key endpoint_changed =
     (if input_key \<noteq> [] then (input_key, input_key \<noteq> old_key)
      else if endpoint_changed then ([], old_key \<noteq> [])
      else (old_key, False))"

definition save_update_ssh ::
  "'c aead \<Rightarrow> string \<Rightarrow> save_faults \<Rightarrow> host_input \<Rightarrow> string \<Rightarrow> 'c host_record \<Rightarrow> revision \<Rightarrow> 'c host_db
     \<Rightarrow> (store_error + host_view) \<times> 'c host_db" where
  "save_update_ssh ae key sf h name old expected d =
     (let addr = (let a = trim_space (hi_address h) in if a = [] then hr_address old else a);
          user = (let u = trim_space (hi_username h) in if u = [] then hr_username old else u);
          port = (if hi_port h \<noteq> 0 then hi_port h else if hr_port old \<noteq> 0 then hr_port old else 22) in
      case resolve_credential_update ae key (sf_rand sf) h old of
        Inl e \<Rightarrow> (Inl e, d)
      | Inr (kind, cred, cred_changed) \<Rightarrow>
          (let endpoint_changed = (addr \<noteq> hr_address old \<or> port \<noteq> hr_port old);
               (host_key, trust_changed) = resolve_host_key_update (hi_host_key h) (hr_host_key old) endpoint_changed;
               r = Suc (hr_revision old);
               c = (if endpoint_changed \<or> user \<noteq> hr_username old \<or> cred_changed \<or> trust_changed then r
                    else hr_conn_revision old) in
           put_and_project (sf_put sf)
             \<lparr> hr_id = hi_id h, hr_revision = r, hr_conn_revision = c, hr_name = name, hr_type = ConnSSH,
               hr_address = addr, hr_port = port, hr_username = user, hr_cred_type = kind, hr_credential = cred,
               hr_host_key = host_key \<rparr> expected d))"

definition save_update ::
  "'c aead \<Rightarrow> string \<Rightarrow> save_faults \<Rightarrow> host_input \<Rightarrow> string \<Rightarrow> revision \<Rightarrow> 'c host_db
     \<Rightarrow> (store_error + host_view) \<times> 'c host_db" where
  "save_update ae key sf h name expected d =
     (case store_get (\<lambda>_. sf_get sf) (hi_id h) d of
        Inl e \<Rightarrow> (Inl e, d)
      | Inr old \<Rightarrow>
          if hr_revision old \<noteq> expected then (Inl (HostCode StaleRevision), d)
          else (let t = default_type (hr_id old) (hr_type old) in
            if hi_type h \<noteq> no_type \<and> hi_type h \<noteq> t then (Inl (StoreMessage ''cannot change host connection type''), d)
            else if t = ConnLocal then
              (if has_irrelevant_local_fields h then (Inl (StoreMessage ''irrelevant fields for local host''), d)
               else put_and_project (sf_put sf)
                      (plain_local (hi_id h) (Suc (hr_revision old)) (hr_conn_revision old) name) expected d)
            else save_update_ssh ae key sf h name old expected d))"

text \<open>\<open>Save\<close> on the open store.\<close>

definition save_in ::
  "'c aead \<Rightarrow> string \<Rightarrow> save_faults \<Rightarrow> host_input \<Rightarrow> revision \<Rightarrow> 'c host_db \<Rightarrow> (store_error + host_view) \<times> 'c host_db" where
  "save_in ae key sf h expected d =
     (let name = trim_space (hi_name h) in
      if \<not> valid_host_id (hi_id h) then (Inl (StoreMessage ''invalid host identifier''), d)
      else if name = [] then (Inl (StoreMessage ''host name cannot be empty''), d)
      else if expected = 0 then save_new ae key sf h name d
      else save_update ae key sf h name expected d)"

section \<open>The registry\<close>

record 'c registry =
  rg_directory :: string
  rg_disk :: "'c state_dir"
  rg_key_file :: key_file
  rg_vault :: "string option"
  rg_closed :: bool

record init_env =
  ie_open :: open_faults
  ie_key :: key_faults
  ie_list :: bool

definition verify_store_credentials :: "'c aead \<Rightarrow> string \<Rightarrow> bool \<Rightarrow> 'c host_db \<Rightarrow> store_error option" where
  "verify_store_credentials ae key list_fails d =
     (case store_list (\<lambda>_. list_fails) d of
        Inl e \<Rightarrow> Some e
      | Inr rs \<Rightarrow>
          List.find (\<lambda>e. True)
            (List.map_filter (\<lambda>r. case hr_credential r of None \<Rightarrow> None
               | Some e \<Rightarrow> (case open_sealed ae key (hr_id r) (hr_cred_type r) e of
                   Inl x \<Rightarrow> Some (VaultFailed x) | Inr _ \<Rightarrow> None)) rs))"

definition credential_validator :: "'c aead \<Rightarrow> string \<Rightarrow> 'c host_record \<Rightarrow> store_error option" where
  "credential_validator ae key r =
     (case hr_credential r of None \<Rightarrow> None
      | Some e \<Rightarrow> (case open_sealed ae key (hr_id r) (hr_cred_type r) e of
          Inl x \<Rightarrow> Some (VaultFailed x) | Inr _ \<Rightarrow> None))"

definition close_disk :: "'c state_dir \<Rightarrow> 'c state_dir" where
  "close_disk s = s\<lparr>sd_owned := False\<rparr>"

definition initialize :: "'c aead \<Rightarrow> init_env \<Rightarrow> 'c registry \<Rightarrow> (store_error + unit) \<times> 'c registry" where
  "initialize ae env g =
     (if rg_closed g then (Inl (StoreMessage ''host registry is closed''), g)
      else if rg_vault g \<noteq> None then (Inr (), g)
      else if rg_directory g = [] then (Inl (StoreMessage ''default host state directory unavailable''), g)
      else if sd_file (rg_disk g) = StatFails then (Inl (StoreMessage ''lstat''), g)
      else (let existing = (sd_file (rg_disk g) \<noteq> Absent);
                early = (if existing then fst (load_vault (ie_key env) True (rg_key_file g)) else Inr []) in
        case early of
          Inl e \<Rightarrow> (Inl (VaultFailed e), g)
        | Inr key0 \<Rightarrow>
            (case open_store (ie_open env) (if existing then Some (credential_validator ae key0) else None) (rg_disk g) of
               (Inl e, disk) \<Rightarrow> (Inl e, g\<lparr>rg_disk := disk\<rparr>)
             | (Inr _, disk) \<Rightarrow>
                 (let (loaded, kfile) = (if existing then (Inr key0, rg_key_file g)
                        else load_vault (ie_key env) False (rg_key_file g)) in
                  case loaded of
                    Inl e \<Rightarrow> (Inl (VaultFailed e), g\<lparr> rg_disk := close_disk disk, rg_key_file := kfile \<rparr>)
                  | Inr key \<Rightarrow>
                      (case verify_store_credentials ae key (ie_list env) (sd_db disk) of
                         Some e \<Rightarrow> (Inl e, g\<lparr> rg_disk := close_disk disk, rg_key_file := kfile \<rparr>)
                       | None \<Rightarrow> (Inr (), g\<lparr> rg_disk := disk, rg_key_file := kfile, rg_vault := Some key \<rparr>))))))"

definition state_directory :: "string \<Rightarrow> string option \<Rightarrow> string option" where
  "state_directory dir config_dir =
     (if dir \<noteq> [] then Some dir else map_option (\<lambda>b. b @ ''/visual-tmux-client'') config_dir)"

definition new_registry ::
  "'c aead \<Rightarrow> init_env \<Rightarrow> string \<Rightarrow> string option \<Rightarrow> 'c state_dir \<Rightarrow> key_file
     \<Rightarrow> (store_error + unit) \<times> 'c registry option" where
  "new_registry ae env dir config_dir disk kfile =
     (case state_directory dir config_dir of
        None \<Rightarrow> (Inl (StoreMessage ''user config dir''), None)
      | Some dr \<Rightarrow>
          (case initialize ae env \<lparr> rg_directory = dr, rg_disk = disk, rg_key_file = kfile, rg_vault = None, rg_closed = False \<rparr> of
             (r, g) \<Rightarrow> (r, Some g)))"

definition registry_close :: "'c registry \<Rightarrow> 'c registry" where
  "registry_close g =
     g\<lparr> rg_closed := True, rg_disk := (if rg_vault g = None then rg_disk g else close_disk (rg_disk g)) \<rparr>"

definition rg_db :: "'c registry \<Rightarrow> 'c host_db" where
  "rg_db g = sd_db (rg_disk g)"

definition with_db :: "('c host_db \<Rightarrow> 'r \<times> 'c host_db) \<Rightarrow> 'c registry \<Rightarrow> 'r \<times> 'c registry" where
  "with_db step g = (case step (rg_db g) of (r, d) \<Rightarrow> (r, g\<lparr>rg_disk := (rg_disk g)\<lparr>sd_db := d\<rparr>\<rparr>))"

definition closed_error :: store_error where
  "closed_error = StoreMessage ''host registry is closed''"

definition registry_list :: "faults \<Rightarrow> 'c registry \<Rightarrow> store_error + host_view list" where
  "registry_list f g =
     (if rg_closed g then Inl closed_error
      else if rg_vault g = None then Inr [local_view]
      else rbind (store_list f (rg_db g)) (\<lambda>rs. Inr (map project rs)))"

definition registry_get :: "faults \<Rightarrow> host_id \<Rightarrow> 'c registry \<Rightarrow> store_error + host_view" where
  "registry_get f i g =
     (if rg_closed g then Inl closed_error
      else if rg_vault g = None then if i = local_id then Inr local_view else Inl (HostCode HostNotFound)
      else rbind (store_get f i (rg_db g)) (\<lambda>r. Inr (project r)))"

definition delete_in :: "bool \<Rightarrow> faults \<Rightarrow> host_id \<Rightarrow> revision \<Rightarrow> 'c host_db \<Rightarrow> (store_error + unit) \<times> 'c host_db" where
  "delete_in get_fails f i expected d =
     (case store_get (\<lambda>_. get_fails) i d of
        Inl e \<Rightarrow> (Inl e, d)
      | Inr r \<Rightarrow>
          if expected > 0 \<and> hr_revision r \<noteq> expected then (Inl (HostCode StaleRevision), d)
          else store_delete f i (hr_revision r) d)"

definition registry_delete :: "bool \<Rightarrow> faults \<Rightarrow> host_id \<Rightarrow> revision \<Rightarrow> 'c registry \<Rightarrow> (store_error + unit) \<times> 'c registry" where
  "registry_delete get_fails f i expected g =
     (if rg_closed g then (Inl closed_error, g)
      else if rg_vault g = None then (Inl (HostCode HostNotFound), g)
      else with_db (delete_in get_fails f i expected) g)"

definition registry_get_credentials ::
  "'c aead \<Rightarrow> faults \<Rightarrow> host_id \<Rightarrow> 'c registry \<Rightarrow> store_error + 'c host_record \<times> credentials" where
  "registry_get_credentials ae f i g =
     (if rg_closed g then Inl closed_error
      else (case rg_vault g of
          None \<Rightarrow> Inl (HostCode HostNotFound)
        | Some key \<Rightarrow>
            rbind (store_get f i (rg_db g)) (\<lambda>r.
              if hr_type r = ConnLocal then Inl (HostCode HostUnsupported)
              else (case hr_credential r of
                  None \<Rightarrow> Inr (r, no_credentials)
                | Some e \<Rightarrow> (case open_sealed ae key (hr_id r) (hr_cred_type r) e of
                    Inl x \<Rightarrow> Inl (VaultFailed x) | Inr c \<Rightarrow> Inr (r, c))))))"

text \<open>The operations that initialise first.\<close>

definition initialized ::
  "'c aead \<Rightarrow> init_env \<Rightarrow> (string \<Rightarrow> 'c host_db \<Rightarrow> (store_error + 'r) \<times> 'c host_db) \<Rightarrow> 'c registry
     \<Rightarrow> (store_error + 'r) \<times> 'c registry" where
  "initialized ae env step g =
     (if rg_closed g then (Inl closed_error, g)
      else (case initialize ae env g of
          (Inl e, g') \<Rightarrow> (Inl e, g')
        | (Inr _, g') \<Rightarrow> (case rg_vault g' of None \<Rightarrow> (Inl closed_error, g') | Some key \<Rightarrow> with_db (step key) g')))"

definition registry_save ::
  "'c aead \<Rightarrow> init_env \<Rightarrow> save_faults \<Rightarrow> host_input \<Rightarrow> revision \<Rightarrow> 'c registry \<Rightarrow> (store_error + host_view) \<times> 'c registry" where
  "registry_save ae env sf h expected = initialized ae env (\<lambda>key. save_in ae key sf h expected)"

definition registry_add_cleanup ::
  "'c aead \<Rightarrow> init_env \<Rightarrow> faults \<Rightarrow> int \<Rightarrow> cleanup \<Rightarrow> 'c registry \<Rightarrow> (store_error + unit) \<times> 'c registry" where
  "registry_add_cleanup ae env f now c = initialized ae env (\<lambda>_. add_pending_cleanup f now c)"

definition registry_remove_cleanup :: "faults \<Rightarrow> string \<Rightarrow> 'c registry \<Rightarrow> (store_error + unit) \<times> 'c registry" where
  "registry_remove_cleanup f i g =
     (if rg_closed g \<or> rg_vault g = None then (Inr (), g) else with_db (remove_pending_cleanup f i) g)"

definition registry_list_cleanups ::
  "'c aead \<Rightarrow> init_env \<Rightarrow> faults \<Rightarrow> host_id \<Rightarrow> 'c registry \<Rightarrow> (store_error + cleanup list) \<times> 'c registry" where
  "registry_list_cleanups ae env f h = initialized ae env (\<lambda>_ d. (list_pending_cleanups f h d, d))"

definition registry_get_settings ::
  "'c aead \<Rightarrow> init_env \<Rightarrow> faults \<Rightarrow> 'c registry \<Rightarrow> (store_error + settings) \<times> 'c registry" where
  "registry_get_settings ae env f = initialized ae env (\<lambda>_ d. (get_settings f d, d))"

definition registry_update_default ::
  "'c aead \<Rightarrow> init_env \<Rightarrow> faults \<Rightarrow> host_id option \<Rightarrow> revision \<Rightarrow> 'c registry \<Rightarrow> (store_error + settings) \<times> 'c registry" where
  "registry_update_default ae env f h expected = initialized ae env (\<lambda>_. update_default_host f h expected)"

end
