(* ===== verification/HostSafety.thy ===== *)
theory HostSafety
  imports HostRegistry
begin

text \<open>
  What the store and the registry keep over any history of operations and failing statements: the
  tables stay consistent, a revision names one record for ever, a connection revision names one way
  to reach the host, and opening never loses a host.
\<close>

section \<open>Consistent databases\<close>

definition mark :: "'c host_db \<Rightarrow> host_id \<Rightarrow> revision \<times> revision" where
  "mark d i = (case map_of (db_marks d) i of None \<Rightarrow> (0, 0) | Some m \<Rightarrow> m)"

definition record_at :: "'c host_db \<Rightarrow> host_id \<Rightarrow> 'c host_record option" where
  "record_at d i =
     (case map_of (db_hosts d) i of
        None \<Rightarrow> None
      | Some w \<Rightarrow> (case rw_blob w of Garbage \<Rightarrow> None | Doc r \<Rightarrow> Some r))"

text \<open>What a record says about reaching its host.\<close>

definition access :: "'c host_record \<Rightarrow> string \<times> 16 word \<times> string \<times> string \<times> 'c envelope option \<times> string" where
  "access r = (hr_address r, hr_port r, hr_username r, hr_cred_type r, hr_credential r, hr_host_key r)"

definition no_access :: "string \<times> 16 word \<times> string \<times> string \<times> 'c envelope option \<times> string" where
  "no_access = ([], 0, [], [], None, [])"

definition record_ok :: "host_id \<Rightarrow> 'c host_record \<Rightarrow> bool" where
  "record_ok i r \<longleftrightarrow> hr_id r = i \<and> json_record r = r \<and> i \<noteq> [] \<and> 0 < hr_conn_revision r
     \<and> hr_conn_revision r \<le> hr_revision r \<and> (hr_type r = ConnLocal \<or> hr_type r = ConnSSH)
     \<and> (hr_type r = ConnLocal \<longrightarrow> access r = no_access)"

definition row_ok :: "host_id \<Rightarrow> 'c host_row \<Rightarrow> bool" where
  "row_ok i w \<longleftrightarrow> (case rw_blob w of Garbage \<Rightarrow> False | Doc r \<Rightarrow> w = row_of r \<and> record_ok i r)"

text \<open>The watermark of a registered host is its revision; at most one host is local; the default
  host is registered.\<close>

definition rows_ok :: "'c host_db \<Rightarrow> bool" where
  "rows_ok d \<longleftrightarrow> distinct (map fst (db_hosts d)) \<and> (\<forall>i w. map_of (db_hosts d) i = Some w \<longrightarrow> row_ok i w)"

definition marks_ok :: "'c host_db \<Rightarrow> bool" where
  "marks_ok d \<longleftrightarrow> (\<forall>i. snd (mark d i) \<le> fst (mark d i))
     \<and> (\<forall>i r. record_at d i = Some r \<longrightarrow> fst (mark d i) = hr_revision r \<and> hr_conn_revision r \<le> snd (mark d i))"

definition one_local :: "'c host_db \<Rightarrow> bool" where
  "one_local d \<longleftrightarrow> (\<forall>i j w v. map_of (db_hosts d) i = Some w \<longrightarrow> map_of (db_hosts d) j = Some v
     \<longrightarrow> rw_type w = ConnLocal \<longrightarrow> rw_type v = ConnLocal \<longrightarrow> i = j)"

definition default_ok :: "'c host_db \<Rightarrow> bool" where
  "default_ok d \<longleftrightarrow> (\<forall>h n. db_settings d = Some (Some h, n) \<longrightarrow> map_of (db_hosts d) h \<noteq> None)"

definition cleanups_ok :: "'c host_db \<Rightarrow> bool" where
  "cleanups_ok d \<longleftrightarrow> distinct (map cu_id (db_cleanups d))
     \<and> (\<forall>h. length (of_host h (db_cleanups d)) \<le> max_pending_cleanups_per_host)"

definition store_ok :: "'c host_db \<Rightarrow> bool" where
  "store_ok d \<longleftrightarrow> rows_ok d \<and> marks_ok d \<and> one_local d \<and> default_ok d \<and> cleanups_ok d \<and> db_version d = schema_version"

text \<open>\<open>d'\<close> may follow \<open>d\<close>: watermarks only rise, and a record is new to both or named by a revision
  above every one used before.\<close>

definition continues :: "'c host_db \<Rightarrow> 'c host_db \<Rightarrow> bool" where
  "continues d d' \<longleftrightarrow>
     (\<forall>i. fst (mark d i) \<le> fst (mark d' i) \<and> snd (mark d i) \<le> snd (mark d' i))
     \<and> (\<forall>i r'. record_at d' i = Some r' \<longrightarrow>
          (fst (mark d i) < hr_revision r' \<or> record_at d i = Some r')
          \<and> (snd (mark d i) < hr_conn_revision r'
             \<or> (\<exists>r. record_at d i = Some r \<and> hr_conn_revision r = hr_conn_revision r' \<and> access r = access r')))"

lemma continues_refl: "continues d d"
  by (auto simp: continues_def)

lemma continues_marks:
  "continues d d' \<Longrightarrow> fst (mark d i) \<le> fst (mark d' i)" "continues d d' \<Longrightarrow> snd (mark d i) \<le> snd (mark d' i)"
  unfolding continues_def by blast+

lemma continues_record:
  assumes "continues d d'" and "record_at d' i = Some r'"
  shows "fst (mark d i) < hr_revision r' \<or> record_at d i = Some r'"
    and "snd (mark d i) < hr_conn_revision r'
      \<or> (\<exists>r. record_at d i = Some r \<and> hr_conn_revision r = hr_conn_revision r' \<and> access r = access r')"
  using assms unfolding continues_def by blast+

lemma continues_trans:
  assumes "continues d0 d1" and "continues d1 d2" shows "continues d0 d2"
  unfolding continues_def
proof (intro conjI allI impI)
  fix i
  show "fst (mark d0 i) \<le> fst (mark d2 i)" "snd (mark d0 i) \<le> snd (mark d2 i)"
    using continues_marks [OF assms(1), of i] continues_marks [OF assms(2), of i] by linarith+
next
  fix i r' assume r': "record_at d2 i = Some r'"
  note m = continues_marks [OF assms(1), of i] and late = continues_record [OF assms(2) r']
    and early = continues_record [OF assms(1), of i]
  show "fst (mark d0 i) < hr_revision r' \<or> record_at d0 i = Some r'"
    using late(1) early(1) [of r'] m(1) by linarith
  show "snd (mark d0 i) < hr_conn_revision r'
      \<or> (\<exists>r. record_at d0 i = Some r \<and> hr_conn_revision r = hr_conn_revision r' \<and> access r = access r')"
    using late(2)
  proof
    assume "snd (mark d1 i) < hr_conn_revision r'" with m(2) show ?thesis by simp
  next
    assume "\<exists>r. record_at d1 i = Some r \<and> hr_conn_revision r = hr_conn_revision r' \<and> access r = access r'"
    then obtain r where r: "record_at d1 i = Some r" "hr_conn_revision r = hr_conn_revision r'" "access r = access r'"
      by blast
    from early(2) [OF r(1)] r(2,3) show ?thesis by auto
  qed
qed

lemma continues_same:
  "db_hosts d' = db_hosts d \<Longrightarrow> db_marks d' = db_marks d \<Longrightarrow> continues d d'"
  by (auto simp: continues_def mark_def record_at_def)

lemma marks_okD:
  assumes "marks_ok d"
  shows "snd (mark d i) \<le> fst (mark d i)"
    and "record_at d i = Some r \<Longrightarrow> fst (mark d i) = hr_revision r"
    and "record_at d i = Some r \<Longrightarrow> hr_conn_revision r \<le> snd (mark d i)"
  using assms unfolding marks_ok_def by blast+

text \<open>Records named alike are alike.\<close>

lemma continues_names:
  assumes "marks_ok d" and "continues d d'" and "record_at d i = Some r" and "record_at d' i = Some r'"
  shows "hr_revision r' = hr_revision r \<Longrightarrow> r' = r"
    and "hr_conn_revision r' = hr_conn_revision r \<Longrightarrow> access r' = access r"
    and "hr_revision r \<le> hr_revision r'"
proof -
  have m: "fst (mark d i) = hr_revision r" "hr_conn_revision r \<le> snd (mark d i)"
    using marks_okD [OF assms(1)] assms(3) by blast+
  note c = continues_record [OF assms(2,4)]
  show "r' = r" if "hr_revision r' = hr_revision r" using c(1) that m(1) assms(3) by simp
  show "hr_revision r \<le> hr_revision r'" using c(1)
  proof
    assume "fst (mark d i) < hr_revision r'" with m(1) show ?thesis by simp
  next
    assume "record_at d i = Some r'" with assms(3) show ?thesis by simp
  qed
  show "access r' = access r" if "hr_conn_revision r' = hr_conn_revision r"
    using c(2)
  proof
    assume "snd (mark d i) < hr_conn_revision r'" with m(2) that show ?thesis by simp
  next
    assume "\<exists>q. record_at d i = Some q \<and> hr_conn_revision q = hr_conn_revision r' \<and> access q = access r'"
    with assms(3) show ?thesis by (metis option.inject)
  qed
qed

section \<open>One record installed\<close>

lemma json_type_idem [simp]: "json_type (json_type t) = json_type t"
  by (cases t) (simp_all add: json_type_def)

lemma json_record_idem [simp]: "json_record (json_record r) = json_record r"
  by (simp add: json_record_def)

lemma json_record_simps [simp]:
  "hr_revision (json_record r) = hr_revision r" "hr_conn_revision (json_record r) = hr_conn_revision r"
  "hr_id (json_record r) = json_text (hr_id r)" "hr_type (json_record r) = json_type (hr_type r)"
  by (simp_all add: json_record_def)

lemma row_of_simps [simp]:
  "rw_revision (row_of r) = hr_revision r" "rw_type (row_of r) = hr_type r" "rw_blob (row_of r) = Doc (json_record r)"
  by (simp_all add: row_of_def)

lemma json_type_known [simp]: "t = ConnLocal \<or> t = ConnSSH \<Longrightarrow> json_type t = t"
  by (auto simp: json_type_def)

definition installable :: "'c host_record \<Rightarrow> bool" where
  "installable r \<longleftrightarrow> utf8_valid (hr_id r) \<and> hr_id r \<noteq> [] \<and> 0 < hr_conn_revision r \<and> hr_conn_revision r \<le> hr_revision r
     \<and> (hr_type r = ConnLocal \<or> hr_type r = ConnSSH) \<and> (hr_type r = ConnLocal \<longrightarrow> access (json_record r) = no_access)"

lemma installable_row: "installable r \<Longrightarrow> row_ok (hr_id r) (row_of r)"
  by (auto simp: installable_def row_ok_def record_ok_def row_of_def)

text \<open>\<open>d'\<close> is \<open>d\<close> with \<open>r\<close> installed over it.\<close>

definition installs :: "'c host_record \<Rightarrow> 'c host_db \<Rightarrow> 'c host_db \<Rightarrow> bool" where
  "installs r d d' \<longleftrightarrow>
     distinct (map fst (db_hosts d')) \<and> map_of (db_hosts d') = (map_of (db_hosts d))(hr_id r \<mapsto> row_of r)
     \<and> db_marks d' = raise_mark (hr_id r) (hr_revision r) (hr_conn_revision r) (db_marks d)
     \<and> db_settings d' = db_settings d \<and> db_cleanups d' = db_cleanups d \<and> db_version d' = db_version d
     \<and> (hr_type r = ConnLocal \<longrightarrow> (\<forall>j w. map_of (db_hosts d) j = Some w \<longrightarrow> rw_type w = ConnLocal \<longrightarrow> j = hr_id r))"

lemma mark_raised:
  "db_marks d' = raise_mark i r c (db_marks d) \<Longrightarrow>
     mark d' j = (if j = i then (max (fst (mark d i)) r, max (snd (mark d i)) c) else mark d j)"
  by (auto simp: mark_def raise_mark_def AList.update_conv' split: option.splits)

lemma record_at_installs:
  "installs r d d' \<Longrightarrow> record_at d' j = (if j = hr_id r then Some (json_record r) else record_at d j)"
  by (simp add: installs_def record_at_def)

lemma store_ok_installs:
  assumes "store_ok d" and "installs r d d'" and "installable r" and "fst (mark d (hr_id r)) < hr_revision r"
  shows "store_ok d'"
proof -
  have hosts: "map_of (db_hosts d') = (map_of (db_hosts d))(hr_id r \<mapsto> row_of r)"
    and marks: "db_marks d' = raise_mark (hr_id r) (hr_revision r) (hr_conn_revision r) (db_marks d)"
    using assms(2) by (simp_all add: installs_def)
  have "rows_ok d'"
    using assms(1,2) installable_row [OF assms(3)] hosts by (auto simp: store_ok_def rows_ok_def installs_def)
  moreover have "marks_ok d'"
    unfolding marks_ok_def
  proof (intro conjI allI impI)
    fix i
    have old: "marks_ok d" using assms(1) by (simp add: store_ok_def)
    note m = mark_raised [OF marks, of i] and c = assms(3) [unfolded installable_def]
    show "snd (mark d' i) \<le> fst (mark d' i)"
      using marks_okD(1) [OF old, of i] assms(4) c by (auto simp: m)
    fix q assume "record_at d' i = Some q"
    then have q: "if i = hr_id r then q = json_record r else record_at d i = Some q"
      using record_at_installs [OF assms(2), of i] by (simp split: if_splits)
    show "fst (mark d' i) = hr_revision q" "hr_conn_revision q \<le> snd (mark d' i)"
      using q marks_okD(2,3) [OF old, of i q] assms(4) by (auto simp: m split: if_splits)
  qed
  moreover have "one_local d'"
    using assms(1,2) unfolding store_ok_def one_local_def hosts installs_def
    by (auto split: if_splits)
  moreover have "default_ok d'" using assms(1,2) hosts by (auto simp: store_ok_def default_ok_def installs_def)
  ultimately show ?thesis using assms(1,2) by (simp add: store_ok_def cleanups_ok_def installs_def)
qed

lemma continues_installs:
  assumes "installs r d d'" and "fst (mark d (hr_id r)) < hr_revision r"
    and "snd (mark d (hr_id r)) < hr_conn_revision r
      \<or> (\<exists>old. record_at d (hr_id r) = Some old \<and> hr_conn_revision old = hr_conn_revision r \<and> access old = access (json_record r))"
  shows "continues d d'"
proof -
  have marks: "db_marks d' = raise_mark (hr_id r) (hr_revision r) (hr_conn_revision r) (db_marks d)"
    using assms(1) by (simp add: installs_def)
  show ?thesis
    unfolding continues_def mark_raised [OF marks] record_at_installs [OF assms(1)]
    using assms(2,3) by auto
qed

lemma upsert_installs:
  assumes "upsert_host_record f r e d = Inr d1" and "distinct (map fst (db_hosts d))"
    and "db_marks d' = raise_mark (hr_id r) (hr_revision r) (hr_conn_revision r) (db_marks d1)"
    and "db_hosts d' = db_hosts d1" "db_settings d' = db_settings d1" "db_cleanups d' = db_cleanups d1"
    and "db_version d' = db_version d1"
  shows "installs r d d'" and "if e = 0 then map_of (db_hosts d) (hr_id r) = None
    else \<exists>w. map_of (db_hosts d) (hr_id r) = Some w \<and> rw_revision w = e"
proof -
  let ?hs = "db_hosts d" and ?i = "hr_id r"
  have fresh: "map_of (?hs @ [(?i, row_of r)]) = (map_of ?hs)(?i \<mapsto> row_of r)" if "map_of ?hs ?i = None"
    using that by (auto simp: map_add_def fun_eq_iff split: option.split)
  have local_at: "(j, w) \<in> set (local_rows ?hs)" if "map_of ?hs j = Some w" "rw_type w = ConnLocal" for j w
    using that map_of_SomeD [of ?hs j w] by (simp add: local_rows_def)
  show "if e = 0 then map_of ?hs ?i = None else \<exists>w. map_of ?hs ?i = Some w \<and> rw_revision w = e"
    using assms(1) by (auto simp: upsert_host_record_def Let_def split: if_splits option.splits)
  have nl: "hr_type r = ConnLocal \<Longrightarrow> map_of ?hs j = Some w \<Longrightarrow> rw_type w = ConnLocal \<Longrightarrow> j = ?i" for j w
    using assms(1) local_at [of j w]
    by (auto simp: upsert_host_record_def Let_def list_ex_iff split: if_splits option.splits)
  show "installs r d d'"
  proof (cases "e = 0")
    case True
    then have "d1 = d\<lparr>db_hosts := ?hs @ [(?i, row_of r)]\<rparr>" "map_of ?hs ?i = None"
      using assms(1) by (auto simp: upsert_host_record_def Let_def split: if_splits)
    with assms fresh nl show ?thesis by (auto simp: installs_def map_of_eq_None_iff)
  next
    case False
    then have "d1 = d\<lparr>db_hosts := AList.update ?i (row_of r) ?hs\<rparr>"
      using assms(1) by (auto simp: upsert_host_record_def Let_def split: if_splits option.splits)
    with assms nl show ?thesis by (auto simp: installs_def AList.update_conv' AList.distinct_update)
  qed
qed

lemma store_put_cases:
  assumes "store_put f r0 e d = (x, d')" and "distinct (map fst (db_hosts d))"
  obtains (unchanged) x' where "x = Inl x'" "d' = d"
    | (put) "x = Inr ()" "validate_put_record (typed r0) e = None" "installs (typed r0) d d'"
        "if e = 0 then map_of (db_hosts d) (hr_id r0) = None
         else \<exists>w. map_of (db_hosts d) (hr_id r0) = Some w \<and> rw_revision w = e"
proof -
  have i: "hr_id (typed r0) = hr_id r0" by (simp add: typed_def)
  show thesis
  proof (cases "\<exists>x'. x = Inl x'")
    case True
    then have "d' = d" using assms(1) by (auto simp: store_put_def Let_def split: option.splits if_splits sum.splits)
    with True unchanged show thesis by blast
  next
    case False
    then obtain d1 where d1: "upsert_host_record f (typed r0) e d = Inr d1" "x = Inr ()"
      "d' = d1\<lparr>db_marks := raise_mark (hr_id r0) (hr_revision (typed r0)) (hr_conn_revision (typed r0)) (db_marks d1)\<rparr>"
      "validate_put_record (typed r0) e = None"
      using assms(1) by (auto simp: store_put_def Let_def i split: option.splits if_splits sum.splits)
    show thesis
    proof (rule put)
      show "x = Inr ()" "validate_put_record (typed r0) e = None" by (rule d1(2), rule d1(4))
      show "installs (typed r0) d d'"
        by (rule upsert_installs(1) [OF d1(1) assms(2)]) (simp_all add: d1(3) i)
      show "if e = 0 then map_of (db_hosts d) (hr_id r0) = None
        else \<exists>w. map_of (db_hosts d) (hr_id r0) = Some w \<and> rw_revision w = e"
        using upsert_installs(2) [OF d1(1) assms(2), of d'] unfolding i by (simp add: d1(3) i)
    qed
  qed
qed

section \<open>Operations\<close>

lemma id_char_ascii: "id_char c \<Longrightarrow> ccode c < 128"
  by (auto simp: id_char_def less_eq_char_def)

lemma valid_host_id_utf8: "valid_host_id i \<Longrightarrow> utf8_valid i" "valid_host_id i \<Longrightarrow> i \<noteq> []"
  by (auto simp: valid_host_id_def ascii_def list_all_iff id_char_ascii intro!: ascii_utf8_valid)

lemma typed_known [simp]: "hr_type r = ConnLocal \<or> hr_type r = ConnSSH \<Longrightarrow> typed r = r"
  by (auto simp: typed_def default_type_def no_type_def)

lemma store_ok_parts:
  assumes "store_ok d"
  shows "rows_ok d" "marks_ok d" "one_local d" "default_ok d" "cleanups_ok d" "distinct (map fst (db_hosts d))"
  using assms by (simp_all add: store_ok_def rows_ok_def)

lemma row_at:
  assumes "rows_ok d" and "map_of (db_hosts d) i = Some w"
  obtains r where "w = row_of r" "record_ok i r" "record_at d i = Some r"
proof -
  have "row_ok i w" using assms unfolding rows_ok_def by blast
  then obtain r where "w = row_of r" "record_ok i r" "rw_blob w = Doc r"
    by (auto simp: row_ok_def split: blob.splits)
  with assms(2) that show thesis by (simp add: record_at_def)
qed

lemma store_get_record:
  assumes "store_get f i d = Inr r" and "rows_ok d"
  shows "record_at d i = Some r" and "record_ok i r"
proof -
  obtain w where w: "map_of (db_hosts d) i = Some w" "decode_row w = Inr r"
    using assms(1) by (auto simp: store_get_def split: if_splits option.splits)
  obtain q where q: "w = row_of q" "record_ok i q" "record_at d i = Some q"
    by (rule row_at [OF assms(2) w(1)])
  have "r = q" using w(2) q(1,2) by (auto simp: decode_row_def record_ok_def)
  with q show "record_at d i = Some r" "record_ok i r" by simp_all
qed

text \<open>What a caller of \<open>Put\<close> has to give: the next revisions of the host.\<close>

definition next_of :: "'c host_db \<Rightarrow> 'c host_record \<Rightarrow> revision \<Rightarrow> bool" where
  "next_of d r e \<longleftrightarrow>
     (if e = 0 then fst (mark d (hr_id r)) < hr_revision r \<and> snd (mark d (hr_id r)) < hr_conn_revision r
      else (\<exists>old. record_at d (hr_id r) = Some old \<and>
        (hr_conn_revision r = Suc e
         \<or> hr_conn_revision r = hr_conn_revision old \<and> access (json_record r) = access old)))"

definition keeps :: "'c host_db \<Rightarrow> 'c host_db \<Rightarrow> bool" where
  "keeps d d' \<longleftrightarrow> store_ok d' \<and> continues d d'"

lemma keeps_refl: "store_ok d \<Longrightarrow> keeps d d"
  by (simp add: keeps_def continues_refl)

lemma put_keeps:
  assumes "store_put f r e d = (x, d')" and "store_ok d" and "valid_host_id (hr_id r)"
    and "hr_type r = ConnSSH \<or> hr_type r = ConnLocal \<and> access (json_record r) = no_access" and "next_of d r e"
  shows "keeps d d'"
proof -
  note ok = store_ok_parts [OF assms(2)]
  from assms(1) ok(6) show ?thesis
  proof (cases rule: store_put_cases)
    case unchanged
    with assms(2) show ?thesis by (simp add: keeps_refl)
  next
    case put
    have r: "typed r = r" using assms(4) by auto
    have inst: "installable r" "e > 0 \<Longrightarrow> hr_revision r = Suc e"
      using put(2) assms(4) valid_host_id_utf8 [OF assms(3)]
      by (auto simp: r validate_put_record_def installable_def split: if_splits)
    have "fst (mark d (hr_id r)) < hr_revision r \<and> (snd (mark d (hr_id r)) < hr_conn_revision r
      \<or> (\<exists>old. record_at d (hr_id r) = Some old \<and> hr_conn_revision old = hr_conn_revision r
           \<and> access old = access (json_record r)))"
    proof (cases "e = 0")
      case True
      with assms(5) show ?thesis by (simp add: next_of_def)
    next
      case False
      then obtain w where w: "map_of (db_hosts d) (hr_id r) = Some w" "rw_revision w = e" using put(4) by auto
      obtain q where q: "w = row_of q" "record_at d (hr_id r) = Some q" by (rule row_at [OF ok(1) w(1)])
      have m: "fst (mark d (hr_id r)) = e" "snd (mark d (hr_id r)) \<le> e"
        using marks_okD(2) [OF ok(2) q(2)] marks_okD(1) [OF ok(2), of "hr_id r"] q(1) w(2) by simp_all
      show ?thesis using False m inst(2) assms(5) q(2) by (auto simp: next_of_def)
    qed
    with store_ok_installs [OF assms(2) _ inst(1)] continues_installs [of r d d'] put(3) show ?thesis
      by (simp add: keeps_def r)
  qed
qed

lemma put_and_project_keeps:
  "put_and_project f r e d = (x, d') \<Longrightarrow> store_ok d \<Longrightarrow> valid_host_id (hr_id r)
     \<Longrightarrow> hr_type r = ConnSSH \<or> hr_type r = ConnLocal \<and> access (json_record r) = no_access
     \<Longrightarrow> next_of d r e \<Longrightarrow> keeps d d'"
  by (auto simp: put_and_project_def intro: put_keeps split: prod.splits sum.splits)

lemma next_revisions_mark:
  assumes "marks_ok d" and "next_revisions (\<lambda>_. False) i d = (r, c)"
  shows "fst (mark d i) < r" "snd (mark d i) < c"
  using assms(2) marks_okD(1) [OF assms(1), of i]
  by (auto simp: next_revisions_def mark_def split: option.splits if_splits)

lemma plain_local_simps [simp]:
  "hr_id (plain_local i r c name) = i" "hr_revision (plain_local i r c name) = r"
  "hr_conn_revision (plain_local i r c name) = c" "hr_type (plain_local i r c name) = ConnLocal"
  "access (json_record (plain_local i r c name)) = no_access"
  by (simp_all add: plain_local_def access_def no_access_def json_record_def)

lemma save_new_keeps:
  assumes "save_new ae key sf h name d = (x, d')" and "store_ok d" and "valid_host_id (hi_id h)" and "\<not> sf_next sf"
  shows "keeps d d'"
proof -
  obtain r c where rc: "next_revisions (\<lambda>_. sf_next sf) (hi_id h) d = (r, c)" by fastforce
  with assms(4) next_revisions_mark [OF store_ok_parts(2) [OF assms(2)], of "hi_id h" r c]
  have "fst (mark d (hi_id h)) < r \<and> snd (mark d (hi_id h)) < c" by simp
  then show ?thesis
    using assms(1-3) unfolding save_new_def
    by (auto simp: rc Let_def next_of_def keeps_refl intro: put_and_project_keeps
        split: if_splits sum.splits)
qed

lemma json_record_fixed:
  assumes "json_record r = r"
  shows "json_text (hr_address r) = hr_address r" "json_text (hr_username r) = hr_username r"
    "json_text (hr_cred_type r) = hr_cred_type r"
  using arg_cong [OF assms, of hr_address] arg_cong [OF assms, of hr_username] arg_cong [OF assms, of hr_cred_type]
  by (simp_all add: json_record_def)

lemma save_update_ssh_keeps:
  assumes "save_update_ssh ae key sf h name old e d = (x, d')" and "store_ok d" and "valid_host_id (hi_id h)"
    and "record_at d (hi_id h) = Some old" and "record_ok (hi_id h) old" and "hr_revision old = e" and "e > 0"
  shows "keeps d d'"
proof (cases "resolve_credential_update ae key (sf_rand sf) h old")
  case (Inl z)
  with assms(1,2) show ?thesis by (simp add: save_update_ssh_def Let_def keeps_refl)
next
  case (Inr res)
  obtain kind cred changed where res: "res = (kind, cred, changed)" by (cases res)
  have same: "\<not> changed \<Longrightarrow> kind = hr_cred_type old \<and> cred = hr_credential old"
    using Inr res by (auto simp: resolve_credential_update_def Let_def split: if_splits)
  define addr where "addr = (if trim_space (hi_address h) = [] then hr_address old else trim_space (hi_address h))"
  define user where "user = (if trim_space (hi_username h) = [] then hr_username old else trim_space (hi_username h))"
  define port where "port = (if hi_port h \<noteq> 0 then hi_port h else if hr_port old \<noteq> 0 then hr_port old else 22)"
  define moved where "moved \<longleftrightarrow> addr \<noteq> hr_address old \<or> port \<noteq> hr_port old"
  obtain hk trust where hk: "resolve_host_key_update (hi_host_key h) (hr_host_key old) moved = (hk, trust)" by fastforce
  have key_same: "\<not> moved \<Longrightarrow> \<not> trust \<Longrightarrow> hk = hr_host_key old"
    using hk by (auto simp: resolve_host_key_update_def split: if_splits)
  define bump where "bump \<longleftrightarrow> moved \<or> user \<noteq> hr_username old \<or> changed \<or> trust"
  define new where "new =
    \<lparr> hr_id = hi_id h, hr_revision = Suc (hr_revision old), hr_conn_revision = (if bump then Suc (hr_revision old) else hr_conn_revision old),
      hr_name = name, hr_type = ConnSSH, hr_address = addr, hr_port = port, hr_username = user, hr_cred_type = kind,
      hr_credential = cred, hr_host_key = hk \<rparr>"
  have put: "put_and_project (sf_put sf) new e d = (x, d')"
    using assms(1) Inr res hk
    by (simp add: save_update_ssh_def Let_def new_def bump_def moved_def addr_def user_def port_def)
  have "json_record old = old" using assms(5) by (simp add: record_ok_def)
  note fixed = json_record_fixed [OF this]
  have "access (json_record new) = access old" if "\<not> bump"
  proof -
    have "addr = hr_address old" "port = hr_port old" "user = hr_username old" "kind = hr_cred_type old"
      "cred = hr_credential old" "hk = hr_host_key old"
      using that same key_same unfolding bump_def moved_def by blast+
    with fixed show ?thesis by (simp add: access_def json_record_def new_def)
  qed
  then have "next_of d new e" using assms(4,6,7) by (simp add: next_of_def new_def)
  then show ?thesis
    using put_and_project_keeps [OF put assms(2)] assms(3) by (simp add: new_def)
qed

lemma save_update_keeps:
  assumes "save_update ae key sf h name e d = (x, d')" and "store_ok d" and "valid_host_id (hi_id h)" and "e > 0"
  shows "keeps d d'"
proof (cases "store_get (\<lambda>_. sf_get sf) (hi_id h) d")
  case (Inl z)
  with assms(1,2) show ?thesis by (simp add: save_update_def keeps_refl)
next
  case (Inr old)
  note ok = store_ok_parts [OF assms(2)] and old = store_get_record [OF Inr store_ok_parts(1) [OF assms(2)]]
  consider "d' = d" | (ssh) "hr_revision old = e" "save_update_ssh ae key sf h name old e d = (x, d')"
    | (loc) "hr_revision old = e" "hr_type old = ConnLocal"
        "put_and_project (sf_put sf) (plain_local (hi_id h) (Suc e) (hr_conn_revision old) name) e d = (x, d')"
  proof -
    have "hr_type old = ConnLocal \<or> hr_type old = ConnSSH" using old(2) by (simp add: record_ok_def)
    with assms(1) Inr that show thesis
      by (auto simp: save_update_def Let_def default_type_def no_type_def split: if_splits)
  qed
  then show ?thesis
  proof cases
    case 1
    with assms(2) show ?thesis by (simp add: keeps_refl)
  next
    case ssh
    from save_update_ssh_keeps [OF ssh(2) assms(2,3) old ssh(1) assms(4)] show ?thesis .
  next
    case loc
    have "access old = no_access" using old(2) loc(2) by (simp add: record_ok_def)
    with old(1) assms(4) have "next_of d (plain_local (hi_id h) (Suc e) (hr_conn_revision old) name) e"
      by (simp add: next_of_def)
    with put_and_project_keeps [OF loc(3) assms(2)] assms(3) show ?thesis by simp
  qed
qed

lemma save_in_keeps:
  assumes "store_ok d" and "\<not> sf_next sf"
  shows "keeps d (snd (save_in ae key sf h e d))"
proof -
  obtain x d' where "save_in ae key sf h e d = (x, d')" by fastforce
  then show ?thesis
    using assms
    by (auto simp: save_in_def Let_def keeps_refl intro: save_new_keeps save_update_keeps split: if_splits)
qed

lemma delete_in_keeps:
  assumes "store_ok d"
  shows "keeps d (snd (delete_in g f i e d))"
proof (cases "snd (delete_in g f i e d) = d")
  case True
  with assms show ?thesis by (simp add: keeps_refl)
next
  case False
  define d' where "d' = snd (delete_in g f i e d)"
  note ok = store_ok_parts [OF assms]
  obtain r where r: "store_get (\<lambda>_. g) i d = Inr r" and d': "d' = snd (store_delete f i (hr_revision r) d)"
    using False by (auto simp: delete_in_def d'_def split: sum.splits if_splits)
  note rec = store_get_record [OF r ok(1)]
  obtain w where w: "map_of (db_hosts d) i = Some w" "rw_blob w = Doc r"
    using rec(1) by (auto simp: record_at_def split: option.splits blob.splits)
  have m: "fst (mark d i) = hr_revision r" "hr_conn_revision r \<le> snd (mark d i)"
    using marks_okD [OF ok(2)] rec(1) by blast+
  have i: "hr_id r = i" using rec(2) by (simp add: record_ok_def)
  have hosts: "db_hosts d' = AList.delete i (db_hosts d)"
    and marks: "db_marks d' = raise_mark i (hr_revision r) (hr_conn_revision r) (db_marks d)"
    and set': "db_settings d' = map_option (\<lambda>(h, n). if h = Some i then (None, Suc n) else (h, n)) (db_settings d)"
    and rest: "db_cleanups d' = db_cleanups d" "db_version d' = db_version d"
    using False unfolding d'_def [symmetric] d'
    by (simp_all add: store_delete_def w i Let_def split: if_splits)
  have mk: "mark d' j = mark d j" for j
    using m by (cases "mark d j") (auto simp: mark_raised [OF marks] max_absorb1)
  have at: "record_at d' j = (if j = i then None else record_at d j)" for j
    by (simp add: record_at_def hosts AList.delete_conv')
  have "rows_ok d'" "one_local d'"
    using ok(1,3) by (simp_all add: rows_ok_def one_local_def hosts AList.delete_conv' AList.distinct_delete)
  moreover have "default_ok d'"
    using ok(4) by (auto simp: default_ok_def hosts set' AList.delete_conv' split: if_splits)
  moreover have "marks_ok d'" using ok(2) unfolding marks_ok_def mk at by simp
  moreover have "continues d d'" unfolding continues_def mk at by simp
  ultimately show ?thesis
    using assms rest unfolding d'_def [symmetric] by (simp add: keeps_def store_ok_def cleanups_ok_def)
qed

text \<open>Changes outside the hosts.\<close>

lemma keeps_frame:
  assumes "store_ok d" and "db_hosts d' = db_hosts d" and "db_marks d' = db_marks d" and "db_version d' = db_version d"
    and "default_ok d'" and "cleanups_ok d'"
  shows "keeps d d'"
  using assms continues_same [OF assms(2,3)]
  by (simp add: keeps_def store_ok_def rows_ok_def marks_ok_def one_local_def mark_def record_at_def)

lemma guarded_change:
  "(\<not> b \<Longrightarrow> x = d \<or> x = y \<and> Q) \<Longrightarrow> (if b then d else x) = d \<or> (if b then d else x) = y \<and> Q"
  by simp

lemma update_default_effect:
  obtains "snd (update_default_host f h e d) = d"
  | named cur where "snd (update_default_host f h e d) = d\<lparr>db_settings := Some (named, cur)\<rparr>"
      "\<And>i. named = Some i \<Longrightarrow> map_of (db_hosts d) i \<noteq> None"
proof -
  define named where "named = (case h of None \<Rightarrow> None | Some i \<Rightarrow> if i = [] then None else Some i)"
  obtain cur ins where ci: "(case db_settings d of None \<Rightarrow> (1, True) | Some (_, r) \<Rightarrow> (r, False)) = (cur, ins)"
    by fastforce
  let ?go = "map_of (db_hosts d) (the named) \<noteq> None \<or> named = None"
  have "snd (update_default_host f h e d) = d
      \<or> snd (update_default_host f h e d) = d\<lparr>db_settings := Some (named, Suc cur)\<rparr> \<and> ?go"
    unfolding update_default_host_def Let_def named_def [symmetric] ci prod.case if_distrib [of snd] snd_conv
    by (intro guarded_change) (rule disjI2, rule conjI, rule refl, argo)
  then show thesis
  proof (elim disjE [of "_ = d"] conjE)
    assume "snd (update_default_host f h e d) = d" then show thesis by (rule that(1))
  next
    assume eff: "snd (update_default_host f h e d) = d\<lparr>db_settings := Some (named, Suc cur)\<rparr>" and ?go
    show thesis by (rule that(2) [OF eff]) (use \<open>?go\<close> in simp)
  qed
qed

lemma update_default_keeps:
  assumes "store_ok d"
  shows "keeps d (snd (update_default_host f h e d))"
proof (rule update_default_effect [of f h e d])
  assume "snd (update_default_host f h e d) = d"
  with assms show ?thesis by (simp add: keeps_refl)
next
  fix named cur
  assume u: "snd (update_default_host f h e d) = d\<lparr>db_settings := Some (named, cur)\<rparr>"
    "\<And>i. named = Some i \<Longrightarrow> map_of (db_hosts d) i \<noteq> None"
  show ?thesis
    unfolding u(1)
    by (rule keeps_frame [OF assms])
      (use u(2) store_ok_parts [OF assms] in \<open>auto simp: default_ok_def cleanups_ok_def\<close>)
qed

section \<open>Cleanups\<close>

lemma of_host_simps [simp]:
  "of_host h [] = []" "of_host h (c # cs) = (if cu_host c = h then c # of_host h cs else of_host h cs)"
  by (simp_all add: of_host_def)

lemma upsert_ids: "cu_id ` set (upsert_cleanup c cs) = insert (cu_id c) (cu_id ` set cs)"
  by (induction cs) auto

lemma upsert_distinct: "distinct (map cu_id cs) \<Longrightarrow> distinct (map cu_id (upsert_cleanup c cs))"
proof (induction cs)
  case (Cons x cs)
  then show ?case using upsert_ids [of c cs] by auto
qed simp

lemma upsert_of_host:
  "length (of_host h (upsert_cleanup c cs)) \<le> length (of_host h cs) + (if cu_host c = h then 1 else 0)"
  by (induction cs) auto

lemma of_host_filter: "of_host h (filter P cs) = filter P (of_host h cs)"
  by (simp add: of_host_def conj_commute)

lemma evicted_ids:
  assumes "distinct (map cu_id cs)" and "set olds \<subseteq> set (of_host h cs)" and "distinct (map cu_id olds)"
  shows "length (of_host h (filter (\<lambda>x. cu_id x \<notin> cu_id ` set olds) cs)) + length olds = length (of_host h cs)"
proof -
  let ?m = "of_host h cs"
  have dm: "distinct (map cu_id ?m)" using assms(1) by (simp add: of_host_def distinct_map_filter)
  have split: "length (filter P ?m) + length (filter (\<lambda>x. \<not> P x) ?m) = length ?m" for P
    by (rule sum_length_filter_compl)
  have "of_host h (filter (\<lambda>x. cu_id x \<notin> cu_id ` set olds) cs) = filter (\<lambda>x. cu_id x \<notin> cu_id ` set olds) ?m"
    by (rule of_host_filter)
  moreover have "length (filter (\<lambda>x. cu_id x \<in> cu_id ` set olds) ?m) = length olds"
  proof -
    have "set (filter (\<lambda>x. cu_id x \<in> cu_id ` set olds) ?m) = set olds"
      using assms(2) dm by (auto simp: distinct_map inj_on_def)
    moreover have "distinct (filter (\<lambda>x. cu_id x \<in> cu_id ` set olds) ?m)" "distinct olds"
      using dm assms(3) by (simp_all add: distinct_map)
    ultimately show ?thesis by (metis distinct_card)
  qed
  ultimately show ?thesis using split [of "\<lambda>x. cu_id x \<notin> cu_id ` set olds"] by simp
qed

lemma add_cleanup_ok:
  assumes "cleanups_ok d"
  shows "cleanups_ok (snd (add_pending_cleanup f now c0 d))"
proof (cases "snd (add_pending_cleanup f now c0 d) = d")
  case True
  with assms show ?thesis by simp
next
  case False
  define c where "c = (if cu_created c0 = 0 then c0\<lparr>cu_created := now\<rparr> else c0)"
  let ?cs = "db_cleanups d" and ?h = "cu_host c" and ?b = max_pending_cleanups_per_host
  let ?mine = "of_host ?h ?cs"
  define olds where "olds = take (length ?mine - ?b + 1) (sort_key cu_created ?mine)"
  define kept where "kept = (if length ?mine \<ge> ?b then filter (\<lambda>x. cu_id x \<notin> cu_id ` set olds) ?cs else ?cs)"
  have ids: "set (map cu_id olds) = cu_id ` set olds" by simp
  have "\<not> (cu_id c0 = [] \<or> cu_host c0 = [] \<or> cu_path c0 = [] \<or> cu_token c0 = [])"
  proof
    assume "cu_id c0 = [] \<or> cu_host c0 = [] \<or> cu_path c0 = [] \<or> cu_token c0 = []"
    then have "snd (add_pending_cleanup f now c0 d) = d" unfolding add_pending_cleanup_def by (simp only: if_True snd_conv)
    with False show False by simp
  qed
  then have "snd (add_pending_cleanup f now c0 d) = d
      \<or> snd (add_pending_cleanup f now c0 d) = d\<lparr>db_cleanups := upsert_cleanup c kept\<rparr>"
    unfolding add_pending_cleanup_def Let_def c_def [symmetric] olds_def [symmetric] ids kept_def [symmetric]
    by (simp only: if_False if_distrib [of snd] snd_conv split: if_split) blast
  with False have res: "snd (add_pending_cleanup f now c0 d) = d\<lparr>db_cleanups := upsert_cleanup c kept\<rparr>" by simp
  have dist: "distinct (map cu_id ?cs)" and bnd: "\<And>h. length (of_host h ?cs) \<le> ?b"
    using assms by (simp_all add: cleanups_ok_def)
  have "length (of_host ?h kept) < ?b"
  proof (cases "length ?mine \<ge> ?b")
    case True
    have "set olds \<subseteq> set ?mine" unfolding olds_def by (metis set_sort set_take_subset)
    moreover have "distinct (map cu_id olds)"
    proof -
      have "distinct (map cu_id ?mine)" using dist by (simp add: of_host_def distinct_map_filter)
      then have "distinct (map cu_id (sort_key cu_created ?mine))" by (simp add: distinct_map)
      then show ?thesis by (simp add: olds_def take_map [symmetric])
    qed
    ultimately have "length (of_host ?h kept) + length olds = length ?mine"
      using evicted_ids [OF dist] True by (simp add: kept_def)
    moreover have "length olds = length ?mine - ?b + 1"
      using True by (simp add: olds_def max_pending_cleanups_per_host_def)
    ultimately show ?thesis using True bnd [of ?h] by simp
  qed (simp add: kept_def)
  moreover have "length (of_host g kept) \<le> ?b" for g
    using bnd [of g] by (auto simp: kept_def of_host_filter intro: le_trans [OF length_filter_le])
  ultimately have "length (of_host g (upsert_cleanup c kept)) \<le> ?b" for g
    using upsert_of_host [of g c kept] by (cases "g = ?h") (auto intro: le_trans)
  moreover have "distinct (map cu_id kept)" using dist by (simp add: kept_def distinct_map_filter)
  ultimately show ?thesis by (simp add: res cleanups_ok_def upsert_distinct)
qed

end
