(* ===== verification/HostHistory.thy ===== *)
theory HostHistory
  imports HostSafety
begin

text \<open>
  Histories of the registry: any sequence of its operations, restarts included, with any statements
  failing, and the opening of new and old databases.
\<close>

section \<open>Opening\<close>

lemma open_store_current:
  assumes "open_store ov v s = (x, s')" and "db_version (sd_db s) = schema_version"
  shows "sd_db s' = sd_db s"
  using assms
  by (auto simp: open_store_def verify_state_directory_def open_locked_def Let_def schema_version_def
      split: prod.splits sum.splits if_splits)

lemma initialize_current:
  assumes "initialize ae env g = (x, g')" and "db_version (rg_db g) = schema_version"
  shows "rg_db g' = rg_db g"
proof -
  have "sd_db s' = sd_db (rg_disk g)" if "open_store ov v (rg_disk g) = (y, s')" for ov v y s'
    using open_store_current [OF that] assms(2) by (simp add: rg_db_def)
  with assms(1) show ?thesis
    by (auto simp: initialize_def Let_def rg_db_def close_disk_def split: if_splits sum.splits prod.splits option.splits)
qed

section \<open>Histories\<close>

datatype registry_op =
    OpSave init_env save_faults host_input revision
  | OpDelete bool faults host_id revision
  | OpAddCleanup init_env faults int cleanup
  | OpRemoveCleanup faults string
  | OpListCleanups init_env faults host_id
  | OpGetSettings init_env faults
  | OpSetDefault init_env faults "host_id option" revision
  | OpClose
  | OpRestart init_env

definition restart :: "'c aead \<Rightarrow> init_env \<Rightarrow> 'c registry \<Rightarrow> 'c registry" where
  "restart ae env g =
     (case new_registry ae env (rg_directory g) None (close_disk (rg_disk g)) (rg_key_file g) of
        (_, None) \<Rightarrow> g | (_, Some g') \<Rightarrow> g')"

fun registry_apply :: "'c aead \<Rightarrow> registry_op \<Rightarrow> 'c registry \<Rightarrow> 'c registry" where
  "registry_apply ae (OpSave env sf h e) g = snd (registry_save ae env sf h e g)"
| "registry_apply ae (OpDelete gf f i e) g = snd (registry_delete gf f i e g)"
| "registry_apply ae (OpAddCleanup env f now c) g = snd (registry_add_cleanup ae env f now c g)"
| "registry_apply ae (OpRemoveCleanup f i) g = snd (registry_remove_cleanup f i g)"
| "registry_apply ae (OpListCleanups env f h) g = snd (registry_list_cleanups ae env f h g)"
| "registry_apply ae (OpGetSettings env f) g = snd (registry_get_settings ae env f g)"
| "registry_apply ae (OpSetDefault env f h e) g = snd (registry_update_default ae env f h e g)"
| "registry_apply ae OpClose g = registry_close g"
| "registry_apply ae (OpRestart env) g = restart ae env g"

definition registry_run :: "'c aead \<Rightarrow> registry_op list \<Rightarrow> 'c registry \<Rightarrow> 'c registry" where
  "registry_run ae ops g = foldl (\<lambda>g c. registry_apply ae c g) g ops"

text \<open>The query for the next revisions does not fail.\<close>

definition revisions_read :: "registry_op \<Rightarrow> bool" where
  "revisions_read c = (case c of OpSave env sf h e \<Rightarrow> \<not> sf_next sf | _ \<Rightarrow> True)"

lemma rg_db_with_db: "rg_db (snd (with_db step g)) = snd (step (rg_db g))"
  by (cases "step (rg_db g)") (simp add: with_db_def rg_db_def)

lemma initialized_keeps:
  assumes "store_ok (rg_db g)" and "\<And>key d. store_ok d \<Longrightarrow> keeps d (snd (step key d))"
  shows "keeps (rg_db g) (rg_db (snd (initialized ae env step g)))"
proof (cases "rg_closed g")
  case True
  with assms(1) show ?thesis by (simp add: initialized_def keeps_refl)
next
  case False
  obtain x g' where i: "initialize ae env g = (x, g')" by fastforce
  have db: "rg_db g' = rg_db g" using initialize_current [OF i] assms(1) by (simp add: store_ok_def)
  have k: "keeps (rg_db g) (rg_db (snd (with_db (step key) g')))" for key
    using assms(2) [OF assms(1), of key] by (simp add: rg_db_with_db db)
  show ?thesis
    using False k assms(1)
    by (auto simp: initialized_def i db keeps_refl split: sum.split option.split)
qed

lemma with_db_keeps:
  "keeps (rg_db g) (snd (step (rg_db g))) \<Longrightarrow> keeps (rg_db g) (rg_db (snd (with_db step g)))"
  by (simp add: rg_db_with_db)

lemma cleanup_keeps:
  assumes "store_ok d"
  shows "keeps d (snd (add_pending_cleanup f now c d))" and "keeps d (snd (remove_pending_cleanup f i d))"
proof -
  note ok = store_ok_parts [OF assms]
  have same: "db_hosts (snd (add_pending_cleanup f now c d)) = db_hosts d"
    "db_marks (snd (add_pending_cleanup f now c d)) = db_marks d"
    "db_version (snd (add_pending_cleanup f now c d)) = db_version d"
    "db_settings (snd (add_pending_cleanup f now c d)) = db_settings d"
    by (simp_all add: add_pending_cleanup_def Let_def)
  show "keeps d (snd (add_pending_cleanup f now c d))"
    by (rule keeps_frame [OF assms same(1-3) _ add_cleanup_ok [OF ok(5)]])
      (use ok(4) in \<open>simp add: default_ok_def same\<close>)
  have "cleanups_ok (snd (remove_pending_cleanup f i d))"
    using ok(5)
    by (auto simp: remove_pending_cleanup_def cleanups_ok_def of_host_filter distinct_map_filter
        intro: le_trans [OF length_filter_le])
  then show "keeps d (snd (remove_pending_cleanup f i d))"
    by (intro keeps_frame [OF assms]) (use ok(4) in \<open>simp_all add: remove_pending_cleanup_def default_ok_def\<close>)
qed

lemma restart_db:
  assumes "db_version (rg_db g) = schema_version" shows "rg_db (restart ae env g) = rg_db g"
proof (cases "state_directory (rg_directory g) None")
  case None
  then show ?thesis by (simp add: restart_def new_registry_def)
next
  case (Some dr)
  let ?g = "\<lparr> rg_directory = dr, rg_disk = close_disk (rg_disk g), rg_key_file = rg_key_file g, rg_vault = None, rg_closed = False \<rparr>"
  have db: "rg_db ?g = rg_db g" by (simp add: rg_db_def close_disk_def)
  obtain x g' where i: "initialize ae env ?g = (x, g')" by fastforce
  have "rg_db g' = rg_db ?g" by (rule initialize_current [OF i]) (simp add: db assms)
  then show ?thesis by (simp add: restart_def new_registry_def Some i db)
qed

lemma registry_apply_keeps:
  assumes "store_ok (rg_db g)" and "revisions_read c"
  shows "keeps (rg_db g) (rg_db (registry_apply ae c g))"
proof (cases c)
  case (OpSave env sf h e)
  with assms show ?thesis
    by (auto simp: registry_save_def revisions_read_def intro: initialized_keeps save_in_keeps)
next
  case (OpDelete gf f i e)
  with assms(1) show ?thesis
    by (auto simp: registry_delete_def keeps_refl intro: with_db_keeps delete_in_keeps)
next
  case (OpAddCleanup env f now c)
  with assms(1) show ?thesis by (auto simp: registry_add_cleanup_def intro: initialized_keeps cleanup_keeps)
next
  case (OpRemoveCleanup f i)
  with assms(1) show ?thesis
    by (auto simp: registry_remove_cleanup_def keeps_refl intro: with_db_keeps cleanup_keeps)
next
  case (OpListCleanups env f h)
  with assms(1) show ?thesis
    by (simp add: registry_list_cleanups_def) (rule initialized_keeps, simp_all add: keeps_refl)
next
  case (OpGetSettings env f)
  with assms(1) show ?thesis
    by (simp add: registry_get_settings_def) (rule initialized_keeps, simp_all add: keeps_refl)
next
  case (OpSetDefault env f h e)
  with assms(1) show ?thesis by (auto simp: registry_update_default_def intro: initialized_keeps update_default_keeps)
next
  case OpClose
  with assms(1) show ?thesis by (simp add: registry_close_def rg_db_def close_disk_def keeps_refl)
next
  case (OpRestart env)
  have "db_version (rg_db g) = schema_version" using assms(1) by (simp add: store_ok_def)
  with OpRestart assms(1) show ?thesis by (simp add: restart_db keeps_refl)
qed

lemma registry_run_keeps:
  "store_ok (rg_db g) \<Longrightarrow> list_all revisions_read ops \<Longrightarrow> keeps (rg_db g) (rg_db (registry_run ae ops g))"
proof (induction ops arbitrary: g)
  case Nil
  then show ?case by (simp add: registry_run_def keeps_refl)
next
  case (Cons c ops)
  then have step: "keeps (rg_db g) (rg_db (registry_apply ae c g))" by (simp add: registry_apply_keeps)
  then have "keeps (rg_db (registry_apply ae c g)) (rg_db (registry_run ae ops (registry_apply ae c g)))"
    using Cons by (simp add: keeps_def)
  with step have "keeps (rg_db g) (rg_db (registry_run ae ops (registry_apply ae c g)))"
    by (auto simp: keeps_def intro: continues_trans)
  then show ?case by (simp add: registry_run_def)
qed

lemma local_row_ok: "row_ok local_id (row_of local_record)"
proof -
  have l: "json_text local_id = local_id" "json_text ''Local'' = ''Local''"
    by (simp_all add: local_id_def ascii_utf8_valid ascii_def)
  show ?thesis
    by (simp add: row_ok_def record_ok_def row_of_def local_record_def json_record_def json_type_def l access_def
        no_access_def initial_revision_def) (simp add: local_id_def)
qed

lemma fresh_ok: "store_ok (fresh_db :: 'c host_db)"
proof -
  have "row_ok local_id (row_of (local_record :: 'c host_record))" by (rule local_row_ok)
  moreover have "record_at (fresh_db :: 'c host_db) i = Some r \<Longrightarrow> i = local_id \<and> hr_revision r = 1 \<and> hr_conn_revision r = 1" for i r
    by (auto simp: record_at_def fresh_db_def local_record_def json_record_def initial_revision_def split: if_splits)
  ultimately show ?thesis
    by (auto simp: store_ok_def rows_ok_def marks_ok_def one_local_def default_ok_def cleanups_ok_def schema_version_def
        mark_def fresh_db_def split: if_splits)
qed

section \<open>Migration\<close>

definition typed_v1 :: "'c host_record \<Rightarrow> 'c host_record" where
  "typed_v1 r = r\<lparr>hr_type := if hr_type r = no_type then ConnSSH else hr_type r\<rparr>"

text \<open>A version 1 database: its hosts are SSH hosts, and it has no other tables.\<close>

definition v1_row_ok :: "host_id \<Rightarrow> 'c host_row \<Rightarrow> bool" where
  "v1_row_ok i w \<longleftrightarrow>
     (case rw_blob w of
        Garbage \<Rightarrow> False
      | Doc r \<Rightarrow> hr_id r = i \<and> utf8_valid i \<and> i \<noteq> [] \<and> hr_revision r = rw_revision w \<and> 0 < hr_conn_revision r
          \<and> hr_conn_revision r \<le> hr_revision r \<and> (hr_type r = no_type \<or> hr_type r = ConnSSH))"

definition v1_ok :: "'c host_db \<Rightarrow> bool" where
  "v1_ok d \<longleftrightarrow> db_version d = 1 \<and> distinct (map fst (db_hosts d)) \<and> list_all (\<lambda>(i, w). v1_row_ok i w) (db_hosts d)
     \<and> db_marks d = [] \<and> db_settings d = None \<and> db_cleanups d = []"

text \<open>The row a version 1 row becomes.\<close>

definition migrated_row :: "'c host_row \<Rightarrow> 'c host_row" where
  "migrated_row w = (case rw_blob w of Garbage \<Rightarrow> w | Doc r \<Rightarrow> row_of (json_record (typed_v1 r)))"

lemma read_v1_rows:
  "read_v1_hosts hs = Inr rs \<Longrightarrow>
     map fst rs = map fst hs
     \<and> (\<forall>i w r. map_of hs i = Some w \<longrightarrow> rw_blob w = Doc r \<longrightarrow> map_of rs i = Some (rw_revision w, typed_v1 r))"
proof (induction hs arbitrary: rs)
  case (Cons x hs)
  obtain i w where x: "x = (i, w)" by (cases x)
  obtain r qs where r: "rw_blob w = Doc r" "read_v1_hosts hs = Inr qs" "rs = (i, rw_revision w, typed_v1 r) # qs"
    using Cons.prems by (auto simp: x typed_v1_def split: blob.splits)
  show ?case using Cons.IH [OF r(2)] r by (auto simp: x)
qed simp

text \<open>What the rows of a version 1 database become, by host.\<close>

definition rewritten ::
  "(host_id \<times> revision \<times> 'c host_record) list \<Rightarrow> 'c host_db \<Rightarrow> 'c host_db \<Rightarrow> host_id \<Rightarrow> bool" where
  "rewritten rs d d' i \<longleftrightarrow>
     (case map_of rs i of
        None \<Rightarrow> map_of (db_hosts d') i = map_of (db_hosts d) i \<and> map_of (db_marks d') i = map_of (db_marks d) i
      | Some (rv, r) \<Rightarrow>
          map_of (db_hosts d') i = map_option (\<lambda>w. w\<lparr> rw_type := ConnSSH, rw_blob := Doc (json_record r) \<rparr>) (map_of (db_hosts d) i)
          \<and> map_of (db_marks d') i = Some (rv, hr_conn_revision r))"

definition rows_kept :: "'c host_db \<Rightarrow> 'c host_db \<Rightarrow> bool" where
  "rows_kept d d' \<longleftrightarrow> distinct (map fst (db_hosts d')) \<and> map fst (db_hosts d') = map fst (db_hosts d)
     \<and> db_settings d' = db_settings d \<and> db_cleanups d' = db_cleanups d"

lemma update_keys: "map_of m j = Some w \<Longrightarrow> map fst (AList.update j v m) = map fst m"
  by (induction m) (auto split: if_splits)

lemma migrate_rows_effect:
  "migrate_rows f k rs d = Inr d' \<Longrightarrow> distinct (map fst rs) \<Longrightarrow> distinct (map fst (db_hosts d)) \<Longrightarrow>
     (\<forall>i. rewritten rs d d' i) \<and> rows_kept d d'"
proof (induction f k rs d rule: migrate_rows.induct)
  case (1 f k d)
  then show ?case by (simp add: rewritten_def rows_kept_def)
next
  case (2 f k j rv r rs d)
  define d1 where "d1 = d\<lparr> db_hosts := (case map_of (db_hosts d) j of None \<Rightarrow> db_hosts d
      | Some w \<Rightarrow> AList.update j (w\<lparr> rw_type := ConnSSH, rw_blob := Doc (json_record r) \<rparr>) (db_hosts d)),
    db_marks := AList.update j (rv, hr_conn_revision r) (db_marks d) \<rparr>"
  have go: "\<not> (f k \<or> f (Suc k))" "migrate_rows f (k + 2) rs d1 = Inr d'"
    using "2.prems"(1) by (simp_all add: d1_def split: if_splits)
  have keys: "map fst (db_hosts d1) = map fst (db_hosts d)"
    by (simp add: d1_def update_keys split: option.split)
  have dist: "distinct (map fst rs)" "map_of rs j = None" "distinct (map fst (db_hosts d1))"
    using "2.prems"(2,3) keys by (auto simp: map_of_eq_None_iff)
  have ih: "rewritten rs d1 d' i" "rows_kept d1 d'" for i
    using "2.IH" [OF go(1), folded d1_def, OF go(2) dist(1,3)] by simp_all
  have h: "map_of (db_hosts d1) i = (if i = j
      then map_option (\<lambda>w. w\<lparr> rw_type := ConnSSH, rw_blob := Doc (json_record r) \<rparr>) (map_of (db_hosts d) i)
      else map_of (db_hosts d) i)" for i
    by (simp add: d1_def AList.update_conv' split: option.split)
  have m: "map_of (db_marks d1) i = (if i = j then Some (rv, hr_conn_revision r) else map_of (db_marks d) i)" for i
    by (simp add: d1_def AList.update_conv')
  have "rewritten ((j, rv, r) # rs) d d' i" for i
    using ih(1) [of i] dist(2) by (cases "i = j") (auto simp: rewritten_def h m split: option.splits prod.splits)
  moreover have "rows_kept d d'" using ih(2) keys "2.prems"(3) by (simp add: rows_kept_def d1_def)
  ultimately show ?case by simp
qed

lemma v1_row:
  assumes "v1_ok d" and "map_of (db_hosts d) i = Some w"
  obtains r where "rw_blob w = Doc r" "v1_row_ok i w"
    "migrated_row w = w\<lparr> rw_type := ConnSSH, rw_blob := Doc (json_record (typed_v1 r)) \<rparr>"
proof -
  have ok: "v1_row_ok i w" using assms map_of_SomeD [OF assms(2)] by (auto simp: v1_ok_def list_all_iff)
  then obtain r where r: "rw_blob w = Doc r" by (auto simp: v1_row_ok_def split: blob.splits)
  have "migrated_row w = w\<lparr> rw_type := ConnSSH, rw_blob := Doc (json_record (typed_v1 r)) \<rparr>"
    using ok r by (auto simp: migrated_row_def row_of_def v1_row_ok_def typed_v1_def)
  with ok r that show thesis by blast
qed

lemma migrated_row_ok:
  assumes "v1_ok d" and "map_of (db_hosts d) i = Some w"
  shows "row_ok i (migrated_row w)" and "rw_type (migrated_row w) = ConnSSH"
proof -
  obtain r where r: "rw_blob w = Doc r" "v1_row_ok i w"
    "migrated_row w = w\<lparr> rw_type := ConnSSH, rw_blob := Doc (json_record (typed_v1 r)) \<rparr>"
    by (rule v1_row [OF assms])
  show "rw_type (migrated_row w) = ConnSSH" by (simp add: r(3))
  show "row_ok i (migrated_row w)"
    using r(1,2) by (auto simp: migrated_row_def row_ok_def record_ok_def row_of_def v1_row_ok_def typed_v1_def)
qed

lemma row_of_local [simp]:
  "rw_type (row_of local_record) = ConnLocal"
  "rw_blob (row_of local_record) = Doc (json_record local_record)"
  "hr_revision local_record = 1" "hr_conn_revision local_record = 1"
  by (simp_all add: local_record_def initial_revision_def)

text \<open>The database a successful migration leaves.\<close>

lemma migrate_effect:
  assumes "migrate_v1_to_v2 f v d = (x, d')" and "v1_ok d"
  shows "if x = Inr () then
      store_ok d' \<and> (\<forall>i w. map_of (db_hosts d) i = Some w \<longrightarrow> map_of (db_hosts d') i = Some (migrated_row w))
        \<and> (\<forall>i w'. map_of (db_hosts d') i = Some w' \<longrightarrow> map_of (db_hosts d) i = None \<longrightarrow> i = local_id)
    else d' = d"
proof (cases "x = Inr ()")
  case False
  then show ?thesis
    using assms(1) by (auto simp: migrate_v1_to_v2_def split: if_splits sum.splits option.splits)
next
  case True
  obtain rs d1 d2 where st: "read_v1_hosts (db_hosts d) = Inr rs" "migrate_rows f 20 rs d = Inr d1"
    "bootstrap_local_host_v1 f d1 = Inr d2"
    "d' = d2\<lparr> db_settings := (case db_settings d2 of None \<Rightarrow> Some (Some local_id, 1) | Some s \<Rightarrow> Some s),
       db_initialized := True, db_version := 2 \<rparr>"
    using assms(1) True by (auto simp: migrate_v1_to_v2_def split: if_splits sum.splits option.splits)
  note rd = read_v1_rows [OF st(1)]
  have dist: "distinct (map fst (db_hosts d))" and none: "db_marks d = []" "db_settings d = None" "db_cleanups d = []"
    using assms(2) by (simp_all add: v1_ok_def)
  have eff: "rewritten rs d d1 i" "rows_kept d d1" for i
    using migrate_rows_effect [OF st(2)] rd dist by simp_all
  have keys: "map_of rs i = None" if "map_of (db_hosts d) i = None" for i
    using that rd by (metis map_of_eq_None_iff set_map)
  have old: "map_of (db_hosts d1) i = Some (migrated_row w)
      \<and> (\<exists>r. rw_blob (migrated_row w) = Doc r \<and> mark d1 i = (hr_revision r, hr_conn_revision r))"
    if w: "map_of (db_hosts d) i = Some w" for i w
  proof -
    obtain r where r: "rw_blob w = Doc r" "v1_row_ok i w"
      "migrated_row w = w\<lparr> rw_type := ConnSSH, rw_blob := Doc (json_record (typed_v1 r)) \<rparr>"
      by (rule v1_row [OF assms(2) w])
    have "map_of rs i = Some (rw_revision w, typed_v1 r)" using rd w r(1) by blast
    with eff(1) [of i] w r show ?thesis by (simp add: rewritten_def mark_def v1_row_ok_def typed_v1_def)
  qed
  have new: "map_of (db_hosts d1) i = None" "mark d1 i = (0, 0)" if "map_of (db_hosts d) i = None" for i
    using eff(1) [of i] keys [OF that] that by (simp_all add: rewritten_def mark_def none)
  define boot where "boot \<longleftrightarrow> map_of (db_hosts d) local_id = None"
  have boot1: "boot \<longleftrightarrow> map_of (db_hosts d1) local_id = None"
    using old [of local_id] new(1) [of local_id] by (cases "map_of (db_hosts d) local_id") (simp_all add: boot_def)
  have d2: "db_hosts d' = (if boot then db_hosts d1 @ [(local_id, row_of local_record)] else db_hosts d1)"
    "db_marks d' = (if boot then AList.update local_id (1, 1) (db_marks d1) else db_marks d1)"
    "db_settings d' = Some (Some local_id, 1)" "db_cleanups d' = []" "db_version d' = 2"
    using st(3) eff(2) none by (auto simp: st(4) bootstrap_local_host_v1_def boot1 rows_kept_def split: if_splits)
  have hosts: "map_of (db_hosts d') i = (if boot \<and> i = local_id then Some (row_of local_record)
      else map_option migrated_row (map_of (db_hosts d) i))" for i
    using old [of i] new(1) [of i] boot1
    by (cases "map_of (db_hosts d) i") (auto simp: d2(1) map_add_def)
  have mk: "mark d' i = (if boot \<and> i = local_id then (1, 1) else mark d1 i)" for i
    by (simp add: mark_def d2(2) AList.update_conv')
  have "distinct (map fst (db_hosts d'))"
  proof -
    have "map fst (db_hosts d1) = map fst (db_hosts d)" using eff(2) by (simp add: rows_kept_def)
    moreover from this have "boot \<longleftrightarrow> local_id \<notin> set (map fst (db_hosts d))"
      using boot1 by (metis map_of_eq_None_iff set_map)
    ultimately show ?thesis using dist by (simp add: d2(1))
  qed
  then have "rows_ok d'"
    using migrated_row_ok(1) [OF assms(2)] local_row_ok by (auto simp: rows_ok_def hosts split: if_splits)
  moreover have "marks_ok d'"
    unfolding marks_ok_def
  proof (intro conjI allI impI)
    fix i
    have m1: "snd (mark d1 i) \<le> fst (mark d1 i)"
    proof (cases "map_of (db_hosts d) i")
      case (Some w)
      obtain r where "rw_blob (migrated_row w) = Doc r" "mark d1 i = (hr_revision r, hr_conn_revision r)"
        using old [OF Some] by blast
      with migrated_row_ok(1) [OF assms(2) Some] show ?thesis by (simp add: row_ok_def record_ok_def)
    qed (simp add: new)
    then show "snd (mark d' i) \<le> fst (mark d' i)" by (simp add: mk)
    fix q assume q: "record_at d' i = Some q"
    show "fst (mark d' i) = hr_revision q" "hr_conn_revision q \<le> snd (mark d' i)"
    proof (atomize (full), cases "boot \<and> i = local_id")
      case True
      with q show "fst (mark d' i) = hr_revision q \<and> hr_conn_revision q \<le> snd (mark d' i)"
        by (auto simp: record_at_def hosts mk)
    next
      case False
      then obtain w where w: "map_of (db_hosts d) i = Some w" "rw_blob (migrated_row w) = Doc q"
        using q by (auto simp: record_at_def hosts split: option.splits blob.splits)
      with old [OF w(1)] False show "fst (mark d' i) = hr_revision q \<and> hr_conn_revision q \<le> snd (mark d' i)"
        by (auto simp: mk)
    qed
  qed
  moreover have "one_local d'"
    using migrated_row_ok(2) [OF assms(2)] unfolding one_local_def hosts
    by (auto split: if_splits)
  moreover have "default_ok d'"
    using old [of local_id] by (auto simp: default_ok_def d2(3) hosts boot_def)
  ultimately have "store_ok d'" by (simp add: store_ok_def cleanups_ok_def d2(4,5) schema_version_def)
  with True hosts show ?thesis by (auto simp: boot_def)
qed

section \<open>Properties\<close>



lemma open_store_v1:
  assumes "open_store ov v s = (Inr (), s')" and "db_version (sd_db s) = 1"
  obtains d' where "migrate_v1_to_v2 (of_sql ov) v (sd_db s) = (Inr (), d')" "sd_db s' = d'" "sd_backup s' = BackupOf (sd_db s)"
  using assms
  by (auto simp: open_store_def verify_state_directory_def open_locked_def backup_state_def Let_def
      schema_version_def split: prod.splits sum.splits if_splits)

text \<open>C30: opening the store of the previous version either fails and leaves the database as it was, or
  leaves a consistent database holding every host with its revisions and its record, typed as an SSH
  host, beside the local host, and a backup of what was there.\<close>

theorem migration_keeps_hosts:
  assumes "open_store ov v s = (x, s')" and "v1_ok (sd_db s)"
  shows "if x = Inr () then
      store_ok (sd_db s')
      \<and> (\<forall>i w. map_of (db_hosts (sd_db s)) i = Some w \<longrightarrow> map_of (db_hosts (sd_db s')) i = Some (migrated_row w))
      \<and> (\<forall>i w. map_of (db_hosts (sd_db s')) i = Some w \<longrightarrow> map_of (db_hosts (sd_db s)) i = None \<longrightarrow> i = local_id)
      \<and> sd_backup s' = BackupOf (sd_db s)
    else sd_db s' = sd_db s"
proof -
  have v: "db_version (sd_db s) = 1" using assms(2) by (simp add: v1_ok_def)
  show ?thesis
  proof (cases "x = Inr ()")
    case True
    then obtain d' where m: "migrate_v1_to_v2 (of_sql ov) v (sd_db s) = (Inr (), d')" "sd_db s' = d'"
      "sd_backup s' = BackupOf (sd_db s)"
      using open_store_v1 [OF assms(1) [unfolded True] v] by blast
    with True migrate_effect [OF m(1) assms(2)] show ?thesis by simp
  next
    case False
    have m: "snd (migrate_v1_to_v2 (of_sql ov) v (sd_db s)) = sd_db s"
      if "fst (migrate_v1_to_v2 (of_sql ov) v (sd_db s)) \<noteq> Inr ()"
      using migrate_effect [OF prod.collapse [symmetric] assms(2), of "of_sql ov" v] that by simp
    show ?thesis
      using assms(1) v False m
      by (auto simp: open_store_def verify_state_directory_def open_locked_def backup_state_def Let_def
          schema_version_def split: prod.splits sum.splits if_splits)
  qed
qed

text \<open>The first opening of a store.\<close>

lemma open_store_first:
  assumes "open_store ov v s = (x, s')" and "db_version (sd_db s) = 0"
  shows "x = Inr () \<Longrightarrow> sd_db s' = fresh_db \<and> sd_file s' = PrivateRegular" and "x \<noteq> Inl (VaultFailed e)"
proof -
  have made: "snd (private_file b shape) = PrivateRegular" if "fst (private_file b shape) = Inr y" for b shape y
    using that by (auto simp: private_file_def split: file_shape.splits if_splits)
  have err: "fst (private_file b shape) \<noteq> Inl (VaultFailed e)" for b shape
    by (simp add: private_file_def split: file_shape.split)
  have init: "initialize_fresh_database f d = (Inr u, d') \<Longrightarrow> d' = fresh_db"
    "initialize_fresh_database f d \<noteq> (Inl (VaultFailed e), d')" for f d d' u
    by (auto simp: initialize_fresh_database_def split: if_splits)
  have locked: "fst (open_locked ov v t) = Inr () \<longrightarrow>
      sd_db (snd (snd (open_locked ov v t))) = fresh_db \<and> sd_file (snd (snd (open_locked ov v t))) = PrivateRegular"
    "fst (open_locked ov v t) \<noteq> Inl (VaultFailed e)" if "db_version (sd_db t) = 0" for t
    using that made [of "of_file ov" "sd_file t"] err [of "of_file ov" "sd_file t"] init
    by (auto simp: open_locked_def Let_def schema_version_def split: prod.split sum.split elim: init(2) [THEN notE])
  obtain y t where vs: "verify_state_directory ov s = (y, t)" by fastforce
  have t: "sd_db t = sd_db s" "y \<noteq> Inl (VaultFailed e)"
    using vs err [of "of_lock ov" "sd_lock s"]
    by (auto simp: verify_state_directory_def split: if_splits prod.splits sum.splits)
  obtain r c u where ol: "open_locked ov v t = (r, c, u)" by (metis prod_cases3)
  note l = locked [of t, unfolded ol t(1), OF assms(2), simplified]
  show "x = Inr () \<Longrightarrow> sd_db s' = fresh_db \<and> sd_file s' = PrivateRegular" "x \<noteq> Inl (VaultFailed e)"
    using assms(1) l t(2) by (auto simp: open_store_def vs ol split: sum.splits)
qed

lemma fresh_has_no_credentials: "verify_store_credentials ae key lf fresh_db \<noteq> Some (VaultFailed z)"
  by (simp add: verify_store_credentials_def store_list_def fresh_db_def decode_row_def typed_def default_type_def
      json_record_def local_record_def map_filter_simps)

text \<open>When the first start fails because no master key can be made, the database it has already
  initialised makes every later start fail, whatever is repaired.\<close>

theorem failed_first_start_locks_out:
  assumes "initialize ae env g = (Inl (VaultFailed e), g')" and "sd_file (rg_disk g) = Absent"
    and "db_version (sd_db (rg_disk g)) = 0" and "rg_vault g = None" and "rg_key_file g = KeyMissing"
    and "rg_key_file g' = KeyMissing"
  shows "initialize ae env' g' = (Inl (VaultFailed KeyMissingError), g')"
proof -
  have plain: "\<not> rg_closed g" "rg_directory g \<noteq> []"
    using assms(1,4) by (auto simp: initialize_def split: if_splits)
  obtain x disk where op: "open_store (ie_open env) None (rg_disk g) = (x, disk)" by fastforce
  note first = open_store_first [OF op assms(3)]
  have "x = Inr ()"
    using assms(1,2,4) plain first(2) [of e] by (cases x) (auto simp: initialize_def Let_def op)
  note disk = first(1) [OF this]
  have "rg_disk g' = close_disk disk \<and> rg_vault g' = None \<and> \<not> rg_closed g' \<and> rg_directory g' \<noteq> []"
    using assms(1,2,4,5) plain disk fresh_has_no_credentials [of ae _ "ie_list env" e]
    by (auto simp: initialize_def Let_def op \<open>x = Inr ()\<close> split: sum.splits prod.splits option.splits)
  with disk assms(6) show ?thesis by (simp add: initialize_def load_vault_def close_disk_def)
qed

section \<open>Witnesses\<close>

definition no_faults :: faults where "no_faults = (\<lambda>_. False)"

definition calm_open :: open_faults where
  "calm_open = \<lparr> of_dir = False, of_lock = False, of_file = False, of_version = False, of_read = False, of_write = False,
     of_sql = no_faults \<rparr>"

definition calm :: init_env where
  "calm = \<lparr> ie_open = calm_open,
     ie_key = \<lparr> kf_mkdir = False, kf_rand = Some demo_key, kf_create = False, kf_write = None \<rparr>, ie_list = False \<rparr>"

definition calm_save :: save_faults where
  "calm_save = \<lparr> sf_next = False, sf_get = False, sf_put = no_faults, sf_rand = Some demo_rand \<rparr>"

definition demo_input :: "string \<Rightarrow> string \<Rightarrow> host_input" where
  "demo_input name addr =
     \<lparr> hi_id = ''h1'', hi_type = ConnSSH, hi_name = name, hi_address = addr, hi_port = 0, hi_username = ''u'',
       hi_cred_type = [], hi_credentials = no_credentials, hi_host_key = [], hi_challenge = [] \<rparr>"

definition demo_dir :: "box host_db \<Rightarrow> box state_dir" where
  "demo_dir d = \<lparr> sd_private = True, sd_owned = False, sd_lock = PrivateRegular, sd_file = PrivateRegular, sd_db = d,
     sd_backup = NoBackup \<rparr>"

definition demo_registry :: "box registry" where
  "demo_registry = \<lparr> rg_directory = ''d'', rg_disk = (demo_dir fresh_db)\<lparr>sd_owned := True\<rparr>,
     rg_key_file = KeyBytes demo_key, rg_vault = Some demo_key, rg_closed = False \<rparr>"

definition demo_record :: "revision \<Rightarrow> revision \<Rightarrow> string \<Rightarrow> string \<Rightarrow> box host_record" where
  "demo_record r c name addr =
     \<lparr> hr_id = ''h1'', hr_revision = r, hr_conn_revision = c, hr_name = name, hr_type = ConnSSH, hr_address = addr,
       hr_port = 22, hr_username = ''u'', hr_cred_type = [], hr_credential = None, hr_host_key = [] \<rparr>"

definition demo_saved :: "registry_op list" where
  "demo_saved = [OpSave calm calm_save (demo_input ''a'' ''x'') 0]"

definition demo_renamed :: "registry_op list" where
  "demo_renamed = [OpSave calm calm_save (demo_input ''b'' ''x'') 1]"

lemma demo_strings:
  "trim_space ''a'' = ''a''" "trim_space ''b'' = ''b''" "trim_space ''x'' = ''x''" "trim_space ''y'' = ''y''"
  "trim_space ''u'' = ''u''" "valid_host_id ''h1''" "json_text ''h1'' = ''h1''" "json_text ''a'' = ''a''"
  "json_text ''b'' = ''b''" "json_text ''x'' = ''x''" "json_text ''y'' = ''y''" "json_text ''u'' = ''u''"
  by (simp_all add: trim_space_printable printable_def valid_host_id_def id_char_def less_eq_char_def
      ascii_utf8_valid ascii_def)

lemmas demo_eval =
  calm_def calm_open_def calm_save_def no_faults_def demo_input_def demo_dir_def demo_registry_def demo_record_def
  fresh_db_def registry_run_def registry_save_def initialized_def initialize_def with_db_def rg_db_def save_in_def
  save_new_def save_update_def save_update_ssh_def put_and_project_def store_put_def store_get_def decode_row_def
  record_at_def upsert_host_record_def validate_put_record_def next_revisions_def typed_def default_type_def
  no_type_def row_of_def json_record_def json_type_def raise_mark_def local_rows_def local_record_def
  initial_revision_def local_id_def seal_input_credential_def resolve_credential_update_def
  resolve_host_key_update_def has_secret_fields_def no_credentials_def registry_delete_def delete_in_def
  store_delete_def demo_strings Let_def

lemma demo_saved_record:
  "record_at (rg_db (registry_run box_aead demo_saved demo_registry)) ''h1'' = Some (demo_record 1 1 ''a'' ''x'')"
  by (simp add: demo_saved_def demo_eval)

lemma demo_renamed_record:
  "record_at (rg_db (registry_run box_aead (demo_saved @ demo_renamed) demo_registry)) ''h1''
     = Some (demo_record 2 1 ''b'' ''x'')"
  by (simp add: demo_saved_def demo_renamed_def demo_eval)

lemma demo_start: "store_ok (rg_db demo_registry)" "list_all revisions_read (demo_saved @ demo_renamed)"
  using fresh_ok
  by (simp_all add: demo_registry_def demo_dir_def rg_db_def demo_saved_def demo_renamed_def revisions_read_def calm_save_def)



text \<open>The hypothesis on the query is needed: when it fails, a host registered again has the revisions of
  the deleted one and another endpoint.\<close>

lemma failed_revision_query_reuses:
  "record_at (rg_db (registry_run box_aead
       (demo_saved @ [OpDelete False no_faults ''h1'' 1, OpSave calm (calm_save\<lparr>sf_next := True\<rparr>) (demo_input ''b'' ''y'') 0])
       demo_registry)) ''h1'' = Some (demo_record 1 1 ''b'' ''y'')"
  by (simp add: demo_saved_def demo_eval)

definition demo_v1 :: "box host_db" where
  "demo_v1 = empty_db\<lparr> db_version := 1, db_tables := True,
     db_hosts := [(''h1'', \<lparr> rw_revision = 4, rw_type = ConnSSH, rw_blob = Doc ((demo_record 4 2 ''a'' ''x'')\<lparr>hr_type := no_type\<rparr>) \<rparr>)] \<rparr>"

lemma demo_v1_ok: "v1_ok (sd_db (demo_dir demo_v1))"
  by (simp add: v1_ok_def demo_dir_def demo_v1_def empty_db_def v1_row_ok_def demo_record_def ascii_utf8_valid ascii_def)

lemma demo_v1_opens: "fst (open_store calm_open None (demo_dir demo_v1)) = Inr ()"
  by (simp add: open_store_def verify_state_directory_def private_file_def open_locked_def backup_state_def
      schema_version_def migrate_v1_to_v2_def bootstrap_local_host_v1_def validate_migrated_credentials_def demo_v1_def
      empty_db_def demo_eval)

theorem migration_keeps_hosts_witness:
  "\<exists>s'. open_store calm_open None (demo_dir demo_v1) = (Inr (), s')
     \<and> map_of (db_hosts (sd_db s')) ''h1'' = Some (row_of (demo_record 4 2 ''a'' ''x''))"
proof -
  obtain s' where s': "open_store calm_open None (demo_dir demo_v1) = (Inr (), s')"
    using demo_v1_opens by (metis prod.collapse)
  have "map_of (db_hosts (sd_db (demo_dir demo_v1))) ''h1'' = Some \<lparr> rw_revision = 4, rw_type = ConnSSH,
      rw_blob = Doc ((demo_record 4 2 ''a'' ''x'')\<lparr>hr_type := no_type\<rparr>) \<rparr>"
    by (simp add: demo_dir_def demo_v1_def)
  moreover have "migrated_row \<lparr> rw_revision = 4, rw_type = ConnSSH,
      rw_blob = Doc ((demo_record 4 2 ''a'' ''x'')\<lparr>hr_type := no_type\<rparr>) \<rparr> = row_of (demo_record 4 2 ''a'' ''x'')"
    by (simp add: migrated_row_def typed_v1_def row_of_def json_record_def demo_record_def json_type_def demo_strings)
  ultimately show ?thesis using migration_keeps_hosts [OF s' demo_v1_ok] s' by auto
qed

definition first_start :: "box registry" where
  "first_start = \<lparr> rg_directory = ''d'', rg_disk = (demo_dir empty_db)\<lparr>sd_file := Absent\<rparr>, rg_key_file = KeyMissing,
     rg_vault = None, rg_closed = False \<rparr>"

definition broken_key :: init_env where
  "broken_key = calm\<lparr>ie_key := (ie_key calm)\<lparr>kf_mkdir := True\<rparr>\<rparr>"

lemma first_start_fails:
  "fst (initialize box_aead broken_key first_start) = Inl (VaultFailed KeyDirFailed)"
  "rg_key_file (snd (initialize box_aead broken_key first_start)) = KeyMissing"
  by (simp_all add: broken_key_def first_start_def open_store_def verify_state_directory_def private_file_def
      open_locked_def schema_version_def initialize_fresh_database_def empty_db_def load_vault_def demo_eval)

theorem failed_first_start_locks_out_witness:
  "fst (initialize box_aead calm (snd (initialize box_aead broken_key first_start))) = Inl (VaultFailed KeyMissingError)"
proof -
  obtain g' where g': "initialize box_aead broken_key first_start = (Inl (VaultFailed KeyDirFailed), g')"
    using first_start_fails(1) by (metis prod.collapse)
  have "rg_key_file g' = KeyMissing" using first_start_fails(2) by (simp add: g')
  moreover have "sd_file (rg_disk first_start) = Absent" "db_version (sd_db (rg_disk first_start)) = 0"
    "rg_vault first_start = None" "rg_key_file first_start = KeyMissing"
    by (simp_all add: first_start_def demo_dir_def empty_db_def)
  ultimately show ?thesis using failed_first_start_locks_out [OF g', of calm] by (simp add: g')
qed

end
