(* ===== verification/PathLocks.thy ===== *)
theory PathLocks
  imports FileGuard
begin

text \<open>
  The path coordinator of \<open>hub/internal/host/remote_files.go\<close>: one per host, it serialises work on
  overlapping remote paths.  Each critical section under its mutex is one step; \<open>lk_blocked\<close> are the
  calls of \<open>Lock\<close> asleep on the notify channel, with the paths they want and the generation of the
  channel they sleep on.
\<close>

section \<open>State\<close>

record coordinator =
  lk_next :: nat
  lk_active :: "(nat \<times> string) list"
  lk_waiting :: "nat \<rightharpoonup> nat"
  lk_notify :: nat
  lk_blocked :: "nat \<rightharpoonup> string list \<times> nat"

definition new_path_coordinator :: coordinator where
  "new_path_coordinator =
     \<lparr> lk_next = 0, lk_active = [], lk_waiting = Map.empty, lk_notify = 0, lk_blocked = Map.empty \<rparr>"

definition new_handle :: "coordinator \<Rightarrow> nat \<times> coordinator" where
  "new_handle c = (Suc (lk_next c), c\<lparr>lk_next := Suc (lk_next c)\<rparr>)"

definition paths_conflict :: "string \<Rightarrow> string \<Rightarrow> bool" where
  "paths_conflict p1 p2 \<longleftrightarrow>
     p1 = p2 \<or> p1 = ''/'' \<or> p2 = ''/'' \<or> has_prefix p1 (p2 @ ''/'') \<or> has_prefix p2 (p1 @ ''/'')"

fun find_conflict :: "(nat \<times> string) list \<Rightarrow> nat \<Rightarrow> string list \<Rightarrow> nat option" where
  "find_conflict active owner [] = None"
| "find_conflict active owner (p # ps) =
     (case List.find (\<lambda>(q, a). q \<noteq> owner \<and> paths_conflict p a) active of
        Some (q, _) \<Rightarrow> Some q
      | None \<Rightarrow> find_conflict active owner ps)"

text \<open>The walk of \<open>checkDeadlockLocked\<close>: whether it comes back to the owner.  It may not end.\<close>

partial_function (option) check_deadlock :: "(nat \<rightharpoonup> nat) \<Rightarrow> nat \<Rightarrow> nat \<Rightarrow> bool option" where
  "check_deadlock waiting owner cur =
     (if cur = 0 then Some False
      else if cur = owner then Some True
      else check_deadlock waiting owner (case waiting cur of None \<Rightarrow> 0 | Some n \<Rightarrow> n))"

definition acquire_paths :: "nat \<Rightarrow> string list \<Rightarrow> coordinator \<Rightarrow> coordinator" where
  "acquire_paths owner paths c =
     c\<lparr> lk_waiting := (lk_waiting c)(owner := None), lk_active := lk_active c @ map (\<lambda>p. (owner, p)) paths \<rparr>"

text \<open>The release function: one entry for each path taken, and everyone asleep is woken.\<close>

fun release_entries :: "nat \<Rightarrow> string list \<Rightarrow> (nat \<times> string) list \<Rightarrow> (nat \<times> string) list" where
  "release_entries owner [] active = active"
| "release_entries owner (p # ps) active = release_entries owner ps (remove1 (owner, p) active)"

definition release_paths :: "nat \<Rightarrow> string list \<Rightarrow> coordinator \<Rightarrow> coordinator" where
  "release_paths owner paths c =
     c\<lparr> lk_active := release_entries owner paths (lk_active c), lk_notify := Suc (lk_notify c) \<rparr>"

datatype lock_result = Acquired | Refused file_error | Asleep | Hangs

text \<open>One round of the loop of \<open>Lock\<close>.\<close>

definition lock_round :: "nat \<Rightarrow> string list \<Rightarrow> coordinator \<Rightarrow> lock_result \<times> coordinator" where
  "lock_round h paths c =
     (case find_conflict (lk_active c) h paths of
        None \<Rightarrow> (Acquired, (acquire_paths h paths c)\<lparr>lk_blocked := (lk_blocked c)(h := None)\<rparr>)
      | Some q \<Rightarrow>
          (case check_deadlock (lk_waiting c) h q of
             None \<Rightarrow> (Hangs, c)
           | Some True \<Rightarrow> (Refused (Kind Conflict), c\<lparr>lk_blocked := (lk_blocked c)(h := None)\<rparr>)
           | Some False \<Rightarrow>
               (Asleep, c\<lparr> lk_waiting := (lk_waiting c)(h \<mapsto> q), lk_blocked := (lk_blocked c)(h \<mapsto> (paths, lk_notify c)) \<rparr>)))"

definition lock_cancelled :: "nat \<Rightarrow> coordinator \<Rightarrow> coordinator" where
  "lock_cancelled h c = c\<lparr> lk_waiting := (lk_waiting c)(h := None), lk_blocked := (lk_blocked c)(h := None) \<rparr>"

text \<open>A handle belongs to one goroutine: it calls \<open>Lock\<close> when it is not asleep in one, runs again when
  the channel it slept on is closed, and releases between its calls.\<close>

inductive lk_step :: "coordinator \<Rightarrow> coordinator \<Rightarrow> bool" where
  handle: "new_handle c = (h, c') \<Longrightarrow> lk_step c c'"
| call: "0 < h \<Longrightarrow> h \<le> lk_next c \<Longrightarrow> lk_blocked c h = None \<Longrightarrow> lock_round h paths c = (r, c') \<Longrightarrow> lk_step c c'"
| wake: "lk_blocked c h = Some (paths, n) \<Longrightarrow> n \<noteq> lk_notify c \<Longrightarrow> lock_round h paths c = (r, c') \<Longrightarrow> lk_step c c'"
| cancel: "lk_blocked c h = Some b \<Longrightarrow> lk_step c (lock_cancelled h c)"
| release: "lk_blocked c h = None \<Longrightarrow> lk_step c (release_paths h paths c)"

definition lk_run :: "coordinator \<Rightarrow> bool" where
  "lk_run c \<longleftrightarrow> lk_step\<^sup>*\<^sup>* new_path_coordinator c"

section \<open>The deadlock check\<close>

definition waits :: "(nat \<rightharpoonup> nat) \<Rightarrow> (nat \<times> nat) set" where
  "waits w = {(a, b). w a = Some b}"

lemma waits_functional: "(a, b) \<in> waits w \<Longrightarrow> (a, c) \<in> waits w \<Longrightarrow> b = c"
  by (simp add: waits_def)

lemma finite_waits: "finite (dom w) \<Longrightarrow> finite (waits w)"
proof -
  assume "finite (dom w)"
  moreover have "waits w \<subseteq> (\<lambda>a. (a, the (w a))) ` dom w" by (force simp: waits_def)
  ultimately show "finite (waits w)" by (meson finite_imageI finite_subset)
qed

text \<open>The walk ends when nobody waits in a circle, whoever asks.\<close>

lemma check_deadlock_ends:
  assumes "finite (dom w)" and "acyclic (waits w)"
  shows "\<exists>b. check_deadlock w h q = Some b"
proof -
  have "wf ((waits w)\<inverse>)" using finite_waits [OF assms(1)] assms(2) by (rule finite_acyclic_wf_converse)
  then show ?thesis
  proof (induction q rule: wf_induct_rule)
    case (less q)
    show ?case
    proof (cases "w q")
      case None
      then have "check_deadlock w h q = (if q = 0 then Some False else if q = h then Some True else check_deadlock w h 0)"
        by (subst check_deadlock.simps) simp
      moreover have "check_deadlock w h 0 = Some False" by (subst check_deadlock.simps) simp
      ultimately show ?thesis by metis
    next
      case (Some n)
      then obtain b where "check_deadlock w h n = Some b" using less by (auto simp: waits_def)
      with Some show ?thesis by (subst check_deadlock.simps) auto
    qed
  qed
qed

text \<open>It finds the owner whenever the owner is awaited, directly or not.\<close>

lemma check_deadlock_finds:
  assumes "(q, h) \<in> (waits w)\<^sup>*" and "0 \<notin> ran w" and "0 < q"
  shows "check_deadlock w h q = Some True"
  using assms(1,3)
proof (induction rule: converse_rtrancl_induct)
  case base
  then show ?case by (subst check_deadlock.simps) simp
next
  case (step q n)
  have "w q = Some n" using step.hyps(1) by (simp add: waits_def)
  moreover from this have "0 < n" using assms(2) by (metis gr0I ranI)
  ultimately show ?case using step by (subst check_deadlock.simps) simp
qed

section \<open>The invariant\<close>

definition exclusive :: "coordinator \<Rightarrow> bool" where
  "exclusive c \<longleftrightarrow> (\<forall>(a, p) \<in> set (lk_active c). \<forall>(b, q) \<in> set (lk_active c). a = b \<or> \<not> paths_conflict p q)"

definition locks_ok :: "coordinator \<Rightarrow> bool" where
  "locks_ok c \<longleftrightarrow> exclusive c \<and> finite (dom (lk_waiting c)) \<and> acyclic (waits (lk_waiting c)) \<and> 0 \<notin> ran (lk_waiting c)
     \<and> (\<forall>(a, p) \<in> set (lk_active c). 0 < a) \<and> dom (lk_blocked c) \<subseteq> dom (lk_waiting c) \<and> 0 \<notin> dom (lk_blocked c)"

lemma paths_conflict_sym: "paths_conflict p q = paths_conflict q p"
  by (auto simp: paths_conflict_def)

lemma find_conflict_Some:
  "find_conflict active h ps = Some q \<Longrightarrow> q \<noteq> h \<and> (\<exists>p. (q, p) \<in> set active)"
proof (induction active h ps rule: find_conflict.induct)
  case (2 active h p ps)
  show ?case
  proof (cases "List.find (\<lambda>(q, a). q \<noteq> h \<and> paths_conflict p a) active")
    case None
    with 2 show ?thesis by simp
  next
    case (Some x)
    with 2(2) show ?thesis by (cases x) (auto simp: find_Some_iff, metis nth_mem)
  qed
qed simp

lemma find_conflict_None:
  "find_conflict active h ps = None \<longleftrightarrow> (\<forall>p \<in> set ps. \<forall>(q, a) \<in> set active. q = h \<or> \<not> paths_conflict p a)"
proof (induction ps)
  case (Cons p ps)
  show ?case
  proof (cases "List.find (\<lambda>(q, a). q \<noteq> h \<and> paths_conflict p a) active")
    case None
    then have "\<forall>x \<in> set active. \<not> (fst x \<noteq> h \<and> paths_conflict p (snd x))" by (auto simp: find_None_iff)
    with Cons None show ?thesis by (auto simp: case_prod_beta)
  next
    case (Some x)
    then have "x \<in> set active" "fst x \<noteq> h" "paths_conflict p (snd x)"
      by (auto simp: find_Some_iff) (metis nth_mem)
    then have "\<not> (\<forall>p \<in> set (p # ps). \<forall>(q, a) \<in> set active. q = h \<or> \<not> paths_conflict p a)"
      by (auto simp: case_prod_beta)
    with Some show ?thesis by (simp add: case_prod_beta split: prod.splits)
  qed
qed simp

lemma release_subset: "set (release_entries h ps active) \<subseteq> set active"
proof (induction ps arbitrary: active)
  case (Cons p ps)
  then show ?case using set_remove1_subset by fastforce
qed simp

lemma exclusive_subset: "exclusive c \<Longrightarrow> set (lk_active c') \<subseteq> set (lk_active c) \<Longrightarrow> exclusive c'"
  unfolding exclusive_def by blast

lemma exclusive_acquire:
  assumes "exclusive c" and "find_conflict (lk_active c) h ps = None"
  shows "exclusive (acquire_paths h ps c)"
  using assms paths_conflict_sym
  by (fastforce simp: exclusive_def acquire_paths_def find_conflict_None)

lemma waits_delete: "waits (w(h := None)) \<subseteq> waits w"
  by (auto simp: waits_def split: if_splits)

lemma waits_update: "waits (w(h \<mapsto> q)) \<subseteq> insert (h, q) (waits w)"
  by (auto simp: waits_def split: if_splits)

text \<open>One more waiter keeps the graph without circles, because the check has looked.\<close>

lemma acyclic_wait:
  assumes "acyclic (waits w)" and "check_deadlock w h q = Some False" and "0 \<notin> ran w" and "0 < q"
  shows "acyclic (waits (w(h \<mapsto> q)))"
proof -
  have "(q, h) \<notin> (waits w)\<^sup>*" using check_deadlock_finds [of q h w] assms(2-4) by auto
  with assms(1) have "acyclic (insert (h, q) (waits w))" by (simp add: acyclic_insert)
  then show ?thesis by (rule acyclic_subset) (rule waits_update)
qed

lemma ran_update: "0 \<notin> ran w \<Longrightarrow> 0 < q \<Longrightarrow> (0::nat) \<notin> ran (w(h \<mapsto> q))"
  by (auto simp: ran_def)

lemma ran_delete: "(0::nat) \<notin> ran w \<Longrightarrow> 0 \<notin> ran (w(h := None))"
  by (auto simp: ran_def split: if_splits)

lemma lock_round_ok:
  assumes "lock_round h paths c = (r, c')" and "locks_ok c" and "0 < h"
  shows "locks_ok c'" and "r \<noteq> Hangs"
proof -
  note ok = assms(2) [unfolded locks_ok_def]
  show "r \<noteq> Hangs"
  proof (cases "find_conflict (lk_active c) h paths")
    case (Some q)
    obtain b where "check_deadlock (lk_waiting c) h q = Some b" using check_deadlock_ends ok by blast
    with Some assms(1) show ?thesis by (cases b) (auto simp: lock_round_def)
  qed (use assms(1) in \<open>auto simp: lock_round_def\<close>)
  show "locks_ok c'"
  proof (cases "find_conflict (lk_active c) h paths")
    case None
    then have c': "c' = (acquire_paths h paths c)\<lparr>lk_blocked := (lk_blocked c)(h := None)\<rparr>"
      using assms(1) by (simp add: lock_round_def)
    have "exclusive c'" using exclusive_acquire [OF _ None] ok by (simp add: c' exclusive_def)
    moreover have "acyclic (waits (lk_waiting c'))"
      using ok by (simp add: c' acquire_paths_def acyclic_subset [OF _ waits_delete])
    ultimately show ?thesis
      using ok assms(3) by (auto simp: locks_ok_def c' acquire_paths_def ran_delete)
  next
    case (Some q)
    then have q: "0 < q" using find_conflict_Some [OF Some] ok by fastforce
    obtain b where b: "check_deadlock (lk_waiting c) h q = Some b" using check_deadlock_ends ok by blast
    show ?thesis
    proof (cases b)
      case True
      with assms(1) Some b have "c' = c\<lparr>lk_blocked := (lk_blocked c)(h := None)\<rparr>" by (simp add: lock_round_def)
      with ok show ?thesis by (auto simp: locks_ok_def exclusive_def)
    next
      case False
      with assms(1) Some b have c': "c' = c\<lparr> lk_waiting := (lk_waiting c)(h \<mapsto> q),
          lk_blocked := (lk_blocked c)(h \<mapsto> (paths, lk_notify c)) \<rparr>" by (simp add: lock_round_def)
      have "acyclic (waits (lk_waiting c'))"
        using acyclic_wait [of "lk_waiting c" h q] ok b False q by (simp add: c')
      with ok q assms(3) show ?thesis by (auto simp: locks_ok_def exclusive_def c' ran_update)
    qed
  qed
qed

lemma new_ok: "locks_ok new_path_coordinator"
  by (simp add: locks_ok_def exclusive_def new_path_coordinator_def waits_def acyclic_def)

lemma lk_step_ok: "lk_step c c' \<Longrightarrow> locks_ok c \<Longrightarrow> locks_ok c'"
proof (induction rule: lk_step.induct)
  case (handle c h c')
  then have "c' = c\<lparr>lk_next := Suc (lk_next c)\<rparr>" by (auto simp: new_handle_def)
  with handle(2) show ?case by (simp add: locks_ok_def exclusive_def)
next
  case (call h c paths r c')
  then show ?case by (metis lock_round_ok(1))
next
  case (wake c h paths n r c')
  have "0 < h" using wake(1,4) by (metis domI gr0I locks_ok_def)
  with wake show ?case by (metis lock_round_ok(1))
next
  case (cancel c h b)
  then show ?case
    by (auto simp: lock_cancelled_def locks_ok_def exclusive_def ran_delete acyclic_subset [OF _ waits_delete])
next
  case (release c h paths)
  have "set (lk_active (release_paths h paths c)) \<subseteq> set (lk_active c)"
    using release_subset by (simp add: release_paths_def)
  with release(2) show ?case
    using exclusive_subset [of c "release_paths h paths c"] by (auto simp: locks_ok_def release_paths_def)
qed

lemma lk_run_ok: "lk_run c \<Longrightarrow> locks_ok c"
proof -
  assume "lk_run c"
  then have "lk_step\<^sup>*\<^sup>* new_path_coordinator c" by (simp add: lk_run_def)
  then show ?thesis by (induction rule: rtranclp_induct) (auto intro: lk_step_ok new_ok)
qed

section \<open>Properties\<close>

text \<open>C6: in every reachable state two paths held by different owners never name the same entry, nor
  one an entry inside the other.\<close>

theorem held_paths_disjoint:
  assumes "lk_run c" and "(a, p) \<in> set (lk_active c)" and "(b, q) \<in> set (lk_active c)" and "a \<noteq> b"
  shows "\<not> paths_conflict p q"
  using lk_run_ok [OF assms(1)] assms(2-4) by (fastforce simp: locks_ok_def exclusive_def)

text \<open>C33: the deadlock check always ends: no round of \<open>Lock\<close>, by any handle for any paths in any
  reachable state, walks for ever.\<close>

theorem deadlock_check_terminates:
  assumes "lk_run c" and "0 < h"
  shows "fst (lock_round h paths c) \<noteq> Hangs"
  using lock_round_ok(2) [of h paths c] lk_run_ok [OF assms(1)] assms(2) by (metis prod.collapse)


section \<open>Witnesses\<close>

text \<open>Two handles hold \<open>/a\<close> and \<open>/b\<close>, and the second sleeps on the first's path.\<close>

definition two_holders :: coordinator where
  "two_holders =
     \<lparr> lk_next = 2, lk_active = [(1, ''/a''), (2, ''/b'')], lk_waiting = [2 \<mapsto> 1], lk_notify = 0,
       lk_blocked = [2 \<mapsto> ([''/a/x''], 0)] \<rparr>"

lemma run_extend: "lk_run c \<Longrightarrow> lk_step c c' \<Longrightarrow> lk_run c'"
  by (simp add: lk_run_def rtranclp.rtrancl_into_rtrancl)

lemma two_holders_run: "lk_run two_holders"
proof -
  let ?c0 = "new_path_coordinator\<lparr>lk_next := 2\<rparr>"
  have r0: "lk_run ?c0"
  proof -
    have "lk_run new_path_coordinator" by (simp add: lk_run_def)
    then have "lk_run (new_path_coordinator\<lparr>lk_next := 1\<rparr>)"
      by (rule run_extend) (rule handle [of _ 1], simp add: new_handle_def new_path_coordinator_def)
    then show ?thesis
      by (rule run_extend) (rule handle [of _ 2], simp add: new_handle_def new_path_coordinator_def)
  qed
  let ?c1 = "(acquire_paths 1 [''/a''] ?c0)\<lparr>lk_blocked := (lk_blocked ?c0)(1 := None)\<rparr>"
  have r1: "lk_run ?c1"
    by (rule run_extend [OF r0], rule call [of 1 _ "[''/a'']" Acquired])
      (simp_all add: new_path_coordinator_def lock_round_def)
  let ?c2 = "(acquire_paths 2 [''/b''] ?c1)\<lparr>lk_blocked := (lk_blocked ?c1)(2 := None)\<rparr>"
  have r2: "lk_run ?c2"
    by (rule run_extend [OF r1], rule call [of 2 _ "[''/b'']" Acquired])
      (simp_all add: new_path_coordinator_def lock_round_def acquire_paths_def paths_conflict_def)
  have "check_deadlock Map.empty 2 1 = Some False"
    by (subst check_deadlock.simps) (simp, subst check_deadlock.simps, simp)
  then show ?thesis
    by (intro run_extend [OF r2], intro call [of 2 _ "[''/a/x'']" Asleep])
      (simp_all add: new_path_coordinator_def lock_round_def acquire_paths_def paths_conflict_def two_holders_def fun_eq_iff)
qed

theorem held_paths_disjoint_witness: "\<not> paths_conflict ''/a'' ''/b''"
  using held_paths_disjoint [OF two_holders_run, of 1 "''/a''" 2 "''/b''"] by (simp add: two_holders_def)

theorem deadlock_check_terminates_witness: "fst (lock_round 1 [''/b''] two_holders) \<noteq> Hangs"
  by (rule deadlock_check_terminates [OF two_holders_run]) simp


end
