(* ===== verification/RemotePaths.thy ===== *)
theory RemotePaths
  imports FileService ConnectionPool
begin

text \<open>
  \<open>hub/internal/host/remote_paths.go\<close> and the world of the remote file service: everything it asks
  of others (the SFTP client, the lease, the path coordinator, the registry, the context, the clock
  and the random source) is a request, and the environment answers it from a state of its own.  Every
  exchange is logged, so that what is proved holds whatever the server answers.
\<close>

section \<open>Requests and answers\<close>

datatype sftp_error =
    SNotExist | SPermission | SExist | SEof | SNet string | SCancelled | SOther string

text \<open>What \<open>os.FileInfo\<close> says of a remote entry; the owner is there when \<open>Sys\<close> gives it.\<close>

record sftp_info =
  si_name :: string
  si_kind :: inode_kind
  si_perm :: nat
  si_size :: int
  si_mtime :: int
  si_owner :: "(nat \<times> nat) option"

text \<open>An entry of the bounded directory read (\<open>SFTPRemoteEntry\<close>).\<close>

record raw_entry =
  ra_name :: string
  ra_is_dir :: bool
  ra_is_link :: bool
  ra_size :: int
  ra_mtime :: int

record cleanup_note =
  cn_note_id :: string
  cn_note_path :: string
  cn_note_token :: string

datatype request =
    CtxErr
  | CheckLease
  | OpenSession string
  | CloseSession
  | LockPaths "string list"
  | UnlockPaths "string list"
  | RealPath string
  | Stat string
  | Lstat string
  | ReadFile string
  | ReadDir string
  | ReadDirBounded string nat
  | HasPosixRename
  | OpenExcl string
  | FileChmod string nat
  | FileWrite string string
  | FileClose string
  | Chmod string nat
  | Chown string nat nat
  | Remove string
  | RemoveDirectory string
  | Mkdir string
  | Rename string string
  | PosixRename string string
  | AddCleanup cleanup_note
  | RemoveCleanup string
  | ListCleanups
  | ReadRandom
  | Now
  | Spool

datatype response =
    Failed sftp_error
  | LeaseFailed host_error
  | LockFailed file_error
  | Done
  | Yes bool
  | PathIs string
  | InfoIs sftp_info
  | DataIs string
  | EntriesAre "sftp_info list"
  | RawEntriesAre "raw_entry list" bool
  | NotesAre "cleanup_note list"
  | NowIs int

text \<open>The world: the environment's state, the exchanges so far, and the staging files this process has
  open on the host (\<open>activeStaging\<close>).\<close>

record 's remote =
  rm_state :: 's
  rm_log :: "(request \<times> response) list"
  rm_active :: "string set"

type_synonym 's env = "request \<Rightarrow> 's \<Rightarrow> response \<times> 's"

datatype remote_error =
    RKind file_kind
  | RRaw sftp_error
  | RWrap file_kind sftp_error
  | RHost host_code sftp_error
  | RLease host_error
  | RLock file_error
  | RUnsupported file_kind

type_synonym ('s, 'a) remote_op = "('s remote, remote_error, 'a) action"

definition ask :: "'s env \<Rightarrow> request \<Rightarrow> ('s, response) remote_op" where
  "ask env q w =
     (case env q (rm_state w) of (a, s) \<Rightarrow> (Inr a, w\<lparr> rm_state := s, rm_log := rm_log w @ [(q, a)] \<rparr>))"

text \<open>An answer as the client's Go call returns it; an answer of another kind is some other error.\<close>

definition as_done :: "response \<Rightarrow> sftp_error option" where
  "as_done a = (case a of Done \<Rightarrow> None | Failed e \<Rightarrow> Some e | _ \<Rightarrow> Some (SOther ''unexpected answer''))"

definition as_path :: "response \<Rightarrow> sftp_error + string" where
  "as_path a = (case a of PathIs p \<Rightarrow> Inr p | Failed e \<Rightarrow> Inl e | _ \<Rightarrow> Inl (SOther ''unexpected answer''))"

definition as_info :: "response \<Rightarrow> sftp_error + sftp_info" where
  "as_info a = (case a of InfoIs i \<Rightarrow> Inr i | Failed e \<Rightarrow> Inl e | _ \<Rightarrow> Inl (SOther ''unexpected answer''))"

definition as_data :: "response \<Rightarrow> sftp_error + string" where
  "as_data a = (case a of DataIs s \<Rightarrow> Inr s | Failed e \<Rightarrow> Inl e | _ \<Rightarrow> Inl (SOther ''unexpected answer''))"

definition as_entries :: "response \<Rightarrow> sftp_error + sftp_info list" where
  "as_entries a = (case a of EntriesAre es \<Rightarrow> Inr es | Failed e \<Rightarrow> Inl e | _ \<Rightarrow> Inl (SOther ''unexpected answer''))"

definition call_done :: "'s env \<Rightarrow> request \<Rightarrow> ('s, sftp_error option) remote_op" where
  "call_done env q = act_bind (ask env q) (\<lambda>a. act_return (as_done a))"

definition call_path :: "'s env \<Rightarrow> request \<Rightarrow> ('s, sftp_error + string) remote_op" where
  "call_path env q = act_bind (ask env q) (\<lambda>a. act_return (as_path a))"

definition call_info :: "'s env \<Rightarrow> request \<Rightarrow> ('s, sftp_error + sftp_info) remote_op" where
  "call_info env q = act_bind (ask env q) (\<lambda>a. act_return (as_info a))"

text \<open>A call whose error is returned as it is.\<close>

definition or_fail :: "remote_error option \<Rightarrow> ('s, unit) remote_op" where
  "or_fail e = (case e of None \<Rightarrow> act_return () | Some x \<Rightarrow> act_fail x)"

section \<open>Paths\<close>

definition max_remote_path_length :: nat where "max_remote_path_length = 4096"

definition is_blocked_remote_path :: "string \<Rightarrow> bool" where
  "is_blocked_remote_path p = is_blocked (clean p)"

definition validate_remote_path_shape :: "string \<Rightarrow> file_kind option" where
  "validate_remote_path_shape p =
     (if p = [] then Some InvalidPath
      else if \<not> has_prefix p ''/'' then Some InvalidPath
      else if length p > max_remote_path_length then Some InvalidPath
      else if list_ex (\<lambda>sg. sg = dotdot) (split_on slash p) then Some InvalidPath
      else if is_blocked_remote_path p then Some PathNotAllowed
      else None)"

text \<open>The upward walk of \<open>CanonicalizeRemotePath\<close>: does the nearest ancestor that resolves lie in a
  blocked tree?  The parent is shorter each time, until the root.\<close>

definition parent_step :: "string \<Rightarrow> string option" where
  "parent_step p = (let q = dir_of p in if q = ''/'' \<or> q = dot then None else Some q)"

fun blocked_ancestor :: "'s env \<Rightarrow> nat \<Rightarrow> string \<Rightarrow> ('s, bool) remote_op" where
  "blocked_ancestor env 0 p = act_return False"
| "blocked_ancestor env (Suc n) p =
     (case parent_step p of
        None \<Rightarrow> act_return False
      | Some q \<Rightarrow>
          act_bind (call_path env (RealPath q)) (\<lambda>r.
            case r of Inr real \<Rightarrow> act_return (is_blocked_remote_path real) | Inl _ \<Rightarrow> blocked_ancestor env n q))"

definition canonicalize_remote_path :: "'s env \<Rightarrow> string \<Rightarrow> ('s, file_kind + string) remote_op" where
  "canonicalize_remote_path env p =
     (case validate_remote_path_shape p of
        Some k \<Rightarrow> act_return (Inl k)
      | None \<Rightarrow>
          (let c = clean p in
           act_bind (call_path env (RealPath c)) (\<lambda>r.
             case r of
               Inr real \<Rightarrow> act_return (if is_blocked_remote_path real then Inl PathNotAllowed else Inr real)
             | Inl _ \<Rightarrow>
                 act_bind (blocked_ancestor env (length c) c) (\<lambda>b.
                   act_return (if b then Inl PathNotAllowed else Inr c)))))"

definition verify_remote_regular_file :: "sftp_info option \<Rightarrow> remote_error option" where
  "verify_remote_regular_file fi =
     (case fi of
        None \<Rightarrow> Some (RRaw SNotExist)
      | Some i \<Rightarrow> if si_kind i \<noteq> Regular then Some (RKind InvalidPath) else None)"

text \<open>What a request makes of the world.\<close>

definition asked :: "'s env \<Rightarrow> request \<Rightarrow> 's remote \<Rightarrow> 's remote" where
  "asked env q w = snd (ask env q w)"

lemma call_eqs:
  "ask env q w = (Inr (fst (env q (rm_state w))), asked env q w)"
  "call_done env q w = (Inr (as_done (fst (env q (rm_state w)))), asked env q w)"
  "call_path env q w = (Inr (as_path (fst (env q (rm_state w)))), asked env q w)"
  "call_info env q w = (Inr (as_info (fst (env q (rm_state w)))), asked env q w)"
  by (simp_all add: asked_def ask_def call_done_def call_path_def call_info_def act_bind_def split: prod.split)

lemma asked_simps:
  "rm_log (asked env q w) = rm_log w @ [(q, fst (env q (rm_state w)))]"
  "rm_active (asked env q w) = rm_active w"
  by (simp_all add: asked_def ask_def split: prod.split)

section \<open>What a request may change\<close>

text \<open>The paths a request may change, or nothing for one that only looks.\<close>

fun touches :: "request \<Rightarrow> string list" where
  "touches (OpenExcl p) = [p]"
| "touches (FileChmod p _) = [p]"
| "touches (FileWrite p _) = [p]"
| "touches (FileClose p) = [p]"
| "touches (Chmod p _) = [p]"
| "touches (Chown p _ _) = [p]"
| "touches (Remove p) = [p]"
| "touches (RemoveDirectory p) = [p]"
| "touches (Mkdir p) = [p]"
| "touches (Rename a b) = [a, b]"
| "touches (PosixRename a b) = [a, b]"
| "touches _ = []"

text \<open>Every request an operation adds to the log satisfies \<open>P\<close>, with its answer.\<close>

definition sends :: "(request \<times> response \<Rightarrow> bool) \<Rightarrow> ('s, 'a) remote_op \<Rightarrow> bool" where
  "sends P m \<longleftrightarrow> (\<forall>w r w'. m w = (r, w') \<longrightarrow> (\<exists>l. rm_log w' = rm_log w @ l \<and> list_all P l))"

named_theorems sends_rules \<open>what composed remote operations send\<close>

lemma sends_return [sends_rules]: "sends P (act_return x)"
  by (simp add: sends_def)

lemma sends_fail [sends_rules]: "sends P (act_fail e)"
  by (simp add: sends_def)

lemma sends_lift [sends_rules]: "sends P (act_lift r)"
  by (simp add: sends_def)

lemma sends_bind [sends_rules]:
  assumes "sends P m" and "\<And>x. sends P (k x)"
  shows "sends P (act_bind m k)"
  unfolding sends_def
proof (intro allI impI)
  fix w r w' assume run: "act_bind m k w = (r, w')"
  obtain r1 w1 where m: "m w = (r1, w1)" by fastforce
  then obtain l1 where l1: "rm_log w1 = rm_log w @ l1" "list_all P l1" using assms(1) unfolding sends_def by blast
  show "\<exists>l. rm_log w' = rm_log w @ l \<and> list_all P l"
  proof (cases r1)
    case (Inl e)
    with run m l1 show ?thesis by (simp add: act_bind_def)
  next
    case (Inr x)
    then have "k x w1 = (r, w')" using run m by (simp add: act_bind_def)
    then obtain l2 where "rm_log w' = rm_log w1 @ l2" "list_all P l2"
      using assms(2) [of x] unfolding sends_def by blast
    with l1 show ?thesis by (intro exI [of _ "l1 @ l2"]) simp
  qed
qed

lemma sends_ask: "(\<And>a. P (q, a)) \<Longrightarrow> sends P (ask env q)"
  by (auto simp: sends_def ask_def split: prod.splits)

lemma sends_or_fail [sends_rules]: "sends P (or_fail e)"
  by (simp add: or_fail_def sends_return sends_fail split: option.split)

lemma sends_calls [sends_rules]:
  assumes "\<And>a. P (q, a)"
  shows "sends P (ask env q)" "sends P (call_done env q)" "sends P (call_path env q)" "sends P (call_info env q)"
  using assms by (auto simp: call_done_def call_path_def call_info_def intro!: sends_bind sends_ask sends_return)

lemma sends_weaken: "sends P m \<Longrightarrow> (\<And>x. P x \<Longrightarrow> Q x) \<Longrightarrow> sends Q m"
  unfolding sends_def by (metis list.pred_mono_strong)

text \<open>Requests that only look.\<close>

abbreviation looks :: "request \<times> response \<Rightarrow> bool" where
  "looks x \<equiv> touches (fst x) = []"

lemma blocked_ancestor_sends: "sends looks (blocked_ancestor env n p)"
  by (induction env n p rule: blocked_ancestor.induct)
    (auto intro!: sends_rules simp del: act_run split: option.split sum.split)

lemma canonicalize_sends [sends_rules]: "sends looks (canonicalize_remote_path env p)"
  unfolding canonicalize_remote_path_def Let_def
  by (auto intro!: sends_rules blocked_ancestor_sends simp del: act_run split: option.split sum.split)

text \<open>A canonical path is never in a kernel interface.\<close>

lemma validate_shape:
  assumes "validate_remote_path_shape p = None"
  shows "is_abs p" and "\<not> is_blocked (clean p)" and "length p \<le> max_remote_path_length"
  using assms by (auto simp: validate_remote_path_shape_def is_abs_def is_blocked_remote_path_def split: if_splits)

lemma clean_clean: "is_abs p \<Longrightarrow> clean (clean p) = clean p"
  by (rule clean_idem_abs [OF clean_abs_clean])

lemma canonicalize_not_blocked:
  assumes "canonicalize_remote_path env p w = (Inr (Inr c), w')"
  shows "\<not> is_blocked_remote_path c"
proof (cases "validate_remote_path_shape p")
  case None
  obtain r w1 where r: "call_path env (RealPath (clean p)) w = (Inr r, w1)"
    by (simp add: call_eqs)
  show ?thesis
  proof (cases r)
    case (Inl e)
    then have "c = clean p"
      using assms None r
      by (auto simp: canonicalize_remote_path_def Let_def act_bind_def split: prod.splits sum.splits if_splits)
    with validate_shape [OF None] show ?thesis by (simp add: is_blocked_remote_path_def clean_clean)
  next
    case (Inr real)
    then show ?thesis
      using assms None r
      by (auto simp: canonicalize_remote_path_def Let_def act_bind_def split: if_splits)
  qed
qed (use assms in \<open>simp add: canonicalize_remote_path_def\<close>)

text \<open>The upward walk drops a segment each time, so the number of segments is fuel enough.\<close>

lemma parent_step_shorter:
  assumes "clean_abs p" and "parent_step p = Some q"
  shows "clean_abs q \<and> Suc (length (segs q)) = length (segs p)"
proof -
  have q: "q = dir_of p" "q \<noteq> ''/''" using assms(2) by (auto simp: parent_step_def Let_def split: if_splits)
  note d = dir_of_clean_abs [OF assms(1)]
  have "segs p \<noteq> []"
  proof
    assume "segs p = []"
    then have "dir_of p = p" using dir_of_root [OF assms(1)] by simp
    moreover have "p = ''/''" using clean_abs_segs [OF assms(1)] \<open>segs p = []\<close> by (simp add: of_segs_def)
    ultimately show False using q by simp
  qed
  with d q(1) show ?thesis by simp
qed

lemma blocked_ancestor_fuel:
  "clean_abs p \<Longrightarrow> length (segs p) \<le> n \<Longrightarrow> n \<le> m \<Longrightarrow> blocked_ancestor env m p = blocked_ancestor env n p"
proof (induction n arbitrary: m p)
  case 0
  have "parent_step p = None"
    using parent_step_shorter [OF 0(1)] 0(2) by (cases "parent_step p") auto
  then show ?case by (cases m) simp_all
next
  case (Suc n)
  then obtain m' where m: "m = Suc m'" by (cases m) auto
  show ?case
  proof (cases "parent_step p")
    case (Some q)
    from parent_step_shorter [OF Suc.prems(1) Some] have "blocked_ancestor env m' q = blocked_ancestor env n q"
      using Suc.IH [of q m'] Suc.prems(2,3) m by simp
    with Some m show ?thesis by simp
  qed (simp add: m)
qed

end
