(* ===== verification/RemoteFiles.thy ===== *)
theory RemoteFiles
  imports RemotePaths Tickets
begin

text \<open>
  \<open>hub/internal/host/remote_files.go\<close>: the file operations on a remote host, over the requests of
  \<open>RemotePaths\<close>.  A deferred release is \<open>deferred\<close>; the per-service set of staging paths has the
  entries of the host's set, which is the one that is read.  \<open>sha\<close> is the digest function.
\<close>

section \<open>The service\<close>

record remote_service =
  rv_host :: host_id
  rv_max_size :: int
  rv_max_entries :: nat
  rv_registry :: bool

definition default_max_remote_file_size :: int where "default_max_remote_file_size = 10 * 1024 * 1024"
definition default_max_dir_entries :: nat where "default_max_dir_entries = 1000"
definition stage_file_perm :: nat where "stage_file_perm = 384"
definition staging_token_hex_len :: nat where "staging_token_hex_len = 16"

definition new_remote_file_service :: "host_id \<Rightarrow> int \<Rightarrow> int \<Rightarrow> bool \<Rightarrow> remote_service" where
  "new_remote_file_service h max_size max_entries registry =
     \<lparr> rv_host = h, rv_max_size = (if max_size \<le> 0 then default_max_remote_file_size else max_size),
       rv_max_entries = (if max_entries \<le> 0 then default_max_dir_entries else nat max_entries), rv_registry = registry \<rparr>"

definition remote_start_directory :: "string \<Rightarrow> string \<times> bool" where
  "remote_start_directory candidate =
     (if candidate \<noteq> [] \<and> validate_remote_path_shape candidate = None then (clean candidate, False) else (''/'', True))"

section \<open>Sessions and locks\<close>

definition deferred :: "('s, 'a) remote_op \<Rightarrow> ('s, response) remote_op \<Rightarrow> ('s, 'a) remote_op" where
  "deferred m q w = (case m w of (r, w1) \<Rightarrow> (r, snd (q w1)))"

definition check_lease :: "'s env \<Rightarrow> ('s, unit) remote_op" where
  "check_lease env =
     act_bind (ask env CheckLease) (\<lambda>a. case a of LeaseFailed e \<Rightarrow> act_fail (RLease e) | _ \<Rightarrow> act_return ())"

definition check_shape :: "string \<Rightarrow> ('s, unit) remote_op" where
  "check_shape p = or_fail (map_option RKind (validate_remote_path_shape p))"

definition with_session :: "'s env \<Rightarrow> string \<Rightarrow> ('s, 'a) remote_op \<Rightarrow> ('s, 'a) remote_op" where
  "with_session env purpose body =
     act_bind (ask env (OpenSession purpose)) (\<lambda>a.
       case a of
         Failed e \<Rightarrow> act_fail (RRaw e)
       | LeaseFailed e \<Rightarrow> act_fail (RLease e)
       | _ \<Rightarrow> deferred body (ask env CloseSession))"

definition with_lock :: "'s env \<Rightarrow> string list \<Rightarrow> ('s, 'a) remote_op \<Rightarrow> ('s, 'a) remote_op" where
  "with_lock env paths body =
     act_bind (ask env (LockPaths paths)) (\<lambda>a.
       case a of
         Failed e \<Rightarrow> act_fail (RRaw e)
       | LockFailed e \<Rightarrow> act_fail (RLock e)
       | _ \<Rightarrow> deferred body (ask env (UnlockPaths paths)))"

text \<open>The mapping of a client's error that most calls share.\<close>

definition stat_error :: "sftp_error \<Rightarrow> remote_error" where
  "stat_error e =
     (if e = SNotExist then RKind PathNotFound else if e = SPermission then RKind PermissionDenied else RRaw e)"

definition write_error :: "sftp_error \<Rightarrow> remote_error" where
  "write_error e =
     (if e = SNotExist then RKind PathNotFound else if e = SPermission then RKind PermissionDenied else RWrap WriteFailed e)"

definition from_result :: "('e \<Rightarrow> remote_error) \<Rightarrow> 'e + 'a \<Rightarrow> ('s, 'a) remote_op" where
  "from_result f r = (case r of Inl e \<Rightarrow> act_fail (f e) | Inr x \<Rightarrow> act_return x)"

definition canonical :: "'s env \<Rightarrow> string \<Rightarrow> ('s, string) remote_op" where
  "canonical env p =
     act_bind (canonicalize_remote_path env p)
       (from_result (\<lambda>k. RKind (if k = PathNotAllowed then PathNotAllowed else InvalidPath)))"

section \<open>Listing\<close>

definition validate_list_directory :: "'s env \<Rightarrow> string \<Rightarrow> ('s, string) remote_op" where
  "validate_list_directory env p =
     act_bind (canonical env p) (\<lambda>c.
     act_bind (call_info env (Stat c)) (\<lambda>r.
     act_bind (from_result stat_error r) (\<lambda>i.
       if si_kind i \<noteq> Directory then act_fail (RKind InvalidPath) else act_return c)))"

fun map_dir_entries :: "'s env \<Rightarrow> string \<Rightarrow> raw_entry list \<Rightarrow> ('s, entry list) remote_op" where
  "map_dir_entries env c [] = act_return []"
| "map_dir_entries env c (e # es) =
     act_bind (call_done env CtxErr) (\<lambda>live.
     act_bind (or_fail (map_option RRaw live)) (\<lambda>_.
       if has_prefix (ra_name e) temp_file_prefix then map_dir_entries env c es
       else
         act_bind (if ra_is_link e then call_info env (Stat (join_path [c, ra_name e])) else act_return (Inl SNotExist)) (\<lambda>t.
         (let (dir, sz) = (case t of Inr i \<Rightarrow> (si_kind i = Directory, si_size i) | Inl _ \<Rightarrow> (ra_is_dir e, ra_size e)) in
          act_bind (map_dir_entries env c es) (\<lambda>rest.
            act_return (\<lparr> e_name = ra_name e, e_is_dir = dir, e_size = (if dir then 0 else sz),
              e_mtime = unix_milli (ra_mtime e) \<rparr> # rest))))))"

definition remote_list :: "'s env \<Rightarrow> remote_service \<Rightarrow> string \<Rightarrow> ('s, list_result) remote_op" where
  "remote_list env svc p =
     act_bind (check_lease env) (\<lambda>_.
     act_bind (check_shape p) (\<lambda>_.
     with_session env ''sftp-list''
       (act_bind (validate_list_directory env p) (\<lambda>c.
        act_bind (ask env (ReadDirBounded c (rv_max_entries svc))) (\<lambda>a.
          case a of
            RawEntriesAre raws cut_off \<Rightarrow>
              act_bind (map_dir_entries env c raws) (\<lambda>es.
                (let sorted = sort_key entry_key es; m = rv_max_entries svc in
                 act_return \<lparr> lr_path = c, lr_entries = take m sorted, lr_truncated = (cut_off \<or> length sorted > m) \<rparr>))
          | Failed e \<Rightarrow> act_fail (stat_error e)
          | _ \<Rightarrow> act_fail (RRaw (SOther ''unexpected answer'')))))))"

section \<open>Reading\<close>

record remote_read_result =
  rd_data :: string
  rd_size :: int
  rd_mtime :: int
  rd_mtime_nanos :: int
  rd_binary :: bool

definition validate_read_file :: "'s env \<Rightarrow> remote_service \<Rightarrow> string \<Rightarrow> ('s, string \<times> sftp_info) remote_op" where
  "validate_read_file env svc p =
     act_bind (canonical env p) (\<lambda>c.
     act_bind (call_info env (Stat c)) (\<lambda>r.
     act_bind (from_result stat_error r) (\<lambda>i.
     act_bind (or_fail (verify_remote_regular_file (Some i))) (\<lambda>_.
       if si_size i > rv_max_size svc then act_fail (RKind FileTooLarge) else act_return (c, i)))))"

definition spool_remote_content :: "'s env \<Rightarrow> remote_service \<Rightarrow> string \<Rightarrow> ('s, string) remote_op" where
  "spool_remote_content env svc c =
     act_bind (call_done env Spool) (\<lambda>sp.
     act_bind (or_fail (map_option RRaw sp)) (\<lambda>_.
     act_bind (ask env (ReadFile c)) (\<lambda>a.
     act_bind (from_result RRaw (as_data a)) (\<lambda>s.
       if int (length (take (nat (rv_max_size svc + 1)) s)) > rv_max_size svc then act_fail (RKind FileTooLarge)
       else act_return s))))"

definition remote_read :: "'s env \<Rightarrow> remote_service \<Rightarrow> string \<Rightarrow> ('s, remote_read_result) remote_op" where
  "remote_read env svc p =
     act_bind (check_lease env) (\<lambda>_.
     act_bind (check_shape p) (\<lambda>_.
     with_session env ''sftp-read''
       (act_bind (validate_read_file env svc p) (\<lambda>(c, i).
        act_bind (spool_remote_content env svc c) (\<lambda>s.
          act_return \<lparr> rd_data = s, rd_size = int (length s), rd_mtime = unix_milli (si_mtime i),
            rd_mtime_nanos = si_mtime i, rd_binary = looks_binary (length s) s \<rparr>)))))"

definition hash_remote_file :: "'s env \<Rightarrow> (string \<Rightarrow> string) \<Rightarrow> string \<Rightarrow> ('s, string) remote_op" where
  "hash_remote_file env sha p =
     act_bind (call_done env CtxErr) (\<lambda>live.
     act_bind (or_fail (map_option RRaw live)) (\<lambda>_.
     act_bind (ask env (ReadFile p)) (\<lambda>a.
     act_bind (from_result RRaw (as_data a)) (\<lambda>s. act_return (sha s)))))"

section \<open>Targets\<close>

definition resolve_target_in_parent :: "'s env \<Rightarrow> string \<Rightarrow> ('s, string) remote_op" where
  "resolve_target_in_parent env cleaned =
     act_bind (canonical env (dir_of cleaned)) (\<lambda>c.
     act_bind (call_info env (Stat c)) (\<lambda>r.
     act_bind (from_result stat_error r) (\<lambda>i.
       if si_kind i \<noteq> Directory then act_fail (RKind InvalidPath)
       else (let target = join_path [c, base_of cleaned] in
         if is_blocked_remote_path target then act_fail (RKind PathNotAllowed) else act_return target))))"

text \<open>The target, locked too when it is not the path that is locked already.\<close>

definition with_target :: "'s env \<Rightarrow> string \<Rightarrow> (string \<Rightarrow> ('s, 'a) remote_op) \<Rightarrow> ('s, 'a) remote_op" where
  "with_target env cleaned body =
     act_bind (resolve_target_in_parent env cleaned) (\<lambda>target.
       if target \<noteq> cleaned then with_lock env [target] (body target) else body target)"

section \<open>Writing\<close>

record target_metadata =
  tm_existed :: bool
  tm_digest :: string
  tm_owner :: "nat \<times> nat"
  tm_perm :: nat

definition stamp_matches :: "expected_mtime \<Rightarrow> int \<Rightarrow> bool" where
  "stamp_matches e t = (case em_nanos e of Some ns \<Rightarrow> t = ns | None \<Rightarrow> unix_milli t = em_millis e)"

definition inspect_existing_target ::
  "'s env \<Rightarrow> (string \<Rightarrow> string) \<Rightarrow> string \<Rightarrow> expected_mtime option \<Rightarrow> bool \<Rightarrow> ('s, target_metadata) remote_op" where
  "inspect_existing_target env sha target expected allow =
     act_bind (call_info env (Lstat target)) (\<lambda>r.
       case r of
         Inl SNotExist \<Rightarrow>
           if expected \<noteq> None then act_fail (RKind PathNotFound)
           else act_return \<lparr> tm_existed = False, tm_digest = [], tm_owner = (0, 0), tm_perm = 0 \<rparr>
       | Inl e \<Rightarrow> act_fail (if e = SPermission then RKind PermissionDenied else RRaw e)
       | Inr i \<Rightarrow>
           if si_kind i \<noteq> Regular then act_fail (RKind InvalidPath)
           else
             act_bind (ask env HasPosixRename) (\<lambda>a.
               if a \<noteq> Yes True then act_fail (RUnsupported WriteFailed)
               else if \<not> allow then act_fail (RKind HasOtherNames)
               else
                 act_bind
                   (case expected of
                      None \<Rightarrow> act_return []
                    | Some e \<Rightarrow>
                        if \<not> stamp_matches e (si_mtime i) then act_fail (RKind Conflict)
                        else act_bind (hash_remote_file env sha target) (\<lambda>d.
                          if em_digest e \<noteq> [] \<and> d \<noteq> em_digest e then act_fail (RKind Conflict) else act_return d))
                   (\<lambda>d. act_return \<lparr> tm_existed = True, tm_digest = d,
                      tm_owner = (case si_owner i of None \<Rightarrow> (0, 0) | Some g \<Rightarrow> g), tm_perm = si_perm i \<rparr>)))"

definition mark_active :: "bool \<Rightarrow> string \<Rightarrow> ('s, unit) remote_op" where
  "mark_active on p w = (Inr (), w\<lparr>rm_active := (if on then insert p (rm_active w) else rm_active w - {p})\<rparr>)"

text \<open>Requests whose answers are dropped.\<close>

fun drop_answers :: "'s env \<Rightarrow> request list \<Rightarrow> ('s, unit) remote_op" where
  "drop_answers env [] = act_return ()"
| "drop_answers env (q # qs) = act_bind (ask env q) (\<lambda>_. drop_answers env qs)"

definition fail_after :: "'s env \<Rightarrow> request list \<Rightarrow> remote_error \<Rightarrow> ('s, 'a) remote_op" where
  "fail_after env qs e = act_bind (drop_answers env qs) (\<lambda>_. act_fail e)"

definition stage_name :: "string \<Rightarrow> string" where
  "stage_name token = temp_file_prefix @ token"

definition create_staging_file :: "'s env \<Rightarrow> remote_service \<Rightarrow> string \<Rightarrow> ('s, string \<times> string) remote_op" where
  "create_staging_file env svc parent =
     act_bind (ask env ReadRandom) (\<lambda>a.
     act_bind (from_result RRaw (as_data a)) (\<lambda>bytes.
       (let token = hex_encode (map of_char (take 8 bytes)); stage = join_path [parent, stage_name token];
            cid = rv_host svc @ '':'' @ token in
        act_bind (call_done env (OpenExcl stage)) (\<lambda>r.
          case r of
            Some e \<Rightarrow> act_fail (if e = SPermission then RKind PermissionDenied else RWrap WriteFailed e)
          | None \<Rightarrow>
              act_bind (call_done env (FileChmod stage stage_file_perm)) (\<lambda>m.
                case m of
                  Some e \<Rightarrow> fail_after env [FileClose stage, Remove stage] (RWrap PermissionDenied e)
                | None \<Rightarrow>
                    act_bind (mark_active True stage) (\<lambda>_.
                      if \<not> rv_registry svc then act_return (stage, cid)
                      else
                        act_bind (call_done env (AddCleanup \<lparr> cn_note_id = cid, cn_note_path = stage, cn_note_token = token \<rparr>)) (\<lambda>n.
                          case n of
                            Some e \<Rightarrow>
                              act_bind (mark_active False stage) (\<lambda>_.
                                fail_after env [FileClose stage, Remove stage] (RWrap WriteFailed e))
                          | None \<Rightarrow> act_return (stage, cid))))))))"

text \<open>A body: the bytes its reader yields and how it ends.\<close>

record remote_body =
  rb_bytes :: string
  rb_error :: "sftp_error option"

definition transfer_staged_content :: "'s env \<Rightarrow> remote_body \<Rightarrow> int \<Rightarrow> string \<Rightarrow> ('s, unit) remote_op" where
  "transfer_staged_content env body declared stage =
     (let limit = nat (declared + 1); data = take limit (rb_bytes body);
          ended = (if length (rb_bytes body) < limit then rb_error body else None) in
      act_bind (call_done env (FileWrite stage data)) (\<lambda>w.
      act_bind (call_done env (FileClose stage)) (\<lambda>c.
        (case (case w of Some e \<Rightarrow> Some e | None \<Rightarrow> ended) of
           Some e \<Rightarrow> act_fail (RWrap WriteFailed e)
         | None \<Rightarrow>
             (case c of
                Some e \<Rightarrow> act_fail (RWrap WriteFailed e)
              | None \<Rightarrow> if int (length data) \<noteq> declared then act_fail (RKind InvalidBody) else act_return ())))))"

definition loss_messages :: "string list" where
  "loss_messages = [''connection lost'', ''broken pipe'', ''connection reset'', ''use of closed network connection'',
     ''channel closed'', ''session closed'']"

definition is_connection_loss :: "sftp_error \<Rightarrow> bool" where
  "is_connection_loss e =
     (case e of
        SEof \<Rightarrow> True
      | SNet _ \<Rightarrow> True
      | SOther m \<Rightarrow> list_ex (contains_sub (lower_for_match m)) loss_messages
      | _ \<Rightarrow> False)"

definition is_conn_loss_or_done :: "'s env \<Rightarrow> sftp_error \<Rightarrow> ('s, bool) remote_op" where
  "is_conn_loss_or_done env e =
     (if is_connection_loss e \<or> e = SCancelled then act_return True
      else act_bind (call_done env CtxErr) (\<lambda>c. act_return (c \<noteq> None)))"

definition verify_target_digest ::
  "'s env \<Rightarrow> (string \<Rightarrow> string) \<Rightarrow> string \<Rightarrow> sftp_info \<Rightarrow> string \<Rightarrow> expected_mtime option \<Rightarrow> ('s, unit) remote_op" where
  "verify_target_digest env sha target i origin expected =
     (case expected of
        None \<Rightarrow> act_return ()
      | Some e \<Rightarrow>
          if \<not> stamp_matches e (si_mtime i) then act_fail (RKind Conflict)
          else act_bind (hash_remote_file env sha target) (\<lambda>d.
            if em_digest e \<noteq> [] \<and> d \<noteq> em_digest e \<or> em_digest e = [] \<and> d \<noteq> origin then act_fail (RKind Conflict)
            else act_return ()))"

definition extract_target_ownership :: "sftp_info \<Rightarrow> nat \<times> nat \<Rightarrow> nat \<times> nat" where
  "extract_target_ownership i origin = (case si_owner i of None \<Rightarrow> origin | Some g \<Rightarrow> g)"

definition verify_target_before_replace ::
  "'s env \<Rightarrow> (string \<Rightarrow> string) \<Rightarrow> string \<Rightarrow> target_metadata \<Rightarrow> expected_mtime option
     \<Rightarrow> ('s, (nat \<times> nat) \<times> nat) remote_op" where
  "verify_target_before_replace env sha target meta expected =
     act_bind (call_info env (Lstat target)) (\<lambda>r.
       if \<not> tm_existed meta then
         (case r of Inr _ \<Rightarrow> act_fail (RKind Conflict) | Inl _ \<Rightarrow> act_return ((0, 0), 0))
       else (case r of
           Inl e \<Rightarrow>
             act_bind (is_conn_loss_or_done env e) (\<lambda>lost.
               act_fail (if lost then RWrap WriteFailed e else RKind Conflict))
         | Inr i \<Rightarrow>
             if si_kind i \<noteq> Regular then act_fail (RKind InvalidPath)
             else act_bind (verify_target_digest env sha target i (tm_digest meta) expected) (\<lambda>_.
               act_return (extract_target_ownership i (tm_owner meta), si_perm i))))"

definition is_stage_chown_needed :: "'s env \<Rightarrow> string \<Rightarrow> nat \<times> nat \<Rightarrow> ('s, bool) remote_op" where
  "is_stage_chown_needed env stage owner =
     act_bind (call_info env (Lstat stage)) (\<lambda>r.
       act_return (case r of Inr i \<Rightarrow> si_owner i \<noteq> Some owner | Inl _ \<Rightarrow> True))"

text \<open>A call whose loss leaves the outcome unknown.\<close>

definition outcome :: "'s env \<Rightarrow> request \<Rightarrow> ('s, unit) remote_op" where
  "outcome env q =
     act_bind (call_done env q) (\<lambda>r.
       case r of
         None \<Rightarrow> act_return ()
       | Some e \<Rightarrow>
           act_bind (is_conn_loss_or_done env e) (\<lambda>lost.
             act_fail (if lost then RHost OutcomeUnknown e else RWrap WriteFailed e)))"

definition apply_staged_ownership :: "'s env \<Rightarrow> string \<Rightarrow> nat \<times> nat \<Rightarrow> nat \<Rightarrow> ('s, unit) remote_op" where
  "apply_staged_ownership env stage owner perm =
     act_bind (outcome env (Chmod stage perm)) (\<lambda>_.
     act_bind (is_stage_chown_needed env stage owner) (\<lambda>need.
       if need then outcome env (Chown stage (fst owner) (snd owner)) else act_return ()))"

definition replace_existing_remote_file :: "'s env \<Rightarrow> string \<Rightarrow> string \<Rightarrow> nat \<times> nat \<Rightarrow> nat \<Rightarrow> ('s, unit) remote_op" where
  "replace_existing_remote_file env stage target owner perm =
     act_bind (apply_staged_ownership env stage owner perm) (\<lambda>_. outcome env (PosixRename stage target))"

definition replace_new_remote_file :: "'s env \<Rightarrow> string \<Rightarrow> string \<Rightarrow> ('s, unit) remote_op" where
  "replace_new_remote_file env stage target =
     act_bind (ask env HasPosixRename) (\<lambda>a.
       outcome env (if a = Yes True then PosixRename stage target else Rename stage target))"

definition replace_remote_file ::
  "'s env \<Rightarrow> string \<Rightarrow> string \<Rightarrow> target_metadata \<Rightarrow> nat \<times> nat \<Rightarrow> nat \<Rightarrow> ('s, unit) remote_op" where
  "replace_remote_file env stage target meta owner perm =
     (if tm_existed meta then replace_existing_remote_file env stage target owner perm
      else replace_new_remote_file env stage target)"

definition validate_write_request :: "'s env \<Rightarrow> remote_service \<Rightarrow> string \<Rightarrow> int \<Rightarrow> ('s, string) remote_op" where
  "validate_write_request env svc p declared =
     act_bind (check_lease env) (\<lambda>_.
     act_bind (check_shape p) (\<lambda>_.
       if declared < 0 then act_fail (RKind InvalidBody)
       else if declared > rv_max_size svc then act_fail (RKind FileTooLarge)
       else if clean p = ''/'' then act_fail (RKind InvalidPath)
       else act_return (clean p)))"

definition cleanup_stage :: "'s env \<Rightarrow> remote_service \<Rightarrow> string \<Rightarrow> string \<Rightarrow> bool \<Rightarrow> ('s, unit) remote_op" where
  "cleanup_stage env svc stage cid committed =
     act_bind (mark_active False stage) (\<lambda>_.
     act_bind (if committed then act_return None else call_done env (Remove stage)) (\<lambda>r.
       if r = None \<and> rv_registry svc then drop_answers env [RemoveCleanup cid] else act_return ()))"

text \<open>\<open>m\<close>, and then the cleanup: of a committed file when it succeeded, of an abandoned one otherwise.\<close>

definition cleaned_up :: "'s env \<Rightarrow> remote_service \<Rightarrow> string \<Rightarrow> string \<Rightarrow> ('s, 'a) remote_op \<Rightarrow> ('s, 'a) remote_op" where
  "cleaned_up env svc stage cid m w =
     (case m w of (r, w1) \<Rightarrow> (r, snd (cleanup_stage env svc stage cid (is_ok r) w1)))"

definition stage_and_write_content ::
  "'s env \<Rightarrow> remote_service \<Rightarrow> string \<Rightarrow> remote_body \<Rightarrow> int \<Rightarrow> ('s, string \<times> string) remote_op" where
  "stage_and_write_content env svc target body declared =
     act_bind (create_staging_file env svc (dir_of target)) (\<lambda>(stage, cid) w.
       case transfer_staged_content env body declared stage w of
         (Inl e, w1) \<Rightarrow> (Inl e, snd (cleanup_stage env svc stage cid False w1))
       | (Inr _, w1) \<Rightarrow> (Inr (stage, cid), w1))"

definition result_stamp :: "'s env \<Rightarrow> string \<Rightarrow> ('s, write_result) remote_op" where
  "result_stamp env target =
     act_bind (call_info env (Stat target)) (\<lambda>r.
       case r of
         Inr i \<Rightarrow> act_return \<lparr> wr_mtime = unix_milli (si_mtime i), wr_mtime_nanos = si_mtime i \<rparr>
       | Inl _ \<Rightarrow>
           act_bind (ask env Now) (\<lambda>a.
             (let t = (case a of NowIs n \<Rightarrow> n | _ \<Rightarrow> 0) in
              act_return \<lparr> wr_mtime = unix_milli t, wr_mtime_nanos = t \<rparr>)))"

definition write_target_file ::
  "'s env \<Rightarrow> (string \<Rightarrow> string) \<Rightarrow> remote_service \<Rightarrow> remote_body \<Rightarrow> int \<Rightarrow> expected_mtime option \<Rightarrow> bool \<Rightarrow> string
     \<Rightarrow> ('s, write_result) remote_op" where
  "write_target_file env sha svc body declared expected allow target =
     act_bind (inspect_existing_target env sha target expected allow) (\<lambda>meta.
     act_bind (stage_and_write_content env svc target body declared) (\<lambda>(stage, cid).
     cleaned_up env svc stage cid
       (act_bind (verify_target_before_replace env sha target meta expected) (\<lambda>(owner, perm).
        act_bind (replace_remote_file env stage target meta owner perm) (\<lambda>_.
          result_stamp env target)))))"

definition remote_write ::
  "'s env \<Rightarrow> (string \<Rightarrow> string) \<Rightarrow> remote_service \<Rightarrow> string \<Rightarrow> remote_body \<Rightarrow> int \<Rightarrow> expected_mtime option \<Rightarrow> bool
     \<Rightarrow> ('s, write_result) remote_op" where
  "remote_write env sha svc p body declared expected allow =
     act_bind (validate_write_request env svc p declared) (\<lambda>cleaned.
     with_lock env [cleaned] (with_session env ''sftp-write''
       (with_target env cleaned (write_target_file env sha svc body declared expected allow))))"

section \<open>Pending cleanups\<close>

definition is_identifiable_staging_candidate :: "string \<Rightarrow> string \<Rightarrow> bool" where
  "is_identifiable_staging_candidate p token \<longleftrightarrow>
     length token = staging_token_hex_len
     \<and> list_all (\<lambda>c. is_digit c \<or> (CHR ''a'' \<le> c \<and> c \<le> CHR ''f'')) token
     \<and> base_of p = stage_name token"

definition cleanup_single_record :: "'s env \<Rightarrow> cleanup_note \<Rightarrow> ('s, bool) remote_op" where
  "cleanup_single_record env rec =
     (let p = cn_note_path rec; forget = drop_answers env [RemoveCleanup (cn_note_id rec)] in
      if \<not> is_identifiable_staging_candidate p (cn_note_token rec) \<or> validate_remote_path_shape p \<noteq> None
        then act_bind forget (\<lambda>_. act_return False)
      else
        act_bind (call_info env (Lstat p)) (\<lambda>r.
          case r of
            Inl e \<Rightarrow> if e = SNotExist then act_bind forget (\<lambda>_. act_return True) else act_return False
          | Inr i \<Rightarrow>
              if si_kind i \<noteq> Regular then act_bind forget (\<lambda>_. act_return False)
              else
                act_bind (call_done env (Remove p)) (\<lambda>d.
                  if d = None \<or> d = Some SNotExist then act_bind forget (\<lambda>_. act_return True) else act_return False)))"

text \<open>The count so far and the error that ended the loop, as both are returned; no session is a failure.\<close>

fun cleanup_records :: "'s env \<Rightarrow> string set \<Rightarrow> int \<Rightarrow> cleanup_note list \<Rightarrow> ('s, int \<times> sftp_error option) remote_op" where
  "cleanup_records env active n [] = act_return (n, None)"
| "cleanup_records env active n (rec # recs) =
     act_bind (call_done env CtxErr) (\<lambda>c.
       case c of
         Some e \<Rightarrow> act_return (n, Some e)
       | None \<Rightarrow>
           if cn_note_path rec \<in> active then cleanup_records env active n recs
           else act_bind (cleanup_single_record env rec) (\<lambda>gone.
             cleanup_records env active (if gone then n + 1 else n) recs))"

definition run_pending_cleanups :: "'s env \<Rightarrow> remote_service \<Rightarrow> ('s, int \<times> sftp_error option) remote_op" where
  "run_pending_cleanups env svc =
     (if \<not> rv_registry svc then act_return (0, None)
      else act_bind (ask env ListCleanups) (\<lambda>a.
        case a of
          NotesAre recs \<Rightarrow>
            if recs = [] then act_return (0, None)
            else with_session env ''sftp-cleanup'' (\<lambda>w. cleanup_records env (rm_active w) 0 recs w)
        | Failed e \<Rightarrow> act_return (0, Some e)
        | _ \<Rightarrow> act_return (0, Some (SOther ''unexpected answer''))))"

section \<open>Creating, renaming, deleting\<close>

definition exist_error :: "sftp_error \<Rightarrow> remote_error" where
  "exist_error e =
     (if e = SExist then RKind Conflict else if e = SPermission then RKind PermissionDenied else RWrap WriteFailed e)"

definition create_directory_entry :: "'s env \<Rightarrow> string \<Rightarrow> ('s, unit) remote_op" where
  "create_directory_entry env target =
     act_bind (call_done env (Mkdir target)) (\<lambda>r. or_fail (map_option exist_error r))"

definition create_file_entry :: "'s env \<Rightarrow> string \<Rightarrow> ('s, unit) remote_op" where
  "create_file_entry env target =
     act_bind (call_done env (OpenExcl target)) (\<lambda>r.
     act_bind (or_fail (map_option exist_error r)) (\<lambda>_.
     act_bind (call_done env (FileClose target)) (\<lambda>c. or_fail (map_option RRaw c))))"

text \<open>A name that has to be free.\<close>

definition ensure_absent :: "'s env \<Rightarrow> string \<Rightarrow> ('s, unit) remote_op" where
  "ensure_absent env target =
     act_bind (call_info env (Lstat target)) (\<lambda>r.
       case r of
         Inr _ \<Rightarrow> act_fail (RKind Conflict)
       | Inl e \<Rightarrow>
           if e = SNotExist then act_return ()
           else act_fail (if e = SPermission then RKind PermissionDenied else RRaw e))"

definition remote_create :: "'s env \<Rightarrow> string \<Rightarrow> bool \<Rightarrow> ('s, unit) remote_op" where
  "remote_create env p is_dir =
     act_bind (check_lease env) (\<lambda>_.
     act_bind (check_shape p) (\<lambda>_.
       (let cleaned = clean p in
        if cleaned = ''/'' then act_fail (RKind Conflict)
        else with_lock env [cleaned] (with_session env ''sftp-create''
          (with_target env cleaned (\<lambda>target.
             act_bind (ensure_absent env target) (\<lambda>_.
               if is_dir then create_directory_entry env target else create_file_entry env target)))))))"

definition validate_rename_paths :: "string \<Rightarrow> string \<Rightarrow> ('s, string \<times> string) remote_op" where
  "validate_rename_paths old new =
     act_bind (check_shape old) (\<lambda>_.
     act_bind (check_shape new) (\<lambda>_.
       if clean old = ''/'' \<or> clean new = ''/'' then act_fail (RKind InvalidPath)
       else act_return (clean old, clean new)))"

definition rename_error :: "sftp_error \<Rightarrow> remote_error" where
  "rename_error e = (if e = SExist then RKind Conflict else write_error e)"

text \<open>\<open>resolveRenameTargets\<close> and what is done with the two paths while their parents stay locked.\<close>

definition with_rename_targets :: "'s env \<Rightarrow> string \<Rightarrow> string \<Rightarrow> (string \<Rightarrow> string \<Rightarrow> ('s, 'a) remote_op) \<Rightarrow> ('s, 'a) remote_op" where
  "with_rename_targets env cold cnew body =
     with_target env cold (\<lambda>src.
       act_bind (call_info env (Lstat src)) (\<lambda>r.
       act_bind (from_result stat_error r) (\<lambda>_.
       with_target env cnew (\<lambda>dst. body src dst))))"

definition remote_rename :: "'s env \<Rightarrow> string \<Rightarrow> string \<Rightarrow> ('s, unit) remote_op" where
  "remote_rename env old new =
     act_bind (check_lease env) (\<lambda>_.
     act_bind (validate_rename_paths old new) (\<lambda>(cold, cnew).
     with_lock env [cold, cnew] (with_session env ''sftp-rename''
       (with_rename_targets env cold cnew (\<lambda>src dst.
          act_bind (ensure_absent env dst) (\<lambda>_.
          act_bind (call_done env (Rename src dst)) (\<lambda>d. or_fail (map_option rename_error d))))))))"

definition remove_file_target :: "'s env \<Rightarrow> string \<Rightarrow> ('s, unit) remote_op" where
  "remove_file_target env target =
     act_bind (call_done env (Remove target)) (\<lambda>r. or_fail (map_option write_error r))"

datatype removal = Removed | RemovalFailed sftp_error | OutOfFuel

text \<open>\<open>removeDirectoryRecursive\<close> and its loop; the fuel bounds the depth of the tree the server shows.\<close>

function (sequential) remove_recursive :: "'s env \<Rightarrow> nat \<Rightarrow> string \<Rightarrow> ('s, removal) remote_op"
  and remove_entries :: "'s env \<Rightarrow> nat \<Rightarrow> string \<Rightarrow> sftp_info list \<Rightarrow> ('s, removal) remote_op" where
  "remove_recursive env 0 dir = act_return OutOfFuel"
| "remove_recursive env (Suc n) dir =
     act_bind (call_done env CtxErr) (\<lambda>c.
       case c of
         Some e \<Rightarrow> act_return (RemovalFailed e)
       | None \<Rightarrow>
           act_bind (ask env (ReadDir dir)) (\<lambda>a.
             case as_entries a of
               Inl e \<Rightarrow> act_return (if e = SNotExist then Removed else RemovalFailed e)
             | Inr es \<Rightarrow> remove_entries env n dir es))"
| "remove_entries env n dir [] =
     act_bind (call_done env (RemoveDirectory dir)) (\<lambda>r.
       act_return (case r of None \<Rightarrow> Removed | Some e \<Rightarrow> if e = SNotExist then Removed else RemovalFailed e))"
| "remove_entries env n dir (i # es) =
     act_bind (call_done env CtxErr) (\<lambda>c.
       case c of
         Some e \<Rightarrow> act_return (RemovalFailed e)
       | None \<Rightarrow>
           (let child = join_path [dir, si_name i] in
            if si_kind i = Directory then
              act_bind (remove_recursive env n child) (\<lambda>r.
                if r = Removed then remove_entries env n dir es else act_return r)
            else
              act_bind (call_done env (Remove child)) (\<lambda>r.
                case r of
                  None \<Rightarrow> remove_entries env n dir es
                | Some e \<Rightarrow> if e = SNotExist then remove_entries env n dir es else act_return (RemovalFailed e))))"
  by pat_completeness auto
termination
  by (relation "measures [\<lambda>x. case x of Inl (_, n, _) \<Rightarrow> n | Inr (_, n, _, _) \<Rightarrow> n,
       \<lambda>x. case x of Inl _ \<Rightarrow> 0 | Inr (_, _, _, es) \<Rightarrow> Suc (length es)]") auto

text \<open>The value \<open>False\<close> is fuel that ran out.\<close>

definition remove_directory_target :: "'s env \<Rightarrow> nat \<Rightarrow> string \<Rightarrow> bool \<Rightarrow> ('s, bool) remote_op" where
  "remove_directory_target env fuel target recursive =
     (if \<not> recursive then
        act_bind (ask env (ReadDirBounded target 1)) (\<lambda>a.
          case a of
            RawEntriesAre es _ \<Rightarrow>
              if es \<noteq> [] then act_fail (RKind DirNotEmpty)
              else act_bind (call_done env (RemoveDirectory target)) (\<lambda>r.
                act_bind (or_fail (map_option write_error r)) (\<lambda>_. act_return True))
          | Failed e \<Rightarrow> act_fail (stat_error e)
          | _ \<Rightarrow> act_fail (RRaw (SOther ''unexpected answer'')))
      else
        act_bind (remove_recursive env fuel target) (\<lambda>r.
          case r of
            Removed \<Rightarrow> act_return True
          | RemovalFailed e \<Rightarrow> act_fail (write_error e)
          | OutOfFuel \<Rightarrow> act_return False))"

definition remote_delete :: "'s env \<Rightarrow> nat \<Rightarrow> string \<Rightarrow> bool \<Rightarrow> ('s, bool) remote_op" where
  "remote_delete env fuel p recursive =
     act_bind (check_lease env) (\<lambda>_.
     act_bind (check_shape p) (\<lambda>_.
       (let cleaned = clean p in
        if cleaned = ''/'' then act_fail (RKind InvalidPath)
        else with_lock env [cleaned] (with_session env ''sftp-delete''
          (with_target env cleaned (\<lambda>target.
             act_bind (call_info env (Lstat target)) (\<lambda>r.
             act_bind (from_result stat_error r) (\<lambda>i.
               if si_kind i \<noteq> Directory
                 then act_bind (remove_file_target env target) (\<lambda>_. act_return True)
               else remove_directory_target env fuel target recursive))))))))"

end
