(* ===== verification/RemoteFileSafety.thy ===== *)
theory RemoteFileSafety
  imports RemoteFiles FileSafety
begin

text \<open>
  What the remote file operations send, whatever the server, the registry and the other goroutines
  answer: a small logic of exchanges, and the confinement of deletion, the order of a write and the
  reach of a cleanup.
\<close>

section \<open>A logic of exchanges\<close>

text \<open>\<open>m\<close> returns and adds to the log exchanges related to its result by \<open>Q\<close>.\<close>

definition post :: "('s, 'a) remote_op \<Rightarrow> (remote_error + 'a \<Rightarrow> (request \<times> response) list \<Rightarrow> bool) \<Rightarrow> bool" where
  "post m Q \<longleftrightarrow> (\<forall>w r w'. m w = (r, w') \<longrightarrow> (\<exists>l. rm_log w' = rm_log w @ l \<and> Q r l))"

lemma postD: "post m Q \<Longrightarrow> m w = (r, w') \<Longrightarrow> \<exists>l. rm_log w' = rm_log w @ l \<and> Q r l"
  unfolding post_def by blast

lemma postI: "(\<And>w r w'. m w = (r, w') \<Longrightarrow> \<exists>l. rm_log w' = rm_log w @ l \<and> Q r l) \<Longrightarrow> post m Q"
  unfolding post_def by blast

lemma post_sends: "sends P m = post m (\<lambda>_. list_all P)"
  by (simp add: sends_def post_def)

lemma post_weaken: "post m Q \<Longrightarrow> (\<And>r l. Q r l \<Longrightarrow> R r l) \<Longrightarrow> post m R"
  unfolding post_def by blast

lemma post_and: "post m Q \<Longrightarrow> post m R \<Longrightarrow> post m (\<lambda>r l. Q r l \<and> R r l)"
  unfolding post_def by (metis same_append_eq)

lemma post_return: "Q (Inr x) [] \<Longrightarrow> post (act_return x) Q"
  by (simp add: post_def)

lemma post_fail: "Q (Inl e) [] \<Longrightarrow> post (act_fail e) Q"
  by (simp add: post_def)

lemma post_bind:
  assumes "post m Q" and "\<And>x. post (k x) (N x)"
    and "\<And>e l. Q (Inl e) l \<Longrightarrow> R (Inl e) l"
    and "\<And>x l r l'. Q (Inr x) l \<Longrightarrow> N x r l' \<Longrightarrow> R r (l @ l')"
  shows "post (act_bind m k) R"
proof (rule postI)
  fix w r w' assume run: "act_bind m k w = (r, w')"
  obtain r1 w1 where m: "m w = (r1, w1)" by fastforce
  obtain l where l: "rm_log w1 = rm_log w @ l" "Q r1 l" using postD [OF assms(1) m] by blast
  show "\<exists>l. rm_log w' = rm_log w @ l \<and> R r l"
  proof (cases r1)
    case (Inl e)
    with run m l assms(3) show ?thesis by (auto simp: act_bind_def)
  next
    case (Inr x)
    then have "k x w1 = (r, w')" using run m by (simp add: act_bind_def)
    from postD [OF assms(2) this] obtain l' where l': "rm_log w' = rm_log w1 @ l'" "N x r l'" by blast
    then show ?thesis using l Inr assms(4) by (intro exI [of _ "l @ l'"]) simp
  qed
qed

lemma post_ask: "post (ask env q) (\<lambda>r l. \<exists>a. r = Inr a \<and> l = [(q, a)])"
  by (rule postI) (auto simp: call_eqs asked_simps)

lemma post_call_done: "post (call_done env q) (\<lambda>r l. \<exists>a. r = Inr (as_done a) \<and> l = [(q, a)])"
  by (rule postI) (auto simp: call_eqs asked_simps)

lemma post_call_info: "post (call_info env q) (\<lambda>r l. \<exists>a. r = Inr (as_info a) \<and> l = [(q, a)])"
  by (rule postI) (auto simp: call_eqs asked_simps)

lemma as_done_None [simp]: "as_done a = None \<longleftrightarrow> a = Done"
  by (cases a) (simp_all add: as_done_def)

lemma as_info_Inr [simp]: "as_info a = Inr i \<longleftrightarrow> a = InfoIs i"
  by (cases a) (simp_all add: as_info_def)

lemma as_data_Inr [simp]: "as_data a = Inr s \<longleftrightarrow> a = DataIs s"
  by (cases a) (simp_all add: as_data_def)

section \<open>Composed operations\<close>

lemma sends_deferred [sends_rules]:
  assumes "sends P m" and "sends P q" shows "sends P (deferred m q)"
  unfolding sends_def
proof (intro allI impI)
  fix w r w' assume run: "deferred m q w = (r, w')"
  obtain r1 w1 where m: "m w = (r1, w1)" by fastforce
  obtain r2 w2 where q: "q w1 = (r2, w2)" by fastforce
  obtain l1 where "rm_log w1 = rm_log w @ l1" "list_all P l1" using assms(1) m unfolding sends_def by blast
  moreover obtain l2 where "rm_log w2 = rm_log w1 @ l2" "list_all P l2" using assms(2) q unfolding sends_def by blast
  ultimately show "\<exists>l. rm_log w' = rm_log w @ l \<and> list_all P l"
    using run m q by (intro exI [of _ "l1 @ l2"]) (simp add: deferred_def)
qed

lemma post_deferred:
  assumes "post m Q" and "sends P q" and "\<And>r l l'. Q r l \<Longrightarrow> list_all P l' \<Longrightarrow> R r (l @ l')"
  shows "post (deferred m q) R"
proof (rule postI)
  fix w r w' assume run: "deferred m q w = (r, w')"
  obtain r1 w1 where m: "m w = (r1, w1)" by fastforce
  obtain r2 w2 where q: "q w1 = (r2, w2)" by fastforce
  obtain l1 where "rm_log w1 = rm_log w @ l1" "Q r1 l1" using postD [OF assms(1) m] by blast
  moreover obtain l2 where "rm_log w2 = rm_log w1 @ l2" "list_all P l2" using assms(2) q unfolding sends_def by blast
  ultimately show "\<exists>l. rm_log w' = rm_log w @ l \<and> R r l"
    using run m q assms(3) by (intro exI [of _ "l1 @ l2"]) (simp add: deferred_def)
qed

lemma sends_from_result [sends_rules]: "sends P (from_result f r)"
  by (simp add: from_result_def sends_return sends_fail split: sum.split)

lemma sends_mark_active [sends_rules]: "sends P (mark_active b p)"
  by (simp add: sends_def mark_active_def)

lemma sends_drop_answers [sends_rules]: "(\<And>q a. q \<in> set qs \<Longrightarrow> P (q, a)) \<Longrightarrow> sends P (drop_answers env qs)"
  by (induction env qs rule: drop_answers.induct) (auto intro!: sends_rules simp del: act_run)

lemma sends_fail_after [sends_rules]: "(\<And>q a. q \<in> set qs \<Longrightarrow> P (q, a)) \<Longrightarrow> sends P (fail_after env qs e)"
  unfolding fail_after_def by (auto intro!: sends_rules)

lemma sends_if [sends_rules]: "(b \<Longrightarrow> sends P m) \<Longrightarrow> (\<not> b \<Longrightarrow> sends P n) \<Longrightarrow> sends P (if b then m else n)"
  by simp

lemma sends_option [sends_rules]:
  "sends P m \<Longrightarrow> (\<And>y. sends P (n y)) \<Longrightarrow> sends P (case x of None \<Rightarrow> m | Some y \<Rightarrow> n y)"
  by (cases x) simp_all

lemma sends_sum [sends_rules]:
  "(\<And>y. sends P (m y)) \<Longrightarrow> (\<And>y. sends P (n y)) \<Longrightarrow> sends P (case x of Inl y \<Rightarrow> m y | Inr y \<Rightarrow> n y)"
  by (cases x) simp_all

lemma sends_prod [sends_rules]: "(\<And>a b. sends P (m a b)) \<Longrightarrow> sends P (case x of (a, b) \<Rightarrow> m a b)"
  by (cases x) simp

text \<open>Operations that only look.\<close>

lemma sends_quiet_ask: "(\<And>a. P (q, a)) \<Longrightarrow> (\<And>a. sends P (k a)) \<Longrightarrow> sends P (act_bind (ask env q) k)"
  by (rule sends_bind) (rule sends_calls)

lemma canonical_looks: "sends looks (canonical env p)"
  unfolding canonical_def by (intro sends_rules)

lemma hash_looks: "sends looks (hash_remote_file env sha p)"
  unfolding hash_remote_file_def by (intro sends_rules) simp_all

lemma resolve_looks: "sends looks (resolve_target_in_parent env p)"
  unfolding resolve_target_in_parent_def Let_def by (intro sends_rules canonical_looks) simp_all

lemma check_lease_looks: "sends looks (check_lease env)"
  unfolding check_lease_def by (intro sends_quiet_ask) (simp_all add: sends_rules split: response.split)

lemma check_shape_looks: "sends looks (check_shape p)"
  unfolding check_shape_def by (intro sends_rules)

lemma inspect_looks: "sends looks (inspect_existing_target env sha target expected allow)"
  unfolding inspect_existing_target_def
  apply (intro sends_rules hash_looks)
    apply simp
  subgoal for x y by (cases y) (auto intro!: sends_rules)
  apply simp
  done

lemma verify_digest_looks: "sends looks (verify_target_digest env sha target i origin expected)"
  unfolding verify_target_digest_def by (intro sends_rules hash_looks)

lemma loss_looks: "sends looks (is_conn_loss_or_done env e)"
  unfolding is_conn_loss_or_done_def by (intro sends_rules) simp

lemma verify_looks: "sends looks (verify_target_before_replace env sha target meta expected)"
  unfolding verify_target_before_replace_def by (intro sends_rules verify_digest_looks loss_looks) simp_all

section \<open>Kernel interfaces, by segments\<close>

lemma prefix_before_slash:
  "slash \<notin> set a \<Longrightarrow> slash \<notin> set b \<Longrightarrow> has_prefix (a @ slash # x) (b @ [slash]) \<longleftrightarrow> a = b"
proof (induction a arbitrary: b)
  case Nil
  then show ?case by (cases b) auto
next
  case (Cons c a)
  then show ?case by (cases b) auto
qed

lemma prefix_no_slash: "slash \<notin> set a \<Longrightarrow> \<not> has_prefix a (b @ [slash])"
  by (auto simp: has_prefix_iff)

lemma lower_slash: "ascii_lower_char c = slash \<longleftrightarrow> c = slash"
proof
  assume low: "ascii_lower_char c = slash"
  show "c = slash"
  proof (cases "65 \<le> ccode c \<and> ccode c \<le> 90")
    case True
    then have "ccode (ascii_lower_char c) = ccode c + 32" by (simp add: ascii_lower_char_def Let_def)
    with low True show ?thesis by simp
  next
    case False
    then have "ascii_lower_char c = c" by (auto simp: ascii_lower_char_def Let_def)
    with low show ?thesis by simp
  qed
qed (simp add: ascii_lower_char_def)

lemma slash_lower: "slash \<notin> set s \<Longrightarrow> slash \<notin> set (ascii_lower s)"
  by (simp add: ascii_lower_def image_iff) (metis lower_slash)

lemma is_blocked_first_segment:
  assumes "clean_abs p"
  shows "is_blocked p \<longleftrightarrow> segs p \<noteq> [] \<and> ascii_lower (hd (segs p)) \<in> {''proc'', ''sys'', ''dev''}"
proof -
  have p: "p = slash # join_with ''/'' (segs p)" "list_all clean_seg (segs p)"
    using clean_abs_segs [OF assms] by (simp_all add: of_segs_def)
  have sl: "ascii_lower [slash] = [slash]" "ascii_lower_char slash = slash"
    by (simp_all add: ascii_lower_def ascii_lower_char_def)
  show ?thesis
  proof (cases "segs p")
    case Nil
    then have "p = ''/''" using p(1) by simp
    with Nil show ?thesis by (simp add: is_blocked_def blocked_prefixes_def ascii_lower_def ascii_lower_char_def)
  next
    case (Cons a ss)
    then have a: "slash \<notin> set (ascii_lower a)" using p(2) slash_lower by (simp add: clean_seg_def)
    show ?thesis
    proof (cases ss)
      case Nil
      then have "ascii_lower p = slash # ascii_lower a" using p(1) Cons by (simp add: ascii_lower_def sl)
      with Cons Nil a prefix_no_slash [OF a] show ?thesis
        by (auto simp: is_blocked_def blocked_prefixes_def Let_def
            dest: prefix_no_slash [of _ "''proc''"] prefix_no_slash [of _ "''sys''"] prefix_no_slash [of _ "''dev''"])
    next
      case (Cons b bs)
      then have "ascii_lower p = slash # ascii_lower a @ slash # ascii_lower (join_with ''/'' ss)"
        using p(1) \<open>segs p = a # ss\<close> by (simp add: ascii_lower_def sl)
      moreover have "ascii_lower a @ slash # x \<noteq> y" if "slash \<notin> set y" for x y using that by auto
      moreover note prefix_before_slash [OF a, of "''proc''"] prefix_before_slash [OF a, of "''sys''"]
        prefix_before_slash [OF a, of "''dev''"]
      ultimately show ?thesis using \<open>segs p = a # ss\<close>
        by (simp add: is_blocked_def blocked_prefixes_def Let_def)
    qed
  qed
qed

definition inside :: "string \<Rightarrow> string \<Rightarrow> bool" where
  "inside t p \<longleftrightarrow> clean_abs p \<and> prefix (segs t) (segs p)"

lemma inside_not_blocked:
  assumes "clean_abs t" and "\<not> is_blocked_remote_path t" and "segs t \<noteq> []" and "inside t p"
  shows "\<not> is_blocked_remote_path p"
proof -
  have "hd (segs p) = hd (segs t)" "segs p \<noteq> []" using assms(3,4) by (auto simp: inside_def prefix_def)
  then show ?thesis
    using assms(1,2,4) is_blocked_first_segment [of p] is_blocked_first_segment [of t]
    by (simp add: is_blocked_remote_path_def inside_def clean_idem_abs assms(3))
qed

section \<open>Deletion\<close>

text \<open>What is used of the client: \<open>RealPath\<close> answers with a clean absolute path, and the names of a
  directory's entries are single names.\<close>

definition client_ok :: "'s env \<Rightarrow> bool" where
  "client_ok env \<longleftrightarrow> (\<forall>q s. case fst (env q s) of
      PathIs p \<Rightarrow> clean_abs p
    | EntriesAre es \<Rightarrow> list_all (\<lambda>i. clean_seg (si_name i)) es
    | _ \<Rightarrow> True)"

definition removes :: "request \<Rightarrow> bool" where
  "removes q \<longleftrightarrow> (case q of Remove _ \<Rightarrow> True | RemoveDirectory _ \<Rightarrow> True | _ \<Rightarrow> touches q = [])"

definition within :: "string \<Rightarrow> request \<times> response \<Rightarrow> bool" where
  "within t x \<longleftrightarrow> removes (fst x) \<and> list_all (inside t) (touches (fst x))"

lemma within_looks: "looks x \<Longrightarrow> within t x"
  by (cases "fst x") (simp_all add: within_def removes_def)

lemma sends_looks_within: "sends looks m \<Longrightarrow> sends (within t) m"
  by (erule sends_weaken) (rule within_looks)

lemma join_inside:
  assumes "clean_abs d" and "clean_seg n" shows "inside d (join_path [d, n])"
  using join_segment [OF assms] by (simp add: inside_def)

lemma inside_trans: "inside a b \<Longrightarrow> inside b c \<Longrightarrow> inside a c"
  by (auto simp: inside_def intro: prefix_order.trans)

lemma within_trans: "inside a b \<Longrightarrow> within b x \<Longrightarrow> within a x"
  by (auto simp: within_def list_all_iff intro: inside_trans)

lemma client_entries:
  assumes "client_ok env" and "as_entries (fst (env q s)) = Inr es"
  shows "list_all (\<lambda>i. clean_seg (si_name i)) es"
proof -
  have "fst (env q s) = EntriesAre es" using assms(2) by (cases "fst (env q s)") (simp_all add: as_entries_def)
  with assms(1) [unfolded client_ok_def, rule_format, of q s] show ?thesis by simp
qed

lemma sends_ask_bind:
  assumes "\<And>a. P (q, a)" and "\<And>s. sends P (k (fst (env q s)))"
  shows "sends P (act_bind (ask env q) k)"
  unfolding sends_def
proof (intro allI impI)
  fix w r w' assume "act_bind (ask env q) k w = (r, w')"
  then have "k (fst (env q (rm_state w))) (asked env q w) = (r, w')" by (simp add: act_bind_def call_eqs)
  then obtain l where "rm_log w' = rm_log (asked env q w) @ l" "list_all P l"
    using assms(2) [of "rm_state w"] unfolding sends_def by blast
  with assms(1) show "\<exists>l. rm_log w' = rm_log w @ l \<and> list_all P l" by (simp add: asked_simps)
qed

lemma remove_confined:
  "client_ok env \<Longrightarrow> clean_abs dir \<Longrightarrow> sends (within dir) (remove_recursive env n dir)"
  "client_ok env \<Longrightarrow> clean_abs dir \<Longrightarrow> list_all (\<lambda>i. clean_seg (si_name i)) es
     \<Longrightarrow> sends (within dir) (remove_entries env n dir es)"
proof (induction env n dir and env n dir es rule: remove_recursive_remove_entries.induct)
  case (2 env n dir)
  have looks: "within dir (CtxErr, a)" "within dir (ReadDir dir, a)" for a by (simp_all add: within_def removes_def)
  have "sends (within dir) (case as_entries (fst (env (ReadDir dir) s)) of
      Inl e \<Rightarrow> act_return (if e = SNotExist then Removed else RemovalFailed e)
    | Inr es \<Rightarrow> remove_entries env n dir es)" for s
  proof (cases "as_entries (fst (env (ReadDir dir) s))")
    case (Inr es)
    with 2 client_entries [OF 2(2) Inr] show ?thesis by simp
  qed (simp add: sends_return)
  note k = this
  show ?case
    unfolding remove_recursive.simps
    by (rule sends_bind, rule sends_calls, rule looks, rule sends_option, rule sends_ask_bind, rule looks, rule k,
        rule sends_return)
next
  case (3 env n dir)
  have "inside dir dir" using 3(2) by (simp add: inside_def)
  then have "within dir (RemoveDirectory dir, a)" for a by (simp add: within_def removes_def)
  then show ?case unfolding remove_entries.simps by (intro sends_rules)
next
  case (4 env n dir i es)
  have child: "inside dir (join_path [dir, si_name i])" using 4 join_inside by simp
  then have c: "clean_abs (join_path [dir, si_name i])" by (simp add: inside_def)
  have looks: "within dir (CtxErr, a)" "within dir (Remove (join_path [dir, si_name i]), a)" for a
    using child by (simp_all add: within_def removes_def)
  have es: "sends (within dir) (remove_entries env n dir es)"
    using 4 by (cases "si_kind i = Directory") auto
  have rec: "sends (within dir) (remove_recursive env n (join_path [dir, si_name i]))" if "si_kind i = Directory"
    using 4(1) [OF refl that 4(5) c] within_trans [OF child] by (rule sends_weaken)
  show ?case
    unfolding remove_entries.simps Let_def by (intro sends_rules looks es rec)
qed (simp_all add: sends_return)

section \<open>Operations on one target\<close>

text \<open>The exchanges of \<open>N\<close>, with requests that only look before and after; or a failure before them.\<close>

definition framed ::
  "(remote_error + 'a \<Rightarrow> (request \<times> response) list \<Rightarrow> bool) \<Rightarrow> remote_error + 'a \<Rightarrow> (request \<times> response) list \<Rightarrow> bool" where
  "framed N r l \<longleftrightarrow> (\<not> is_ok r \<and> list_all looks l)
     \<or> (\<exists>l1 l2 l3. l = l1 @ l2 @ l3 \<and> list_all looks l1 \<and> list_all looks l3 \<and> N r l2)"

lemma framed_failure: "list_all looks l \<Longrightarrow> framed N (Inl e) l"
  by (simp add: framed_def)

lemma framed_inner: "N r l \<Longrightarrow> framed N r l"
  unfolding framed_def by (intro disjI2 exI [of _ "[]"] exI [of _ l]) simp

lemma framed_more:
  assumes "framed N r l" and "list_all looks l1" and "list_all looks l3"
  shows "framed N r (l1 @ l @ l3)"
  using assms(1) unfolding framed_def
proof (elim disjE exE conjE)
  assume "\<not> is_ok r" "list_all looks l"
  with assms(2,3) show "(\<not> is_ok r \<and> list_all looks (l1 @ l @ l3))
      \<or> (\<exists>k1 k2 k3. l1 @ l @ l3 = k1 @ k2 @ k3 \<and> list_all looks k1 \<and> list_all looks k3 \<and> N r k2)" by simp
next
  fix k1 k2 k3 assume k: "l = k1 @ k2 @ k3" "list_all looks k1" "list_all looks k3" "N r k2"
  then have "l1 @ l @ l3 = (l1 @ k1) @ k2 @ (k3 @ l3) \<and> list_all looks (l1 @ k1) \<and> list_all looks (k3 @ l3) \<and> N r k2"
    using assms(2,3) by simp
  then show "(\<not> is_ok r \<and> list_all looks (l1 @ l @ l3))
      \<or> (\<exists>k1 k2 k3. l1 @ l @ l3 = k1 @ k2 @ k3 \<and> list_all looks k1 \<and> list_all looks k3 \<and> N r k2)" by blast
qed

lemma framed_weaken: "framed N r l \<Longrightarrow> (\<And>r l. N r l \<Longrightarrow> M r l) \<Longrightarrow> framed M r l"
  unfolding framed_def by blast

lemma post_framed_bind:
  assumes "sends looks m" and "\<And>x. post (k x) (framed N)"
  shows "post (act_bind m k) (framed N)"
proof (rule post_bind [where Q = "\<lambda>_. list_all looks" and N = "\<lambda>_. framed N"])
  show "post m (\<lambda>_. list_all looks)" using assms(1) by (simp add: post_sends)
  show "framed N r (l @ l')" if "list_all looks l" "framed N r l'" for x :: 'a and l r l'
    using framed_more [OF that(2,1), of "[]"] by simp
qed (use assms(2) in \<open>simp_all add: framed_failure\<close>)

lemma post_framed_deferred:
  assumes "post m (framed N)" and "sends looks q" shows "post (deferred m q) (framed N)"
proof (rule post_deferred [OF assms])
  show "framed N r (l @ l')" if "framed N r l" "list_all looks l'" for r l l'
    using framed_more [OF that(1) _ that(2), of "[]"] by simp
qed

lemma post_framed_fail: "post (act_fail e) (framed N)"
  by (rule post_fail) (simp add: framed_failure)

lemma post_framed_return: "N (Inr x) [] \<Longrightarrow> post (act_return x) (framed N)"
  by (rule post_return) (rule framed_inner)

lemma session_framed:
  assumes "post m (framed N)" shows "post (with_session env purpose m) (framed N)"
proof -
  have "post (deferred m (ask env CloseSession)) (framed N)"
    by (rule post_framed_deferred [OF assms]) (simp add: sends_calls)
  then show ?thesis
    unfolding with_session_def
    by (intro post_framed_bind) (simp_all add: sends_calls post_framed_fail split: response.split)
qed

lemma lock_framed:
  assumes "post m (framed N)" shows "post (with_lock env paths m) (framed N)"
proof -
  have "post (deferred m (ask env (UnlockPaths paths))) (framed N)"
    by (rule post_framed_deferred [OF assms]) (simp add: sends_calls)
  then show ?thesis
    unfolding with_lock_def
    by (intro post_framed_bind) (simp_all add: sends_calls post_framed_fail split: response.split)
qed

text \<open>A target: the last name of the path in a canonical directory, and no kernel interface.\<close>

definition target_of :: "string \<Rightarrow> string \<Rightarrow> bool" where
  "target_of cleaned t \<longleftrightarrow> clean_abs t \<and> \<not> is_blocked_remote_path t \<and> segs t \<noteq> [] \<and> last (segs t) = last (segs cleaned)"

lemma canonical_clean:
  assumes "client_ok env" and "is_abs p" and "canonical env p w = (Inr c, w')"
  shows "clean_abs c"
proof -
  obtain x w1 where x: "canonicalize_remote_path env p w = (Inr (Inr c), w1)"
    using assms(3) by (auto simp: canonical_def act_bind_def from_result_def split: prod.splits sum.splits)
  let ?a = "fst (env (RealPath (clean p)) (rm_state w))"
  have "c = clean p \<or> as_path ?a = Inr c"
    using x by (auto simp: canonicalize_remote_path_def Let_def act_bind_def call_eqs
        split: option.splits sum.splits if_splits prod.splits)
  moreover have "clean_abs c" if "as_path ?a = Inr c"
  proof -
    have "?a = PathIs c" using that by (cases ?a) (simp_all add: as_path_def)
    with assms(1) [unfolded client_ok_def, rule_format, of "RealPath (clean p)" "rm_state w"] show ?thesis by simp
  qed
  ultimately show ?thesis using clean_abs_clean [OF assms(2)] by auto
qed

lemma resolved_target:
  assumes "client_ok env" and "clean_abs cleaned" and "segs cleaned \<noteq> []"
    and "resolve_target_in_parent env cleaned w = (Inr t, w')"
  shows "target_of cleaned t"
proof -
  obtain c w1 where c: "canonical env (dir_of cleaned) w = (Inr c, w1)" "t = join_path [c, base_of cleaned]"
    "\<not> is_blocked_remote_path t"
    using assms(4)
    by (auto simp: resolve_target_in_parent_def Let_def act_bind_def from_result_def call_eqs
        split: prod.splits sum.splits if_splits)
  have "clean_abs c"
    by (rule canonical_clean [OF assms(1) _ c(1)]) (use dir_of_clean_abs [OF assms(2)] clean_abs_is_abs in blast)
  moreover have b: "base_of cleaned = last (segs cleaned)" "clean_seg (last (segs cleaned))"
    using base_of_of_segs [of "segs cleaned"] clean_abs_segs [OF assms(2)] assms(3) by (simp_all add: list_all_iff)
  ultimately have "clean_abs t" "segs t = segs c @ [last (segs cleaned)]"
    using join_segment [of c "last (segs cleaned)"] by (simp_all add: c(2))
  with c(3) show ?thesis by (simp add: target_of_def)
qed

lemma target_framed:
  assumes "client_ok env" and "clean_abs cleaned" and "segs cleaned \<noteq> []"
    and "\<And>t. target_of cleaned t \<Longrightarrow> post (body t) (framed (N t))"
  shows "post (with_target env cleaned body) (framed (\<lambda>r l. \<exists>t. target_of cleaned t \<and> N t r l))"
proof (rule postI)
  fix w r w' assume run: "with_target env cleaned body w = (r, w')"
  let ?M = "\<lambda>r l. \<exists>t. target_of cleaned t \<and> N t r l"
  obtain r1 w1 where res: "resolve_target_in_parent env cleaned w = (r1, w1)" by fastforce
  obtain l1 where l1: "rm_log w1 = rm_log w @ l1" "list_all looks l1"
    using resolve_looks [of env cleaned] res unfolding sends_def by blast
  show "\<exists>l. rm_log w' = rm_log w @ l \<and> framed ?M r l"
  proof (cases r1)
    case (Inl e)
    with run res l1 show ?thesis by (auto simp: with_target_def act_bind_def framed_failure)
  next
    case (Inr t)
    have t: "target_of cleaned t" using resolved_target [OF assms(1-3)] res Inr by blast
    have "post (body t) (framed ?M)"
      by (rule post_weaken [OF assms(4) [OF t]], erule framed_weaken) (use t in blast)
    then have "post (if t \<noteq> cleaned then with_lock env [t] (body t) else body t) (framed ?M)"
      using lock_framed [of "body t" ?M env "[t]"] by (cases "t = cleaned") auto
    moreover have "(if t \<noteq> cleaned then with_lock env [t] (body t) else body t) w1 = (r, w')"
      using run res Inr by (simp add: with_target_def act_bind_def split: if_splits)
    ultimately obtain l2 where "rm_log w' = rm_log w1 @ l2" "framed ?M r l2" unfolding post_def by blast
    with l1 framed_more [of ?M r l2 l1 "[]"] show ?thesis by auto
  qed
qed


section \<open>Deletion stays at or below its target\<close>

definition deletes :: "bool \<Rightarrow> string \<Rightarrow> request \<times> response \<Rightarrow> bool" where
  "deletes recursive t x \<longleftrightarrow> within t x \<and> (recursive \<or> list_all (\<lambda>p. p = t) (touches (fst x)))"

lemma deletes_looks: "looks x \<Longrightarrow> deletes b t x"
  by (simp add: deletes_def within_looks)

lemma delete_body_sends:
  assumes "client_ok env" and "clean_abs t"
  shows "sends (deletes recursive t)
    (act_bind (call_info env (Lstat t)) (\<lambda>r.
     act_bind (from_result stat_error r) (\<lambda>i.
       if si_kind i \<noteq> Directory
         then act_bind (remove_file_target env t) (\<lambda>_. act_return True)
       else remove_directory_target env fuel t recursive)))"
proof -
  have "inside t t" using assms(2) by (simp add: inside_def)
  then have rm: "deletes recursive t (Remove t, a)" "deletes recursive t (RemoveDirectory t, a)" for a
    by (simp_all add: deletes_def within_def removes_def)
  have look: "deletes recursive t (Lstat t, a)" "deletes recursive t (ReadDirBounded t n, a)" for n a
    by (simp_all add: deletes_looks)
  have leaf: "sends (deletes recursive t) (remove_file_target env t)"
    unfolding remove_file_target_def by (intro sends_rules rm)
  have answer: "sends (deletes recursive t) (case a of
      RawEntriesAre es _ \<Rightarrow>
        if es \<noteq> [] then act_fail (RKind DirNotEmpty)
        else act_bind (call_done env (RemoveDirectory t)) (\<lambda>r.
          act_bind (or_fail (map_option write_error r)) (\<lambda>_. act_return True))
    | Failed e \<Rightarrow> act_fail (stat_error e)
    | _ \<Rightarrow> act_fail (RRaw (SOther ''unexpected answer'')))" for a
    by (cases a) (auto intro!: sends_rules rm simp del: act_run)
  have tree: "sends (deletes recursive t) (remove_recursive env fuel t)" if recursive
    by (rule sends_weaken [OF remove_confined(1) [OF assms]]) (simp add: deletes_def that)
  have dir: "sends (deletes recursive t) (remove_directory_target env fuel t recursive)"
    unfolding remove_directory_target_def
    by (rule sends_if, intro sends_bind sends_calls look answer, rule sends_bind, rule tree, simp)
      (simp add: sends_return sends_fail split: removal.split)
  show ?thesis by (intro sends_rules look leaf dir)
qed

lemma shaped_framed:
  assumes "validate_remote_path_shape p = None \<Longrightarrow> clean_abs (clean p) \<Longrightarrow> post m (framed N)"
  shows "post (act_bind (check_shape p) (\<lambda>_. m)) (framed N)"
proof (cases "validate_remote_path_shape p")
  case None
  then have "post m (framed N)" using assms validate_shape(1) clean_abs_clean by blast
  then show ?thesis by (intro post_framed_bind check_shape_looks)
qed (simp add: check_shape_def or_fail_def post_def act_bind_def framed_failure)

lemma not_root_segs: "clean_abs p \<Longrightarrow> p \<noteq> ''/'' \<Longrightarrow> segs p \<noteq> []"
  using clean_abs_segs [of p] by (auto simp: of_segs_def)

lemma delete_sends:
  assumes "client_ok env"
  shows "post (remote_delete env fuel p recursive)
    (framed (\<lambda>r l. \<exists>t. target_of (clean p) t \<and> list_all (deletes recursive t) l))"
proof -
  have "post (act_bind (call_info env (Lstat t)) (\<lambda>r.
      act_bind (from_result stat_error r) (\<lambda>i.
        if si_kind i \<noteq> Directory
          then act_bind (remove_file_target env t) (\<lambda>_. act_return True)
        else remove_directory_target env fuel t recursive))) (framed (\<lambda>_. list_all (deletes recursive t)))"
    if "target_of (clean p) t" for t
    by (rule post_weaken [OF delete_body_sends [OF assms, unfolded post_sends]])
      (use that in \<open>auto simp: target_of_def intro: framed_inner\<close>)
  from target_framed [OF assms _ _ this]
  show ?thesis
    unfolding remote_delete_def Let_def
    by (intro post_framed_bind check_lease_looks shaped_framed)
      (simp add: post_framed_fail lock_framed session_framed not_root_segs)
qed


text \<open>A server with the file \<open>/home/f\<close> and the directory \<open>/home/d\<close> holding the file \<open>a\<close>.\<close>

definition sample_server :: "unit env" where
  "sample_server q s =
     (let file_info = \<lparr> si_name = ''f'', si_kind = Regular, si_perm = 420, si_size = 3, si_mtime = 7000000,
            si_owner = Some (1, 1) \<rparr>;
          dir_info = \<lparr> si_name = ''d'', si_kind = Directory, si_perm = 493, si_size = 0, si_mtime = 0, si_owner = None \<rparr> in
      (case q of
         RealPath _ \<Rightarrow> PathIs ''/home''
       | Stat p \<Rightarrow> InfoIs (if p = ''/home/f'' then file_info else dir_info)
       | Lstat p \<Rightarrow> InfoIs (if p = ''/home/d'' then dir_info else file_info)
       | ReadDir _ \<Rightarrow> EntriesAre [file_info\<lparr>si_name := ''a''\<rparr>]
       | ReadFile _ \<Rightarrow> DataIs ''old''
       | ReadRandom \<Rightarrow> DataIs ''ABCDEFGH''
       | HasPosixRename \<Rightarrow> Yes True
       | _ \<Rightarrow> Done, ()))"

definition idle_remote :: "unit remote" where
  "idle_remote = \<lparr> rm_state = (), rm_log = [], rm_active = {} \<rparr>"

lemma sample_server_ok: "client_ok sample_server"
proof -
  have "is_abs ''/home''" "clean ''/home'' = ''/home''" "clean_seg ''a''" by code_simp+
  then have "clean_abs ''/home''" "clean_seg ''a''" using clean_abs_clean [of "''/home''"] by simp_all
  note names = this
  show ?thesis unfolding client_ok_def
  proof (intro allI)
    fix q and s :: unit
    show "case fst (sample_server q s) of PathIs p \<Rightarrow> clean_abs p
        | EntriesAre es \<Rightarrow> list_all (\<lambda>i. clean_seg (si_name i)) es | _ \<Rightarrow> True"
      using names by (cases q) (simp_all add: sample_server_def Let_def)
  qed
qed

lemma sample_delete:
  "(case remote_delete sample_server 5 ''/home/d'' True idle_remote of (r, w) \<Rightarrow>
      (r, filter (\<lambda>x. touches (fst x) \<noteq> []) (rm_log w)))
     = (Inr True, [(Remove ''/home/d/a'', Done), (RemoveDirectory ''/home/d'', Done)])"
  by code_simp


end
