(* ===== verification/RemoteWriteSafety.thy ===== *)
theory RemoteWriteSafety
  imports RemoteFileSafety
begin

text \<open>
  The order of a remote write: what is staged, checked and committed, whatever the server answers; and
  what a cleanup of abandoned staging files may remove.
\<close>

section \<open>The order of a write\<close>

text \<open>Requests that change nothing but the staging file, and the two that commit it.\<close>

definition on_stage :: "string \<Rightarrow> request \<times> response \<Rightarrow> bool" where
  "on_stage s x \<longleftrightarrow> touches (fst x) = [] \<or> touches (fst x) = [s]"

definition commits :: "string \<Rightarrow> string \<Rightarrow> request \<Rightarrow> bool" where
  "commits s t q \<longleftrightarrow> q = Rename s t \<or> q = PosixRename s t"

definition removed :: "string \<Rightarrow> (request \<times> response) list \<Rightarrow> bool" where
  "removed s l \<longleftrightarrow> Remove s \<in> fst ` set l"

lemma removed_append [simp]: "removed s (l @ l') \<longleftrightarrow> removed s l \<or> removed s l'"
  by (auto simp: removed_def)

lemma on_stage_looks: "looks x \<Longrightarrow> on_stage s x"
  by (simp add: on_stage_def)

lemma all_on_stage: "list_all looks l \<Longrightarrow> list_all (on_stage s) l"
  by (auto simp: list_all_iff on_stage_def)

lemma on_stage_simps:
  "on_stage s (FileChmod s n, a)" "on_stage s (FileWrite s d, a)" "on_stage s (FileClose s, a)" "on_stage s (OpenExcl s, a)"
  "on_stage s (Chmod s n, a)" "on_stage s (Chown s i j, a)" "on_stage s (Remove s, a)"
  by (simp_all add: on_stage_def)

text \<open>How creating a stage ends: with the name \<open>s\<close> of an exclusively created file, or without one.\<close>

definition created_stage :: "string \<Rightarrow> remote_error + string \<times> string \<Rightarrow> (request \<times> response) list \<Rightarrow> bool" where
  "created_stage s r l \<longleftrightarrow> list_all (on_stage s) l \<and>
     (case r of Inr (p, _) \<Rightarrow> p = s \<and> (OpenExcl s, Done) \<in> set l
      | Inl _ \<Rightarrow> (OpenExcl s, Done) \<in> set l \<longrightarrow> removed s l)"

lemma post_drop_answers: "post (drop_answers env qs) (\<lambda>r l. r = Inr () \<and> map fst l = qs)"
proof (induction env qs rule: drop_answers.induct)
  case (2 env q qs)
  show ?case unfolding drop_answers.simps by (rule post_bind [OF post_ask 2]) auto
qed (simp add: post_def)

lemma post_fail_after: "post (fail_after env qs e) (\<lambda>r l. r = Inl e \<and> map fst l = qs)"
  unfolding fail_after_def
  by (rule post_bind [OF post_drop_answers, where N = "\<lambda>_ r l. r = Inl e \<and> l = []"]) (auto intro: post_fail)

lemma post_mark_active: "post (mark_active b p) (\<lambda>r l. r = Inr () \<and> l = [])"
  by (simp add: post_def mark_active_def)


text \<open>A step whose exchanges are known exactly, and then the rest.\<close>

lemma post_call_then:
  assumes "\<And>a. post (k (as_done a)) (\<lambda>r l. R r ((q, a) # l))"
  shows "post (act_bind (call_done env q) k) R"
proof (rule postI)
  fix w r w' assume "act_bind (call_done env q) k w = (r, w')"
  then have k: "k (as_done (fst (env q (rm_state w)))) (asked env q w) = (r, w')" by (simp add: act_bind_def call_eqs)
  from postD [OF assms k] show "\<exists>l. rm_log w' = rm_log w @ l \<and> R r l" by (auto simp: asked_simps)
qed

lemma post_ask_then:
  assumes "\<And>a. post (k a) (\<lambda>r l. R r ((q, a) # l))"
  shows "post (act_bind (ask env q) k) R"
proof (rule postI)
  fix w r w' assume "act_bind (ask env q) k w = (r, w')"
  then have k: "k (fst (env q (rm_state w))) (asked env q w) = (r, w')" by (simp add: act_bind_def call_eqs)
  from postD [OF assms k] show "\<exists>l. rm_log w' = rm_log w @ l \<and> R r l" by (auto simp: asked_simps)
qed

lemma post_info_then:
  assumes "\<And>a. post (k (as_info a)) (\<lambda>r l. R r ((q, a) # l))"
  shows "post (act_bind (call_info env q) k) R"
proof (rule postI)
  fix w r w' assume "act_bind (call_info env q) k w = (r, w')"
  then have k: "k (as_info (fst (env q (rm_state w)))) (asked env q w) = (r, w')" by (simp add: act_bind_def call_eqs)
  from postD [OF assms k] show "\<exists>l. rm_log w' = rm_log w @ l \<and> R r l" by (auto simp: asked_simps)
qed

lemma post_active_then: "post (k ()) R \<Longrightarrow> post (act_bind (mark_active b p) k) R"
  by (rule post_bind [OF post_mark_active]) auto

lemma post_fail_only: "(\<And>l. map fst l = qs \<Longrightarrow> R (Inl e) l) \<Longrightarrow> post (fail_after env qs e) R"
  by (rule post_weaken [OF post_fail_after]) simp

lemma post_from_result:
  "(\<And>x. y = Inr x \<Longrightarrow> post (k x) R) \<Longrightarrow> (\<And>e. y = Inl e \<Longrightarrow> R (Inl (f e)) []) \<Longrightarrow> post (act_bind (from_result f y) k) R"
  by (cases y) (simp_all add: from_result_def post_def act_bind_def)

lemma as_done_Done [simp]: "as_done Done = None"
  by simp

lemma as_info_InfoIs [simp]: "as_info (InfoIs i) = Inr i"
  by simp

lemma post_option:
  "(x = None \<Longrightarrow> post m R) \<Longrightarrow> (\<And>y. x = Some y \<Longrightarrow> post (n y) R) \<Longrightarrow> post (case x of None \<Rightarrow> m | Some y \<Rightarrow> n y) R"
  by (cases x) simp_all

lemma post_if: "(b \<Longrightarrow> post m R) \<Longrightarrow> (\<not> b \<Longrightarrow> post n R) \<Longrightarrow> post (if b then m else n) R"
  by simp

lemma post_or_fail:
  "(e = None \<Longrightarrow> post (k ()) R) \<Longrightarrow> (\<And>x. e = Some x \<Longrightarrow> R (Inl x) []) \<Longrightarrow> post (act_bind (or_fail e) k) R"
  by (cases e) (simp_all add: or_fail_def post_def act_bind_def)

lemmas post_steps = post_or_fail post_call_then post_ask_then post_info_then post_active_then post_from_result
  post_option post_if post_fail_only post_return post_fail

definition stage_in :: "string \<Rightarrow> string \<Rightarrow> bool" where
  "stage_in d s \<longleftrightarrow> (\<exists>bytes. s = join_path [d, stage_name (hex_encode (map of_char (bytes :: string)))])"

lemma stage_inI: "stage_in d (join_path [d, stage_name (hex_encode (map of_char (bytes :: string)))])"
  by (auto simp: stage_in_def)

lemma stage_in_some: "stage_in d (join_path [d, stage_name []])"
  using stage_inI [of d "[]"] by (simp add: hex_encode_def)

lemma create_stage_exchanges:
  "post (create_staging_file env svc d) (\<lambda>r l. \<exists>s. stage_in d s \<and> created_stage s r l)"
  unfolding create_staging_file_def Let_def
  apply (rule post_ask_then, rule post_from_result)
  subgoal for a bytes
    apply (rule post_weaken [where Q = "\<lambda>r l.
        created_stage (join_path [d, stage_name (hex_encode (map of_char (take 8 bytes)))]) r ((ReadRandom, a) # l)"])
     apply (intro post_steps; auto simp: created_stage_def on_stage_simps on_stage_looks removed_def map_eq_Cons_conv)
    apply (blast intro: stage_inI)
    done
  apply (auto simp: stage_in_def created_stage_def on_stage_looks)
  done

lemma transfer_exchanges:
  "post (transfer_staged_content env body declared s) (\<lambda>r l. list_all (on_stage s) l \<and> \<not> removed s l \<and>
    (is_ok r \<longrightarrow> l = [(FileWrite s (rb_bytes body), Done), (FileClose s, Done)]
       \<and> rb_error body = None \<and> int (length (rb_bytes body)) = declared))"
  unfolding transfer_staged_content_def Let_def
  by (intro post_steps) (auto simp: on_stage_simps removed_def split: if_splits option.splits)

text \<open>What was seen of the target: by the inspection, and by the check after staging.\<close>

definition inspected ::
  "(string \<Rightarrow> string) \<Rightarrow> string \<Rightarrow> expected_mtime option \<Rightarrow> target_metadata \<Rightarrow> (request \<times> response) list \<Rightarrow> bool" where
  "inspected sha t expected meta l \<longleftrightarrow>
     (\<exists>a. (Lstat t, a) \<in> set l \<and> (tm_existed meta \<longleftrightarrow> (\<exists>i. a = InfoIs i)))
     \<and> (\<forall>e. expected = Some e \<longrightarrow> tm_existed meta \<and> (\<exists>s. (ReadFile t, DataIs s) \<in> set l \<and> tm_digest meta = sha s))"

definition verified ::
  "(string \<Rightarrow> string) \<Rightarrow> string \<Rightarrow> expected_mtime option \<Rightarrow> target_metadata \<Rightarrow> (request \<times> response) list \<Rightarrow> bool" where
  "verified sha t expected meta l \<longleftrightarrow>
     (if tm_existed meta
      then (\<exists>i. (Lstat t, InfoIs i) \<in> set l \<and> si_kind i = Regular \<and>
        (\<forall>e. expected = Some e \<longrightarrow> stamp_matches e (si_mtime i) \<and>
          (\<exists>s. (ReadFile t, DataIs s) \<in> set l \<and> sha s = (if em_digest e = [] then tm_digest meta else em_digest e))))
      else (\<exists>a. (Lstat t, a) \<in> set l \<and> (\<forall>i. a \<noteq> InfoIs i)))"

lemma hash_exchanges:
  "post (hash_remote_file env sha t) (\<lambda>r l. \<forall>d. r = Inr d \<longrightarrow> (\<exists>s. (ReadFile t, DataIs s) \<in> set l \<and> d = sha s))"
  unfolding hash_remote_file_def by (intro post_steps) auto

lemma expected_digest_exchanges:
  "post (case expected of
        None \<Rightarrow> act_return []
      | Some e \<Rightarrow>
          if \<not> stamp_matches e (si_mtime i) then act_fail (RKind Conflict)
          else act_bind (hash_remote_file env sha t) (\<lambda>d.
            if em_digest e \<noteq> [] \<and> d \<noteq> em_digest e then act_fail (RKind Conflict) else act_return d))
    (\<lambda>r l. \<forall>d e. r = Inr d \<longrightarrow> expected = Some e \<longrightarrow> (\<exists>s. (ReadFile t, DataIs s) \<in> set l \<and> d = sha s))"
proof (intro post_steps)
  fix e assume "expected = Some e"
  show "post (act_bind (hash_remote_file env sha t) (\<lambda>d.
      if em_digest e \<noteq> [] \<and> d \<noteq> em_digest e then act_fail (RKind Conflict) else act_return d))
    (\<lambda>r l. \<forall>d e. r = Inr d \<longrightarrow> expected = Some e \<longrightarrow> (\<exists>s. (ReadFile t, DataIs s) \<in> set l \<and> d = sha s))"
    by (rule post_bind [OF hash_exchanges, where N = "\<lambda>d r l. l = [] \<and> (r = Inr d \<or> \<not> is_ok r)"])
      (auto intro!: post_steps)
qed simp_all

lemma inspect_exchanges:
  "post (inspect_existing_target env sha t expected allow) (\<lambda>r l. \<forall>m. r = Inr m \<longrightarrow> inspected sha t expected m l)"
  unfolding inspect_existing_target_def
  apply (rule post_info_then)
  subgoal for a
  proof (cases "as_info a")
    case (Inl e)
    then show ?thesis by (cases e) (auto simp: inspected_def intro!: post_steps)
  next
    case (Inr i)
    then have a: "a = InfoIs i" by simp
    show ?thesis
      unfolding Inr sum.case
      apply (intro post_if post_ask_then post_fail)
         apply simp_all
      apply (rule post_bind [OF expected_digest_exchanges,
            where N = "\<lambda>d r l. l = [] \<and> (\<exists>m. r = Inr m \<and> tm_existed m \<and> tm_digest m = d)"])
        apply (auto simp: inspected_def a intro!: post_steps)
      done
  qed
  done

lemma digest_exchanges:
  "post (verify_target_digest env sha t i origin expected) (\<lambda>r l. is_ok r \<longrightarrow> (\<forall>e. expected = Some e \<longrightarrow>
     stamp_matches e (si_mtime i) \<and> (\<exists>s. (ReadFile t, DataIs s) \<in> set l \<and> sha s = (if em_digest e = [] then origin else em_digest e))))"
  unfolding verify_target_digest_def
  apply (intro post_steps)
    apply simp_all
  subgoal for e
    by (cases "em_digest e = []"; simp;
        rule post_bind [OF hash_exchanges, where N = "\<lambda>d r l. l = [] \<and> (is_ok r \<longrightarrow> d = (if em_digest e = [] then origin else em_digest e))"])
      (auto intro!: post_steps)
  done

lemma verify_exchanges:
  "post (verify_target_before_replace env sha t meta expected) (\<lambda>r l. is_ok r \<longrightarrow> verified sha t expected meta l)"
  unfolding verify_target_before_replace_def
  apply (rule post_info_then)
  subgoal for a
  proof (cases "as_info a")
    case (Inl e)
    show ?thesis
      unfolding Inl sum.case
      apply (rule post_if)
       apply (rule post_return)
       using Inl apply (force simp: verified_def)
      apply (rule post_weaken [where Q = "\<lambda>r l. \<not> is_ok r"])
       apply (rule post_bind [OF loss_looks [of env e, unfolded post_sends], where N = "\<lambda>_ r l. \<not> is_ok r"])
         apply (auto intro: post_fail)
      done
  next
    case (Inr i)
    then have a: "a = InfoIs i" by simp
    show ?thesis
      unfolding Inr sum.case
      apply (intro post_if post_fail)
        apply simp_all
      apply (rule post_bind [OF digest_exchanges, where N = "\<lambda>_ r l. l = []"])
        apply (auto simp: verified_def a intro!: post_steps)
      done
  qed
  done

text \<open>The commit, and what comes before and after it.\<close>

lemma outcome_exchanges:
  "post (outcome env q) (\<lambda>r l. \<exists>a l2. l = (q, a) # l2 \<and> list_all looks l2 \<and> (is_ok r \<longleftrightarrow> a = Done))"
  unfolding outcome_def
proof (intro post_call_then post_option)
  fix a e assume "as_done a = Some e"
  then have "a \<noteq> Done" by auto
  then show "post (act_bind (is_conn_loss_or_done env e) (\<lambda>lost.
      act_fail (if lost then RHost OutcomeUnknown e else RWrap WriteFailed e)))
    (\<lambda>r l. \<exists>a' l2. (q, a) # l = (q, a') # l2 \<and> list_all looks l2 \<and> (is_ok r \<longleftrightarrow> a' = Done))"
    by (intro post_bind [OF loss_looks [of env e, unfolded post_sends], where N = "\<lambda>_ r l. \<not> is_ok r \<and> l = []"])
      (auto intro!: post_fail)
qed (auto intro!: post_return)

definition committed :: "string \<Rightarrow> string \<Rightarrow> remote_error + 'a \<Rightarrow> (request \<times> response) list \<Rightarrow> bool" where
  "committed s t r l \<longleftrightarrow>
     (\<not> is_ok r \<and> list_all (on_stage s) l)
     \<or> (\<exists>l1 q a l2. l = l1 @ (q, a) # l2 \<and> commits s t q \<and> list_all (on_stage s) l1 \<and> list_all looks l2
          \<and> (is_ok r \<longleftrightarrow> a = Done))"

lemma committed_after:
  assumes "list_all (on_stage s) l1" and "committed s t r l2" shows "committed s t r (l1 @ l2)"
  using assms(2) unfolding committed_def
proof (elim disjE exE conjE)
  fix k1 q a k2 assume "l2 = k1 @ (q, a) # k2" "commits s t q" "list_all (on_stage s) k1" "list_all looks k2"
    "is_ok r \<longleftrightarrow> a = Done"
  then show "(\<not> is_ok r \<and> list_all (on_stage s) (l1 @ l2)) \<or> (\<exists>k1 q a k2. l1 @ l2 = k1 @ (q, a) # k2 \<and> commits s t q
      \<and> list_all (on_stage s) k1 \<and> list_all looks k2 \<and> (is_ok r \<longleftrightarrow> a = Done))"
    using assms(1) by (intro disjI2 exI [of _ "l1 @ k1"]) auto
qed (use assms(1) in simp)

lemma committed_then:
  assumes "post m (\<lambda>_. list_all (on_stage s))" and "\<And>x. post (k x) (committed s t)"
  shows "post (act_bind m k) (committed s t)"
proof (rule post_bind [OF assms])
  show "committed s t (Inl e) l" if "list_all (on_stage s) l" for e l using that by (simp add: committed_def)
qed (rule committed_after)

lemma outcome_commits:
  "commits s t q \<Longrightarrow> post (outcome env q) (committed s t)"
  by (rule post_weaken [OF outcome_exchanges]) (auto simp: committed_def intro!: exI [of _ "[]"])

lemma ownership_on_stage: "sends (on_stage s) (apply_staged_ownership env s owner perm)"
  unfolding apply_staged_ownership_def is_stage_chown_needed_def outcome_def is_conn_loss_or_done_def
  by (intro sends_rules) (simp_all add: on_stage_def)

lemma replace_exchanges: "post (replace_remote_file env s t meta owner perm) (committed s t)"
  unfolding replace_remote_file_def replace_existing_remote_file_def replace_new_remote_file_def
  by (intro post_if committed_then ownership_on_stage [unfolded post_sends] outcome_commits
      post_weaken [OF post_ask]) (auto simp: commits_def on_stage_def)

text \<open>Checked, committed and stamped.\<close>

definition attempted ::
  "(string \<Rightarrow> string) \<Rightarrow> string \<Rightarrow> string \<Rightarrow> expected_mtime option \<Rightarrow> target_metadata
     \<Rightarrow> remote_error + 'a \<Rightarrow> (request \<times> response) list \<Rightarrow> bool" where
  "attempted sha s t expected meta r l \<longleftrightarrow>
     (\<not> is_ok r \<and> list_all (on_stage s) l)
     \<or> (\<exists>l1 q a l2. l = l1 @ (q, a) # l2 \<and> commits s t q \<and> list_all (on_stage s) l1 \<and> list_all looks l2
          \<and> (is_ok r \<longleftrightarrow> a = Done) \<and> verified sha t expected meta l1)"

lemma verified_more:
  assumes "verified sha t expected meta l" shows "verified sha t expected meta (l @ l')"
proof (cases "tm_existed meta")
  case True
  with assms obtain i where "(Lstat t, InfoIs i) \<in> set l" "si_kind i = Regular" and e: "\<forall>e. expected = Some e \<longrightarrow>
      stamp_matches e (si_mtime i) \<and>
      (\<exists>s. (ReadFile t, DataIs s) \<in> set l \<and> sha s = (if em_digest e = [] then tm_digest meta else em_digest e))"
    unfolding verified_def by (simp only: if_True) blast
  then have i: "(Lstat t, InfoIs i) \<in> set (l @ l')" "si_kind i = Regular" by simp_all
  have "\<forall>e. expected = Some e \<longrightarrow> stamp_matches e (si_mtime i) \<and>
      (\<exists>s. (ReadFile t, DataIs s) \<in> set (l @ l') \<and> sha s = (if em_digest e = [] then tm_digest meta else em_digest e))"
    using e unfolding set_append by blast
  with i True show ?thesis unfolding verified_def by (simp only: if_True) blast
next
  case False
  then show ?thesis using assms unfolding verified_def set_append by (simp only: if_False) blast
qed

lemma attempted_after:
  assumes "list_all looks l1" and "verified sha t expected meta l1" and "committed s t r l2"
  shows "attempted sha s t expected meta r (l1 @ l2)"
  using assms(3) unfolding committed_def
proof (elim disjE exE conjE)
  fix k1 q a k2 assume "l2 = k1 @ (q, a) # k2" "commits s t q" "list_all (on_stage s) k1" "list_all looks k2"
    "is_ok r \<longleftrightarrow> a = Done"
  then show ?thesis
    using assms(1) verified_more [OF assms(2)] all_on_stage [OF assms(1)] unfolding attempted_def
    by (intro disjI2 exI [of _ "l1 @ k1"]) auto
qed (use assms(1) all_on_stage in \<open>auto simp: attempted_def\<close>)

lemma stamp_exchanges: "post (result_stamp env t) (\<lambda>r l. is_ok r \<and> list_all looks l)"
  unfolding result_stamp_def Let_def
  apply (rule post_info_then)
  subgoal for a by (cases "as_info a") (auto intro!: post_steps)
  done

lemma committed_then_looks:
  assumes "committed s t r l" and "list_all looks l'" and "is_ok r = is_ok r'"
  shows "committed s t r' (l @ l')"
  using assms(1) unfolding committed_def
proof (elim disjE exE conjE)
  fix k1 q a k2 assume "l = k1 @ (q, a) # k2" "commits s t q" "list_all (on_stage s) k1" "list_all looks k2"
    "is_ok r \<longleftrightarrow> a = Done"
  then show "(\<not> is_ok r' \<and> list_all (on_stage s) (l @ l')) \<or> (\<exists>k1 q a k2. l @ l' = k1 @ (q, a) # k2 \<and> commits s t q
      \<and> list_all (on_stage s) k1 \<and> list_all looks k2 \<and> (is_ok r' \<longleftrightarrow> a = Done))"
    using assms(2,3) by (intro disjI2 exI [of _ k1] exI [of _ q] exI [of _ a] exI [of _ "k2 @ l'"]) simp
qed (use assms(2,3) all_on_stage in auto)

lemma attempt_exchanges:
  "post (act_bind (verify_target_before_replace env sha t meta expected) (\<lambda>(owner, perm).
      act_bind (replace_remote_file env s t meta owner perm) (\<lambda>_. result_stamp env t)))
    (attempted sha s t expected meta)"
proof (rule post_bind [where N = "\<lambda>_. committed s t"])
  show "post (verify_target_before_replace env sha t meta expected)
      (\<lambda>r l. list_all looks l \<and> (is_ok r \<longrightarrow> verified sha t expected meta l))"
    by (rule post_and [OF verify_looks [unfolded post_sends] verify_exchanges])
  have "post (act_bind (replace_remote_file env s t meta owner perm) (\<lambda>_. result_stamp env t)) (committed s t)"
    for owner perm
  proof (rule post_bind [OF replace_exchanges stamp_exchanges])
    show "committed s t r (l @ l')" if "committed s t (Inr x) l" "is_ok r \<and> list_all looks l'" for x :: unit and r l l'
      using committed_then_looks [OF that(1), of l' r] that(2) by simp
  qed (simp add: committed_def)
  then show "post (case x of (owner, perm) \<Rightarrow>
      act_bind (replace_remote_file env s t meta owner perm) (\<lambda>_. result_stamp env t)) (committed s t)" for x
    by (cases x) (simp del: act_run)
  show "attempted sha s t expected meta (Inl e) l"
    if "list_all looks l \<and> (is_ok (Inl e) \<longrightarrow> verified sha t expected meta l)" for e l
    using that by (simp add: attempted_def all_on_stage)
  show "attempted sha s t expected meta r (l @ l')"
    if "list_all looks l \<and> (is_ok (Inr x) \<longrightarrow> verified sha t expected meta l)" "committed s t r l'"
    for x :: "(nat \<times> nat) \<times> nat" and l r l'
    using that by (auto intro: attempted_after)
qed

text \<open>Cleanups.\<close>

lemma forget_looks: "list_all looks l" if "map fst l = [RemoveCleanup cid]" for l :: "(request \<times> response) list"
  using that by (auto simp: map_eq_Cons_conv)

lemma cleanup_stage_exchanges:
  "post (cleanup_stage env svc s cid b) (\<lambda>r l. list_all (on_stage s) l \<and> (if b then list_all looks l else removed s l))"
proof -
  have forget: "post (if x = None \<and> rv_registry svc then drop_answers env [RemoveCleanup cid] else act_return ())
      (\<lambda>_. list_all looks)" for x :: "sftp_error option"
    by (intro post_if post_return post_weaken [OF post_drop_answers]) (auto simp: forget_looks)
  show ?thesis
  proof (cases b)
    case True
    show ?thesis
      unfolding cleanup_stage_def if_P [OF True]
      by (intro post_active_then, rule post_bind [where Q = "\<lambda>_ l. l = []", OF _ forget])
        (auto intro: post_return all_on_stage)
  next
    case False
    show ?thesis
      unfolding cleanup_stage_def if_not_P [OF False]
      by (intro post_active_then post_call_then post_weaken [OF forget])
        (auto simp: removed_def on_stage_simps all_on_stage)
  qed
qed

lemma cleaned_up_exchanges:
  assumes "post m Q"
  shows "post (cleaned_up env svc s cid m) (\<lambda>r l. \<exists>l1 l2. l = l1 @ l2 \<and> Q r l1 \<and> list_all (on_stage s) l2
    \<and> (if is_ok r then list_all looks l2 else removed s l2))"
proof (rule postI)
  fix w r w' assume run: "cleaned_up env svc s cid m w = (r, w')"
  obtain r1 w1 where m: "m w = (r1, w1)" by fastforce
  obtain r2 w2 where c: "cleanup_stage env svc s cid (is_ok r1) w1 = (r2, w2)" by fastforce
  obtain l1 where l1: "rm_log w1 = rm_log w @ l1" "Q r1 l1" using postD [OF assms m] by blast
  obtain l2 where l2: "rm_log w2 = rm_log w1 @ l2" "list_all (on_stage s) l2"
    "if is_ok r1 then list_all looks l2 else removed s l2"
    using postD [OF cleanup_stage_exchanges c] by blast
  have "r = r1" "w' = w2" using run m c by (simp_all add: cleaned_up_def)
  with l1 l2 show "\<exists>l. rm_log w' = rm_log w @ l \<and> (\<exists>l1 l2. l = l1 @ l2 \<and> Q r l1 \<and> list_all (on_stage s) l2
      \<and> (if is_ok r then list_all looks l2 else removed s l2))" by (metis append.assoc)
qed

text \<open>Staged: created exclusively, written with the whole body, closed; or removed again.\<close>

definition staged ::
  "string \<Rightarrow> remote_body \<Rightarrow> int \<Rightarrow> remote_error + string \<times> string \<Rightarrow> (request \<times> response) list \<Rightarrow> bool" where
  "staged s body declared r l \<longleftrightarrow> list_all (on_stage s) l \<and>
     (case r of
        Inl _ \<Rightarrow> (OpenExcl s, Done) \<in> set l \<longrightarrow> removed s l
      | Inr (p, _) \<Rightarrow> p = s \<and> rb_error body = None \<and> int (length (rb_bytes body)) = declared
          \<and> (\<exists>l1. l = l1 @ [(FileWrite s (rb_bytes body), Done), (FileClose s, Done)] \<and> (OpenExcl s, Done) \<in> set l1))"

lemma staging_exchanges:
  "post (stage_and_write_content env svc t body declared) (\<lambda>r l. \<exists>s. stage_in (dir_of t) s \<and> staged s body declared r l)"
proof (rule postI)
  fix w r w' assume run: "stage_and_write_content env svc t body declared w = (r, w')"
  obtain r1 w1 where c: "create_staging_file env svc (dir_of t) w = (r1, w1)" by fastforce
  obtain l1 s where l1: "rm_log w1 = rm_log w @ l1" "stage_in (dir_of t) s" "created_stage s r1 l1"
    using postD [OF create_stage_exchanges c] by blast
  show "\<exists>l. rm_log w' = rm_log w @ l \<and> (\<exists>s. stage_in (dir_of t) s \<and> staged s body declared r l)"
  proof (cases r1)
    case (Inl e)
    with run c have "r = Inl e" "w' = w1" by (simp_all add: stage_and_write_content_def act_bind_def)
    with l1 Inl show ?thesis by (auto simp: created_stage_def staged_def)
  next
    case (Inr x)
    then obtain cid where x: "x = (s, cid)" using l1(3) by (cases x) (simp add: created_stage_def)
    obtain r2 w2 where tr: "transfer_staged_content env body declared s w1 = (r2, w2)" by fastforce
    obtain l2 where l2: "rm_log w2 = rm_log w1 @ l2" "list_all (on_stage s) l2"
      "is_ok r2 \<longrightarrow> l2 = [(FileWrite s (rb_bytes body), Done), (FileClose s, Done)]
        \<and> rb_error body = None \<and> int (length (rb_bytes body)) = declared"
      using postD [OF transfer_exchanges tr] by blast
    have on: "list_all (on_stage s) l1" "(OpenExcl s, Done) \<in> set l1"
      using l1(3) Inr x by (simp_all add: created_stage_def)
    show ?thesis
    proof (cases r2)
      case (Inl e)
      obtain r3 w3 where cl: "cleanup_stage env svc s cid False w2 = (r3, w3)" by fastforce
      obtain l3 where l3: "rm_log w3 = rm_log w2 @ l3" "list_all (on_stage s) l3" "removed s l3"
        using postD [OF cleanup_stage_exchanges cl] by auto
      have "r = Inl e" "w' = w3" using run c Inr x tr Inl cl by (simp_all add: stage_and_write_content_def act_bind_def)
      with l1 l2 l3 on show ?thesis
        by (intro exI [of _ "l1 @ l2 @ l3"] conjI exI [of _ s]) (auto simp: staged_def removed_def)
    next
      case (Inr u)
      then have "r = Inr (s, cid)" "w' = w2"
        using run c \<open>r1 = Inr x\<close> x tr by (simp_all add: stage_and_write_content_def act_bind_def)
      with l1 l2 on Inr show ?thesis
        by (intro exI [of _ "l1 @ l2"] conjI exI [of _ s]) (auto simp: staged_def)
    qed
  qed
qed

section \<open>All or nothing\<close>

text \<open>The exchanges of a write on the target \<open>t\<close> with the staging file \<open>s\<close>: given up before the commit,
  or committed after the whole body was staged and the target checked once more.\<close>

definition write_exchanges ::
  "(string \<Rightarrow> string) \<Rightarrow> remote_body \<Rightarrow> int \<Rightarrow> expected_mtime option \<Rightarrow> string \<Rightarrow> string \<Rightarrow> bool
     \<Rightarrow> (request \<times> response) list \<Rightarrow> bool" where
  "write_exchanges sha body declared expected s t ok l \<longleftrightarrow>
     (\<not> ok \<and> list_all (on_stage s) l \<and> ((OpenExcl s, Done) \<in> set l \<longrightarrow> removed s l))
     \<or> (\<exists>l0 lv q a l2 meta.
          l = l0 @ [(FileWrite s (rb_bytes body), Done), (FileClose s, Done)] @ lv @ (q, a) # l2
        \<and> commits s t q \<and> list_all (on_stage s) (l0 @ lv @ l2)
        \<and> (OpenExcl s, Done) \<in> set l0 \<and> rb_error body = None \<and> int (length (rb_bytes body)) = declared
        \<and> inspected sha t expected meta l0 \<and> verified sha t expected meta lv
        \<and> (ok \<longleftrightarrow> a = Done) \<and> (if ok then list_all looks l2 else removed s l2))"

lemma inspected_more: "inspected sha t expected meta l \<Longrightarrow> inspected sha t expected meta (l @ l')"
  unfolding inspected_def set_append by blast

lemma given_up:
  "\<not> ok \<Longrightarrow> list_all (on_stage s) l \<Longrightarrow> ((OpenExcl s, Done) \<in> set l \<Longrightarrow> removed s l)
     \<Longrightarrow> write_exchanges sha body declared expected s t ok l"
  unfolding write_exchanges_def by blast

lemma write_target_exchanges:
  "post (write_target_file env sha svc body declared expected allow t)
     (\<lambda>r l. \<exists>s. stage_in (dir_of t) s \<and> write_exchanges sha body declared expected s t (is_ok r) l)"
proof (rule postI)
  fix w r w' assume run: "write_target_file env sha svc body declared expected allow t w = (r, w')"
  let ?W = "\<lambda>s. write_exchanges sha body declared expected s t"
  obtain r1 w1 where i: "inspect_existing_target env sha t expected allow w = (r1, w1)" by fastforce
  obtain li where li: "rm_log w1 = rm_log w @ li" "list_all looks li" "\<forall>m. r1 = Inr m \<longrightarrow> inspected sha t expected m li"
    using postD [OF post_and [OF inspect_looks [unfolded post_sends] inspect_exchanges] i] by blast
  show "\<exists>l. rm_log w' = rm_log w @ l \<and> (\<exists>s. stage_in (dir_of t) s \<and> ?W s (is_ok r) l)"
  proof (cases r1)
    case (Inl e)
    with run i have "r = Inl e" "w' = w1" by (simp_all add: write_target_file_def act_bind_def)
    moreover have "(OpenExcl s, Done) \<notin> set li" for s using li(2) by (auto simp: list_all_iff)
    ultimately show ?thesis using li
      by (intro exI [of _ li] conjI exI [of _ "join_path [dir_of t, stage_name []]"])
        (auto simp: stage_in_some all_on_stage intro: given_up)
  next
    case (Inr meta)
    obtain r2 w2 where st: "stage_and_write_content env svc t body declared w1 = (r2, w2)" by fastforce
    obtain ls s where ls: "rm_log w2 = rm_log w1 @ ls" and s: "stage_in (dir_of t) s" "staged s body declared r2 ls"
      using postD [OF staging_exchanges st] by blast
    have on: "list_all (on_stage s) (li @ ls)" using s(2) all_on_stage [OF li(2)] by (simp add: staged_def)
    have no_open: "(OpenExcl s, Done) \<notin> set li" using li(2) by (auto simp: list_all_iff)
    show ?thesis
    proof (cases r2)
      case (Inl e)
      with run i \<open>r1 = Inr meta\<close> st have "r = Inl e" "w' = w2"
        by (simp_all add: write_target_file_def act_bind_def)
      with s on no_open ls li(1) Inl show ?thesis
        by (intro exI [of _ "li @ ls"] conjI exI [of _ s] given_up) (auto simp: staged_def removed_def)
    next
      case (Inr x)
      then obtain cid l1 where x: "x = (s, cid)"
        and l1: "ls = l1 @ [(FileWrite s (rb_bytes body), Done), (FileClose s, Done)]" "(OpenExcl s, Done) \<in> set l1"
        and body: "rb_error body = None" "int (length (rb_bytes body)) = declared"
        using s(2) by (cases x) (auto simp: staged_def)
      have "cleaned_up env svc s cid (act_bind (verify_target_before_replace env sha t meta expected) (\<lambda>(owner, perm).
          act_bind (replace_remote_file env s t meta owner perm) (\<lambda>_. result_stamp env t))) w2 = (r, w')"
        using run i \<open>r1 = Inr meta\<close> st Inr x by (simp add: write_target_file_def act_bind_def)
      from postD [OF cleaned_up_exchanges [OF attempt_exchanges] this]
      obtain la lc where lac: "rm_log w' = rm_log w2 @ la @ lc" "attempted sha s t expected meta r la"
        "list_all (on_stage s) lc" "if is_ok r then list_all looks lc else removed s lc"
        by blast
      have insp: "inspected sha t expected meta (li @ l1)"
        using li(3) \<open>r1 = Inr meta\<close> inspected_more by blast
      have "?W s (is_ok r) (li @ ls @ la @ lc)"
        using lac(2) unfolding attempted_def
      proof (elim disjE exE conjE)
        fix k1 q a k2 assume k: "la = k1 @ (q, a) # k2" "commits s t q" "list_all (on_stage s) k1" "list_all looks k2"
          "is_ok r \<longleftrightarrow> a = Done" "verified sha t expected meta k1"
        then show ?thesis
          using insp l1 body on lac(3,4) all_on_stage [OF k(4)] unfolding write_exchanges_def
          by (intro disjI2 exI [of _ "li @ l1"] exI [of _ k1] exI [of _ q] exI [of _ a] exI [of _ "k2 @ lc"] exI [of _ meta])
            (auto simp: removed_def)
      qed (use on lac in \<open>auto intro!: given_up\<close>)
      with s(1) li(1) ls lac(1) show ?thesis by (intro exI [of _ "li @ ls @ la @ lc"]) auto
    qed
  qed
qed

lemma write_sends:
  assumes "client_ok env"
  shows "post (remote_write env sha svc p body declared expected allow)
    (framed (\<lambda>r l. \<exists>t. target_of (clean p) t \<and>
       (\<exists>s. stage_in (dir_of t) s \<and> write_exchanges sha body declared expected s t (is_ok r) l)))"
  (is "post _ (framed ?N)")
proof -
  have body: "post (write_target_file env sha svc body declared expected allow t) (framed (\<lambda>r l.
      \<exists>s. stage_in (dir_of t) s \<and> write_exchanges sha body declared expected s t (is_ok r) l))" for t
    by (rule post_weaken [OF write_target_exchanges]) (rule framed_inner)
  show ?thesis
    unfolding remote_write_def validate_write_request_def act_bind_assoc
    by (rule post_framed_bind [OF check_lease_looks], rule shaped_framed)
      (simp add: post_framed_fail lock_framed session_framed not_root_segs target_framed [OF assms _ _ body])
qed

text \<open>C3: A remote write is all or nothing, whatever the server answers and whenever it stops answering.
  Everything it changes besides one commit is its own staging file in the target's directory.  The
  commit, at most one rename of the staging file onto the target, comes after the exclusive creation of
  the staging file, the writing and closing of exactly the declared body, and then a check of the
  target: still absent when it was absent, and otherwise a regular file with the expected time and
  digest.  The write succeeds exactly when the commit was acknowledged, and an attempt that created the
  staging file but was not acknowledged sends its removal.\<close>

theorem remote_write_atomic:
  assumes "client_ok env" and "remote_write env sha svc p body declared expected allow w = (r, w')"
  shows "\<exists>l. rm_log w' = rm_log w @ l \<and>
    ((\<not> is_ok r \<and> list_all looks l) \<or>
     (\<exists>t s l1 l2 l3. l = l1 @ l2 @ l3 \<and> list_all looks (l1 @ l3) \<and> target_of (clean p) t \<and> stage_in (dir_of t) s
        \<and> write_exchanges sha body declared expected s t (is_ok r) l2))"
proof -
  obtain l where l: "rm_log w' = rm_log w @ l" and f: "framed (\<lambda>r l. \<exists>t. target_of (clean p) t \<and>
       (\<exists>s. stage_in (dir_of t) s \<and> write_exchanges sha body declared expected s t (is_ok r) l)) r l"
    using postD [OF write_sends [OF assms(1)] assms(2)] by blast
  from f consider "\<not> is_ok r" "list_all looks l"
    | l1 l2 l3 t s where "l = l1 @ l2 @ l3" "list_all looks l1" "list_all looks l3" "target_of (clean p) t"
      "stage_in (dir_of t) s" "write_exchanges sha body declared expected s t (is_ok r) l2"
    unfolding framed_def by blast
  then show ?thesis
  proof cases
    case 1
    with l show ?thesis by blast
  next
    case (2 l1 l2 l3 t s)
    then have "list_all looks (l1 @ l3)" by simp
    with 2 l show ?thesis by blast
  qed
qed

definition sample_service :: remote_service where
  "sample_service = new_remote_file_service ''local'' 0 0 False"

definition sample_expected :: expected_mtime where
  "sample_expected = \<lparr> em_millis = 7, em_nanos = None, em_digest = ''old'' \<rparr>"

abbreviation sample_write_run :: "(remote_error + write_result) \<times> unit remote" where
  "sample_write_run \<equiv> remote_write sample_server (\<lambda>s. s) sample_service ''/home/f''
     \<lparr> rb_bytes = ''new!'', rb_error = None \<rparr> 4 (Some sample_expected) True idle_remote"

lemma sample_paths:
  "validate_remote_path_shape ''/home/f'' = None" "clean ''/home/f'' = ''/home/f''" "dir_of ''/home/f'' = ''/home''"
  "validate_remote_path_shape ''/home'' = None" "clean ''/home'' = ''/home''" "base_of ''/home/f'' = ''f''"
  "is_blocked_remote_path ''/home''  = False" "is_blocked_remote_path ''/home/f'' = False"
  "join_path [''/home'', ''f''] = ''/home/f''"
  "hex_encode [65, 66, 67, 68, 69, 70, 71, 72] = ''4142434445464748''"
  "join_path [''/home'', stage_name ''4142434445464748''] = ''/home/.vtc-write-4142434445464748''"
  by code_simp+

lemma sample_ask: "ask sample_server q w = (Inr (fst (sample_server q ())), w\<lparr>rm_log := rm_log w @ [(q, fst (sample_server q ()))]\<rparr>)"
  by (simp add: ask_def split: prod.split)

lemma apply_bind: "act_bind m k w = (case m w of (Inl e, w') \<Rightarrow> (Inl e, w') | (Inr x, w') \<Rightarrow> k x w')"
  by (simp add: act_bind_def)

lemma apply_call:
  "call_done sample_server q w = (Inr (as_done (fst (sample_server q ()))), w\<lparr>rm_log := rm_log w @ [(q, fst (sample_server q ()))]\<rparr>)"
  "call_path sample_server q w = (Inr (as_path (fst (sample_server q ()))), w\<lparr>rm_log := rm_log w @ [(q, fst (sample_server q ()))]\<rparr>)"
  "call_info sample_server q w = (Inr (as_info (fst (sample_server q ()))), w\<lparr>rm_log := rm_log w @ [(q, fst (sample_server q ()))]\<rparr>)"
  by (simp_all add: call_done_def call_path_def call_info_def apply_bind sample_ask)

lemma sample_canonical:
  "canonical sample_server ''/home'' w = (Inr ''/home'', w\<lparr>rm_log := rm_log w @ [(RealPath ''/home'', PathIs ''/home'')]\<rparr>)"
  by (simp add: canonical_def canonicalize_remote_path_def sample_paths apply_bind apply_call sample_server_def Let_def
      as_path_def from_result_def)

lemmas sample_steps = apply_bind apply_call sample_ask sample_paths sample_canonical Let_def from_result_def or_fail_def

lemma sample_write:
  "(case sample_write_run of (r, w) \<Rightarrow> (is_ok r, filter (\<lambda>x. touches (fst x) \<noteq> []) (rm_log w)))
     = (True, (let s = ''/home/.vtc-write-4142434445464748'' in
        [(OpenExcl s, Done), (FileChmod s 384, Done), (FileWrite s ''new!'', Done), (FileClose s, Done),
         (Chmod s 420, Done), (PosixRename s ''/home/f'', Done)]))"
  by (simp add: remote_write_def validate_write_request_def check_lease_def check_shape_def sample_steps
      sample_service_def new_remote_file_service_def default_max_remote_file_size_def sample_server_def
      with_lock_def with_session_def deferred_def with_target_def resolve_target_in_parent_def write_target_file_def
      inspect_existing_target_def hash_remote_file_def sample_expected_def stamp_matches_def unix_milli_def
      stage_and_write_content_def create_staging_file_def transfer_staged_content_def mark_active_def
      verify_target_before_replace_def verify_target_digest_def extract_target_ownership_def cleaned_up_def
      replace_remote_file_def replace_existing_remote_file_def apply_staged_ownership_def is_stage_chown_needed_def
      outcome_def result_stamp_def cleanup_stage_def as_data_def idle_remote_def stage_file_perm_def)

lemma remote_write_atomic_witness:
  "is_ok (fst sample_write_run) \<and>
   (\<exists>l. rm_log (snd sample_write_run) = rm_log idle_remote @ l \<and>
    ((\<not> is_ok (fst sample_write_run) \<and> list_all looks l) \<or>
     (\<exists>t s l1 l2 l3. l = l1 @ l2 @ l3 \<and> list_all looks (l1 @ l3) \<and> target_of (clean ''/home/f'') t \<and> stage_in (dir_of t) s
        \<and> write_exchanges (\<lambda>s. s) \<lparr> rb_bytes = ''new!'', rb_error = None \<rparr> 4 (Some sample_expected) s t
            (is_ok (fst sample_write_run)) l2)))"
proof
  show "is_ok (fst sample_write_run)" using sample_write unfolding case_prod_beta prod.inject by blast
qed (rule remote_write_atomic [OF sample_server_ok surjective_pairing])

section \<open>Pending cleanups\<close>

definition cleans :: "string set \<Rightarrow> cleanup_note set \<Rightarrow> (request \<times> response) set \<Rightarrow> request \<times> response \<Rightarrow> bool" where
  "cleans active recs L x \<longleftrightarrow> looks x \<or>
     (\<exists>rec \<in> recs. \<exists>i. fst x = Remove (cn_note_path rec)
        \<and> is_identifiable_staging_candidate (cn_note_path rec) (cn_note_token rec)
        \<and> validate_remote_path_shape (cn_note_path rec) = None \<and> cn_note_path rec \<notin> active
        \<and> (Lstat (cn_note_path rec), InfoIs i) \<in> L \<and> si_kind i = Regular)"

lemma cleans_mono: "cleans active recs L x \<Longrightarrow> recs \<subseteq> recs' \<Longrightarrow> L \<subseteq> L' \<Longrightarrow> cleans active recs' L' x"
  unfolding cleans_def by blast

lemma cleans_looks: "looks x \<Longrightarrow> cleans active recs L x"
  by (simp add: cleans_def)

lemma cleanup_single_cleans:
  assumes "cn_note_path rec \<notin> active"
  shows "post (cleanup_single_record env rec) (\<lambda>r l. \<forall>x \<in> set l. cleans active {rec} (set l) x)"
proof -
  have forget: "post (act_bind (drop_answers env [RemoveCleanup c]) (\<lambda>_. act_return b)) (\<lambda>_. list_all looks)" for b :: bool and c
    by (rule post_bind [OF post_drop_answers, where N = "\<lambda>_ r l. l = []"]) (auto simp: forget_looks intro: post_return)
  show ?thesis
    unfolding cleanup_single_record_def Let_def
  proof (rule post_if)
    assume ok: "\<not> (\<not> is_identifiable_staging_candidate (cn_note_path rec) (cn_note_token rec)
        \<or> validate_remote_path_shape (cn_note_path rec) \<noteq> None)"
    show "post (act_bind (call_info env (Lstat (cn_note_path rec))) (\<lambda>r.
          case r of
            Inl e \<Rightarrow> if e = SNotExist
              then act_bind (drop_answers env [RemoveCleanup (cn_note_id rec)]) (\<lambda>_. act_return True) else act_return False
          | Inr i \<Rightarrow>
              if si_kind i \<noteq> Regular
                then act_bind (drop_answers env [RemoveCleanup (cn_note_id rec)]) (\<lambda>_. act_return False)
              else
                act_bind (call_done env (Remove (cn_note_path rec))) (\<lambda>d.
                  if d = None \<or> d = Some SNotExist
                    then act_bind (drop_answers env [RemoveCleanup (cn_note_id rec)]) (\<lambda>_. act_return True)
                  else act_return False))) (\<lambda>r l. \<forall>x \<in> set l. cleans active {rec} (set l) x)"
      apply (rule post_info_then)
      subgoal for a
      proof (cases "as_info a")
        case (Inl e)
        show ?thesis
          unfolding Inl sum.case
          by (intro post_if post_weaken [OF forget] post_return) (auto simp: cleans_looks list_all_iff)
      next
        case (Inr i)
        then have a: "a = InfoIs i" by simp
        have gone: "cleans active {rec} L (Remove (cn_note_path rec), b)"
          if "si_kind i = Regular" "(Lstat (cn_note_path rec), a) \<in> L" for b L
          using ok assms a that by (auto simp: cleans_def)
        show ?thesis
          unfolding Inr sum.case
          by (intro post_if post_call_then post_weaken [OF forget] post_return)
            (auto simp: cleans_looks list_all_iff intro!: gone)
      qed
      done
  qed (rule post_weaken [OF forget], auto simp: cleans_looks list_all_iff)
qed

lemma cleanup_records_cleans:
  "post (cleanup_records env active n recs) (\<lambda>r l. \<forall>x \<in> set l. cleans active (set recs) (set l) x)"
proof (induction env active n recs rule: cleanup_records.induct)
  case (1 env active n)
  show ?case by (simp add: post_def)
next
  case (2 env active n rec recs)
  show ?case
    unfolding cleanup_records.simps
  proof (intro post_call_then post_option post_if post_return)
    fix a assume "as_done a = None" "cn_note_path rec \<in> active"
    then show "post (cleanup_records env active n recs)
        (\<lambda>r l. \<forall>x \<in> set ((CtxErr, a) # l). cleans active (set (rec # recs)) (set ((CtxErr, a) # l)) x)"
      by (intro post_weaken [OF 2(1)]) (auto simp: cleans_looks intro: cleans_mono)
  next
    fix a assume "as_done a = None" "cn_note_path rec \<notin> active"
    then show "post (act_bind (cleanup_single_record env rec) (\<lambda>gone.
        cleanup_records env active (if gone then n + 1 else n) recs))
        (\<lambda>r l. \<forall>x \<in> set ((CtxErr, a) # l). cleans active (set (rec # recs)) (set ((CtxErr, a) # l)) x)"
      by (intro post_bind [OF cleanup_single_cleans 2(2)]) (auto simp: cleans_looks intro: cleans_mono)
  qed (simp add: cleans_looks)
qed

text \<open>C32: RunPendingCleanups changes nothing on the host but staging files the hub once created: each
  removal is of a path recorded by this registry whose last name is exactly the staging prefix with the
  recorded token, which is well formed and outside the kernel interfaces, which no running write of this
  process is using, and which was seen to be a regular file.\<close>

theorem remote_cleanup_confined:
  assumes "run_pending_cleanups env svc w = (r, w')"
  shows "\<exists>l. rm_log w' = rm_log w @ l \<and> (\<forall>x \<in> set l. looks x \<or>
    (\<exists>recs rec i. (ListCleanups, NotesAre recs) \<in> set l \<and> rec \<in> set recs \<and> fst x = Remove (cn_note_path rec)
       \<and> is_identifiable_staging_candidate (cn_note_path rec) (cn_note_token rec)
       \<and> validate_remote_path_shape (cn_note_path rec) = None \<and> cn_note_path rec \<notin> rm_active w
       \<and> (Lstat (cn_note_path rec), InfoIs i) \<in> set l \<and> si_kind i = Regular))"
proof (cases "rv_registry svc")
  case False
  with assms show ?thesis by (simp add: run_pending_cleanups_def)
next
  case True
  let ?a = "fst (env ListCleanups (rm_state w))" and ?w1 = "asked env ListCleanups w"
  show ?thesis
  proof (cases "\<exists>recs. ?a = NotesAre recs \<and> recs \<noteq> []")
    case False
    then have "w' = ?w1"
      using assms True by (cases ?a) (auto simp: run_pending_cleanups_def act_bind_def call_eqs split: if_splits)
    then show ?thesis by (simp add: asked_simps)
  next
    case True
    then obtain recs where recs: "?a = NotesAre recs" "recs \<noteq> []" by blast
    have run: "with_session env ''sftp-cleanup'' (\<lambda>w. cleanup_records env (rm_active w) 0 recs w) ?w1 = (r, w')"
      using assms \<open>rv_registry svc\<close> recs by (simp add: run_pending_cleanups_def act_bind_def call_eqs)
    let ?q = "OpenSession ''sftp-cleanup''"
    let ?w2 = "asked env ?q ?w1" and ?b = "fst (env ?q (rm_state ?w1))"
    obtain l where l: "rm_log w' = rm_log ?w2 @ l" "\<forall>x \<in> set l. cleans (rm_active w) (set recs) (set l) x"
    proof (cases "w' = ?w2")
      case True
      then show ?thesis by (intro that [of "[]"]) simp_all
    next
      case False
      then have d: "deferred (\<lambda>w. cleanup_records env (rm_active w) 0 recs w) (ask env CloseSession) ?w2 = (r, w')"
        using run by (cases ?b) (simp_all add: with_session_def act_bind_def call_eqs)
      obtain r3 w3 where c: "cleanup_records env (rm_active w) 0 recs ?w2 = (r3, w3)" by fastforce
      obtain l3 where l3: "rm_log w3 = rm_log ?w2 @ l3" "\<forall>x \<in> set l3. cleans (rm_active w) (set recs) (set l3) x"
        using postD [OF cleanup_records_cleans c] by blast
      have "w' = asked env CloseSession w3"
        using d c by (simp add: deferred_def asked_simps call_eqs)
      with l3 show ?thesis
        by (intro that [of "l3 @ [(CloseSession, fst (env CloseSession (rm_state w3)))]"])
          (auto simp: asked_simps cleans_looks intro: cleans_mono)
    qed
    let ?l = "[(ListCleanups, ?a), (?q, ?b)] @ l"
    have "rm_log w' = rm_log w @ ?l" using l(1) by (simp add: asked_simps)
    moreover have "cleans (rm_active w) (set recs) (set ?l) x" if "x \<in> set ?l" for x
      using that l(2) by (auto simp: cleans_looks intro: cleans_mono)
    moreover have "(ListCleanups, NotesAre recs) \<in> set ?l" using recs by simp
    ultimately show ?thesis unfolding cleans_def by blast
  qed
qed

definition cleanup_server :: "unit env" where
  "cleanup_server q s =
     (case q of
        ListCleanups \<Rightarrow> NotesAre [\<lparr> cn_note_id = ''local:1'', cn_note_path = ''/home/.vtc-write-4142434445464748'',
          cn_note_token = ''4142434445464748'' \<rparr>]
      | _ \<Rightarrow> fst (sample_server q s), ())"

abbreviation sample_cleanup_run :: "(remote_error + int \<times> sftp_error option) \<times> unit remote" where
  "sample_cleanup_run \<equiv> run_pending_cleanups cleanup_server (sample_service\<lparr>rv_registry := True\<rparr>) idle_remote"

lemma cleanup_ask: "ask cleanup_server q w = (Inr (fst (cleanup_server q ())), w\<lparr>rm_log := rm_log w @ [(q, fst (cleanup_server q ()))]\<rparr>)"
  by (simp add: ask_def split: prod.split)

lemma sample_note:
  "is_identifiable_staging_candidate ''/home/.vtc-write-4142434445464748'' ''4142434445464748''"
  "validate_remote_path_shape ''/home/.vtc-write-4142434445464748'' = None"
  by code_simp+

lemma sample_cleanup: "fst sample_cleanup_run = Inr (1, None)"
  by (simp add: run_pending_cleanups_def with_session_def deferred_def cleanup_single_record_def sample_note
      apply_bind cleanup_ask call_done_def call_info_def cleanup_server_def sample_server_def idle_remote_def Let_def)

lemma remote_cleanup_confined_witness:
  "fst sample_cleanup_run = Inr (1, None) \<and>
   (\<exists>l. rm_log (snd sample_cleanup_run) = rm_log idle_remote @ l \<and> (\<forall>x \<in> set l. looks x \<or>
    (\<exists>recs rec i. (ListCleanups, NotesAre recs) \<in> set l \<and> rec \<in> set recs \<and> fst x = Remove (cn_note_path rec)
       \<and> is_identifiable_staging_candidate (cn_note_path rec) (cn_note_token rec)
       \<and> validate_remote_path_shape (cn_note_path rec) = None \<and> cn_note_path rec \<notin> rm_active idle_remote
       \<and> (Lstat (cn_note_path rec), InfoIs i) \<in> set l \<and> si_kind i = Regular)))"
  using sample_cleanup remote_cleanup_confined [OF surjective_pairing] by blast

section \<open>A recursive removal ends\<close>

text \<open>A server whose directories lie at most \<open>d\<close> names deep.\<close>

definition shallow :: "nat \<Rightarrow> 's env \<Rightarrow> bool" where
  "shallow d env \<longleftrightarrow> (\<forall>dir s. d \<le> length (segs dir) \<longrightarrow>
     (case fst (env (ReadDir dir) s) of EntriesAre es \<Rightarrow> list_all (\<lambda>i. si_kind i \<noteq> Directory) es | _ \<Rightarrow> True))"

lemma shallow_entries:
  assumes "shallow d env" and "d \<le> length (segs dir)" and "as_entries (fst (env (ReadDir dir) s)) = Inr es"
  shows "list_all (\<lambda>i. si_kind i \<noteq> Directory) es"
proof -
  have "fst (env (ReadDir dir) s) = EntriesAre es"
    using assms(3) by (cases "fst (env (ReadDir dir) s)") (simp_all add: as_entries_def)
  with assms(1) [unfolded shallow_def, rule_format, OF assms(2), of s] show ?thesis by simp
qed

lemma post_answer:
  assumes "\<And>s. post (k (fst (env q s))) (\<lambda>r _. R r)"
  shows "post (act_bind (ask env q) k) (\<lambda>r _. R r)"
proof (rule postI)
  fix w r w' assume "act_bind (ask env q) k w = (r, w')"
  then have k: "k (fst (env q (rm_state w))) (asked env q w) = (r, w')" by (simp add: act_bind_def call_eqs)
  from postD [OF assms k] show "\<exists>l. rm_log w' = rm_log w @ l \<and> R r" by (auto simp: asked_simps)
qed

abbreviation settles :: "('s, removal) remote_op \<Rightarrow> bool" where
  "settles m \<equiv> post m (\<lambda>r _. r \<noteq> Inr OutOfFuel)"

lemma remove_settles:
  "client_ok env \<Longrightarrow> shallow d env \<Longrightarrow> clean_abs dir \<Longrightarrow> d < n + length (segs dir) \<Longrightarrow> 0 < n
     \<Longrightarrow> settles (remove_recursive env n dir)"
  "client_ok env \<Longrightarrow> shallow d env \<Longrightarrow> clean_abs dir \<Longrightarrow> d \<le> n + length (segs dir)
     \<Longrightarrow> list_all (\<lambda>i. clean_seg (si_name i)) es
     \<Longrightarrow> n = 0 \<longrightarrow> list_all (\<lambda>i. si_kind i \<noteq> Directory) es \<Longrightarrow> settles (remove_entries env n dir es)"
proof (induction env n dir and env n dir es rule: remove_recursive_remove_entries.induct)
  case (2 env n dir)
  have "settles (case as_entries (fst (env (ReadDir dir) s)) of
      Inl e \<Rightarrow> act_return (if e = SNotExist then Removed else RemovalFailed e)
    | Inr es \<Rightarrow> remove_entries env n dir es)" for s
  proof (cases "as_entries (fst (env (ReadDir dir) s))")
    case (Inr es)
    have "n = 0 \<longrightarrow> list_all (\<lambda>i. si_kind i \<noteq> Directory) es" using shallow_entries [OF 2(3) _ Inr] 2(5) by simp
    with 2 client_entries [OF 2(2) Inr] Inr show ?thesis by simp
  qed (simp add: post_return)
  note k = this
  show ?case
    unfolding remove_recursive.simps
    by (intro post_call_then post_option post_answer k) (simp add: post_return)
next
  case (3 env n dir)
  show ?case unfolding remove_entries.simps by (intro post_call_then post_return) (simp split: option.split)
next
  case (4 env n dir i es)
  have j: "clean_abs (join_path [dir, si_name i])" "length (segs (join_path [dir, si_name i])) = Suc (length (segs dir))"
    using join_segment 4(7,9) by simp_all
  have es: "settles (remove_entries env n dir es)"
    using 4 by (cases "si_kind i = Directory") auto
  have rec: "settles (remove_recursive env n (join_path [dir, si_name i]))" if "si_kind i = Directory"
    using 4(1) [OF refl that 4(5,6) j(1)] 4(8,10) j(2) that by simp
  have child: "settles (act_bind (remove_recursive env n (join_path [dir, si_name i]))
      (\<lambda>r. if r = Removed then remove_entries env n dir es else act_return r))" if "si_kind i = Directory"
  proof (rule post_bind [OF rec [OF that], where N = "\<lambda>x r _. x \<noteq> OutOfFuel \<longrightarrow> r \<noteq> Inr OutOfFuel"])
    show "post (if x = Removed then remove_entries env n dir es else act_return x)
        (\<lambda>r _. x \<noteq> OutOfFuel \<longrightarrow> r \<noteq> Inr OutOfFuel)" for x
      by (intro post_if post_return post_weaken [OF es]) simp_all
  qed simp_all
  show ?case
    unfolding remove_entries.simps Let_def
    by (intro post_call_then post_option post_if post_return es child) simp_all
qed simp_all

lemma target_framed_any:
  assumes "client_ok env" and "clean_abs c" and "segs c \<noteq> []" and "\<And>t. target_of c t \<Longrightarrow> post (body t) (framed N)"
  shows "post (with_target env c body) (framed N)"
  by (rule post_weaken [OF target_framed [where N = "\<lambda>_. N", OF assms]]) (auto elim: framed_weaken)

lemma delete_settles:
  assumes "client_ok env" and "shallow d env" and "d < fuel"
  shows "post (remote_delete env fuel p recursive) (framed (\<lambda>r l. r \<noteq> Inr False))"
proof -
  have body: "post (act_bind (call_info env (Lstat t)) (\<lambda>r.
      act_bind (from_result stat_error r) (\<lambda>i.
        if si_kind i \<noteq> Directory
          then act_bind (remove_file_target env t) (\<lambda>_. act_return True)
        else remove_directory_target env fuel t recursive))) (framed (\<lambda>r l. r \<noteq> Inr False))"
    if t: "target_of (clean p) t" for t
  proof -
    have tree: "settles (remove_recursive env fuel t)"
      using remove_settles(1) [OF assms(1,2), of t fuel] t assms(3) by (simp add: target_of_def)
    have yes: "sends (\<lambda>_. True) m \<Longrightarrow> post (act_bind m (\<lambda>_. act_return True)) (\<lambda>r _. r \<noteq> Inr False)"
      for m :: "('a, unit) remote_op"
      unfolding post_sends by (rule post_bind [where N = "\<lambda>_ r _. r \<noteq> Inr False"]) (auto intro: post_return)
    have plain: "post (case a of
          RawEntriesAre es _ \<Rightarrow>
            if es \<noteq> [] then act_fail (RKind DirNotEmpty)
            else act_bind (call_done env (RemoveDirectory t)) (\<lambda>r.
              act_bind (or_fail (map_option write_error r)) (\<lambda>_. act_return True))
        | Failed e \<Rightarrow> act_fail (stat_error e)
        | _ \<Rightarrow> act_fail (RRaw (SOther ''unexpected answer''))) (\<lambda>r _. r \<noteq> Inr False)" for a
      by (cases a) (auto intro!: post_fail post_if post_call_then yes sends_or_fail simp del: act_run)
    have dir: "post (remove_directory_target env fuel t recursive) (\<lambda>r _. r \<noteq> Inr False)"
      unfolding remove_directory_target_def
    proof (intro post_if post_answer plain)
      show "post (act_bind (remove_recursive env fuel t) (\<lambda>r.
          case r of Removed \<Rightarrow> act_return True | RemovalFailed e \<Rightarrow> act_fail (write_error e) | OutOfFuel \<Rightarrow> act_return False))
          (\<lambda>r _. r \<noteq> Inr False)"
        by (rule post_bind [OF tree, where N = "\<lambda>x r _. x \<noteq> OutOfFuel \<longrightarrow> r \<noteq> Inr False"])
          (auto intro!: post_return post_fail split: removal.split)
    qed
    have leaf: "sends (\<lambda>_. True) (remove_file_target env t)"
      unfolding remove_file_target_def by (intro sends_rules TrueI)
    have "post (act_bind (call_info env (Lstat t)) (\<lambda>r.
        act_bind (from_result stat_error r) (\<lambda>i.
          if si_kind i \<noteq> Directory
            then act_bind (remove_file_target env t) (\<lambda>_. act_return True)
          else remove_directory_target env fuel t recursive))) (\<lambda>r _. r \<noteq> Inr False)"
      by (intro post_info_then post_from_result post_if yes leaf dir) simp_all
    then show ?thesis by (rule post_weaken) (rule framed_inner)
  qed
  then show ?thesis
    unfolding remote_delete_def Let_def
    apply -
    apply (rule post_framed_bind [OF check_lease_looks], rule shaped_framed)
    by (simp add: post_framed_fail lock_framed session_framed not_root_segs target_framed_any [OF assms(1)])
qed

text \<open>Delete ends.  On a server whose directories nest at most \<open>d\<close> names deep (a path the server
  opens is bounded in length) fuel above \<open>d\<close> suffices: the removal is never cut short by the fuel,
  whatever the server answers, so the result is the code's own.\<close>

theorem remote_delete_ends:
  assumes "client_ok env" and "shallow d env" and "d < fuel"
  shows "fst (remote_delete env fuel p recursive w) \<noteq> Inr False"
proof -
  obtain r w' where run: "remote_delete env fuel p recursive w = (r, w')" by fastforce
  obtain l where "framed (\<lambda>r l. r \<noteq> Inr False) r l" using postD [OF delete_settles [OF assms] run] by blast
  with run show ?thesis by (auto simp: framed_def)
qed

lemma remote_delete_ends_witness:
  "client_ok sample_server \<and> fst (remote_delete sample_server 5 ''/home/d'' True idle_remote) \<noteq> Inr False"
proof -
  have "shallow 0 sample_server" by (simp add: shallow_def sample_server_def Let_def)
  from remote_delete_ends [OF sample_server_ok this, of 5] show ?thesis
    by (intro conjI sample_server_ok) simp
qed

end
