(* ===== verification/RemoteEntrySafety.thy ===== *)
theory RemoteEntrySafety
  imports RemoteWriteSafety
begin

text \<open>
  Creating and renaming on a remote host: what \<open>remote_create\<close> and \<open>remote_rename\<close> send, whatever the
  server answers.
\<close>

section \<open>Steps\<close>

text \<open>An entry found to be free right before the exchanges of \<open>N\<close>, or nothing but a look.\<close>

definition after_free :: "string \<Rightarrow> ((request \<times> response) list \<Rightarrow> bool) \<Rightarrow> (request \<times> response) list \<Rightarrow> bool" where
  "after_free t N l \<longleftrightarrow> (\<exists>a l'. l = (Lstat t, a) # l' \<and> as_info a = Inl SNotExist \<and> N l')"

lemma look_then_fail: "post (act_fail e) (\<lambda>r l. framed M r ((Lstat t, a) # l))"
  by (rule post_fail) (simp add: framed_failure)

lemma ensure_absent_framed:
  assumes "post m (\<lambda>r l. N r l)"
  shows "post (act_bind (ensure_absent env t) (\<lambda>_. m)) (framed (\<lambda>r. after_free t (N r)))"
  unfolding ensure_absent_def act_bind_assoc
proof (rule post_info_then)
  fix a
  have free: "post m (\<lambda>r l. framed (\<lambda>r. after_free t (N r)) r ((Lstat t, a) # l))" if "as_info a = Inl SNotExist"
    by (rule post_weaken [OF assms], rule framed_inner) (use that in \<open>auto simp: after_free_def\<close>)
  show "post (act_bind (case as_info a of
       Inr _ \<Rightarrow> act_fail (RKind Conflict)
     | Inl e \<Rightarrow> if e = SNotExist then act_return () else act_fail (if e = SPermission then RKind PermissionDenied else RRaw e))
      (\<lambda>_. m)) (\<lambda>r l. framed (\<lambda>r. after_free t (N r)) r ((Lstat t, a) # l))"
    using free by (cases "as_info a") (simp_all add: look_then_fail del: act_run)
qed

lemma post_last_call:
  "post (act_bind (call_done env q) (\<lambda>d. or_fail (map_option f d))) (\<lambda>r l. \<exists>b. l = [(q, b)] \<and> (is_ok r \<longleftrightarrow> b = Done))"
proof (rule postI)
  fix w r w' assume run: "act_bind (call_done env q) (\<lambda>d. or_fail (map_option f d)) w = (r, w')"
  let ?b = "fst (env q (rm_state w))"
  have "w' = asked env q w" "is_ok r \<longleftrightarrow> as_done ?b = None"
    using run by (auto simp: act_bind_def call_eqs or_fail_def split: option.splits)
  then show "\<exists>l. rm_log w' = rm_log w @ l \<and> (\<exists>b. l = [(q, b)] \<and> (is_ok r \<longleftrightarrow> b = Done))"
    by (simp add: asked_simps)
qed

section \<open>Renaming\<close>

definition renames :: "string \<Rightarrow> string \<Rightarrow> remote_error + unit \<Rightarrow> (request \<times> response) list \<Rightarrow> bool" where
  "renames src dst r = after_free dst (\<lambda>l. \<exists>b. l = [(Rename src dst, b)] \<and> (is_ok r \<longleftrightarrow> b = Done))"

lemma rename_body_framed:
  "post (act_bind (ensure_absent env dst) (\<lambda>_. act_bind (call_done env (Rename src dst)) (\<lambda>d. or_fail (map_option rename_error d))))
     (framed (renames src dst))"
  by (rule post_weaken [OF ensure_absent_framed [OF post_last_call]])
    (erule framed_weaken, simp add: renames_def)

lemma stat_looks: "sends looks (call_info env (Lstat p))" "sends looks (from_result f r)"
  by (auto intro!: sends_rules)

lemma validate_rename_framed:
  assumes "\<And>c d. clean_abs c \<Longrightarrow> segs c \<noteq> [] \<Longrightarrow> c = clean old \<Longrightarrow> clean_abs d \<Longrightarrow> segs d \<noteq> [] \<Longrightarrow> d = clean new \<Longrightarrow>
    post (k (c, d)) (framed N)"
  shows "post (act_bind (validate_rename_paths old new) k) (framed N)"
  unfolding validate_rename_paths_def act_bind_assoc
proof (rule shaped_framed, rule shaped_framed)
  assume c: "clean_abs (clean old)" "clean_abs (clean new)"
  show "post (act_bind (if clean old = ''/'' \<or> clean new = ''/'' then act_fail (RKind InvalidPath)
      else act_return (clean old, clean new)) k) (framed N)"
  proof (cases "clean old = ''/'' \<or> clean new = ''/''")
    case True
    have "post (act_fail (RKind InvalidPath)) (framed N)" by (rule post_framed_fail)
    with True show ?thesis by (simp del: act_run)
  next
    case False
    with c have "post (k (clean old, clean new)) (framed N)" by (intro assms not_root_segs) simp_all
    with False show ?thesis by simp
  qed
qed

lemma rename_sends:
  assumes "client_ok env"
  shows "post (remote_rename env old new)
    (framed (\<lambda>r l. \<exists>src. target_of (clean old) src \<and> framed (\<lambda>r l. \<exists>dst. target_of (clean new) dst \<and> renames src dst r l) r l))"
    (is "post _ (framed ?N)")
proof -
  have inner: "post (act_bind (call_info env (Lstat src)) (\<lambda>r. act_bind (from_result stat_error r) (\<lambda>_.
      with_target env d (\<lambda>dst. act_bind (ensure_absent env dst) (\<lambda>_.
        act_bind (call_done env (Rename src dst)) (\<lambda>d. or_fail (map_option rename_error d)))))))
      (framed (\<lambda>r l. \<exists>dst. target_of d dst \<and> renames src dst r l))" if "clean_abs d" "segs d \<noteq> []" for src d
    by (intro post_framed_bind stat_looks target_framed [OF assms that] rename_body_framed)
  have "post (with_rename_targets env c d (\<lambda>src dst. act_bind (ensure_absent env dst) (\<lambda>_.
        act_bind (call_done env (Rename src dst)) (\<lambda>d. or_fail (map_option rename_error d)))))
      (framed (\<lambda>r l. \<exists>src. target_of c src \<and> framed (\<lambda>r l. \<exists>dst. target_of d dst \<and> renames src dst r l) r l))"
    if "clean_abs c" "segs c \<noteq> []" "clean_abs d" "segs d \<noteq> []" for c d
    unfolding with_rename_targets_def
    by (rule target_framed [OF assms that(1,2)], rule post_weaken [OF inner [OF that(3,4)]], erule framed_inner)
  note targets = this
  have "post (act_bind (validate_rename_paths old new) (\<lambda>(c, d). with_lock env [c, d] (with_session env ''sftp-rename''
      (with_rename_targets env c d (\<lambda>src dst. act_bind (ensure_absent env dst) (\<lambda>_.
        act_bind (call_done env (Rename src dst)) (\<lambda>d. or_fail (map_option rename_error d))))))))  (framed ?N)"
    by (rule validate_rename_framed) (auto intro!: lock_framed session_framed targets)
  then show ?thesis unfolding remote_rename_def by (rule post_framed_bind [OF check_lease_looks])
qed

section \<open>Creating\<close>

text \<open>The exchanges of a creation on the free entry \<open>t\<close>: one request makes it, and a new file is closed.\<close>

definition creates :: "bool \<Rightarrow> string \<Rightarrow> remote_error + unit \<Rightarrow> (request \<times> response) list \<Rightarrow> bool" where
  "creates is_dir t r l \<longleftrightarrow>
     (\<exists>b. if is_dir then l = [(Mkdir t, b)] \<and> (is_ok r \<longleftrightarrow> b = Done)
          else \<exists>c. l = (OpenExcl t, b) # (if b = Done then [(FileClose t, c)] else []) \<and> (is_ok r \<longleftrightarrow> b = Done \<and> c = Done))"

lemma create_body:
  "post (if is_dir then create_directory_entry env t else create_file_entry env t) (creates is_dir t)"
proof (cases is_dir)
  case True
  have "post (create_directory_entry env t) (creates True t)"
    unfolding create_directory_entry_def by (rule post_weaken [OF post_last_call]) (simp add: creates_def)
  with True show ?thesis by simp
next
  case False
  have "post (create_file_entry env t) (creates False t)"
  proof (rule postI)
    fix w r w' assume run: "create_file_entry env t w = (r, w')"
    let ?b = "fst (env (OpenExcl t) (rm_state w))"
    let ?w = "asked env (OpenExcl t) w"
    let ?c = "fst (env (FileClose t) (rm_state ?w))"
    show "\<exists>l. rm_log w' = rm_log w @ l \<and> creates False t r l"
    proof (cases "?b = Done")
      case True
      then have "w' = asked env (FileClose t) ?w" "is_ok r \<longleftrightarrow> ?c = Done"
        using run by (auto simp: create_file_entry_def act_bind_def call_eqs or_fail_def as_done_None [symmetric] split: option.splits simp del: as_done_None)
      with True show ?thesis by (auto simp: asked_simps creates_def)
    next
      case no: False
      then have "as_done ?b \<noteq> None" by simp
      then have "w' = ?w" "\<not> is_ok r"
        using run by (auto simp: create_file_entry_def act_bind_def call_eqs or_fail_def split: option.splits simp del: as_done_None)
      with no show ?thesis by (auto simp: asked_simps creates_def)
    qed
  qed
  with False show ?thesis by simp
qed

lemma create_sends:
  assumes "client_ok env"
  shows "post (remote_create env p is_dir)
    (framed (\<lambda>r l. \<exists>t. target_of (clean p) t \<and> after_free t (creates is_dir t r) l))"
proof -
  have "post (with_target env c (\<lambda>t. act_bind (ensure_absent env t) (\<lambda>_.
        if is_dir then create_directory_entry env t else create_file_entry env t)))
      (framed (\<lambda>r l. \<exists>t. target_of c t \<and> after_free t (creates is_dir t r) l))" if "clean_abs c" "segs c \<noteq> []" for c
    by (rule target_framed [OF assms that], rule ensure_absent_framed [OF create_body])
  then show ?thesis
    unfolding remote_create_def Let_def
    by (intro post_framed_bind check_lease_looks shaped_framed)
      (simp add: post_framed_fail lock_framed session_framed not_root_segs)
qed

section \<open>Properties\<close>

lemma framed_twice:
  assumes "framed (\<lambda>r l. \<exists>x. P x \<and> framed (N x) r l) r l"
  shows "(\<not> is_ok r \<and> list_all looks l)
    \<or> (\<exists>x l1 l2 l3. P x \<and> l = l1 @ l2 @ l3 \<and> list_all looks l1 \<and> list_all looks l3 \<and> N x r l2)"
proof -
  from assms consider "\<not> is_ok r" "list_all looks l"
    | k1 k k3 x where "l = k1 @ k @ k3" "list_all looks k1" "list_all looks k3" "P x" "framed (N x) r k"
    unfolding framed_def [of "\<lambda>r l. \<exists>x. P x \<and> framed (N x) r l"] by blast
  then show ?thesis
  proof cases
    case 2
    from 2(5) consider "\<not> is_ok r" "list_all looks k"
      | l1 l2 l3 where "k = l1 @ l2 @ l3" "list_all looks l1" "list_all looks l3" "N x r l2"
      unfolding framed_def by blast
    then show ?thesis
    proof cases
      case 1
      with 2 show ?thesis by simp
    next
      case (2 l1 l2 l3)
      with \<open>l = k1 @ k @ k3\<close> \<open>list_all looks k1\<close> \<open>list_all looks k3\<close> \<open>P x\<close> show ?thesis
        by (intro disjI2 exI [of _ x] exI [of _ "k1 @ l1"] exI [of _ l2] exI [of _ "l3 @ k3"]) simp
    qed
  qed simp
qed


text \<open>Creating changes nothing but by one request that makes the entry, found to be free right before.\<close>

theorem remote_create_confined:
  assumes "client_ok env" and "remote_create env p is_dir w = (r, w')"
  shows "\<exists>l. rm_log w' = rm_log w @ l \<and>
    ((\<not> is_ok r \<and> list_all looks l)
     \<or> (\<exists>t l1 a l' l2. l = l1 @ (Lstat t, a) # l' @ l2 \<and> list_all looks l1 \<and> list_all looks l2
          \<and> as_info a = Inl SNotExist \<and> target_of (clean p) t \<and> creates is_dir t r l'))"
proof -
  obtain l where "rm_log w' = rm_log w @ l" "framed (\<lambda>r l. \<exists>t. target_of (clean p) t \<and> after_free t (creates is_dir t r) l) r l"
    using postD [OF create_sends [OF assms(1)] assms(2)] by blast
  then show ?thesis unfolding framed_def after_free_def by fastforce
qed

text \<open>A server on which \<open>/home/g\<close> is free.\<close>

definition roomy_server :: "unit env" where
  "roomy_server q s = (if q = Lstat ''/home/g'' then (Failed SNotExist, ()) else sample_server q s)"

lemma roomy_ok: "client_ok roomy_server"
  using sample_server_ok by (simp add: client_ok_def roomy_server_def)

lemma sample_rename:
  "(case remote_rename roomy_server ''/home/f'' ''/home/g'' idle_remote of (r, w) \<Rightarrow>
      (r, filter (\<lambda>x. touches (fst x) \<noteq> []) (rm_log w))) = (Inr (), [(Rename ''/home/f'' ''/home/g'', Done)])"
  by code_simp


end
