(* ===== verification/RemoteLocking.thy ===== *)
theory RemoteLocking
  imports RemoteEntrySafety
begin

text \<open>
  The changes a remote file operation makes and the locks it holds: every request that changes a path other
  than a staging file is sent while the operation holds a lock on that path or on a directory above it, and
  every lock taken is given back.  With \<open>held_paths_disjoint\<close> of theory \<open>PathLocks\<close> no two operations of a host
  change the same entry at a time.
\<close>

section \<open>The locks held after some exchanges\<close>

definition granted :: "response \<Rightarrow> bool" where
  "granted a \<longleftrightarrow> (case a of Failed _ \<Rightarrow> False | LockFailed _ \<Rightarrow> False | _ \<Rightarrow> True)"

fun held_locks :: "string list list \<Rightarrow> (request \<times> response) list \<Rightarrow> string list list" where
  "held_locks H [] = H"
| "held_locks H ((q, a) # l) =
     held_locks (case q of LockPaths ps \<Rightarrow> if granted a then ps # H else H | UnlockPaths ps \<Rightarrow> remove1 ps H | _ \<Rightarrow> H) l"

definition covered :: "string list list \<Rightarrow> string \<Rightarrow> bool" where
  "covered H y \<longleftrightarrow> (\<exists>ps\<in>set H. \<exists>p\<in>set ps. inside p y)"

definition staging_path :: "string \<Rightarrow> bool" where
  "staging_path y \<longleftrightarrow> has_prefix (base_of y) temp_file_prefix"

fun all_locked :: "string list list \<Rightarrow> (request \<times> response) list \<Rightarrow> bool" where
  "all_locked H [] = True"
| "all_locked H (x # l) =
     ((\<forall>y\<in>set (touches (fst x)). staging_path y \<or> covered H y) \<and> all_locked (held_locks H [x]) l)"

lemma held_locks_append: "held_locks H (l @ l') = held_locks (held_locks H l) l'"
  by (induction H l rule: held_locks.induct) auto

lemma all_locked_append: "all_locked H (l @ l') \<longleftrightarrow> all_locked H l \<and> all_locked (held_locks H l) l'"
proof (induction l arbitrary: H)
  case (Cons x l)
  then show ?case by (cases x) (simp add: conj_assoc)
qed simp

lemma all_locked_nth: "all_locked H (l1 @ (q, a) # l2) \<Longrightarrow> \<forall>y\<in>set (touches q). staging_path y \<or> covered (held_locks H l1) y"
  by (simp add: all_locked_append)

section \<open>Operations that keep to their locks\<close>

text \<open>\<open>m\<close>, run with the locks \<open>H\<close> held, changes only what they cover and leaves them as they were.\<close>

definition locks :: "string list list \<Rightarrow> ('s, 'a) remote_op \<Rightarrow> bool" where
  "locks H m \<longleftrightarrow> (\<forall>w r w'. m w = (r, w') \<longrightarrow> (\<exists>l. rm_log w' = rm_log w @ l \<and> all_locked H l \<and> held_locks H l = H))"

named_theorems locking \<open>operations that keep to their locks\<close>

lemma locksD: "locks H m \<Longrightarrow> m w = (r, w') \<Longrightarrow> \<exists>l. rm_log w' = rm_log w @ l \<and> all_locked H l \<and> held_locks H l = H"
  unfolding locks_def by blast

lemma locks_quiet: "(\<And>w. rm_log (snd (m w)) = rm_log w) \<Longrightarrow> locks H m"
  unfolding locks_def by (metis append_Nil2 all_locked.simps(1) held_locks.simps(1) snd_conv)

lemma locks_simple [locking]:
  "locks H (act_return x)" "locks H (act_fail e)" "locks H (mark_active b p)" "locks H (or_fail oe)" "locks H (from_result f r)"
  by (rule locks_quiet, simp add: mark_active_def or_fail_def from_result_def split: option.split sum.split)+

lemma locks_bind_result:
  assumes "locks H m" and "\<And>w x w'. m w = (Inr x, w') \<Longrightarrow> locks H (k x)"
  shows "locks H (act_bind m k)"
  unfolding locks_def
proof (intro allI impI)
  fix w r w' assume run: "act_bind m k w = (r, w')"
  obtain r1 w1 where m: "m w = (r1, w1)" by fastforce
  obtain l1 where l1: "rm_log w1 = rm_log w @ l1" "all_locked H l1" "held_locks H l1 = H" using locksD [OF assms(1) m] by blast
  show "\<exists>l. rm_log w' = rm_log w @ l \<and> all_locked H l \<and> held_locks H l = H"
  proof (cases r1)
    case (Inl e)
    with run m l1 show ?thesis by (simp add: act_bind_def)
  next
    case (Inr x)
    then have "k x w1 = (r, w')" using run m by (simp add: act_bind_def)
    from locksD [OF assms(2) this] m Inr obtain l2 where "rm_log w' = rm_log w1 @ l2" "all_locked H l2" "held_locks H l2 = H"
      by blast
    with l1 show ?thesis by (intro exI [of _ "l1 @ l2"]) (simp add: all_locked_append held_locks_append)
  qed
qed

lemma locks_bind [locking]: "locks H m \<Longrightarrow> (\<And>x. locks H (k x)) \<Longrightarrow> locks H (act_bind m k)"
  by (rule locks_bind_result)

lemma locks_then:
  assumes "locks H m" and "\<And>r. locks H (q r)" and n: "\<And>w r w1. m w = (r, w1) \<Longrightarrow> n w = (f r, snd (q r w1))"
  shows "locks H n"
  unfolding locks_def
proof (intro allI impI)
  fix w r w' assume run: "n w = (r, w')"
  obtain r1 w1 where m: "m w = (r1, w1)" by fastforce
  obtain r2 w2 where q: "q r1 w1 = (r2, w2)" by fastforce
  obtain l1 l2 where "rm_log w1 = rm_log w @ l1" "all_locked H l1" "held_locks H l1 = H"
      "rm_log w2 = rm_log w1 @ l2" "all_locked H l2" "held_locks H l2 = H"
    using locksD [OF assms(1) m] locksD [OF assms(2) q] by blast
  then show "\<exists>l. rm_log w' = rm_log w @ l \<and> all_locked H l \<and> held_locks H l = H"
    using run n [OF m] q by (intro exI [of _ "l1 @ l2"]) (simp add: all_locked_append held_locks_append)
qed

lemma locks_deferred [locking]: "locks H m \<Longrightarrow> locks H q \<Longrightarrow> locks H (deferred m q)"
  by (rule locks_then [where m = m and q = "\<lambda>_. q" and f = id]) (simp_all add: deferred_def)

text \<open>A request that is no lock.\<close>

definition sendable :: "string list list \<Rightarrow> request \<Rightarrow> bool" where
  "sendable H q \<longleftrightarrow> (\<forall>y\<in>set (touches q). staging_path y \<or> covered H y)
     \<and> (case q of LockPaths _ \<Rightarrow> False | UnlockPaths _ \<Rightarrow> False | _ \<Rightarrow> True)"

lemma locks_ask [locking]: "sendable H q \<Longrightarrow> locks H (ask env q)"
  unfolding locks_def
  by (auto simp: call_eqs asked_simps sendable_def split: request.split_asm)

lemma locks_calls [locking]:
  "sendable H q \<Longrightarrow> locks H (call_done env q)" "sendable H q \<Longrightarrow> locks H (call_path env q)"
  "sendable H q \<Longrightarrow> locks H (call_info env q)"
  unfolding call_done_def call_path_def call_info_def by (intro locking; assumption)+

lemma sendable_looks [simp]:
  "sendable H CtxErr" "sendable H CheckLease" "sendable H (OpenSession p)" "sendable H CloseSession" "sendable H (RealPath p)"
  "sendable H (Stat p)" "sendable H (Lstat p)" "sendable H (ReadFile p)" "sendable H (ReadDir p)"
  "sendable H (ReadDirBounded p n)" "sendable H HasPosixRename" "sendable H (AddCleanup c)" "sendable H (RemoveCleanup i)"
  "sendable H ListCleanups" "sendable H ReadRandom" "sendable H Now" "sendable H Spool"
  by (simp_all add: sendable_def)

lemma locks_cases [locking]:
  "(b \<Longrightarrow> locks H m) \<Longrightarrow> (\<not> b \<Longrightarrow> locks H n) \<Longrightarrow> locks H (if b then m else n)"
  "locks H m \<Longrightarrow> (\<And>y. locks H (f y)) \<Longrightarrow> locks H (case x of None \<Rightarrow> m | Some y \<Rightarrow> f y)"
  "(\<And>y. locks H (g y)) \<Longrightarrow> (\<And>y. locks H (h y)) \<Longrightarrow> locks H (case z of Inl y \<Rightarrow> g y | Inr y \<Rightarrow> h y)"
  "(\<And>a b. locks H (k a b)) \<Longrightarrow> locks H (case p of (a, b) \<Rightarrow> k a b)"
  by (auto split: option.split sum.split prod.split)

lemma locks_drop [locking]: "(\<And>q. q \<in> set qs \<Longrightarrow> sendable H q) \<Longrightarrow> locks H (drop_answers env qs)"
  by (induction env qs rule: drop_answers.induct) (auto intro!: locking simp del: act_run)

lemma locks_fail_after [locking]: "(\<And>q. q \<in> set qs \<Longrightarrow> sendable H q) \<Longrightarrow> locks H (fail_after env qs e)"
  unfolding fail_after_def by (intro locking)

lemma locks_session [locking]: "locks H m \<Longrightarrow> locks H (with_session env purpose m)"
proof -
  assume "locks H m"
  then have "locks H (deferred m (ask env CloseSession))" by (intro locking sendable_looks)
  then show ?thesis
    unfolding with_session_def by (intro locks_bind locks_ask) (simp_all add: locks_simple del: act_run split: response.split)
qed

lemma locks_with_lock:
  assumes "locks (ps # H) m" shows "locks H (with_lock env ps m)"
  unfolding locks_def
proof (intro allI impI)
  fix w r w' assume run: "with_lock env ps m w = (r, w')"
  let ?a = "fst (env (LockPaths ps) (rm_state w))" and ?w = "asked env (LockPaths ps) w"
  show "\<exists>l. rm_log w' = rm_log w @ l \<and> all_locked H l \<and> held_locks H l = H"
  proof (cases "granted ?a")
    case False
    then have "w' = ?w" using run by (auto simp: with_lock_def act_bind_def call_eqs granted_def split: response.splits)
    with False show ?thesis by (simp add: asked_simps)
  next
    case True
    then have body: "deferred m (ask env (UnlockPaths ps)) ?w = (r, w')"
      using run by (auto simp: with_lock_def act_bind_def call_eqs granted_def split: response.splits)
    obtain r1 w1 where m: "m ?w = (r1, w1)" by fastforce
    obtain l1 where l1: "rm_log w1 = rm_log ?w @ l1" "all_locked (ps # H) l1" "held_locks (ps # H) l1 = ps # H"
      using locksD [OF assms m] by blast
    have "w' = asked env (UnlockPaths ps) w1" using body m by (simp add: deferred_def call_eqs)
    with l1 True show ?thesis
      by (intro exI [of _ "(LockPaths ps, ?a) # l1 @ [(UnlockPaths ps, fst (env (UnlockPaths ps) (rm_state w1)))]"])
        (simp add: asked_simps all_locked_append held_locks_append)
  qed
qed

section \<open>Looking\<close>

lemma locks_check_lease [locking]: "locks H (check_lease env)"
  unfolding check_lease_def by (intro locks_bind locks_ask) (auto intro: locking split: response.split)

lemma locks_check_shape [locking]: "locks H (check_shape p)"
  unfolding check_shape_def by (intro locking)

lemma locks_blocked_ancestor [locking]: "locks H (blocked_ancestor env n p)"
  by (induction env n p rule: blocked_ancestor.induct)
    (auto intro!: locking simp del: act_run split: option.split sum.split)

lemma locks_canonicalize [locking]: "locks H (canonicalize_remote_path env p)"
  unfolding canonicalize_remote_path_def Let_def by (intro locking) simp_all

lemma locks_canonical [locking]: "locks H (canonical env p)"
  unfolding canonical_def by (intro locking)

lemma locks_resolve [locking]: "locks H (resolve_target_in_parent env p)"
  unfolding resolve_target_in_parent_def Let_def by (intro locking) simp_all

lemma locks_hash [locking]: "locks H (hash_remote_file env sha p)"
  unfolding hash_remote_file_def by (intro locking) simp_all

lemma locks_loss [locking]: "locks H (is_conn_loss_or_done env e)"
  unfolding is_conn_loss_or_done_def by (intro locking) simp

lemma locks_inspect [locking]: "locks H (inspect_existing_target env sha target expected allow)"
  unfolding inspect_existing_target_def
  apply (intro locking)
    apply simp
  subgoal for x y by (cases y) (auto intro!: locking simp del: act_run)
  apply simp
  done

lemma locks_verify_digest [locking]: "locks H (verify_target_digest env sha target i origin expected)"
  unfolding verify_target_digest_def by (intro locking)

lemma locks_verify [locking]: "locks H (verify_target_before_replace env sha target meta expected)"
  unfolding verify_target_before_replace_def by (intro locking) simp_all

section \<open>Targets\<close>

lemma sendable_covered:
  "covered H p \<Longrightarrow> sendable H (OpenExcl p)" "covered H p \<Longrightarrow> sendable H (FileClose p)" "covered H p \<Longrightarrow> sendable H (Mkdir p)"
  "covered H p \<Longrightarrow> sendable H (Remove p)" "covered H p \<Longrightarrow> sendable H (RemoveDirectory p)"
  "covered H p \<Longrightarrow> covered H t \<Longrightarrow> sendable H (Rename p t)"
  by (simp_all add: sendable_def)

lemma covered_inside: "covered H p \<Longrightarrow> inside p y \<Longrightarrow> covered H y"
  unfolding covered_def using inside_trans by blast

lemma covered_more: "covered H y \<Longrightarrow> covered (ps # H) y"
  by (auto simp: covered_def)

lemma covered_self: "ps \<in> set H \<Longrightarrow> p \<in> set ps \<Longrightarrow> clean_abs p \<Longrightarrow> covered H p"
  by (auto simp: covered_def inside_def)

text \<open>What is done to a target is done while the target itself is locked.\<close>

lemma locks_with_target:
  assumes "client_ok env" and c: "clean_abs c" "segs c \<noteq> []" "covered H c"
    and body: "\<And>t H'. target_of c t \<Longrightarrow> covered H' t \<Longrightarrow> (\<And>y. covered H y \<Longrightarrow> covered H' y) \<Longrightarrow> locks H' (body t)"
  shows "locks H (with_target env c body)"
  unfolding with_target_def
proof (rule locks_bind_result [OF locks_resolve])
  fix w t w' assume "resolve_target_in_parent env c w = (Inr t, w')"
  then have t: "target_of c t" by (rule resolved_target [OF assms(1) c(1,2)])
  then have "covered ([t] # H) t" by (simp add: covered_self [of "[t]"] target_of_def)
  then have "locks ([t] # H) (body t)" by (rule body [OF t]) (rule covered_more)
  moreover have "locks H (body t)" if "t = c" using body [OF t] c(3) that by simp
  ultimately show "locks H (if t \<noteq> c then with_lock env [t] (body t) else body t)"
    by (simp add: locks_with_lock)
qed

lemma locks_shaped:
  assumes "clean_abs (clean p) \<Longrightarrow> locks H m" shows "locks H (act_bind (check_shape p) (\<lambda>_. m))"
proof (rule locks_bind_result [OF locks_check_shape])
  fix w x w' assume "check_shape p w = (Inr x, w')"
  then have "validate_remote_path_shape p = None" by (auto simp: check_shape_def or_fail_def split: option.splits)
  then show "locks H m" using assms validate_shape(1) clean_abs_clean by blast
qed

section \<open>Deleting\<close>

lemma remove_locks:
  "client_ok env \<Longrightarrow> clean_abs dir \<Longrightarrow> covered H dir \<Longrightarrow> locks H (remove_recursive env n dir)"
  "client_ok env \<Longrightarrow> clean_abs dir \<Longrightarrow> covered H dir \<Longrightarrow> list_all (\<lambda>i. clean_seg (si_name i)) es
     \<Longrightarrow> locks H (remove_entries env n dir es)"
proof (induction env n dir and env n dir es rule: remove_recursive_remove_entries.induct)
  case (2 env n dir)
  have "locks H (act_bind (ask env (ReadDir dir)) (\<lambda>a. case as_entries a of
      Inl e \<Rightarrow> act_return (if e = SNotExist then Removed else RemovalFailed e)
    | Inr es \<Rightarrow> remove_entries env n dir es))"
  proof (rule locks_bind_result)
    fix w a w' assume "ask env (ReadDir dir) w = (Inr a, w')"
    then have a: "a = fst (env (ReadDir dir) (rm_state w))" by (simp add: call_eqs)
    show "locks H (case as_entries a of
        Inl e \<Rightarrow> act_return (if e = SNotExist then Removed else RemovalFailed e)
      | Inr es \<Rightarrow> remove_entries env n dir es)"
    proof (cases "as_entries a")
      case (Inr es)
      with 2 client_entries [OF 2(2)] a show ?thesis by simp
    qed (simp add: locks_simple del: act_run)
  qed (simp add: locks_ask)
  note read = this
  show ?case
    unfolding remove_recursive.simps
    by (rule locks_bind, rule locks_calls, simp, rule locks_cases, rule read, rule locks_simple)
next
  case (3 env n dir)
  then show ?case unfolding remove_entries.simps by (intro locking sendable_covered)
next
  case (4 env n dir i es)
  have child: "inside dir (join_path [dir, si_name i])" using 4 join_inside by simp
  then have c: "clean_abs (join_path [dir, si_name i])" by (simp add: inside_def)
  have cov: "covered H (join_path [dir, si_name i])" by (rule covered_inside [OF 4(7) child])
  have es: "locks H (remove_entries env n dir es)" using 4 by (cases "si_kind i = Directory") auto
  have rec: "locks H (remove_recursive env n (join_path [dir, si_name i]))" if "si_kind i = Directory"
    by (rule 4(1) [OF refl that 4(5) c cov])
  show ?case
    unfolding remove_entries.simps Let_def by (intro locking es rec sendable_covered cov) simp_all
qed (simp_all add: locks_simple del: act_run)

lemma locks_remove_target:
  assumes "client_ok env" and "clean_abs t" and "covered H t"
  shows "locks H (remove_directory_target env fuel t recursive)"
proof -
  have answer: "locks H (case a of
      RawEntriesAre es _ \<Rightarrow>
        if es \<noteq> [] then act_fail (RKind DirNotEmpty)
        else act_bind (call_done env (RemoveDirectory t)) (\<lambda>r.
          act_bind (or_fail (map_option write_error r)) (\<lambda>_. act_return True))
    | Failed e \<Rightarrow> act_fail (stat_error e)
    | _ \<Rightarrow> act_fail (RRaw (SOther ''unexpected answer'')))" for a
    by (cases a) (auto intro!: locking sendable_covered assms simp del: act_run)
  have result: "locks H (case r of
      Removed \<Rightarrow> act_return True | RemovalFailed e \<Rightarrow> act_fail (write_error e) | OutOfFuel \<Rightarrow> act_return False)" for r
    by (cases r) (simp_all add: locks_simple del: act_run)
  show ?thesis
    unfolding remove_directory_target_def
    by (rule locks_cases, rule locks_bind, rule locks_ask, simp, rule answer,
        rule locks_bind, rule remove_locks [OF assms], rule result)
qed

lemma covered_one: "clean_abs c \<Longrightarrow> covered ([c] # H) c"
  by (rule covered_self [of "[c]"]) simp_all

text \<open>An operation on one target, from the locks of its path on.\<close>

lemma locks_on_target:
  assumes "client_ok env" and "\<And>t H. target_of c t \<Longrightarrow> covered H t \<Longrightarrow> locks H (body t)"
    and "clean_abs c" and "c \<noteq> ''/''"
  shows "locks [] (with_lock env [c] (with_session env purpose (with_target env c body)))"
  by (intro locks_with_lock locks_session locks_with_target [OF assms(1,3)] not_root_segs covered_one assms)

lemma delete_body_locks:
  assumes "client_ok env" and "target_of c t" and "covered H t"
  shows "locks H (act_bind (call_info env (Lstat t)) (\<lambda>r.
     act_bind (from_result stat_error r) (\<lambda>i.
       if si_kind i \<noteq> Directory
         then act_bind (remove_file_target env t) (\<lambda>_. act_return True)
       else remove_directory_target env fuel t recursive)))"
proof -
  have "locks H (remove_directory_target env fuel t recursive)"
    by (rule locks_remove_target [OF assms(1) _ assms(3)]) (use assms(2) in \<open>simp add: target_of_def\<close>)
  note dir = this
  show ?thesis
    unfolding remove_file_target_def by (intro locking dir sendable_covered assms) simp
qed

lemma delete_locks: "client_ok env \<Longrightarrow> locks [] (remote_delete env fuel p recursive)"
  unfolding remote_delete_def Let_def
  by (intro locks_bind locks_check_lease locks_shaped locks_cases locks_simple locks_on_target delete_body_locks)

section \<open>Creating and renaming\<close>

lemma locks_absent [locking]: "locks H (ensure_absent env t)"
  unfolding ensure_absent_def by (intro locking) simp

lemma create_body_locks:
  assumes "covered H t"
  shows "locks H (act_bind (ensure_absent env t) (\<lambda>_.
     if is_dir then create_directory_entry env t else create_file_entry env t))"
  unfolding create_directory_entry_def create_file_entry_def by (intro locking sendable_covered assms)

lemma create_locks: "client_ok env \<Longrightarrow> locks [] (remote_create env p is_dir)"
  unfolding remote_create_def Let_def
  by (intro locks_bind locks_check_lease locks_shaped locks_cases locks_simple locks_on_target create_body_locks)

lemma rename_body_locks:
  assumes "covered H src" and "covered H dst"
  shows "locks H (act_bind (ensure_absent env dst) (\<lambda>_.
     act_bind (call_done env (Rename src dst)) (\<lambda>d. or_fail (map_option rename_error d))))"
  by (intro locking sendable_covered assms)

lemma locks_rename_targets:
  assumes "client_ok env" and "clean_abs c" "segs c \<noteq> []" "covered H c" and "clean_abs d" "segs d \<noteq> []" "covered H d"
  shows "locks H (with_rename_targets env c d (\<lambda>src dst. act_bind (ensure_absent env dst) (\<lambda>_.
     act_bind (call_done env (Rename src dst)) (\<lambda>d. or_fail (map_option rename_error d)))))"
  unfolding with_rename_targets_def
proof (rule locks_with_target [OF assms(1-4)])
  fix src H' assume src: "covered H' src" and more: "\<And>y. covered H y \<Longrightarrow> covered H' y"
  have "locks H' (with_target env d (\<lambda>dst. act_bind (ensure_absent env dst) (\<lambda>_.
     act_bind (call_done env (Rename src dst)) (\<lambda>d. or_fail (map_option rename_error d)))))"
    by (rule locks_with_target [OF assms(1,5,6) more [OF assms(7)]]) (use src in \<open>blast intro: rename_body_locks\<close>)
  note second = this
  show "locks H' (act_bind (call_info env (Lstat src)) (\<lambda>r. act_bind (from_result stat_error r) (\<lambda>_.
      with_target env d (\<lambda>dst. act_bind (ensure_absent env dst) (\<lambda>_.
        act_bind (call_done env (Rename src dst)) (\<lambda>d. or_fail (map_option rename_error d)))))))"
    by (intro locking second) simp
qed

lemma rename_locks:
  assumes "client_ok env" shows "locks [] (remote_rename env old new)"
proof -
  have body: "locks [] (with_lock env [c, d] (with_session env ''sftp-rename'' (with_rename_targets env c d
      (\<lambda>src dst. act_bind (ensure_absent env dst) (\<lambda>_.
        act_bind (call_done env (Rename src dst)) (\<lambda>d. or_fail (map_option rename_error d)))))))"
    if "clean_abs c" "c \<noteq> ''/''" "clean_abs d" "d \<noteq> ''/''" for c d
    by (intro locks_with_lock locks_session locks_rename_targets assms not_root_segs that)
      (simp_all add: covered_self [of "[c, d]"] that)
  have "locks [] (act_bind (validate_rename_paths old new) (\<lambda>(c, d). with_lock env [c, d] (with_session env ''sftp-rename''
      (with_rename_targets env c d (\<lambda>src dst. act_bind (ensure_absent env dst) (\<lambda>_.
        act_bind (call_done env (Rename src dst)) (\<lambda>d. or_fail (map_option rename_error d))))))))"
    unfolding validate_rename_paths_def act_bind_assoc
  proof (rule locks_shaped, rule locks_shaped)
    assume c: "clean_abs (clean old)" "clean_abs (clean new)"
    show "locks [] (act_bind (if clean old = ''/'' \<or> clean new = ''/'' then act_fail (RKind InvalidPath)
        else act_return (clean old, clean new)) (\<lambda>(c, d). with_lock env [c, d] (with_session env ''sftp-rename''
      (with_rename_targets env c d (\<lambda>src dst. act_bind (ensure_absent env dst) (\<lambda>_.
        act_bind (call_done env (Rename src dst)) (\<lambda>d. or_fail (map_option rename_error d))))))))"
    proof (cases "clean old = ''/'' \<or> clean new = ''/''")
      case True
      then show ?thesis by (simp add: locks_bind locks_simple del: act_run)
    next
      case False
      with body c show ?thesis by simp
    qed
  qed
  then show ?thesis unfolding remote_rename_def by (rule locks_bind [OF locks_check_lease])
qed

section \<open>Writing\<close>

lemma hex_digit_not_slash: "n < 16 \<Longrightarrow> hex_digit n \<noteq> slash"
proof
  assume n: "n < 16" and "hex_digit n = slash"
  then have "ccode (hex_digit n) = ccode slash" by simp
  with n show False by (auto simp: hex_digit_def split: if_splits)
qed

lemma hex_encode_no_slash: "slash \<notin> set (hex_encode (map of_char (cs :: string)))"
proof -
  have "b div 16 < 16" "b mod 16 < 16" if "b = of_char c" for b :: nat and c :: char
    using that by (cases c) (simp_all add: less_mult_imp_div_less)
  then show ?thesis by (induction cs) (auto simp: hex_encode_def hex_digit_not_slash [THEN not_sym])
qed

lemma stage_is_staging_path:
  assumes "clean_abs d" and "stage_in d s" shows "staging_path s"
proof -
  obtain cs :: string where s: "s = join_path [d, stage_name (hex_encode (map of_char cs))]"
    using assms(2) by (auto simp: stage_in_def)
  have "clean_seg (stage_name (hex_encode (map of_char cs)))"
    using hex_encode_no_slash [of cs] by (simp add: clean_seg_def stage_name_def temp_file_prefix_def dot_def dotdot_def)
  note seg = join_segment [OF assms(1) this]
  then have "base_of s = stage_name (hex_encode (map of_char cs))"
    using base_of_of_segs [of "segs s"] clean_abs_segs [of s] by (simp add: s)
  then show ?thesis by (simp add: staging_path_def stage_name_def has_prefix_iff)
qed

lemma sendable_staging:
  "staging_path s \<Longrightarrow> sendable H (OpenExcl s)" "staging_path s \<Longrightarrow> sendable H (FileChmod s n)" "staging_path s \<Longrightarrow> sendable H (FileWrite s x)"
  "staging_path s \<Longrightarrow> sendable H (FileClose s)" "staging_path s \<Longrightarrow> sendable H (Chmod s n)" "staging_path s \<Longrightarrow> sendable H (Chown s n m)"
  "staging_path s \<Longrightarrow> sendable H (Remove s)"
  "staging_path s \<Longrightarrow> covered H t \<Longrightarrow> sendable H (Rename s t)" "staging_path s \<Longrightarrow> covered H t \<Longrightarrow> sendable H (PosixRename s t)"
  by (simp_all add: sendable_def)

lemma locks_outcome [locking]: "sendable H q \<Longrightarrow> locks H (outcome env q)"
  unfolding outcome_def by (intro locking)

lemma locks_create_staging [locking]:
  assumes "clean_abs d" shows "locks H (create_staging_file env svc d)"
proof -
  have s: "staging_path (join_path [d, stage_name (hex_encode (map of_char (take 8 bytes)))])" for bytes :: string
    by (rule stage_is_staging_path [OF assms stage_inI])
  show ?thesis
    unfolding create_staging_file_def Let_def
    by (intro locking sendable_looks) (auto intro!: sendable_staging s)
qed

lemma locks_transfer [locking]: "staging_path s \<Longrightarrow> locks H (transfer_staged_content env body declared s)"
  unfolding transfer_staged_content_def Let_def by (intro locking sendable_staging)

lemma locks_cleanup [locking]: "staging_path s \<Longrightarrow> locks H (cleanup_stage env svc s cid b)"
  unfolding cleanup_stage_def by (intro locking sendable_staging) auto

lemma created_is_staging_path:
  assumes "clean_abs d" and "create_staging_file env svc d w = (Inr (s, cid), w')" shows "staging_path s"
proof -
  have "stage_in d s"
    using assms(2) stage_inI
    by (auto simp: create_staging_file_def Let_def act_bind_def call_eqs from_result_def mark_active_def fail_after_def
        split: sum.splits option.splits if_splits prod.splits)
  with assms(1) show ?thesis by (rule stage_is_staging_path)
qed

lemma locks_stage_and_write:
  assumes "clean_abs (dir_of t)" shows "locks H (stage_and_write_content env svc t body declared)"
  unfolding stage_and_write_content_def
proof (rule locks_bind_result [OF locks_create_staging [OF assms]])
  fix w x w' assume "create_staging_file env svc (dir_of t) w = (Inr x, w')"
  moreover obtain s cid where x: "x = (s, cid)" by fastforce
  ultimately have s: "staging_path s" using created_is_staging_path [OF assms] by blast
  let ?q = "\<lambda>r. case r of Inl e \<Rightarrow> cleanup_stage env svc s cid False | Inr (u :: unit) \<Rightarrow> act_return ()"
  have "locks H (\<lambda>w. case transfer_staged_content env body declared s w of
      (Inl e, w1) \<Rightarrow> (Inl e, snd (cleanup_stage env svc s cid False w1)) | (Inr _, w1) \<Rightarrow> (Inr (s, cid), w1))"
  proof (rule locks_then [where m = "transfer_staged_content env body declared s" and q = ?q and f = "case_sum Inl (\<lambda>_. Inr (s, cid))"])
    show "locks H (?q r)" for r using s by (cases r) (simp_all add: locks_cleanup locks_simple del: act_run)
    show "locks H (transfer_staged_content env body declared s)" by (rule locks_transfer [OF s])
  qed (simp split: sum.split)
  then show "locks H ((\<lambda>(s, cid) w. case transfer_staged_content env body declared s w of
      (Inl e, w1) \<Rightarrow> (Inl e, snd (cleanup_stage env svc s cid False w1)) | (Inr _, w1) \<Rightarrow> (Inr (s, cid), w1)) x)"
    by (simp add: x)
qed

lemma written_is_staging_path:
  assumes "clean_abs (dir_of t)" and "stage_and_write_content env svc t body declared w = (Inr (s, cid), w')"
  shows "staging_path s"
proof -
  obtain w1 where "create_staging_file env svc (dir_of t) w = (Inr (s, cid), w1)"
    using assms(2) by (auto simp: stage_and_write_content_def act_bind_def split: prod.splits sum.splits)
  with assms(1) show ?thesis by (rule created_is_staging_path)
qed

lemma locks_replace [locking]:
  assumes "staging_path s" and "covered H t" shows "locks H (replace_remote_file env s t meta owner perm)"
proof -
  have "locks H (is_stage_chown_needed env s owner)" unfolding is_stage_chown_needed_def by (intro locking) simp
  then show ?thesis
    unfolding replace_remote_file_def replace_existing_remote_file_def apply_staged_ownership_def replace_new_remote_file_def
    by (intro locking sendable_staging assms sendable_looks) (auto intro: sendable_staging assms)
qed

lemma write_body_locks:
  assumes "target_of c t" and "covered H t"
  shows "locks H (write_target_file env sha svc body declared expected allow t)"
proof -
  have d: "clean_abs (dir_of t)" using dir_of_clean_abs assms(1) by (simp add: target_of_def)
  have stamp: "locks H (result_stamp env t)"
    unfolding result_stamp_def Let_def by (intro locking) simp_all
  have "locks H (cleaned_up env svc s cid (act_bind (verify_target_before_replace env sha t meta expected) (\<lambda>(owner, perm).
        act_bind (replace_remote_file env s t meta owner perm) (\<lambda>_. result_stamp env t))))" (is "locks H (cleaned_up _ _ _ _ ?m)")
    if s: "staging_path s" for s cid meta
  proof (rule locks_then [where m = ?m and q = "\<lambda>r. cleanup_stage env svc s cid (is_ok r)" and f = id])
    show "locks H ?m" by (intro locking s assms stamp)
  qed (simp_all add: locks_cleanup s cleaned_up_def)
  note finish = this
  show ?thesis
    unfolding write_target_file_def
    by (rule locks_bind, rule locks_inspect, rule locks_bind_result, rule locks_stage_and_write [OF d])
      (auto intro: finish written_is_staging_path [OF d])
qed

lemma write_locks: "client_ok env \<Longrightarrow> locks [] (remote_write env sha svc p body declared expected allow)"
  unfolding remote_write_def validate_write_request_def act_bind_assoc
  apply (rule locks_bind [OF locks_check_lease], rule locks_shaped)
  by (auto intro!: locks_on_target write_body_locks locks_bind locks_simple simp del: act_run simp: act_bind_return)

section \<open>Every change is made under a lock\<close>

text \<open>From the world \<open>w\<close> to \<open>w'\<close>: each request changes only staging files and what is covered by a lock held when
  it is sent, and in the end no lock is held.\<close>

definition changes_under_lock :: "'s remote \<Rightarrow> 's remote \<Rightarrow> bool" where
  "changes_under_lock w w' \<longleftrightarrow> (\<exists>l. rm_log w' = rm_log w @ l \<and> held_locks [] l = [] \<and>
     (\<forall>l1 q a l2 y. l = l1 @ (q, a) # l2 \<longrightarrow> y \<in> set (touches q) \<longrightarrow> staging_path y \<or> covered (held_locks [] l1) y))"

lemma locks_changes:
  assumes "locks [] m" shows "changes_under_lock w (snd (m w))"
proof -
  obtain l where l: "rm_log (snd (m w)) = rm_log w @ l" "all_locked [] l" "held_locks [] l = []"
    using locksD [OF assms surjective_pairing] by blast
  show ?thesis
    unfolding changes_under_lock_def
  proof (intro exI [of _ l] conjI allI impI)
    fix l1 q a l2 y assume "l = l1 @ (q, a) # l2" "y \<in> set (touches q)"
    with all_locked_nth [of "[]" l1 q a l2] l(2) show "staging_path y \<or> covered (held_locks [] l1) y" by blast
  qed (use l in simp_all)
qed

text \<open>C7: whatever the server answers (client names and resolved paths being well formed), a remote deletion,
  renaming, creation or write changes nothing but its own staging file (a name with the reserved prefix) and
  entries at or below a path the operation holds the lock of when it sends the request, the target in its
  resolved parent and both ends of a renaming included; and every lock it took is given back, on its errors
  too.\<close>

theorem remote_changes_are_locked:
  assumes "client_ok env"
  shows "changes_under_lock w (snd (remote_delete env fuel p recursive w))
    \<and> changes_under_lock w (snd (remote_rename env old new w))
    \<and> changes_under_lock w (snd (remote_create env p is_dir w))
    \<and> changes_under_lock w (snd (remote_write env sha svc p body declared expected allow w))"
  using assms by (intro conjI locks_changes delete_locks rename_locks create_locks write_locks)

text \<open>The sample write overwrites a file, and the sample renaming moves one.\<close>

theorem remote_changes_are_locked_witness:
  "is_ok (fst sample_write_run) \<and> changes_under_lock idle_remote (snd sample_write_run)
    \<and> fst (remote_rename sample_server ''/home/f'' ''/home/g'' idle_remote) = Inl (RKind Conflict)
    \<and> changes_under_lock idle_remote (snd (remote_rename sample_server ''/home/f'' ''/home/g'' idle_remote))"
proof -
  have "is_ok (fst sample_write_run)" using sample_write unfolding case_prod_beta prod.inject by blast
  moreover have "fst (remote_rename sample_server ''/home/f'' ''/home/g'' idle_remote) = Inl (RKind Conflict)"
    by code_simp
  moreover note remote_changes_are_locked [OF sample_server_ok]
  ultimately show ?thesis by blast
qed

end
