(* ===== verification/ConfigModel.thy ===== *)
theory ConfigModel
  imports GoPath
begin

text \<open>
  \<open>hub/internal/config\<close>: the configuration records of \<open>config.go\<close> and their defaults, the
  provenance of its values, and the public projection of \<open>transport/http/dto.go\<close>.  A duration is its
  number of nanoseconds.
\<close>

type_synonym duration = int

abbreviation millisecond :: duration where "millisecond \<equiv> 1000000"
abbreviation second :: duration where "second \<equiv> 1000000000"

section \<open>The configuration\<close>

record server_config =
  sv_addr :: string
  sv_read_header_timeout :: duration
  sv_idle_timeout :: duration
  sv_max_request_body_bytes :: int

record auth_config =
  au_token :: string
  au_ticket_ttl :: duration
  au_ticket_sweep_interval :: duration

record tmux_config =
  tx_path :: string

record websocket_config =
  wk_origin :: string
  wk_max_input_message_bytes :: int
  wk_control_write_timeout :: duration
  wk_output_write_timeout :: duration
  wk_exit_write_timeout :: duration

record terminal_config =
  te_max_dimension :: int
  te_staging_buffer_bytes :: int
  te_output_high_water_bytes :: int
  te_output_low_water_bytes :: int
  te_backpressure_poll_interval :: duration

record shutdown_config =
  sd_attachment_timeout :: duration
  sd_http_timeout :: duration

record reconnect_config =
  rc_initial_delay :: duration
  rc_max_delay :: duration

record web_terminal_config =
  wt_scrollback :: int
  wt_font_size :: int
  wt_min_font_size :: int
  wt_max_font_size :: int

record notifications_config =
  nf_max_toasts :: int
  nf_error_lifetime :: duration
  nf_warning_lifetime :: duration
  nf_info_lifetime :: duration

record web_config =
  we_session_poll_interval :: duration
  we_activity_decay :: duration
  we_activity_throttle :: duration
  we_resize_debounce :: duration
  we_reconnect :: reconnect_config
  we_terminal :: web_terminal_config
  we_notifications :: notifications_config

record files_config =
  fc_enabled :: bool
  fc_roots :: "string list"
  fc_max_file_size :: int
  fc_max_dir_entries :: int

record hosts_config =
  hc_state_dir :: string
  hc_master_key_file :: string
  hc_dial_timeout :: duration
  hc_handshake_timeout :: duration
  hc_operation_timeout :: duration
  hc_keepalive_interval :: duration
  hc_max_backoff :: duration
  hc_max_connections :: int

record config =
  cfg_hosts :: hosts_config
  cfg_version :: int
  cfg_server :: server_config
  cfg_auth :: auth_config
  cfg_tmux :: tmux_config
  cfg_websocket :: websocket_config
  cfg_terminal :: terminal_config
  cfg_shutdown :: shutdown_config
  cfg_web :: web_config
  cfg_files :: files_config

section \<open>Defaults\<close>

definition default_config :: config where
  "default_config =
     \<lparr> cfg_hosts = \<lparr> hc_state_dir = [], hc_master_key_file = [], hc_dial_timeout = 10 * second,
         hc_handshake_timeout = 10 * second, hc_operation_timeout = 30 * second, hc_keepalive_interval = 15 * second,
         hc_max_backoff = 30 * second, hc_max_connections = 16 \<rparr>,
       cfg_version = 1,
       cfg_server = \<lparr> sv_addr = ''127.0.0.1:7690'', sv_read_header_timeout = 10 * second,
         sv_idle_timeout = 120 * second, sv_max_request_body_bytes = 65536 \<rparr>,
       cfg_auth = \<lparr> au_token = [], au_ticket_ttl = 30 * second, au_ticket_sweep_interval = 10 * second \<rparr>,
       cfg_tmux = \<lparr> tx_path = [] \<rparr>,
       cfg_websocket = \<lparr> wk_origin = [], wk_max_input_message_bytes = 8388608, wk_control_write_timeout = 5 * second,
         wk_output_write_timeout = 10 * second, wk_exit_write_timeout = 3 * second \<rparr>,
       cfg_terminal = \<lparr> te_max_dimension = 1000, te_staging_buffer_bytes = 2097152,
         te_output_high_water_bytes = 1048576, te_output_low_water_bytes = 131072,
         te_backpressure_poll_interval = 100 * millisecond \<rparr>,
       cfg_shutdown = \<lparr> sd_attachment_timeout = 3 * second, sd_http_timeout = 10 * second \<rparr>,
       cfg_web = \<lparr> we_session_poll_interval = 5 * second, we_activity_decay = 2 * second,
         we_activity_throttle = 500 * millisecond, we_resize_debounce = 100 * millisecond,
         we_reconnect = \<lparr> rc_initial_delay = 500 * millisecond, rc_max_delay = 3 * second \<rparr>,
         we_terminal = \<lparr> wt_scrollback = 5000, wt_font_size = 13, wt_min_font_size = 8, wt_max_font_size = 24 \<rparr>,
         we_notifications = \<lparr> nf_max_toasts = 5, nf_error_lifetime = 8 * second, nf_warning_lifetime = 5 * second,
           nf_info_lifetime = 3 * second \<rparr> \<rparr>,
       cfg_files = \<lparr> fc_enabled = True, fc_roots = [], fc_max_file_size = 104857600, fc_max_dir_entries = 1000 \<rparr> \<rparr>"

section \<open>Provenance\<close>

datatype source = SourceDefault | SourceYAML | SourceEnvironment | SourceCLI | SourceGenerated

record provenance =
  pv_config_file :: string
  pv_explicit_config :: bool
  pv_addr :: source
  pv_token :: source
  pv_origin :: source
  pv_tmux_path :: source

section \<open>The public projection\<close>

text \<open>\<open>time.Duration.Milliseconds\<close>: the quotient, truncated toward zero.\<close>

definition milliseconds :: "duration \<Rightarrow> int" where
  "milliseconds d = (if 0 \<le> d then d div millisecond else - ((- d) div millisecond))"

record public_web =
  pw_session_poll_interval :: int
  pw_activity_decay :: int
  pw_activity_throttle :: int
  pw_resize_debounce :: int
  pw_initial_delay :: int
  pw_max_delay :: int
  pw_terminal :: web_terminal_config
  pw_max_toasts :: int
  pw_error_lifetime :: int
  pw_warning_lifetime :: int
  pw_info_lifetime :: int

record public_client_config =
  pc_version :: int
  pc_web :: public_web
  pc_files_enabled :: bool
  pc_max_file_size :: int

definition new_public_client_config :: "web_config \<Rightarrow> bool \<Rightarrow> int \<Rightarrow> public_client_config" where
  "new_public_client_config web files_enabled max_file_size =
     \<lparr> pc_version = 1,
       pc_web =
         \<lparr> pw_session_poll_interval = milliseconds (we_session_poll_interval web),
           pw_activity_decay = milliseconds (we_activity_decay web),
           pw_activity_throttle = milliseconds (we_activity_throttle web),
           pw_resize_debounce = milliseconds (we_resize_debounce web),
           pw_initial_delay = milliseconds (rc_initial_delay (we_reconnect web)),
           pw_max_delay = milliseconds (rc_max_delay (we_reconnect web)),
           pw_terminal = we_terminal web,
           pw_max_toasts = nf_max_toasts (we_notifications web),
           pw_error_lifetime = milliseconds (nf_error_lifetime (we_notifications web)),
           pw_warning_lifetime = milliseconds (nf_warning_lifetime (we_notifications web)),
           pw_info_lifetime = milliseconds (nf_info_lifetime (we_notifications web)) \<rparr>,
       pc_files_enabled = files_enabled,
       pc_max_file_size = max_file_size \<rparr>"

section \<open>The configuration as written\<close>

text \<open>The \<open>raw\<close> records of \<open>load.go\<close>: every field may be absent.\<close>

record raw_server_config =
  rsv_addr :: "string option"
  rsv_read_header_timeout :: "duration option"
  rsv_idle_timeout :: "duration option"
  rsv_max_request_body_bytes :: "int option"

record raw_auth_config =
  rau_token :: "string option"
  rau_ticket_ttl :: "duration option"
  rau_ticket_sweep_interval :: "duration option"

record raw_tmux_config =
  rtx_path :: "string option"

record raw_websocket_config =
  rwk_origin :: "string option"
  rwk_max_input_message_bytes :: "int option"
  rwk_control_write_timeout :: "duration option"
  rwk_output_write_timeout :: "duration option"
  rwk_exit_write_timeout :: "duration option"

record raw_terminal_config =
  rte_max_dimension :: "int option"
  rte_staging_buffer_bytes :: "int option"
  rte_output_high_water_bytes :: "int option"
  rte_output_low_water_bytes :: "int option"
  rte_backpressure_poll_interval :: "duration option"

record raw_shutdown_config =
  rsd_attachment_timeout :: "duration option"
  rsd_http_timeout :: "duration option"

record raw_reconnect_config =
  rrc_initial_delay :: "duration option"
  rrc_max_delay :: "duration option"

record raw_web_terminal_config =
  rwt_scrollback :: "int option"
  rwt_font_size :: "int option"
  rwt_min_font_size :: "int option"
  rwt_max_font_size :: "int option"

record raw_notifications_config =
  rnf_max_toasts :: "int option"
  rnf_error_lifetime :: "duration option"
  rnf_warning_lifetime :: "duration option"
  rnf_info_lifetime :: "duration option"

record raw_web_config =
  rwe_session_poll_interval :: "duration option"
  rwe_activity_decay :: "duration option"
  rwe_activity_throttle :: "duration option"
  rwe_resize_debounce :: "duration option"
  rwe_reconnect :: "raw_reconnect_config option"
  rwe_terminal :: "raw_web_terminal_config option"
  rwe_notifications :: "raw_notifications_config option"

record raw_files_config =
  rfc_enabled :: "bool option"
  rfc_roots :: "string list option"
  rfc_max_file_size :: "int option"
  rfc_max_dir_entries :: "int option"

record raw_hosts_config =
  rhc_state_dir :: "string option"
  rhc_master_key_file :: "string option"
  rhc_dial_timeout :: "duration option"
  rhc_handshake_timeout :: "duration option"
  rhc_operation_timeout :: "duration option"
  rhc_keepalive_interval :: "duration option"
  rhc_max_backoff :: "duration option"
  rhc_max_connections :: "int option"

record raw_config =
  rcfg_hosts :: "raw_hosts_config option"
  rcfg_version :: "int option"
  rcfg_server :: "raw_server_config option"
  rcfg_auth :: "raw_auth_config option"
  rcfg_tmux :: "raw_tmux_config option"
  rcfg_websocket :: "raw_websocket_config option"
  rcfg_terminal :: "raw_terminal_config option"
  rcfg_shutdown :: "raw_shutdown_config option"
  rcfg_web :: "raw_web_config option"
  rcfg_files :: "raw_files_config option"

end
