(* ===== verification/ConfigValidate.thy ===== *)
theory ConfigValidate
  imports ConfigModel FileGuard
begin

text \<open>
  \<open>hub/internal/config/validate.go\<close>: the check of the parsed YAML document against the known keys and
  their types, and the check of the effective configuration.  Parsing YAML and URLs is third-party or
  platform work and a parameter; messages are abstracted to the field they name.
\<close>

section \<open>The document\<close>

datatype yaml_kind = DocumentNode | SequenceNode | MappingNode | ScalarNode | AliasNode

datatype yaml = YNode (y_kind: yaml_kind) (y_tag: string) (y_value: string) (y_content: "yaml list")

text \<open>A call of the decoder: a document, the end of the input, or malformed input.\<close>

datatype decoded = Decoded yaml | AtEnd | Garbled

datatype config_error =
    EmptyDocument | MalformedDocument | MultipleDocuments | RootNotMapping | OddMapping
  | DuplicateKey string | UnknownKey string | NullValue string
  | NotMapping string | NotScalar string | NotInteger string | NotDuration string | NotString string
  | NotList string | EntryNotString string nat
  | UnsupportedVersion int | BadField string | BadRoot nat
  | UndecodableDocument | UnreadableFile string | BadArguments | HelpRequested | VersionRequested

definition allowed_root_keys :: "string list" where
  "allowed_root_keys = [''hosts'', ''version'', ''server'', ''auth'', ''tmux'', ''websocket'', ''terminal'', ''shutdown'',
     ''web'', ''files'']"

definition section_allowed_keys :: "string \<Rightarrow> string list option" where
  "section_allowed_keys s =
     (if s = ''hosts'' then Some [''state_dir'', ''master_key_file'', ''dial_timeout'', ''handshake_timeout'',
        ''operation_timeout'', ''keepalive_interval'', ''max_backoff'', ''max_connections'']
      else if s = ''server'' then Some [''addr'', ''read_header_timeout'', ''idle_timeout'', ''max_request_body_bytes'']
      else if s = ''auth'' then Some [''token'', ''ticket_ttl'', ''ticket_sweep_interval'']
      else if s = ''tmux'' then Some [''path'']
      else if s = ''websocket'' then Some [''origin'', ''max_input_message_bytes'', ''control_write_timeout'',
        ''output_write_timeout'', ''exit_write_timeout'']
      else if s = ''terminal'' then Some [''max_dimension'', ''staging_buffer_bytes'', ''output_high_water_bytes'',
        ''output_low_water_bytes'', ''backpressure_poll_interval'']
      else if s = ''shutdown'' then Some [''attachment_timeout'', ''http_timeout'']
      else if s = ''web'' then Some [''session_poll_interval'', ''activity_decay'', ''activity_throttle'',
        ''resize_debounce'', ''reconnect'', ''terminal'', ''notifications'']
      else if s = ''web.reconnect'' then Some [''initial_delay'', ''max_delay'']
      else if s = ''web.terminal'' then Some [''scrollback'', ''font_size'', ''min_font_size'', ''max_font_size'']
      else if s = ''web.notifications'' then Some [''max_toasts'', ''error_lifetime'', ''warning_lifetime'', ''info_lifetime'']
      else if s = ''files'' then Some [''enabled'', ''roots'', ''max_file_size'', ''max_dir_entries'']
      else None)"

definition integer_fields :: "string list" where
  "integer_fields = [''hosts.max_connections'', ''version'', ''server.max_request_body_bytes'',
     ''websocket.max_input_message_bytes'', ''terminal.max_dimension'', ''terminal.staging_buffer_bytes'',
     ''terminal.output_high_water_bytes'', ''terminal.output_low_water_bytes'', ''web.terminal.scrollback'',
     ''web.terminal.font_size'', ''web.terminal.min_font_size'', ''web.terminal.max_font_size'',
     ''web.notifications.max_toasts'', ''files.max_file_size'', ''files.max_dir_entries'']"

definition is_integer_config_field :: "string \<Rightarrow> bool" where
  "is_integer_config_field f \<longleftrightarrow> f \<in> set integer_fields"

definition is_string_list_config_field :: "string \<Rightarrow> bool" where
  "is_string_list_config_field f \<longleftrightarrow> f = ''files.roots''"

definition duration_fields :: "string list" where
  "duration_fields = [''hosts.dial_timeout'', ''hosts.handshake_timeout'', ''hosts.operation_timeout'',
     ''hosts.keepalive_interval'', ''hosts.max_backoff'', ''server.read_header_timeout'', ''server.idle_timeout'',
     ''auth.ticket_ttl'', ''auth.ticket_sweep_interval'', ''websocket.control_write_timeout'',
     ''websocket.output_write_timeout'', ''websocket.exit_write_timeout'', ''terminal.backpressure_poll_interval'',
     ''shutdown.attachment_timeout'', ''shutdown.http_timeout'', ''web.session_poll_interval'', ''web.activity_decay'',
     ''web.activity_throttle'', ''web.resize_debounce'', ''web.reconnect.initial_delay'', ''web.reconnect.max_delay'',
     ''web.notifications.error_lifetime'', ''web.notifications.warning_lifetime'', ''web.notifications.info_lifetime'']"

definition is_duration_config_field :: "string \<Rightarrow> bool" where
  "is_duration_config_field f \<longleftrightarrow> f \<in> set duration_fields"

definition string_fields :: "string list" where
  "string_fields = [''hosts.state_dir'', ''hosts.master_key_file'', ''server.addr'', ''auth.token'', ''tmux.path'',
     ''websocket.origin'']"

fun validate_items :: "string \<Rightarrow> nat \<Rightarrow> yaml list \<Rightarrow> config_error + unit" where
  "validate_items path i [] = Inr ()"
| "validate_items path i (y # ys) =
     (if y_tag y \<noteq> ''!!str'' then Inl (EntryNotString path i) else validate_items path (Suc i) ys)"

definition validate_string_list :: "yaml \<Rightarrow> string \<Rightarrow> config_error + unit" where
  "validate_string_list v path =
     (if y_kind v \<noteq> SequenceNode then Inl (NotList path) else validate_items path 0 (y_content v))"

definition validate_scalar_type :: "yaml \<Rightarrow> string \<Rightarrow> config_error + unit" where
  "validate_scalar_type v path =
     (if is_string_list_config_field path then validate_string_list v path
      else if y_kind v \<noteq> ScalarNode then Inl (NotScalar path)
      else if is_integer_config_field path then ensure (y_tag v = ''!!int'') (NotInteger path)
      else if is_duration_config_field path then ensure (y_tag v = ''!!str'') (NotDuration path)
      else if path \<in> set string_fields then ensure (y_tag v = ''!!str'') (NotString path)
      else Inr ())"

definition is_null :: "yaml \<Rightarrow> bool" where
  "is_null v \<longleftrightarrow> y_tag v = ''!!null'' \<or> y_value v = ''null'' \<or> y_value v = ''~''"

definition full_path :: "string \<Rightarrow> string \<Rightarrow> string" where
  "full_path pre key = (if pre \<noteq> [] then pre @ ''.'' @ key else key)"

lemma yaml_content_size: "size_list size (y_content v) < size v"
  by (cases v) simp

text \<open>The loop of \<open>validateMappingNode\<close> takes keys and values two by two; a lone key would be an index
  out of range.\<close>

function (sequential) validate_mapping :: "string \<Rightarrow> string list \<Rightarrow> string list \<Rightarrow> yaml list \<Rightarrow> config_error + unit"
  and validate_value :: "yaml \<Rightarrow> string \<Rightarrow> config_error + unit" where
  "validate_mapping pre allowed seen [] = Inr ()"
| "validate_mapping pre allowed seen [k] = Inl OddMapping"
| "validate_mapping pre allowed seen (k # v # rest) =
     (let key = y_value k; path = full_path pre key in
      if key \<in> set seen then Inl (DuplicateKey path)
      else if key \<notin> set allowed then Inl (UnknownKey path)
      else if is_null v then Inl (NullValue path)
      else rbind (validate_value v path) (\<lambda>_. validate_mapping pre allowed (key # seen) rest))"
| "validate_value v path =
     (case section_allowed_keys path of
        Some keys \<Rightarrow>
          if y_kind v \<noteq> MappingNode then Inl (NotMapping path) else validate_mapping path keys [] (y_content v)
      | None \<Rightarrow> validate_scalar_type v path)"
  by pat_completeness auto

termination
  by (relation "measure (case_sum (\<lambda>(_, _, _, ys). size_list size ys) (\<lambda>(v, _). size v))")
    (auto simp: yaml_content_size)

definition validate_yaml_document :: "decoded \<Rightarrow> decoded \<Rightarrow> config_error + yaml" where
  "validate_yaml_document doc1 doc2 =
     (case doc1 of
        AtEnd \<Rightarrow> Inl EmptyDocument
      | Garbled \<Rightarrow> Inl MalformedDocument
      | Decoded doc \<Rightarrow>
          (case doc2 of
             Decoded _ \<Rightarrow> Inl MultipleDocuments
           | Garbled \<Rightarrow> Inl MalformedDocument
           | AtEnd \<Rightarrow>
               (case y_content doc of
                  root # _ \<Rightarrow>
                    if y_kind doc = DocumentNode then
                      (if y_kind root \<noteq> MappingNode then Inl RootNotMapping
                       else rbind (validate_mapping [] allowed_root_keys [] (y_content root)) (\<lambda>_. Inr doc))
                    else Inr doc
                | [] \<Rightarrow> Inr doc)))"

section \<open>Addresses, tokens and origins\<close>

text \<open>\<open>net.SplitHostPort\<close>.\<close>

fun last_index :: "char \<Rightarrow> string \<Rightarrow> nat option" where
  "last_index c [] = None"
| "last_index c (d # s) =
     (case last_index c s of Some i \<Rightarrow> Some (Suc i) | None \<Rightarrow> if d = c then Some 0 else None)"

fun first_index :: "char \<Rightarrow> string \<Rightarrow> nat option" where
  "first_index c [] = None"
| "first_index c (d # s) = (if d = c then Some 0 else map_option Suc (first_index c s))"

definition split_host_port :: "string \<Rightarrow> (string \<times> string) option" where
  "split_host_port hp =
     (case last_index CHR '':'' hp of
        None \<Rightarrow> None
      | Some i \<Rightarrow>
          (if hp ! 0 = CHR ''['' then
             (case first_index CHR '']'' hp of
                None \<Rightarrow> None
              | Some e \<Rightarrow>
                  if e + 1 \<noteq> i then None
                  else if CHR ''['' \<in> set (List.drop 1 hp) \<or> CHR '']'' \<in> set (List.drop (e + 1) hp) then None
                  else Some (List.drop 1 (take e hp), List.drop (i + 1) hp))
           else if CHR '':'' \<in> set (take i hp) then None
           else if CHR ''['' \<in> set hp \<or> CHR '']'' \<in> set hp then None
           else Some (take i hp, List.drop (i + 1) hp)))"

record parsed_url =
  pu_scheme :: string
  pu_host :: string
  pu_has_user :: bool
  pu_path :: string
  pu_raw_path :: string
  pu_raw_query :: string
  pu_fragment :: string

text \<open>The platform: URL parsing, link resolution, and \<open>os.Stat\<close> as to whether a path is a directory.\<close>

record platform =
  pf_parse_url :: "string \<Rightarrow> parsed_url option"
  pf_fs :: fs_view
  pf_stat_dir :: "string \<Rightarrow> os_error + bool"

definition header_char :: "char \<Rightarrow> bool" where
  "header_char c \<longleftrightarrow> 33 \<le> (of_char c :: nat) \<and> (of_char c :: nat) \<le> 126"

section \<open>The effective configuration\<close>

definition in_range :: "int \<Rightarrow> int \<Rightarrow> int \<Rightarrow> bool" where
  "in_range x lo hi \<longleftrightarrow> lo \<le> x \<and> x \<le> hi"

abbreviation max_general_duration :: duration where "max_general_duration \<equiv> 24 * 60 * 60 * second"
abbreviation max_browser_duration :: duration where "max_browser_duration \<equiv> 2147483647 * millisecond"

definition validate_duration :: "string \<Rightarrow> duration \<Rightarrow> duration \<Rightarrow> duration \<Rightarrow> config_error + unit" where
  "validate_duration field d lo hi = ensure (in_range d lo hi) (BadField field)"

text \<open>Go's remainder is zero exactly when the quotient is exact.\<close>

definition validate_browser_duration :: "string \<Rightarrow> duration \<Rightarrow> duration \<Rightarrow> duration \<Rightarrow> config_error + unit" where
  "validate_browser_duration field d lo hi =
     rbind (ensure (d mod millisecond = 0) (BadField field)) (\<lambda>_. ensure (in_range d lo hi) (BadField field))"

definition validate_server_config :: "server_config \<Rightarrow> config_error + unit" where
  "validate_server_config s =
     (case split_host_port (sv_addr s) of
        None \<Rightarrow> Inl (BadField ''server.addr'')
      | Some (_, port_str) \<Rightarrow>
          rbind (case atoi port_str of
              None \<Rightarrow> Inl (BadField ''server.addr'')
            | Some port \<Rightarrow> ensure (in_range port 1 65535) (BadField ''server.addr'')) (\<lambda>_.
          rbind (validate_duration ''server.read_header_timeout'' (sv_read_header_timeout s) millisecond max_general_duration) (\<lambda>_.
          rbind (validate_duration ''server.idle_timeout'' (sv_idle_timeout s) millisecond max_general_duration) (\<lambda>_.
            ensure (in_range (sv_max_request_body_bytes s) 1 8388608) (BadField ''server.max_request_body_bytes'')))))"

definition validate_auth_config :: "auth_config \<Rightarrow> config_error + unit" where
  "validate_auth_config a =
     rbind (if au_token a \<noteq> [] then
         rbind (ensure (trim_space (au_token a) = au_token a) (BadField ''auth.token'')) (\<lambda>_.
           ensure (list_all header_char (au_token a)) (BadField ''auth.token''))
       else Inr ()) (\<lambda>_.
     rbind (validate_duration ''auth.ticket_ttl'' (au_ticket_ttl a) millisecond (5 * 60 * second)) (\<lambda>_.
       validate_duration ''auth.ticket_sweep_interval'' (au_ticket_sweep_interval a) millisecond max_general_duration))"

definition validate_origin :: "platform \<Rightarrow> string \<Rightarrow> config_error + unit" where
  "validate_origin pf origin =
     (case pf_parse_url pf origin of
        None \<Rightarrow> Inl (BadField ''websocket.origin'')
      | Some u \<Rightarrow>
          if pu_scheme u \<noteq> ''http'' \<and> pu_scheme u \<noteq> ''https'' then Inl (BadField ''websocket.origin'')
          else if pu_host u = [] then Inl (BadField ''websocket.origin'')
          else if pu_has_user u then Inl (BadField ''websocket.origin'')
          else if pu_path u \<noteq> [] \<or> pu_raw_path u \<noteq> [] \<or> pu_raw_query u \<noteq> [] \<or> pu_fragment u \<noteq> []
            then Inl (BadField ''websocket.origin'')
          else Inr ())"

definition validate_websocket_config :: "platform \<Rightarrow> websocket_config \<Rightarrow> config_error + unit" where
  "validate_websocket_config pf ws =
     rbind (if wk_origin ws \<noteq> [] then validate_origin pf (wk_origin ws) else Inr ()) (\<lambda>_.
     rbind (ensure (in_range (wk_max_input_message_bytes ws) 1 67108864) (BadField ''websocket.max_input_message_bytes'')) (\<lambda>_.
     rbind (validate_duration ''websocket.control_write_timeout'' (wk_control_write_timeout ws) millisecond max_general_duration) (\<lambda>_.
     rbind (validate_duration ''websocket.output_write_timeout'' (wk_output_write_timeout ws) millisecond max_general_duration) (\<lambda>_.
       validate_duration ''websocket.exit_write_timeout'' (wk_exit_write_timeout ws) millisecond max_general_duration))))"

definition validate_terminal_config :: "terminal_config \<Rightarrow> config_error + unit" where
  "validate_terminal_config t =
     rbind (ensure (in_range (te_max_dimension t) 80 65535) (BadField ''terminal.max_dimension'')) (\<lambda>_.
     rbind (ensure (in_range (te_staging_buffer_bytes t) 32768 67108864) (BadField ''terminal.staging_buffer_bytes'')) (\<lambda>_.
     rbind (ensure (in_range (te_output_high_water_bytes t) 1 67108864) (BadField ''terminal.output_high_water_bytes'')) (\<lambda>_.
     rbind (ensure (\<not> (te_output_low_water_bytes t \<le> 0 \<or> te_output_low_water_bytes t \<ge> te_output_high_water_bytes t))
       (BadField ''terminal.output_low_water_bytes'')) (\<lambda>_.
       validate_duration ''terminal.backpressure_poll_interval'' (te_backpressure_poll_interval t) millisecond max_general_duration))))"

definition validate_shutdown_config :: "shutdown_config \<Rightarrow> config_error + unit" where
  "validate_shutdown_config s =
     rbind (validate_duration ''shutdown.attachment_timeout'' (sd_attachment_timeout s) millisecond max_general_duration) (\<lambda>_.
       validate_duration ''shutdown.http_timeout'' (sd_http_timeout s) millisecond max_general_duration)"

definition validate_web_timers :: "web_config \<Rightarrow> config_error + unit" where
  "validate_web_timers w =
     rbind (validate_browser_duration ''web.session_poll_interval'' (we_session_poll_interval w) (100 * millisecond) max_browser_duration) (\<lambda>_.
     rbind (validate_browser_duration ''web.activity_decay'' (we_activity_decay w) (100 * millisecond) (5 * second)) (\<lambda>_.
     rbind (validate_browser_duration ''web.activity_throttle'' (we_activity_throttle w) millisecond (we_activity_decay w)) (\<lambda>_.
     rbind (validate_browser_duration ''web.resize_debounce'' (we_resize_debounce w) millisecond max_browser_duration) (\<lambda>_.
     rbind (validate_browser_duration ''web.reconnect.initial_delay'' (rc_initial_delay (we_reconnect w)) (50 * millisecond)
       (rc_max_delay (we_reconnect w))) (\<lambda>_.
       validate_browser_duration ''web.reconnect.max_delay'' (rc_max_delay (we_reconnect w)) (50 * millisecond) max_browser_duration)))))"

definition validate_web_terminal :: "web_terminal_config \<Rightarrow> config_error + unit" where
  "validate_web_terminal w =
     rbind (ensure (in_range (wt_scrollback w) 0 100000) (BadField ''web.terminal.scrollback'')) (\<lambda>_.
     rbind (ensure (in_range (wt_min_font_size w) 6 72) (BadField ''web.terminal.min_font_size'')) (\<lambda>_.
     rbind (ensure (in_range (wt_max_font_size w) (wt_min_font_size w) 72) (BadField ''web.terminal.max_font_size'')) (\<lambda>_.
       ensure (in_range (wt_font_size w) (wt_min_font_size w) (wt_max_font_size w)) (BadField ''web.terminal.font_size''))))"

definition validate_web_notifications :: "notifications_config \<Rightarrow> config_error + unit" where
  "validate_web_notifications n =
     rbind (ensure (in_range (nf_max_toasts n) 2 100) (BadField ''web.notifications.max_toasts'')) (\<lambda>_.
     rbind (validate_browser_duration ''web.notifications.error_lifetime'' (nf_error_lifetime n) (100 * millisecond) max_browser_duration) (\<lambda>_.
     rbind (validate_browser_duration ''web.notifications.warning_lifetime'' (nf_warning_lifetime n) (100 * millisecond) max_browser_duration) (\<lambda>_.
       validate_browser_duration ''web.notifications.info_lifetime'' (nf_info_lifetime n) (100 * millisecond) max_browser_duration)))"

definition validate_web_config :: "web_config \<Rightarrow> config_error + unit" where
  "validate_web_config w =
     rbind (validate_web_timers w) (\<lambda>_.
     rbind (validate_web_terminal (we_terminal w)) (\<lambda>_. validate_web_notifications (we_notifications w)))"

fun validate_items_durations :: "(string \<times> duration) list \<Rightarrow> config_error + unit" where
  "validate_items_durations [] = Inr ()"
| "validate_items_durations ((name, d) # rest) =
     rbind (validate_duration (''hosts.'' @ name) d millisecond max_general_duration) (\<lambda>_. validate_items_durations rest)"

definition validate_hosts_config :: "hosts_config \<Rightarrow> config_error + unit" where
  "validate_hosts_config h =
     rbind (validate_items_durations [(''dial_timeout'', hc_dial_timeout h), (''handshake_timeout'', hc_handshake_timeout h),
       (''operation_timeout'', hc_operation_timeout h), (''keepalive_interval'', hc_keepalive_interval h),
       (''max_backoff'', hc_max_backoff h)]) (\<lambda>_.
       ensure (in_range (hc_max_connections h) 1 256) (BadField ''hosts.max_connections''))"

definition canonical_root :: "platform \<Rightarrow> string \<Rightarrow> string option" where
  "canonical_root pf root =
     (if \<not> is_abs root then None
      else (case fv_eval (pf_fs pf) (clean root) of
          Inl _ \<Rightarrow> None
        | Inr resolved \<Rightarrow> if pf_stat_dir pf resolved = Inr True then Some resolved else None))"

fun canonical_roots :: "platform \<Rightarrow> nat \<Rightarrow> string list \<Rightarrow> config_error + string list" where
  "canonical_roots pf i [] = Inr []"
| "canonical_roots pf i (r # rs) =
     (case canonical_root pf r of
        None \<Rightarrow> Inl (BadRoot i)
      | Some x \<Rightarrow> rbind (canonical_roots pf (Suc i) rs) (\<lambda>xs. Inr (x # xs)))"

text \<open>The limits, and the roots replaced by what they resolve to.\<close>

definition validate_files_config :: "platform \<Rightarrow> files_config \<Rightarrow> config_error + files_config" where
  "validate_files_config pf f =
     rbind (ensure (\<not> fc_max_file_size f \<le> 0) (BadField ''files.max_file_size'')) (\<lambda>_.
     rbind (ensure (\<not> (fc_max_dir_entries f \<le> 0 \<or> fc_max_dir_entries f > 10000)) (BadField ''files.max_dir_entries'')) (\<lambda>_.
       if \<not> fc_enabled f then Inr f
       else rbind (canonical_roots pf 0 (fc_roots f)) (\<lambda>rs. Inr (f\<lparr>fc_roots := rs\<rparr>))))"

definition validate_config :: "platform \<Rightarrow> config \<Rightarrow> config_error + config" where
  "validate_config pf cfg =
     rbind (ensure (cfg_version cfg = 1) (UnsupportedVersion (cfg_version cfg))) (\<lambda>_.
     rbind (validate_server_config (cfg_server cfg)) (\<lambda>_.
     rbind (validate_auth_config (cfg_auth cfg)) (\<lambda>_.
     rbind (validate_websocket_config pf (cfg_websocket cfg)) (\<lambda>_.
     rbind (validate_terminal_config (cfg_terminal cfg)) (\<lambda>_.
     rbind (validate_shutdown_config (cfg_shutdown cfg)) (\<lambda>_.
     rbind (validate_web_config (cfg_web cfg)) (\<lambda>_.
     rbind (validate_hosts_config (cfg_hosts cfg)) (\<lambda>_.
     rbind (validate_files_config pf (cfg_files cfg)) (\<lambda>f. Inr (cfg\<lparr>cfg_files := f\<rparr>))))))))))"

end
