(* ===== verification/ConfigLoad.thy ===== *)
theory ConfigLoad
  imports ConfigValidate
begin

text \<open>
  \<open>hub/internal/config/load.go\<close>: the command line (the parsing of Go's \<open>flag\<close> package, for the five
  flags defined), the configuration file, the environment and their precedence.  Reading a file, the
  YAML decoder and the environment are parameters.
\<close>

section \<open>The command line\<close>

record flags =
  fl_help :: bool
  fl_h :: bool
  fl_version :: bool
  fl_config :: "string option"
  fl_addr :: "string option"

definition no_flags :: flags where
  "no_flags = \<lparr> fl_help = False, fl_h = False, fl_version = False, fl_config = None, fl_addr = None \<rparr>"

text \<open>\<open>strconv.ParseBool\<close>.\<close>

definition parse_bool :: "string \<Rightarrow> bool option" where
  "parse_bool s =
     (if s \<in> set [''1'', ''t'', ''T'', ''TRUE'', ''true'', ''True''] then Some True
      else if s \<in> set [''0'', ''f'', ''F'', ''FALSE'', ''false'', ''False''] then Some False
      else None)"

text \<open>A flag's name, and its value when there is one after an equals sign.\<close>

definition split_flag :: "string \<Rightarrow> string \<times> string option" where
  "split_flag s =
     (case dropWhile (\<lambda>c. c \<noteq> CHR ''='') s of [] \<Rightarrow> (s, None) | _ # v \<Rightarrow> (takeWhile (\<lambda>c. c \<noteq> CHR ''='') s, Some v))"

definition set_bool :: "string \<Rightarrow> bool \<Rightarrow> flags \<Rightarrow> flags option" where
  "set_bool name b fl =
     (if name = ''help'' then Some (fl\<lparr>fl_help := b\<rparr>)
      else if name = ''h'' then Some (fl\<lparr>fl_h := b\<rparr>)
      else if name = ''version'' then Some (fl\<lparr>fl_version := b\<rparr>)
      else None)"

definition set_string :: "string \<Rightarrow> string \<Rightarrow> flags \<Rightarrow> flags option" where
  "set_string name v fl =
     (if name = ''config'' then Some (fl\<lparr>fl_config := Some v\<rparr>)
      else if name = ''addr'' then Some (fl\<lparr>fl_addr := Some v\<rparr>)
      else None)"

definition is_bool_flag :: "string \<Rightarrow> bool" where
  "is_bool_flag name \<longleftrightarrow> name \<in> set [''help'', ''h'', ''version'']"

fun parse_flags :: "flags \<Rightarrow> string list \<Rightarrow> config_error + flags" where
  "parse_flags fl [] = Inr fl"
| "parse_flags fl (s # args) =
     (if length s < 2 \<or> hd s \<noteq> CHR ''-'' then Inr fl
      else if s = ''--'' then Inr fl
      else
        (let body = List.drop (if s ! 1 = CHR ''-'' then 2 else 1) s in
         if hd body = CHR ''-'' \<or> hd body = CHR ''='' then Inl BadArguments
         else
           (case split_flag body of (name, val) \<Rightarrow>
              if is_bool_flag name then
                (case (case val of None \<Rightarrow> Some True | Some v \<Rightarrow> parse_bool v) of
                   None \<Rightarrow> Inl BadArguments
                 | Some b \<Rightarrow> (case set_bool name b fl of None \<Rightarrow> Inl BadArguments | Some fl' \<Rightarrow> parse_flags fl' args))
              else
                (case val of
                   Some v \<Rightarrow>
                     (case set_string name v fl of None \<Rightarrow> Inl BadArguments | Some fl' \<Rightarrow> parse_flags fl' args)
                 | None \<Rightarrow>
                     (case args of
                        [] \<Rightarrow> Inl BadArguments
                      | v # args' \<Rightarrow>
                          (case set_string name v fl of None \<Rightarrow> Inl BadArguments | Some fl' \<Rightarrow> parse_flags fl' args'))))))"

definition parse_command_line_flags :: "string list \<Rightarrow> config_error + flags" where
  "parse_command_line_flags args =
     rbind (parse_flags no_flags args) (\<lambda>fl.
       if fl_help fl \<or> fl_h fl then Inl HelpRequested
       else if fl_version fl then Inl VersionRequested
       else Inr fl)"

section \<open>The file\<close>

record loader =
  ld_platform :: platform
  ld_read_file :: "string \<Rightarrow> os_error + string"
  ld_documents :: "string \<Rightarrow> decoded \<times> decoded"
  ld_decode :: "yaml \<Rightarrow> raw_config option"
  ld_env :: "string \<Rightarrow> string option"

definition explicit_path :: "loader \<Rightarrow> flags \<Rightarrow> string option" where
  "explicit_path ld fl =
     (case fl_config fl of
        Some p \<Rightarrow> Some p
      | None \<Rightarrow>
          (case ld_env ld ''VISUAL_TMUX_CLIENT_CONFIG'' of
             Some p \<Rightarrow> if p \<noteq> [] then Some p else None
           | None \<Rightarrow> None))"

text \<open>The path, the data when there is a file, and whether it was asked for.\<close>

definition read_config_file :: "loader \<Rightarrow> string \<Rightarrow> flags \<Rightarrow> config_error + (string \<times> string option \<times> bool)" where
  "read_config_file ld work_dir fl =
     (case explicit_path ld fl of
        Some p \<Rightarrow>
          (let q = (if is_abs p then p else join_path [work_dir, p]) in
           case ld_read_file ld q of Inl _ \<Rightarrow> Inl (UnreadableFile p) | Inr text \<Rightarrow> Inr (q, Some text, True))
      | None \<Rightarrow>
          (let q = join_path [work_dir, ''visual-tmux-client.yaml''] in
           case ld_read_file ld q of
             Inr text \<Rightarrow> Inr (q, Some text, False)
           | Inl e \<Rightarrow> if e = NotExist then Inr ([], None, False) else Inl (UnreadableFile ''visual-tmux-client.yaml'')))"

section \<open>Values from the file\<close>

definition or_else :: "'a option \<Rightarrow> 'a \<Rightarrow> 'a" where
  "or_else x d = (case x of None \<Rightarrow> d | Some y \<Rightarrow> y)"

definition resolve_path :: "string \<Rightarrow> string \<Rightarrow> string" where
  "resolve_path dir p = (if p \<noteq> [] \<and> \<not> is_abs p then clean (join_path [dir, p]) else p)"

definition apply_server_yaml :: "config \<times> provenance \<Rightarrow> raw_server_config option \<Rightarrow> config \<times> provenance" where
  "apply_server_yaml cp raw =
     (case cp of (cfg, prov) \<Rightarrow>
      (case raw of
         None \<Rightarrow> (cfg, prov)
       | Some s \<Rightarrow> (let old = cfg_server cfg in
           (cfg\<lparr> cfg_server :=
              \<lparr> sv_addr = or_else (rsv_addr s) (sv_addr old),
                sv_read_header_timeout = or_else (rsv_read_header_timeout s) (sv_read_header_timeout old),
                sv_idle_timeout = or_else (rsv_idle_timeout s) (sv_idle_timeout old),
                sv_max_request_body_bytes = or_else (rsv_max_request_body_bytes s) (sv_max_request_body_bytes old) \<rparr> \<rparr>,
            if rsv_addr s \<noteq> None then prov\<lparr>pv_addr := SourceYAML\<rparr> else prov))))"

definition apply_auth_yaml :: "config \<times> provenance \<Rightarrow> raw_auth_config option \<Rightarrow> config \<times> provenance" where
  "apply_auth_yaml cp raw =
     (case cp of (cfg, prov) \<Rightarrow>
      (case raw of
         None \<Rightarrow> (cfg, prov)
       | Some a \<Rightarrow> (let old = cfg_auth cfg in
           (cfg\<lparr> cfg_auth :=
              \<lparr> au_token = or_else (rau_token a) (au_token old),
                au_ticket_ttl = or_else (rau_ticket_ttl a) (au_ticket_ttl old),
                au_ticket_sweep_interval = or_else (rau_ticket_sweep_interval a) (au_ticket_sweep_interval old) \<rparr> \<rparr>,
            if rau_token a \<noteq> None then prov\<lparr>pv_token := SourceYAML\<rparr> else prov))))"

definition apply_tmux_yaml :: "config \<times> provenance \<Rightarrow> raw_tmux_config option \<Rightarrow> string \<Rightarrow> config \<times> provenance" where
  "apply_tmux_yaml cp raw dir =
     (case cp of (cfg, prov) \<Rightarrow>
      (case raw of
         None \<Rightarrow> (cfg, prov)
       | Some t \<Rightarrow>
           (case rtx_path t of
              None \<Rightarrow> (cfg, prov)
            | Some p \<Rightarrow> (cfg\<lparr>cfg_tmux := \<lparr>tx_path = resolve_path dir p\<rparr>\<rparr>, prov\<lparr>pv_tmux_path := SourceYAML\<rparr>))))"

definition apply_websocket_yaml :: "config \<times> provenance \<Rightarrow> raw_websocket_config option \<Rightarrow> config \<times> provenance" where
  "apply_websocket_yaml cp raw =
     (case cp of (cfg, prov) \<Rightarrow>
      (case raw of
         None \<Rightarrow> (cfg, prov)
       | Some s \<Rightarrow> (let old = cfg_websocket cfg in
           (cfg\<lparr> cfg_websocket :=
              \<lparr> wk_origin = or_else (rwk_origin s) (wk_origin old),
                wk_max_input_message_bytes = or_else (rwk_max_input_message_bytes s) (wk_max_input_message_bytes old),
                wk_control_write_timeout = or_else (rwk_control_write_timeout s) (wk_control_write_timeout old),
                wk_output_write_timeout = or_else (rwk_output_write_timeout s) (wk_output_write_timeout old),
                wk_exit_write_timeout = or_else (rwk_exit_write_timeout s) (wk_exit_write_timeout old) \<rparr> \<rparr>,
            if rwk_origin s \<noteq> None then prov\<lparr>pv_origin := SourceYAML\<rparr> else prov))))"

definition apply_terminal_yaml :: "config \<Rightarrow> raw_terminal_config option \<Rightarrow> config" where
  "apply_terminal_yaml cfg raw =
     (case raw of
        None \<Rightarrow> cfg
      | Some s \<Rightarrow> (let old = cfg_terminal cfg in
          cfg\<lparr> cfg_terminal :=
         \<lparr> te_max_dimension = or_else (rte_max_dimension s) (te_max_dimension old),
           te_staging_buffer_bytes = or_else (rte_staging_buffer_bytes s) (te_staging_buffer_bytes old),
           te_output_high_water_bytes = or_else (rte_output_high_water_bytes s) (te_output_high_water_bytes old),
           te_output_low_water_bytes = or_else (rte_output_low_water_bytes s) (te_output_low_water_bytes old),
           te_backpressure_poll_interval = or_else (rte_backpressure_poll_interval s) (te_backpressure_poll_interval old) \<rparr> \<rparr>))"

definition apply_shutdown_yaml :: "config \<Rightarrow> raw_shutdown_config option \<Rightarrow> config" where
  "apply_shutdown_yaml cfg raw =
     (case raw of
        None \<Rightarrow> cfg
      | Some s \<Rightarrow> (let old = cfg_shutdown cfg in
          cfg\<lparr> cfg_shutdown :=
         \<lparr> sd_attachment_timeout = or_else (rsd_attachment_timeout s) (sd_attachment_timeout old),
           sd_http_timeout = or_else (rsd_http_timeout s) (sd_http_timeout old) \<rparr> \<rparr>))"

definition apply_files_yaml :: "config \<Rightarrow> raw_files_config option \<Rightarrow> config" where
  "apply_files_yaml cfg raw =
     (case raw of
        None \<Rightarrow> cfg
      | Some s \<Rightarrow> (let old = cfg_files cfg in
          cfg\<lparr> cfg_files :=
         \<lparr> fc_enabled = or_else (rfc_enabled s) (fc_enabled old),
           fc_roots = or_else (rfc_roots s) (fc_roots old),
           fc_max_file_size = or_else (rfc_max_file_size s) (fc_max_file_size old),
           fc_max_dir_entries = or_else (rfc_max_dir_entries s) (fc_max_dir_entries old) \<rparr> \<rparr>))"

definition apply_web_reconnect_yaml :: "web_config \<Rightarrow> raw_reconnect_config option \<Rightarrow> web_config" where
  "apply_web_reconnect_yaml web raw =
     (case raw of
        None \<Rightarrow> web
      | Some r \<Rightarrow> (let old = we_reconnect web in
          web\<lparr> we_reconnect :=
            \<lparr> rc_initial_delay = or_else (rrc_initial_delay r) (rc_initial_delay old),
              rc_max_delay = or_else (rrc_max_delay r) (rc_max_delay old) \<rparr> \<rparr>))"

definition apply_web_terminal_yaml :: "web_config \<Rightarrow> raw_web_terminal_config option \<Rightarrow> web_config" where
  "apply_web_terminal_yaml web raw =
     (case raw of
        None \<Rightarrow> web
      | Some t \<Rightarrow> (let old = we_terminal web in
          web\<lparr> we_terminal :=
            \<lparr> wt_scrollback = or_else (rwt_scrollback t) (wt_scrollback old),
              wt_font_size = or_else (rwt_font_size t) (wt_font_size old),
              wt_min_font_size = or_else (rwt_min_font_size t) (wt_min_font_size old),
              wt_max_font_size = or_else (rwt_max_font_size t) (wt_max_font_size old) \<rparr> \<rparr>))"

definition apply_web_notifications_yaml :: "web_config \<Rightarrow> raw_notifications_config option \<Rightarrow> web_config" where
  "apply_web_notifications_yaml web raw =
     (case raw of
        None \<Rightarrow> web
      | Some n \<Rightarrow> (let old = we_notifications web in
          web\<lparr> we_notifications :=
            \<lparr> nf_max_toasts = or_else (rnf_max_toasts n) (nf_max_toasts old),
              nf_error_lifetime = or_else (rnf_error_lifetime n) (nf_error_lifetime old),
              nf_warning_lifetime = or_else (rnf_warning_lifetime n) (nf_warning_lifetime old),
              nf_info_lifetime = or_else (rnf_info_lifetime n) (nf_info_lifetime old) \<rparr> \<rparr>))"

definition apply_web_yaml :: "config \<Rightarrow> raw_web_config option \<Rightarrow> config" where
  "apply_web_yaml cfg raw =
     (case raw of
        None \<Rightarrow> cfg
      | Some w \<Rightarrow> (let old = cfg_web cfg;
            timers = old\<lparr> we_session_poll_interval := or_else (rwe_session_poll_interval w) (we_session_poll_interval old),
              we_activity_decay := or_else (rwe_activity_decay w) (we_activity_decay old),
              we_activity_throttle := or_else (rwe_activity_throttle w) (we_activity_throttle old),
              we_resize_debounce := or_else (rwe_resize_debounce w) (we_resize_debounce old) \<rparr> in
          cfg\<lparr> cfg_web := apply_web_notifications_yaml (apply_web_terminal_yaml
            (apply_web_reconnect_yaml timers (rwe_reconnect w)) (rwe_terminal w)) (rwe_notifications w) \<rparr>))"

definition apply_hosts_yaml :: "config \<Rightarrow> raw_hosts_config option \<Rightarrow> string \<Rightarrow> config" where
  "apply_hosts_yaml cfg raw dir =
     (case raw of
        None \<Rightarrow> cfg
      | Some h \<Rightarrow> (let old = cfg_hosts cfg; place = (\<lambda>p. if p \<noteq> [] \<and> \<not> is_abs p then join_path [dir, p] else p) in
          cfg\<lparr> cfg_hosts :=
            \<lparr> hc_state_dir = or_else (map_option place (rhc_state_dir h)) (hc_state_dir old),
              hc_master_key_file = or_else (map_option place (rhc_master_key_file h)) (hc_master_key_file old),
              hc_dial_timeout = or_else (rhc_dial_timeout h) (hc_dial_timeout old),
              hc_handshake_timeout = or_else (rhc_handshake_timeout h) (hc_handshake_timeout old),
              hc_operation_timeout = or_else (rhc_operation_timeout h) (hc_operation_timeout old),
              hc_keepalive_interval = or_else (rhc_keepalive_interval h) (hc_keepalive_interval old),
              hc_max_backoff = or_else (rhc_max_backoff h) (hc_max_backoff old),
              hc_max_connections = or_else (rhc_max_connections h) (hc_max_connections old) \<rparr> \<rparr>))"

definition apply_raw :: "config \<times> provenance \<Rightarrow> raw_config \<Rightarrow> string \<Rightarrow> config \<times> provenance" where
  "apply_raw cp raw dir =
     (let cp1 = (case cp of (cfg, prov) \<Rightarrow> (cfg\<lparr>cfg_version := or_else (rcfg_version raw) 1\<rparr>, prov));
          cp2 = apply_server_yaml cp1 (rcfg_server raw);
          cp3 = apply_auth_yaml cp2 (rcfg_auth raw);
          cp4 = apply_tmux_yaml cp3 (rcfg_tmux raw) dir in
      (case apply_websocket_yaml cp4 (rcfg_websocket raw) of (cfg, prov) \<Rightarrow>
        (apply_hosts_yaml (apply_files_yaml (apply_web_yaml (apply_shutdown_yaml (apply_terminal_yaml cfg
          (rcfg_terminal raw)) (rcfg_shutdown raw)) (rcfg_web raw)) (rcfg_files raw)) (rcfg_hosts raw) dir, prov)))"

definition apply_yaml :: "loader \<Rightarrow> config \<times> provenance \<Rightarrow> string \<Rightarrow> string \<Rightarrow> config_error + (config \<times> provenance)" where
  "apply_yaml ld cp text dir =
     (case ld_documents ld text of (d1, d2) \<Rightarrow>
       rbind (validate_yaml_document d1 d2) (\<lambda>doc.
         case ld_decode ld doc of None \<Rightarrow> Inl UndecodableDocument | Some raw \<Rightarrow> Inr (apply_raw cp raw dir)))"

section \<open>Values from the environment\<close>

definition env_source :: "string option \<Rightarrow> source \<Rightarrow> source" where
  "env_source v old = (case v of None \<Rightarrow> old | Some _ \<Rightarrow> SourceEnvironment)"

definition apply_env :: "loader \<Rightarrow> string \<Rightarrow> config \<times> provenance \<Rightarrow> config \<times> provenance" where
  "apply_env ld work_dir cp =
     (case cp of (cfg, prov) \<Rightarrow>
      (let addr = ld_env ld ''VISUAL_TMUX_CLIENT_ADDR''; token = ld_env ld ''VISUAL_TMUX_CLIENT_TOKEN'';
           origin = ld_env ld ''VISUAL_TMUX_CLIENT_ORIGIN''; tmux = ld_env ld ''VISUAL_TMUX_CLIENT_TMUX_PATH'';
           state_dir = ld_env ld ''VISUAL_TMUX_CLIENT_HOSTS_STATE_DIR'';
           key_file = ld_env ld ''VISUAL_TMUX_CLIENT_HOSTS_MASTER_KEY_FILE'' in
       (cfg\<lparr> cfg_server := (cfg_server cfg)\<lparr>sv_addr := or_else addr (sv_addr (cfg_server cfg))\<rparr>,
             cfg_auth := (cfg_auth cfg)\<lparr>au_token := or_else token (au_token (cfg_auth cfg))\<rparr>,
             cfg_websocket := (cfg_websocket cfg)\<lparr>wk_origin := or_else origin (wk_origin (cfg_websocket cfg))\<rparr>,
             cfg_tmux := (cfg_tmux cfg)\<lparr>tx_path := or_else (map_option (resolve_path work_dir) tmux) (tx_path (cfg_tmux cfg))\<rparr>,
             cfg_hosts := (cfg_hosts cfg)
               \<lparr> hc_state_dir := or_else (map_option (resolve_path work_dir) state_dir) (hc_state_dir (cfg_hosts cfg)),
                 hc_master_key_file := or_else (map_option (resolve_path work_dir) key_file) (hc_master_key_file (cfg_hosts cfg)) \<rparr> \<rparr>,
        prov\<lparr> pv_addr := env_source addr (pv_addr prov), pv_token := env_source token (pv_token prov),
              pv_origin := env_source origin (pv_origin prov), pv_tmux_path := env_source tmux (pv_tmux_path prov) \<rparr>)))"

section \<open>Loading\<close>

definition default_provenance :: provenance where
  "default_provenance = \<lparr> pv_config_file = [], pv_explicit_config = False, pv_addr = SourceDefault,
     pv_token = SourceDefault, pv_origin = SourceDefault, pv_tmux_path = SourceDefault \<rparr>"

definition from_file :: "loader \<Rightarrow> string \<times> string option \<times> bool \<Rightarrow> config_error + (config \<times> provenance)" where
  "from_file ld file_read =
     (case file_read of (path, text, explicit) \<Rightarrow>
        (case text of
           None \<Rightarrow> Inr (default_config, default_provenance\<lparr>pv_explicit_config := explicit\<rparr>)
         | Some t \<Rightarrow> apply_yaml ld
             (default_config, default_provenance\<lparr>pv_explicit_config := explicit, pv_config_file := path\<rparr>) t (dir_of path)))"

definition apply_cli :: "flags \<Rightarrow> config \<times> provenance \<Rightarrow> config \<times> provenance" where
  "apply_cli fl cp =
     (case cp of (cfg, prov) \<Rightarrow>
        (case fl_addr fl of
           None \<Rightarrow> (cfg, prov)
         | Some a \<Rightarrow> (cfg\<lparr>cfg_server := (cfg_server cfg)\<lparr>sv_addr := a\<rparr>\<rparr>, prov\<lparr>pv_addr := SourceCLI\<rparr>)))"

definition load :: "loader \<Rightarrow> string list \<Rightarrow> string \<Rightarrow> config_error + (config \<times> provenance)" where
  "load ld args work_dir =
     rbind (parse_command_line_flags args) (\<lambda>fl.
     rbind (read_config_file ld work_dir fl) (\<lambda>file_read.
     rbind (from_file ld file_read) (\<lambda>cp.
       (case apply_cli fl (apply_env ld work_dir cp) of (cfg, prov) \<Rightarrow>
          rbind (validate_config (ld_platform ld) cfg) (\<lambda>cfg.
            Inr (cfg, if au_token (cfg_auth cfg) = [] then prov\<lparr>pv_token := SourceGenerated\<rparr> else prov))))))"

end
