(* ===== verification/ConfigSafety.thy ===== *)
theory ConfigSafety
  imports ConfigLoad
begin

text \<open>
  What a loaded configuration guarantees: the document check is a type check against one schema, every
  value of a loaded configuration is in range, values come from the command line, the environment, the
  file and the defaults in that order, and the browser's copy loses nothing.
\<close>

section \<open>A schema\<close>

datatype schema =
    IntField | DurationField | StringField | OpenField | StringListField
  | Section "(string \<times> schema) list"

definition config_fields :: "(string \<times> schema) list" where
  "config_fields =
     [(''hosts'', Section [(''state_dir'', StringField), (''master_key_file'', StringField), (''dial_timeout'', DurationField),
        (''handshake_timeout'', DurationField), (''operation_timeout'', DurationField),
        (''keepalive_interval'', DurationField), (''max_backoff'', DurationField), (''max_connections'', IntField)]),
      (''version'', IntField),
      (''server'', Section [(''addr'', StringField), (''read_header_timeout'', DurationField),
        (''idle_timeout'', DurationField), (''max_request_body_bytes'', IntField)]),
      (''auth'', Section [(''token'', StringField), (''ticket_ttl'', DurationField), (''ticket_sweep_interval'', DurationField)]),
      (''tmux'', Section [(''path'', StringField)]),
      (''websocket'', Section [(''origin'', StringField), (''max_input_message_bytes'', IntField),
        (''control_write_timeout'', DurationField), (''output_write_timeout'', DurationField),
        (''exit_write_timeout'', DurationField)]),
      (''terminal'', Section [(''max_dimension'', IntField), (''staging_buffer_bytes'', IntField),
        (''output_high_water_bytes'', IntField), (''output_low_water_bytes'', IntField),
        (''backpressure_poll_interval'', DurationField)]),
      (''shutdown'', Section [(''attachment_timeout'', DurationField), (''http_timeout'', DurationField)]),
      (''web'', Section [(''session_poll_interval'', DurationField), (''activity_decay'', DurationField),
        (''activity_throttle'', DurationField), (''resize_debounce'', DurationField),
        (''reconnect'', Section [(''initial_delay'', DurationField), (''max_delay'', DurationField)]),
        (''terminal'', Section [(''scrollback'', IntField), (''font_size'', IntField), (''min_font_size'', IntField),
          (''max_font_size'', IntField)]),
        (''notifications'', Section [(''max_toasts'', IntField), (''error_lifetime'', DurationField),
          (''warning_lifetime'', DurationField), (''info_lifetime'', DurationField)])]),
      (''files'', Section [(''enabled'', OpenField), (''roots'', StringListField), (''max_file_size'', IntField),
        (''max_dir_entries'', IntField)])]"

text \<open>A node of a type: the fields of a section are known, distinct, not null and of their types.\<close>

definition flat :: "(yaml \<times> yaml) list \<Rightarrow> yaml list" where
  "flat es = concat (map (\<lambda>(k, x). [k, x]) es)"

inductive well_typed :: "schema \<Rightarrow> yaml \<Rightarrow> bool" where
  integer: "y_kind v = ScalarNode \<Longrightarrow> y_tag v = ''!!int'' \<Longrightarrow> well_typed IntField v"
| duration: "y_kind v = ScalarNode \<Longrightarrow> y_tag v = ''!!str'' \<Longrightarrow> well_typed DurationField v"
| text_field: "y_kind v = ScalarNode \<Longrightarrow> y_tag v = ''!!str'' \<Longrightarrow> well_typed StringField v"
| open_field: "y_kind v = ScalarNode \<Longrightarrow> well_typed OpenField v"
| texts: "y_kind v = SequenceNode \<Longrightarrow> list_all (\<lambda>i. y_tag i = ''!!str'') (y_content v) \<Longrightarrow> well_typed StringListField v"
| fields: "y_kind v = MappingNode \<Longrightarrow> y_content v = flat es \<Longrightarrow> distinct (map (\<lambda>e. y_value (fst e)) es)
    \<Longrightarrow> (\<forall>e \<in> set es. \<not> is_null (snd e) \<and> (\<exists>s. map_of fs (y_value (fst e)) = Some s \<and> well_typed s (snd e)))
    \<Longrightarrow> well_typed (Section fs) v"

inductive_simps well_typed_simps:
  "well_typed IntField v" "well_typed DurationField v" "well_typed StringField v" "well_typed OpenField v"
  "well_typed StringListField v" "well_typed (Section fs) v"

text \<open>The classification of a path by the code is the schema's.\<close>

fun agrees :: "string \<Rightarrow> schema \<Rightarrow> bool" and agrees_fields :: "string \<Rightarrow> (string \<times> schema) list \<Rightarrow> bool" where
  "agrees path IntField \<longleftrightarrow> section_allowed_keys path = None \<and> \<not> is_string_list_config_field path
     \<and> is_integer_config_field path"
| "agrees path DurationField \<longleftrightarrow> section_allowed_keys path = None \<and> \<not> is_string_list_config_field path
     \<and> \<not> is_integer_config_field path \<and> is_duration_config_field path"
| "agrees path StringField \<longleftrightarrow> section_allowed_keys path = None \<and> \<not> is_string_list_config_field path
     \<and> \<not> is_integer_config_field path \<and> \<not> is_duration_config_field path \<and> path \<in> set string_fields"
| "agrees path OpenField \<longleftrightarrow> section_allowed_keys path = None \<and> \<not> is_string_list_config_field path
     \<and> \<not> is_integer_config_field path \<and> \<not> is_duration_config_field path \<and> path \<notin> set string_fields"
| "agrees path StringListField \<longleftrightarrow> section_allowed_keys path = None \<and> is_string_list_config_field path"
| "agrees path (Section fs) \<longleftrightarrow> section_allowed_keys path = Some (map fst fs) \<and> agrees_fields path fs"
| "agrees_fields path [] \<longleftrightarrow> True"
| "agrees_fields path ((k, s) # fs) \<longleftrightarrow> agrees (full_path path k) s \<and> agrees_fields path fs"

lemma schema_agrees: "map fst config_fields = allowed_root_keys" "agrees_fields [] config_fields"
  by code_simp+

lemma agrees_field: "agrees_fields path fs \<Longrightarrow> map_of fs k = Some s \<Longrightarrow> agrees (full_path path k) s"
  by (induction fs) (auto split: if_splits)

lemma validate_items_ok: "validate_items path i ys = Inr () \<longleftrightarrow> list_all (\<lambda>y. y_tag y = ''!!str'') ys"
  by (induction ys arbitrary: i) auto

lemma flat_simps [simp]: "flat [] = []" "flat ((k, x) # es) = k # x # flat es"
  by (simp_all add: flat_def)

lemma flat_Nil [simp]: "[] = flat es \<longleftrightarrow> es = []"
  by (cases es) auto

lemma flat_single [simp]: "[k] = flat es \<longleftrightarrow> False"
  by (cases es) auto

lemma flat_Cons: "k # v # ys = flat es \<longleftrightarrow> (\<exists>es'. es = (k, v) # es' \<and> ys = flat es')"
  by (cases es) auto

lemma map_of_keys: "k \<in> set (map fst fs) \<longleftrightarrow> (\<exists>s. map_of fs k = Some s)"
  by (metis map_of_eq_None_iff not_None_eq list.set_map)

text \<open>The check of a mapping accepts exactly the well-typed entries, with keys not seen before.\<close>

lemma validate_typed:
  "agrees_fields pre fs \<Longrightarrow> allowed = map fst fs \<Longrightarrow>
     validate_mapping pre allowed seen ys = Inr () \<longleftrightarrow>
     (\<exists>es. ys = flat es \<and> distinct (map (\<lambda>e. y_value (fst e)) es)
        \<and> (\<forall>e \<in> set es. y_value (fst e) \<notin> set seen \<and> \<not> is_null (snd e)
             \<and> (\<exists>s. map_of fs (y_value (fst e)) = Some s \<and> well_typed s (snd e))))"
  "agrees path s \<Longrightarrow> validate_value v path = Inr () \<longleftrightarrow> well_typed s v"
proof (induction pre allowed seen ys and v path arbitrary: fs and s rule: validate_mapping_validate_value.induct)
  case (1 pre allowed seen)
  then show ?case by auto
next
  case (2 pre allowed seen k)
  then show ?case by simp
next
  case (3 pre allowed seen k v rest)
  let ?key = "y_value k" and ?path = "full_path pre (y_value k)"
  let ?fine = "\<lambda>seen es. distinct (map (\<lambda>e. y_value (fst e)) es)
    \<and> (\<forall>e \<in> set es. y_value (fst e) \<notin> set seen \<and> \<not> is_null (snd e)
         \<and> (\<exists>s. map_of fs (y_value (fst e)) = Some s \<and> well_typed s (snd e)))"
  define G where "G = (\<lambda>e. \<not> is_null (snd e) \<and> (\<exists>s. map_of fs (y_value (fst e)) = Some s \<and> well_typed s (snd e)))"
  have fine: "?fine seen es \<longleftrightarrow> distinct (map (\<lambda>e. y_value (fst e)) es) \<and> (\<forall>e \<in> set es. y_value (fst e) \<notin> set seen \<and> G e)"
    for seen es by (simp add: G_def)
  have here: "(\<exists>es. k # v # rest = flat es \<and> ?fine seen es) \<longleftrightarrow>
      (?key \<notin> set seen \<and> \<not> is_null v \<and> (\<exists>s. map_of fs ?key = Some s \<and> well_typed s v)
       \<and> (\<exists>es. rest = flat es \<and> ?fine (?key # seen) es))" (is "?L \<longleftrightarrow> ?R")
  proof
    assume ?L
    then obtain es where "rest = flat es" "?fine seen ((k, v) # es)" unfolding flat_Cons by blast
    then have "rest = flat es \<and> ?fine (?key # seen) es \<and> ?key \<notin> set seen \<and> G (k, v)"
      unfolding fine by (force simp: image_iff)
    then show ?R unfolding G_def by auto
  next
    assume ?R
    then obtain es where "rest = flat es" "?fine (?key # seen) es" "?key \<notin> set seen" "G (k, v)"
      unfolding G_def by auto
    then have "k # v # rest = flat ((k, v) # es) \<and> ?fine seen ((k, v) # es)" unfolding fine by auto
    then show ?L by blast
  qed
  show ?case
  proof (cases "?key \<in> set seen \<or> ?key \<notin> set allowed \<or> is_null v")
    case True
    then have "\<not> (?key \<notin> set seen \<and> \<not> is_null v \<and> (\<exists>s. map_of fs ?key = Some s \<and> well_typed s v))"
      unfolding 3(4) map_of_keys by blast
    moreover have "validate_mapping pre allowed seen (k # v # rest) \<noteq> Inr ()" using True by (auto simp: Let_def)
    ultimately show ?thesis unfolding here by blast
  next
    case False
    then obtain s where s: "map_of fs ?key = Some s" using 3(4) map_of_keys [of ?key fs] by auto
    have "validate_value v ?path = Inr () \<longleftrightarrow> well_typed s v"
      by (rule 3(1) [OF refl refl]) (use False agrees_field [OF 3(3) s] in \<open>auto\<close>)
    moreover have "validate_mapping pre allowed (?key # seen) rest = Inr () \<longleftrightarrow> (\<exists>es. rest = flat es \<and> ?fine (?key # seen) es)"
      by (rule 3(2) [OF refl refl]) (use False 3(3,4) in \<open>auto\<close>)
    ultimately show ?thesis
      unfolding here using False s by (simp add: Let_def)
  qed
next
  case (4 v path)
  show ?case
  proof (cases s)
    case (Section fs)
    then have sec: "section_allowed_keys path = Some (map fst fs)" "agrees_fields path fs" using 4(2) by simp_all
    have "validate_mapping path (map fst fs) [] (y_content v) = Inr () \<longleftrightarrow>
      (\<exists>es. y_content v = flat es \<and> distinct (map (\<lambda>e. y_value (fst e)) es)
        \<and> (\<forall>e \<in> set es. \<not> is_null (snd e)
             \<and> (\<exists>s. map_of fs (y_value (fst e)) = Some s \<and> well_typed s (snd e))))" if "y_kind v = MappingNode"
      using 4(1) [OF sec(1) _ sec(2) refl] that by simp
    with sec Section show ?thesis by (auto simp: well_typed_simps)
  qed (use 4(2) in \<open>auto simp: validate_scalar_type_def validate_string_list_def validate_items_ok well_typed_simps\<close>)
qed

text \<open>C14: The document check of ValidateYAMLDocument is a type check.  It accepts a document exactly when
  its root is well typed for the schema: mappings where sections are, with known keys, none twice and
  none null, integers, strings and lists of strings where they belong, at every depth.\<close>

theorem document_types_exact:
  "is_ok (validate_yaml_document (Decoded (YNode DocumentNode tag val (root # rest))) AtEnd)
     \<longleftrightarrow> well_typed (Section config_fields) root"
  using validate_typed(1) [OF schema_agrees(2) schema_agrees(1) [symmetric], of "[]" "y_content root"]
  by (auto simp: validate_yaml_document_def well_typed_simps is_ok_iff)

section \<open>Ranges\<close>

lemmas check_simps = validate_duration_def validate_browser_duration_def in_range_def

lemma server_checked:
  "validate_server_config s = Inr () \<longleftrightarrow>
     (\<exists>h p port. split_host_port (sv_addr s) = Some (h, p) \<and> atoi p = Some port \<and> 1 \<le> port \<and> port \<le> 65535)
     \<and> millisecond \<le> sv_read_header_timeout s \<and> sv_read_header_timeout s \<le> max_general_duration
     \<and> millisecond \<le> sv_idle_timeout s \<and> sv_idle_timeout s \<le> max_general_duration
     \<and> 1 \<le> sv_max_request_body_bytes s \<and> sv_max_request_body_bytes s \<le> 8388608"
  by (auto simp: validate_server_config_def check_simps split: option.splits)

lemma auth_checked:
  "validate_auth_config a = Inr () \<Longrightarrow> list_all header_char (au_token a) \<and> millisecond \<le> au_ticket_ttl a
     \<and> au_ticket_ttl a \<le> 300 * second \<and> millisecond \<le> au_ticket_sweep_interval a"
  by (auto simp: validate_auth_config_def check_simps split: if_splits)

lemma terminal_checked:
  "validate_terminal_config t = Inr () \<longleftrightarrow> 80 \<le> te_max_dimension t \<and> te_max_dimension t \<le> 65535
     \<and> 32768 \<le> te_staging_buffer_bytes t \<and> te_staging_buffer_bytes t \<le> 67108864
     \<and> te_output_high_water_bytes t \<le> 67108864 \<and> 0 < te_output_low_water_bytes t
     \<and> te_output_low_water_bytes t < te_output_high_water_bytes t
     \<and> millisecond \<le> te_backpressure_poll_interval t \<and> te_backpressure_poll_interval t \<le> max_general_duration"
  by (auto simp: validate_terminal_config_def check_simps)

definition browser_time :: "duration \<Rightarrow> bool" where
  "browser_time d \<longleftrightarrow> d mod millisecond = 0 \<and> 0 < d \<and> d \<le> max_browser_duration"

lemma browser_checked:
  "validate_browser_duration field d lo hi = Inr u \<longleftrightarrow> d mod millisecond = 0 \<and> lo \<le> d \<and> d \<le> hi"
  by (simp add: validate_browser_duration_def in_range_def)

lemma timers_checked:
  "validate_web_timers w = Inr () \<Longrightarrow>
     list_all browser_time [we_session_poll_interval w, we_activity_decay w, we_activity_throttle w, we_resize_debounce w,
       rc_initial_delay (we_reconnect w), rc_max_delay (we_reconnect w)]
     \<and> we_activity_throttle w \<le> we_activity_decay w \<and> we_activity_decay w \<le> 5 * second
     \<and> rc_initial_delay (we_reconnect w) \<le> rc_max_delay (we_reconnect w)"
  unfolding validate_web_timers_def rbind_eq_Inr browser_checked browser_time_def by auto

lemma notifications_checked:
  "validate_web_notifications n = Inr () \<Longrightarrow>
     list_all browser_time [nf_error_lifetime n, nf_warning_lifetime n, nf_info_lifetime n]
     \<and> 2 \<le> nf_max_toasts n \<and> nf_max_toasts n \<le> 100"
  unfolding validate_web_notifications_def rbind_eq_Inr ensure_eq_Inr browser_checked browser_time_def in_range_def by auto

lemma fonts_checked:
  "validate_web_terminal t = Inr () \<longleftrightarrow> 0 \<le> wt_scrollback t \<and> wt_scrollback t \<le> 100000 \<and> 6 \<le> wt_min_font_size t
     \<and> wt_min_font_size t \<le> wt_font_size t \<and> wt_font_size t \<le> wt_max_font_size t \<and> wt_max_font_size t \<le> 72"
  unfolding validate_web_terminal_def rbind_eq_Inr ensure_eq_Inr in_range_def by auto

lemma web_checked:
  assumes "validate_web_config w = Inr ()"
  shows "validate_web_timers w = Inr ()" "validate_web_terminal (we_terminal w) = Inr ()"
    "validate_web_notifications (we_notifications w) = Inr ()"
  using assms unfolding validate_web_config_def rbind_eq_Inr by auto

definition browser_times :: "web_config \<Rightarrow> duration list" where
  "browser_times w = [we_session_poll_interval w, we_activity_decay w, we_activity_throttle w, we_resize_debounce w,
     rc_initial_delay (we_reconnect w), rc_max_delay (we_reconnect w), nf_error_lifetime (we_notifications w),
     nf_warning_lifetime (we_notifications w), nf_info_lifetime (we_notifications w)]"

lemma times_checked: "validate_web_config w = Inr () \<Longrightarrow> list_all browser_time (browser_times w)"
  using timers_checked [OF web_checked(1)] notifications_checked [OF web_checked(3)] by (simp add: browser_times_def)

lemma canonical_roots_dirs:
  "canonical_roots pf i rs = Inr xs \<Longrightarrow> list_all2 (\<lambda>r x. is_abs r \<and> fv_eval (pf_fs pf) (clean r) = Inr x \<and> pf_stat_dir pf x = Inr True) rs xs"
proof (induction rs arbitrary: i xs)
  case (Cons r rs)
  then show ?case by (auto simp: canonical_root_def split: option.splits sum.splits if_splits)
qed simp

lemma files_checked:
  assumes "validate_files_config pf f = Inr f'"
  shows "0 < fc_max_file_size f' \<and> 1 \<le> fc_max_dir_entries f' \<and> fc_max_dir_entries f' \<le> 10000
    \<and> fc_enabled f' = fc_enabled f
    \<and> (fc_enabled f' \<longrightarrow> list_all2 (\<lambda>r x. is_abs r \<and> fv_eval (pf_fs pf) (clean r) = Inr x \<and> pf_stat_dir pf x = Inr True)
        (fc_roots f) (fc_roots f'))"
  using assms by (auto simp: validate_files_config_def dest: canonical_roots_dirs split: if_splits)

lemma config_checked:
  assumes "validate_config pf cfg = Inr cfg'"
  shows "validate_server_config (cfg_server cfg') = Inr ()" "validate_auth_config (cfg_auth cfg') = Inr ()"
    "validate_terminal_config (cfg_terminal cfg') = Inr ()" "validate_web_config (cfg_web cfg') = Inr ()"
    "validate_hosts_config (cfg_hosts cfg') = Inr ()"
    "\<exists>f. validate_files_config pf f = Inr (cfg_files cfg') \<and> cfg' = cfg\<lparr>cfg_files := cfg_files cfg'\<rparr> \<and> f = cfg_files cfg"
  using assms by (auto simp: validate_config_def split: if_splits)

lemma load_validated:
  assumes "load ld args dir = Inr (cfg, prov)"
  obtains c where "validate_config (ld_platform ld) c = Inr cfg"
  using assms by (auto simp: load_def case_prod_beta)

text \<open>C17: Every loaded configuration is usable, whatever file, environment and command line it came from:
  a port that exists, a token of header characters, tickets that live at most five minutes, a staging
  buffer that holds a read chunk, water marks in order, dimensions a terminal can have, fonts between
  their bounds, at least one connection, and file limits above zero; and each root the file service
  gets is an existing directory that some absolute configured path resolves to.\<close>

theorem loaded_config_in_range:
  assumes "load ld args dir = Inr (cfg, prov)"
  shows "(\<exists>h p port. split_host_port (sv_addr (cfg_server cfg)) = Some (h, p) \<and> atoi p = Some port \<and> 1 \<le> port \<and> port \<le> 65535)
    \<and> list_all header_char (au_token (cfg_auth cfg))
    \<and> 0 < au_ticket_ttl (cfg_auth cfg) \<and> au_ticket_ttl (cfg_auth cfg) \<le> 300 * second
    \<and> 32768 \<le> te_staging_buffer_bytes (cfg_terminal cfg)
    \<and> 0 < te_output_low_water_bytes (cfg_terminal cfg)
    \<and> te_output_low_water_bytes (cfg_terminal cfg) < te_output_high_water_bytes (cfg_terminal cfg)
    \<and> 80 \<le> te_max_dimension (cfg_terminal cfg) \<and> te_max_dimension (cfg_terminal cfg) \<le> 65535
    \<and> wt_min_font_size (we_terminal (cfg_web cfg)) \<le> wt_font_size (we_terminal (cfg_web cfg))
    \<and> wt_font_size (we_terminal (cfg_web cfg)) \<le> wt_max_font_size (we_terminal (cfg_web cfg))
    \<and> 1 \<le> hc_max_connections (cfg_hosts cfg) \<and> hc_max_connections (cfg_hosts cfg) \<le> 256
    \<and> 0 < fc_max_file_size (cfg_files cfg) \<and> 1 \<le> fc_max_dir_entries (cfg_files cfg)
    \<and> (fc_enabled (cfg_files cfg) \<longrightarrow> (\<forall>x \<in> set (fc_roots (cfg_files cfg)). pf_stat_dir (ld_platform ld) x = Inr True
         \<and> (\<exists>r. is_abs r \<and> fv_eval (pf_fs (ld_platform ld)) (clean r) = Inr x)))"
proof -
  obtain c where v: "validate_config (ld_platform ld) c = Inr cfg" using load_validated [OF assms] by blast
  note checked = config_checked [OF v]
  obtain f where f: "validate_files_config (ld_platform ld) f = Inr (cfg_files cfg)" using checked(6) by blast
  have hosts: "1 \<le> hc_max_connections (cfg_hosts cfg) \<and> hc_max_connections (cfg_hosts cfg) \<le> 256"
    using checked(5) by (simp add: validate_hosts_config_def in_range_def)
  have roots: "fc_enabled (cfg_files cfg) \<longrightarrow> (\<forall>x \<in> set (fc_roots (cfg_files cfg)). pf_stat_dir (ld_platform ld) x = Inr True
         \<and> (\<exists>r. is_abs r \<and> fv_eval (pf_fs (ld_platform ld)) (clean r) = Inr x))"
    using files_checked [OF f] by (auto simp: list_all2_conv_all_nth in_set_conv_nth) metis
  show ?thesis
    using checked(1,3) auth_checked [OF checked(2)] fonts_checked [THEN iffD1, OF web_checked(2) [OF checked(4)]] hosts roots files_checked [OF f]
    unfolding server_checked terminal_checked by (intro conjI; (assumption | linarith | blast)?)
qed

section \<open>The browser's copy\<close>

lemma milliseconds_exact: "browser_time d \<Longrightarrow> milliseconds d * millisecond = d \<and> milliseconds d \<le> 2147483647"
  by (auto simp: browser_time_def milliseconds_def)

lemma projection_times:
  assumes "new_public_client_config w b n = new_public_client_config w' b' n'"
  shows "map milliseconds (browser_times w) = map milliseconds (browser_times w')"
    "we_terminal w = we_terminal w'" "nf_max_toasts (we_notifications w) = nf_max_toasts (we_notifications w')"
    "b = b'" "n = n'"
  using assms by (simp_all add: new_public_client_config_def browser_times_def)

lemma same_times:
  "list_all browser_time ds \<Longrightarrow> list_all browser_time ds' \<Longrightarrow> map milliseconds ds = map milliseconds ds' \<Longrightarrow> ds = ds'"
proof (induction ds arbitrary: ds')
  case (Cons d ds)
  then obtain d' rest where ds': "ds' = d' # rest" by (cases ds') auto
  then have times: "browser_time d" "browser_time d'" "milliseconds d = milliseconds d'" using Cons(2-4) by simp_all
  have "milliseconds d * millisecond = d" "milliseconds d' * millisecond = d'"
    by (rule milliseconds_exact [OF times(1), THEN conjunct1], rule milliseconds_exact [OF times(2), THEN conjunct1])
  then have "d = d'" using times(3) by metis
  with Cons ds' show ?case by simp
qed simp

lemma web_config_eq:
  assumes "browser_times w = browser_times w'" and "we_terminal w = we_terminal w'"
    and "nf_max_toasts (we_notifications w) = nf_max_toasts (we_notifications w')"
  shows "w = w'"
proof -
  have r: "we_reconnect w = we_reconnect w'"
    by (intro reconnect_config.equality) (use assms(1) in \<open>simp_all add: browser_times_def\<close>)
  have n: "we_notifications w = we_notifications w'"
    by (intro notifications_config.equality) (use assms(1,3) in \<open>simp_all add: browser_times_def\<close>)
  show ?thesis
    by (intro web_config.equality r n assms(2)) (use assms(1) in \<open>simp_all add: browser_times_def\<close>)
qed

text \<open>The browser's copy of a loaded configuration loses nothing: no duration is rounded by the
  projection to milliseconds, and every one is a delay a browser timer can hold, so two loaded
  configurations with the same projection have the same web section.\<close>

theorem public_config_exact:
  assumes "load ld args dir = Inr (cfg, prov)" and "load ld' args' dir' = Inr (cfg', prov')"
    and "new_public_client_config (cfg_web cfg) b n = new_public_client_config (cfg_web cfg') b' n'"
  shows "cfg_web cfg = cfg_web cfg' \<and> b = b' \<and> n = n'
    \<and> pw_max_delay (pc_web (new_public_client_config (cfg_web cfg) b n)) \<le> 2 ^ 31 - 1"
proof -
  obtain c where "validate_config (ld_platform ld) c = Inr cfg" using load_validated [OF assms(1)] by blast
  note w = times_checked [OF config_checked(4) [OF this]]
  obtain c' where "validate_config (ld_platform ld') c' = Inr cfg'" using load_validated [OF assms(2)] by blast
  note w' = times_checked [OF config_checked(4) [OF this]]
  note p = projection_times [OF assms(3)]
  have "browser_times (cfg_web cfg) = browser_times (cfg_web cfg')"
    by (rule same_times [OF w w' p(1)])
  then have web: "cfg_web cfg = cfg_web cfg'" using p by (intro web_config_eq)
  have "browser_time (rc_max_delay (we_reconnect (cfg_web cfg)))" using w by (simp add: browser_times_def)
  from milliseconds_exact [OF this] web p(4,5) show ?thesis by (simp add: new_public_client_config_def)
qed

section \<open>Precedence\<close>

lemma apply_env_values:
  assumes "apply_env ld dir (cfg, prov) = (cfg', prov')"
  shows "sv_addr (cfg_server cfg') = or_else (ld_env ld ''VISUAL_TMUX_CLIENT_ADDR'') (sv_addr (cfg_server cfg))"
    "pv_addr prov' = (if ld_env ld ''VISUAL_TMUX_CLIENT_ADDR'' \<noteq> None then SourceEnvironment else pv_addr prov)"
    "au_token (cfg_auth cfg') = or_else (ld_env ld ''VISUAL_TMUX_CLIENT_TOKEN'') (au_token (cfg_auth cfg))"
    "pv_token prov' = (if ld_env ld ''VISUAL_TMUX_CLIENT_TOKEN'' \<noteq> None then SourceEnvironment else pv_token prov)"
    "wk_origin (cfg_websocket cfg') = or_else (ld_env ld ''VISUAL_TMUX_CLIENT_ORIGIN'') (wk_origin (cfg_websocket cfg))"
    "tx_path (cfg_tmux cfg') = or_else (map_option (resolve_path dir) (ld_env ld ''VISUAL_TMUX_CLIENT_TMUX_PATH'')) (tx_path (cfg_tmux cfg))"
    "au_ticket_ttl (cfg_auth cfg') = au_ticket_ttl (cfg_auth cfg)"
    "cfg_terminal cfg' = cfg_terminal cfg" "cfg_web cfg' = cfg_web cfg" "cfg_files cfg' = cfg_files cfg"
    "cfg_shutdown cfg' = cfg_shutdown cfg"
  using assms by (auto simp: apply_env_def env_source_def Let_def split: option.split)

lemma apply_cli_values:
  assumes "apply_cli fl (cfg, prov) = (cfg', prov')"
  shows "sv_addr (cfg_server cfg') = or_else (fl_addr fl) (sv_addr (cfg_server cfg))"
    "pv_addr prov' = (if fl_addr fl \<noteq> None then SourceCLI else pv_addr prov)" "pv_token prov' = pv_token prov"
    "cfg_auth cfg' = cfg_auth cfg" "cfg_websocket cfg' = cfg_websocket cfg" "cfg_tmux cfg' = cfg_tmux cfg"
    "cfg_terminal cfg' = cfg_terminal cfg" "cfg_web cfg' = cfg_web cfg" "cfg_files cfg' = cfg_files cfg"
    "cfg_shutdown cfg' = cfg_shutdown cfg"
  using assms by (auto simp: apply_cli_def or_else_def split: option.splits)


section \<open>The default configuration\<close>

text \<open>Without a file, variables or arguments the defaults are loaded, on any platform.\<close>

lemma default_server_valid: "validate_server_config (cfg_server default_config) = Inr ()"
proof -
  have "split_host_port ''127.0.0.1:7690'' = Some (''127.0.0.1'', ''7690'')" by (simp add: split_host_port_def)
  moreover have "atoi ''7690'' = Some 7690"
    by (simp add: parse_int64_def parse_digits_def is_digit_def digit_val_def)
  ultimately show ?thesis by (simp add: server_checked default_config_def)
qed

lemma default_valid: "validate_config pf default_config = Inr default_config"
proof -
  have "validate_websocket_config pf (cfg_websocket default_config) = Inr ()"
    by (simp add: validate_websocket_config_def default_config_def validate_duration_def in_range_def)
  moreover have "validate_auth_config (cfg_auth default_config) = Inr ()"
    "validate_terminal_config (cfg_terminal default_config) = Inr ()"
    "validate_shutdown_config (cfg_shutdown default_config) = Inr ()"
    "validate_hosts_config (cfg_hosts default_config) = Inr ()"
    by (simp_all add: validate_auth_config_def terminal_checked validate_shutdown_config_def validate_hosts_config_def
        default_config_def validate_duration_def in_range_def)
  moreover have "validate_web_config (cfg_web default_config) = Inr ()" by code_simp
  moreover have "validate_files_config pf (cfg_files default_config) = Inr (cfg_files default_config)"
    by (simp add: validate_files_config_def default_config_def)
  moreover have "cfg_version default_config = 1" by (simp add: default_config_def)
  ultimately show ?thesis using default_server_valid by (simp add: validate_config_def)
qed

definition bare_loader :: loader where
  "bare_loader =
     \<lparr> ld_platform = \<lparr> pf_parse_url = (\<lambda>_. None),
         pf_fs = \<lparr> fv_eval = (\<lambda>_. Inl NotExist), fv_lstat = (\<lambda>_. Inl NotExist) \<rparr>, pf_stat_dir = (\<lambda>_. Inl NotExist) \<rparr>,
       ld_read_file = (\<lambda>_. Inl NotExist), ld_documents = (\<lambda>_. (AtEnd, AtEnd)), ld_decode = (\<lambda>_. None),
       ld_env = (\<lambda>_. None) \<rparr>"

lemma bare_load:
  "load bare_loader [] ''/'' = Inr (default_config, default_provenance\<lparr>pv_token := SourceGenerated\<rparr>)"
proof -
  have "default_provenance\<lparr>pv_explicit_config := False\<rparr> = default_provenance" by (simp add: default_provenance_def)
  moreover have "au_token (cfg_auth default_config) = []" by (simp add: default_config_def)
  ultimately show ?thesis
    by (simp add: load_def parse_command_line_flags_def no_flags_def read_config_file_def explicit_path_def from_file_def
        apply_env_def env_source_def or_else_def apply_cli_def default_valid bare_loader_def Let_def)
qed

section \<open>The properties at the defaults\<close>

definition generated_provenance :: provenance where
  "generated_provenance = default_provenance\<lparr>pv_token := SourceGenerated\<rparr>"

lemma bare_load_generated: "load bare_loader [] ''/'' = Inr (default_config, generated_provenance)"
  using bare_load by (simp add: generated_provenance_def)

lemma loaded_config_in_range_witness:
  "(\<exists>h p port. split_host_port (sv_addr (cfg_server default_config)) = Some (h, p) \<and> atoi p = Some port \<and> 1 \<le> port \<and> port \<le> 65535)
    \<and> list_all header_char (au_token (cfg_auth default_config))
    \<and> 0 < au_ticket_ttl (cfg_auth default_config) \<and> au_ticket_ttl (cfg_auth default_config) \<le> 300 * second
    \<and> 32768 \<le> te_staging_buffer_bytes (cfg_terminal default_config)
    \<and> 0 < te_output_low_water_bytes (cfg_terminal default_config)
    \<and> te_output_low_water_bytes (cfg_terminal default_config) < te_output_high_water_bytes (cfg_terminal default_config)
    \<and> 80 \<le> te_max_dimension (cfg_terminal default_config) \<and> te_max_dimension (cfg_terminal default_config) \<le> 65535
    \<and> wt_min_font_size (we_terminal (cfg_web default_config)) \<le> wt_font_size (we_terminal (cfg_web default_config))
    \<and> wt_font_size (we_terminal (cfg_web default_config)) \<le> wt_max_font_size (we_terminal (cfg_web default_config))
    \<and> 1 \<le> hc_max_connections (cfg_hosts default_config) \<and> hc_max_connections (cfg_hosts default_config) \<le> 256
    \<and> 0 < fc_max_file_size (cfg_files default_config) \<and> 1 \<le> fc_max_dir_entries (cfg_files default_config)"
  using loaded_config_in_range [OF bare_load_generated] by blast


lemma public_config_exact_witness:
  "cfg_web default_config = cfg_web default_config \<and> True = True \<and> (5 :: int) = 5
    \<and> pw_max_delay (pc_web (new_public_client_config (cfg_web default_config) True 5)) \<le> 2 ^ 31 - 1"
  by (rule public_config_exact [OF bare_load_generated bare_load_generated refl])

end
