(* ===== verification/HttpModel.thy ===== *)
theory HttpModel
  imports ConfigModel SessionModel FileService HostRegistry Tickets
begin

text \<open>
  What the HTTP layer (\<open>hub/internal/transport/http\<close>) works with: requests after the server has parsed
  them, the calls a handler makes on the services behind it, the responses, and the error mappings of
  \<open>router.go\<close> and \<open>files.go\<close>.  The services are interfaces in the code: a call is answered by the
  environment, which keeps a state of its own, and every exchange is logged.
\<close>

section \<open>Errors\<close>

text \<open>An error is what \<open>errors.Is\<close> and \<open>errors.As\<close> find in its chain, and its text.\<close>

datatype sentinel =
    IsHost host_code
  | IsInvalidName | IsNameInUse | IsSessionNotFound | IsTmuxNotFound
  | IsFile file_kind
  | IsMaxBytes
  | IsChallengeExpired | IsChallengeMismatch

record svc_error =
  er_is :: "sentinel \<Rightarrow> bool"
  er_text :: string

section \<open>Requests\<close>

text \<open>The method, the decoded path segments, the query (\<open>Get\<close> gives the first value or nothing), the
  headers and the body.\<close>

record http_request =
  rq_method :: string
  rq_path :: "string list"
  rq_query :: "string \<Rightarrow> string"
  rq_header :: "string \<Rightarrow> string"
  rq_body :: string

record session_request =
  sq_name :: string
  sq_rev_snake :: "nat option"
  sq_rev_camel :: "nat option"

record ws_ticket_request =
  wr_host :: string
  wr_session :: string

record create_file_request =
  cq_path :: string
  cq_kind :: string
  cq_rev_snake :: "nat option"
  cq_rev_camel :: "nat option"

record rename_file_request =
  nq_path :: string
  nq_new_path :: string
  nq_rev_snake :: "nat option"
  nq_rev_camel :: "nat option"

record delete_file_request =
  dq_path :: string
  dq_recursive :: bool
  dq_rev_snake :: "nat option"
  dq_rev_camel :: "nat option"

record update_host_request =
  uh_input :: host_input
  uh_revision :: revision

record settings_request =
  gq_default :: "host_id option"
  gq_revision :: revision

record probe_request =
  pq_address :: string
  pq_port :: "16 word"

text \<open>A decoder's answer: nothing but the end of the input, an error, or a value.\<close>

datatype 'a decoding = DecodeEOF | DecodeFailed | DecodedTo 'a

text \<open>Decoding JSON into a request's type, from a body read up to a limit (\<open>http.MaxBytesReader\<close>); the
  strict decoders also say whether the input ends after the value.\<close>

record json_decoders =
  jd_session :: "int \<Rightarrow> string \<Rightarrow> session_request decoding"
  jd_ticket :: "int \<Rightarrow> string \<Rightarrow> ws_ticket_request decoding"
  jd_create_host :: "int \<Rightarrow> string \<Rightarrow> host_input decoding"
  jd_update_host :: "int \<Rightarrow> string \<Rightarrow> update_host_request decoding"
  jd_revision :: "string \<Rightarrow> revision decoding"
  jd_settings :: "int \<Rightarrow> string \<Rightarrow> settings_request decoding"
  jd_probe :: "int \<Rightarrow> string \<Rightarrow> probe_request decoding"
  jd_trust :: "int \<Rightarrow> string \<Rightarrow> string decoding"
  jd_create_file :: "int \<Rightarrow> string \<Rightarrow> create_file_request decoding \<times> bool"
  jd_rename_file :: "int \<Rightarrow> string \<Rightarrow> rename_file_request decoding \<times> bool"
  jd_delete_file :: "int \<Rightarrow> string \<Rightarrow> delete_file_request decoding \<times> bool"

section \<open>Calls on the services\<close>

record write_call =
  wc_path :: string
  wc_limit :: "int option"
  wc_declared :: int
  wc_expected :: "expected_mtime option"
  wc_other_names :: bool

datatype service_call =
    Resolve host_id
  | ListSessions target | CreateSession target string | RenameSession target string string
  | KillSession target string | GetSession target string | PaneDirectory target string
  | FilesEnabled target | StartDirectory target string | ListFiles target string | ReadFrom target string
  | WriteTo target write_call | CreateEntry target string bool | RenameEntry target string string
  | DeleteEntry target string bool
  | IssueForTarget host_id revision string | IssuePlain string
  | ListHosts | GetHost host_id | SaveHost host_input revision | DeleteHost host_id revision
  | GetSettings | UpdateSettings "host_id option" revision | Capabilities host_id
  | Probe string "16 word" | NewChallenge host_id revision string public_key
  | ConfirmChallenge string host_id revision string
  | HostChanged host_id | HostMetadataChanged host_id | HostConnectionChanged host_id | HostRemoved host_id

text \<open>A runtime: its target, and whether it has file operations at all.\<close>

record runtime_info =
  ri_target :: target
  ri_files :: bool

text \<open>An open file: its size when checked and when sent, its times, and whether it is binary.\<close>

record file_info =
  fi_size :: int
  fi_size_now :: "int option"
  fi_mtime :: int
  fi_mtime_nanos :: int
  fi_binary :: bool

datatype service_answer =
    Refused svc_error
  | Finished
  | RuntimeIs runtime_info
  | SessionsAre "session list"
  | SessionIs session
  | TextIs string
  | StartIs string bool
  | Enabled bool
  | ListingIs list_result
  | FileIs file_info
  | WrittenIs write_result
  | TicketIs string int
  | HostsAre "host_view list"
  | HostIs host_view
  | SettingsAre settings
  | KeyIs public_key
  | ChallengeIs probe_result
  | PinnedIs string
  | CapabilitiesAre

record 's hub =
  hb_state :: 's
  hb_log :: "(service_call \<times> service_answer) list"

type_synonym 's services = "service_call \<Rightarrow> 's \<Rightarrow> service_answer \<times> 's"

section \<open>Responses\<close>

datatype http_body =
    NoBody
  | ErrorBody string
  | SessionsBody "session list"
  | SessionBody session
  | TicketBody string int
  | ConfigBody public_client_config
  | HostsBody "host_view list"
  | HostBody host_view
  | SettingsBody settings
  | ChallengeBody probe_result
  | CapabilitiesBody
  | UntestedBody host_id revision
  | ListingBody list_result
  | ContentBody int
  | WrittenBody int int
  | DirectoryBody string bool
  | ElsewhereBody string

record http_response =
  rs_status :: nat
  rs_body :: http_body
  rs_headers :: "(string \<times> string) list"

text \<open>A handler that has written its response stops: an early return is a failure of the action.\<close>

type_synonym ('s, 'a) handler = "('s hub, http_response, 'a) action"

definition write_json :: "nat \<Rightarrow> http_body \<Rightarrow> http_response" where
  "write_json status body = \<lparr> rs_status = status, rs_body = body, rs_headers = [(''Content-Type'', ''application/json'')] \<rparr>"

definition write_error_response :: "nat \<Rightarrow> string \<Rightarrow> http_response" where
  "write_error_response status msg = write_json status (ErrorBody msg)"

definition write_header :: "nat \<Rightarrow> http_response" where
  "write_header status = \<lparr> rs_status = status, rs_body = NoBody, rs_headers = [] \<rparr>"

definition respond :: "http_response \<Rightarrow> ('s, 'a) handler" where
  "respond r = act_fail r"

definition call :: "'s services \<Rightarrow> service_call \<Rightarrow> ('s, service_answer) handler" where
  "call sv q w = (case sv q (hb_state w) of (a, s) \<Rightarrow> (Inr a, w\<lparr> hb_state := s, hb_log := hb_log w @ [(q, a)] \<rparr>))"

section \<open>Error mappings\<close>

definition map_session_error :: "svc_error \<Rightarrow> http_response" where
  "map_session_error e =
     (if er_is e (IsHost HostNotFound) then write_error_response 404 ''host_not_found''
      else if er_is e (IsHost HostUnavailable) then write_error_response 503 ''host_unavailable''
      else if er_is e (IsHost HostUnsupported) then write_error_response 501 ''host_unsupported''
      else if er_is e (IsHost OutcomeUnknown) then write_error_response 502 ''outcome_unknown''
      else if er_is e (IsHost StaleRevision) then write_error_response 409 ''host_revision_conflict''
      else if er_is e IsInvalidName then write_error_response 400 (er_text e)
      else if er_is e IsNameInUse then write_error_response 409 ''name_in_use''
      else if er_is e IsSessionNotFound then write_error_response 404 ''session_not_found''
      else if er_is e IsTmuxNotFound then write_error_response 503 ''tmux_unavailable''
      else write_error_response 500 (er_text e))"

definition map_host_error :: "svc_error \<Rightarrow> http_response" where
  "map_host_error e =
     (if er_is e (IsHost HostNotFound) then write_error_response 404 ''host_not_found''
      else if er_is e (IsHost StaleRevision) then write_error_response 409 ''host_revision_conflict''
      else if er_is e (IsHost DuplicateLocal) then write_error_response 409 ''duplicate_local_host''
      else if er_is e (IsHost HostUnsupported) then write_error_response 400 ''unsupported_operation''
      else if er_is e (IsHost HostUnavailable) then write_error_response 503 ''host_unavailable''
      else if er_is e (IsHost OutcomeUnknown) then write_error_response 502 ''outcome_unknown''
      else write_error_response 400 (er_text e))"

definition map_host_file_error :: "svc_error \<Rightarrow> http_response option" where
  "map_host_file_error e =
     (if er_is e (IsHost HostNotFound) then Some (write_error_response 404 ''host_not_found'')
      else if er_is e (IsHost HostUnavailable) then Some (write_error_response 503 ''host_unavailable'')
      else if er_is e (IsHost HostUnsupported) then Some (write_error_response 501 ''host_unsupported'')
      else if er_is e (IsHost OutcomeUnknown) then Some (write_error_response 502 ''outcome_unknown'')
      else if er_is e (IsHost StaleRevision) then Some (write_error_response 409 ''host_revision_conflict'')
      else None)"

definition map_file_error :: "svc_error \<Rightarrow> http_response" where
  "map_file_error e =
     (case map_host_file_error e of
        Some r \<Rightarrow> r
      | None \<Rightarrow>
          if er_is e (IsFile InvalidPath) then write_error_response 400 ''invalid_path''
          else if er_is e (IsFile InvalidBody) then write_error_response 400 ''invalid_body''
          else if er_is e (IsFile PathNotAllowed) then write_error_response 403 ''path_not_allowed''
          else if er_is e (IsFile CrossRoot) then write_error_response 403 ''cross_root_move''
          else if er_is e (IsFile PermissionDenied) then write_error_response 403 ''permission_denied''
          else if er_is e (IsFile PathNotFound) then write_error_response 404 ''not_found''
          else if er_is e (IsFile Conflict) then write_error_response 409 ''conflict''
          else if er_is e (IsFile DirNotEmpty) then write_error_response 409 ''dir_not_empty''
          else if er_is e (IsFile HasOtherNames) then write_error_response 409 ''other_names''
          else if er_is e (IsFile FileTooLarge) then write_error_response 413 ''file_too_large''
          else write_error_response 500 ''write_failed'')"

text \<open>An answer that is an error stops the handler with its mapping.  An answer of another kind than the
  call has cannot occur; it stops the handler with a 500.\<close>

definition impossible :: http_response where
  "impossible = write_header 500"

definition checked :: "(svc_error \<Rightarrow> http_response) \<Rightarrow> (service_answer \<Rightarrow> 'a option) \<Rightarrow> service_answer \<Rightarrow> ('s, 'a) handler" where
  "checked f get a =
     (case a of
        Refused e \<Rightarrow> respond (f e)
      | _ \<Rightarrow> (case get a of Some x \<Rightarrow> act_return x | None \<Rightarrow> respond impossible))"

definition call_as :: "'s services \<Rightarrow> (svc_error \<Rightarrow> http_response) \<Rightarrow> (service_answer \<Rightarrow> 'a option) \<Rightarrow> service_call \<Rightarrow> ('s, 'a) handler" where
  "call_as sv f get q = act_bind (call sv q) (checked f get)"

definition as_runtime :: "service_answer \<Rightarrow> runtime_info option" where
  "as_runtime a = (case a of RuntimeIs r \<Rightarrow> Some r | _ \<Rightarrow> None)"
definition as_unit :: "service_answer \<Rightarrow> unit option" where
  "as_unit a = (case a of Finished \<Rightarrow> Some () | _ \<Rightarrow> None)"
definition as_sessions :: "service_answer \<Rightarrow> session list option" where
  "as_sessions a = (case a of SessionsAre s \<Rightarrow> Some s | _ \<Rightarrow> None)"
definition as_session :: "service_answer \<Rightarrow> session option" where
  "as_session a = (case a of SessionIs s \<Rightarrow> Some s | _ \<Rightarrow> None)"
definition as_text :: "service_answer \<Rightarrow> string option" where
  "as_text a = (case a of TextIs s \<Rightarrow> Some s | _ \<Rightarrow> None)"
definition as_start :: "service_answer \<Rightarrow> (string \<times> bool) option" where
  "as_start a = (case a of StartIs p b \<Rightarrow> Some (p, b) | _ \<Rightarrow> None)"
definition as_enabled :: "service_answer \<Rightarrow> bool option" where
  "as_enabled a = (case a of Enabled b \<Rightarrow> Some b | _ \<Rightarrow> None)"
definition as_listing :: "service_answer \<Rightarrow> list_result option" where
  "as_listing a = (case a of ListingIs l \<Rightarrow> Some l | _ \<Rightarrow> None)"
definition as_file :: "service_answer \<Rightarrow> file_info option" where
  "as_file a = (case a of FileIs f \<Rightarrow> Some f | _ \<Rightarrow> None)"
definition as_written :: "service_answer \<Rightarrow> write_result option" where
  "as_written a = (case a of WrittenIs r \<Rightarrow> Some r | _ \<Rightarrow> None)"
definition as_ticket :: "service_answer \<Rightarrow> (string \<times> int) option" where
  "as_ticket a = (case a of TicketIs t e \<Rightarrow> Some (t, e) | _ \<Rightarrow> None)"
definition as_hosts :: "service_answer \<Rightarrow> host_view list option" where
  "as_hosts a = (case a of HostsAre h \<Rightarrow> Some h | _ \<Rightarrow> None)"
definition as_host :: "service_answer \<Rightarrow> host_view option" where
  "as_host a = (case a of HostIs h \<Rightarrow> Some h | _ \<Rightarrow> None)"
definition as_settings :: "service_answer \<Rightarrow> settings option" where
  "as_settings a = (case a of SettingsAre s \<Rightarrow> Some s | _ \<Rightarrow> None)"
definition as_key :: "service_answer \<Rightarrow> public_key option" where
  "as_key a = (case a of KeyIs k \<Rightarrow> Some k | _ \<Rightarrow> None)"
definition as_challenge :: "service_answer \<Rightarrow> probe_result option" where
  "as_challenge a = (case a of ChallengeIs c \<Rightarrow> Some c | _ \<Rightarrow> None)"
definition as_pinned :: "service_answer \<Rightarrow> string option" where
  "as_pinned a = (case a of PinnedIs k \<Rightarrow> Some k | _ \<Rightarrow> None)"
definition as_capabilities :: "service_answer \<Rightarrow> unit option" where
  "as_capabilities a = (case a of CapabilitiesAre \<Rightarrow> Some () | _ \<Rightarrow> None)"

end
