(* ===== verification/HttpHandlers.thy ===== *)
theory HttpHandlers
  imports HttpModel
begin

text \<open>
  The handlers of \<open>hub/internal/transport/http\<close> (\<open>router.go\<close>, \<open>files.go\<close>), the authentication of
  \<open>middleware.go\<close> and the routing table of \<open>NewRouterWithResolver\<close>.
\<close>

section \<open>Configuration\<close>

text \<open>The \<open>rc_has\<close> and \<open>rc_on\<close> fields say which optional dependencies and callbacks are set.\<close>

record router_config =
  rc_token :: string
  rc_max_body :: int
  rc_max_file :: int
  rc_files_enabled :: bool
  rc_web :: web_config
  rc_has_hosts :: bool
  rc_has_capabilities :: bool
  rc_has_prober :: bool
  rc_has_trust_store :: bool
  rc_target_issuer :: bool
  rc_on_changed :: bool
  rc_on_metadata :: bool
  rc_on_connection :: bool
  rc_on_removed :: bool
  rc_has_static :: bool
  rc_has_ws :: bool

record platform_text =
  pt_json :: json_decoders
  pt_quote :: "string \<Rightarrow> string"
  pt_sha :: "string \<Rightarrow> string"

abbreviation bad_request :: http_response where
  "bad_request \<equiv> write_error_response 400 ''invalid_request''"

abbreviation management_disabled :: http_response where
  "management_disabled \<equiv> write_error_response 501 ''host_management_disabled''"

definition decoded_body :: "'a decoding \<Rightarrow> ('s, 'a) handler" where
  "decoded_body d = (case d of DecodedTo x \<Rightarrow> act_return x | _ \<Rightarrow> respond bad_request)"

definition int_string :: "int \<Rightarrow> string" where
  "int_string i = (if i < 0 then CHR ''-'' # dec_string (nat (- i)) else dec_string (nat i))"

section \<open>Resolution and revisions\<close>

definition resolve_runtime :: "'s services \<Rightarrow> string \<Rightarrow> ('s, runtime_info) handler" where
  "resolve_runtime sv h = call_as sv map_session_error as_runtime (Resolve h)"

text \<open>One source of an expected revision, after those already seen.\<close>

definition merge_revision :: "string \<Rightarrow> nat option \<Rightarrow> http_response + nat option" where
  "merge_revision v found =
     (if v = [] then Inr found
      else (case parse_uint64 v of
          None \<Rightarrow> Inl bad_request
        | Some n \<Rightarrow> if found \<noteq> None \<and> found \<noteq> Some n then Inl bad_request else Inr (Some n)))"

definition check_expected_conn_rev :: "http_request \<Rightarrow> target \<Rightarrow> nat option \<Rightarrow> ('s, unit) handler" where
  "check_expected_conn_rev rq t body_rev =
     act_lift
       (rbind (merge_revision (rq_query rq ''expected_connection_revision'') body_rev) (\<lambda>f1.
        rbind (merge_revision (rq_header rq ''X-Expected-Connection-Revision'') f1) (\<lambda>f2.
          case f2 of
            Some n \<Rightarrow> if t_conn_revision t \<noteq> n then Inl (write_error_response 409 ''host_revision_conflict'') else Inr ()
          | None \<Rightarrow> Inr ())))"

definition resolve_body_revision :: "nat option \<Rightarrow> nat option \<Rightarrow> http_response + nat option" where
  "resolve_body_revision snake camel =
     (if snake \<noteq> None \<and> camel \<noteq> None \<and> snake \<noteq> camel then Inl bad_request
      else Inr (if snake \<noteq> None then snake else camel))"

definition expect_revisions :: "http_request \<Rightarrow> target \<Rightarrow> nat option \<Rightarrow> nat option \<Rightarrow> ('s, unit) handler" where
  "expect_revisions rq t snake camel =
     act_bind (act_lift (resolve_body_revision snake camel)) (\<lambda>rv. check_expected_conn_rev rq t rv)"

section \<open>Sessions and tickets\<close>

definition list_sessions :: "'s services \<Rightarrow> string \<Rightarrow> ('s, http_response) handler" where
  "list_sessions sv h =
     act_bind (resolve_runtime sv h) (\<lambda>rt.
     act_bind (call_as sv map_session_error as_sessions (ListSessions (ri_target rt))) (\<lambda>l.
       act_return (write_json 200 (SessionsBody l))))"

definition create_session :: "router_config \<Rightarrow> platform_text \<Rightarrow> 's services \<Rightarrow> http_request \<Rightarrow> string \<Rightarrow> ('s, http_response) handler" where
  "create_session cfg pt sv rq h =
     act_bind (resolve_runtime sv h) (\<lambda>rt.
     act_bind (case jd_session (pt_json pt) (rc_max_body cfg) (rq_body rq) of
         DecodedTo x \<Rightarrow> act_return x
       | DecodeEOF \<Rightarrow> act_return \<lparr> sq_name = [], sq_rev_snake = None, sq_rev_camel = None \<rparr>
       | DecodeFailed \<Rightarrow> respond bad_request) (\<lambda>req.
     act_bind (expect_revisions rq (ri_target rt) (sq_rev_snake req) (sq_rev_camel req)) (\<lambda>_.
     act_bind (call_as sv map_session_error as_session (CreateSession (ri_target rt) (sq_name req))) (\<lambda>s.
       act_return (write_json 201 (SessionBody s))))))"

definition rename_session :: "router_config \<Rightarrow> platform_text \<Rightarrow> 's services \<Rightarrow> http_request \<Rightarrow> string \<Rightarrow> string \<Rightarrow> ('s, http_response) handler" where
  "rename_session cfg pt sv rq h old =
     act_bind (resolve_runtime sv h) (\<lambda>rt.
     act_bind (decoded_body (jd_session (pt_json pt) (rc_max_body cfg) (rq_body rq))) (\<lambda>req.
     act_bind (expect_revisions rq (ri_target rt) (sq_rev_snake req) (sq_rev_camel req)) (\<lambda>_.
     act_bind (call_as sv map_session_error as_unit (RenameSession (ri_target rt) old (sq_name req))) (\<lambda>_.
     act_bind (call_as sv map_session_error as_session (GetSession (ri_target rt) (sq_name req))) (\<lambda>s.
       act_return (write_json 200 (SessionBody s)))))))"

definition kill_session :: "'s services \<Rightarrow> http_request \<Rightarrow> string \<Rightarrow> string \<Rightarrow> ('s, http_response) handler" where
  "kill_session sv rq h name =
     act_bind (resolve_runtime sv h) (\<lambda>rt.
     act_bind (check_expected_conn_rev rq (ri_target rt) None) (\<lambda>_.
     act_bind (call_as sv map_session_error as_unit (KillSession (ri_target rt) name)) (\<lambda>_.
       act_return (write_header 204))))"

definition issue_ticket :: "router_config \<Rightarrow> platform_text \<Rightarrow> 's services \<Rightarrow> http_request \<Rightarrow> ('s, http_response) handler" where
  "issue_ticket cfg pt sv rq =
     act_bind (decoded_body (jd_ticket (pt_json pt) (rc_max_body cfg) (rq_body rq))) (\<lambda>req.
     act_bind (resolve_runtime sv (wr_host req)) (\<lambda>rt.
     act_bind (call_as sv map_session_error as_session (GetSession (ri_target rt) (wr_session req))) (\<lambda>_.
     act_bind (call_as sv (\<lambda>_. write_error_response 500 ''ticket_generation_failed'') as_ticket
         (if rc_target_issuer cfg
          then IssueForTarget (t_host (ri_target rt)) (t_conn_revision (ri_target rt)) (wr_session req)
          else IssuePlain (wr_session req))) (\<lambda>(t, e).
       act_return (write_json 200 (TicketBody t e))))))"

definition get_client_config :: "router_config \<Rightarrow> ('s, http_response) handler" where
  "get_client_config cfg =
     act_return ((write_json 200 (ConfigBody (new_public_client_config (rc_web cfg) (rc_files_enabled cfg) (rc_max_file cfg))))
       \<lparr> rs_headers := [(''Cache-Control'', ''no-store''), (''Content-Type'', ''application/json'')] \<rparr>)"

section \<open>Hosts\<close>

definition default_local_host :: host_view where
  "default_local_host =
     \<lparr> hv_id = local_id, hv_revision = local_revision, hv_conn_revision = local_revision, hv_name = ''Local'',
       hv_type = ConnOther [], hv_address = [], hv_port = 0, hv_username = [], hv_cred_type = [],
       hv_has_credential = False, hv_trusted = True \<rparr>"

definition list_hosts :: "router_config \<Rightarrow> 's services \<Rightarrow> ('s, http_response) handler" where
  "list_hosts cfg sv =
     (if \<not> rc_has_hosts cfg then act_return (write_json 200 (HostsBody [default_local_host]))
      else act_bind (call_as sv map_host_error as_hosts ListHosts) (\<lambda>hs. act_return (write_json 200 (HostsBody hs))))"

definition get_host :: "router_config \<Rightarrow> 's services \<Rightarrow> string \<Rightarrow> ('s, http_response) handler" where
  "get_host cfg sv h =
     (if \<not> rc_has_hosts cfg then
        (if h = local_id then act_return (write_json 200 (HostBody default_local_host))
         else respond (write_error_response 404 ''host_not_found''))
      else act_bind (call_as sv map_host_error as_host (GetHost h)) (\<lambda>v. act_return (write_json 200 (HostBody v))))"

definition port_or_default :: "16 word \<Rightarrow> 16 word" where
  "port_or_default p = (if p = 0 then 22 else p)"

text \<open>\<open>net.JoinHostPort\<close>: a host with a colon or a percent sign is put in brackets.\<close>

definition net_join :: "string \<Rightarrow> string \<Rightarrow> string" where
  "net_join h p = (if CHR '':'' \<in> set h \<or> CHR ''%'' \<in> set h then ''['' @ h @ '']:'' else h @ '':'') @ p"

definition join_host_port :: "string \<Rightarrow> 16 word \<Rightarrow> string" where
  "join_host_port h p = net_join h (dec_string (unat p))"

definition require_hosts :: "router_config \<Rightarrow> ('s, unit) handler" where
  "require_hosts cfg = (if rc_has_hosts cfg then act_return () else respond management_disabled)"

definition create_host :: "router_config \<Rightarrow> platform_text \<Rightarrow> 's services \<Rightarrow> http_request \<Rightarrow> ('s, http_response) handler" where
  "create_host cfg pt sv rq =
     act_bind (require_hosts cfg) (\<lambda>_.
     act_bind (decoded_body (jd_create_host (pt_json pt) (rc_max_body cfg) (rq_body rq))) (\<lambda>req.
       (let conn = (if hi_type req = ConnOther [] then (if hi_id req = local_id then ConnLocal else ConnSSH) else hi_type req) in
        act_bind
          (if conn = ConnSSH \<and> hi_challenge req \<noteq> [] \<and> hi_host_key req = [] \<and> rc_has_trust_store cfg then
             call_as sv (\<lambda>e. write_error_response 409
                 (if er_is e IsChallengeExpired then ''challenge_expired'' else ''challenge_mismatch'')) as_pinned
               (ConfirmChallenge (hi_challenge req) [] 0 (join_host_port (hi_address req) (port_or_default (hi_port req))))
           else act_return (hi_host_key req)) (\<lambda>key.
        act_bind (call_as sv map_host_error as_host
            (SaveHost (req\<lparr>hi_type := conn, hi_host_key := key, hi_challenge := []\<rparr>) 0)) (\<lambda>v.
          act_return (write_json 201 (HostBody v)))))))"

definition query_revision :: "http_request \<Rightarrow> revision" where
  "query_revision rq = (case parse_uint64 (rq_query rq ''revision'') of Some n \<Rightarrow> n | None \<Rightarrow> 0)"

text \<open>The callbacks after a host was saved.\<close>

definition tell :: "'s services \<Rightarrow> bool \<Rightarrow> service_call \<Rightarrow> ('s, unit) handler" where
  "tell sv on q = (if on then act_bind (call sv q) (\<lambda>_. act_return ()) else act_return ())"

definition announce :: "router_config \<Rightarrow> 's services \<Rightarrow> host_id \<Rightarrow> bool \<Rightarrow> ('s, unit) handler" where
  "announce cfg sv h connection_changed =
     (if connection_changed then
        (if rc_on_connection cfg then tell sv True (HostConnectionChanged h) else tell sv (rc_on_changed cfg) (HostChanged h))
      else tell sv (rc_on_metadata cfg) (HostMetadataChanged h))"

definition update_host :: "router_config \<Rightarrow> platform_text \<Rightarrow> 's services \<Rightarrow> http_request \<Rightarrow> string \<Rightarrow> ('s, http_response) handler" where
  "update_host cfg pt sv rq h =
     act_bind (require_hosts cfg) (\<lambda>_.
     act_bind (decoded_body (jd_update_host (pt_json pt) (rc_max_body cfg) (rq_body rq))) (\<lambda>req.
       (let rv = (if uh_revision req = 0 then query_revision rq else uh_revision req) in
        if rv = 0 then respond (write_error_response 400 ''revision required'')
        else
          act_bind (call_as sv map_host_error as_host (GetHost h)) (\<lambda>old.
          act_bind (call_as sv map_host_error as_host
              (SaveHost ((uh_input req)\<lparr>hi_id := h, hi_challenge := []\<rparr>) rv)) (\<lambda>updated.
          act_bind (announce cfg sv h (hv_conn_revision updated \<noteq> hv_conn_revision old)) (\<lambda>_.
            act_return (write_json 200 (HostBody updated))))))))"

definition delete_host :: "router_config \<Rightarrow> platform_text \<Rightarrow> 's services \<Rightarrow> http_request \<Rightarrow> string \<Rightarrow> ('s, http_response) handler" where
  "delete_host cfg pt sv rq h =
     act_bind (require_hosts cfg) (\<lambda>_.
       (let rv = (if query_revision rq = 0 then (case jd_revision (pt_json pt) (rq_body rq) of DecodedTo n \<Rightarrow> n | _ \<Rightarrow> 0)
                   else query_revision rq) in
        act_bind (call_as sv map_host_error as_unit (DeleteHost h rv)) (\<lambda>_.
        act_bind (if rc_on_removed cfg then tell sv True (HostRemoved h) else tell sv (rc_on_changed cfg) (HostChanged h)) (\<lambda>_.
          act_return (write_header 204)))))"

definition get_host_settings :: "router_config \<Rightarrow> 's services \<Rightarrow> ('s, http_response) handler" where
  "get_host_settings cfg sv =
     act_bind (require_hosts cfg) (\<lambda>_.
     act_bind (call_as sv map_host_error as_settings GetSettings) (\<lambda>s. act_return (write_json 200 (SettingsBody s))))"

definition update_host_settings :: "router_config \<Rightarrow> platform_text \<Rightarrow> 's services \<Rightarrow> http_request \<Rightarrow> ('s, http_response) handler" where
  "update_host_settings cfg pt sv rq =
     act_bind (require_hosts cfg) (\<lambda>_.
     act_bind (decoded_body (jd_settings (pt_json pt) (rc_max_body cfg) (rq_body rq))) (\<lambda>req.
       (let rv = (if gq_revision req = 0 then query_revision rq else gq_revision req) in
        if rv = 0 then respond (write_error_response 400 ''revision required'')
        else act_bind (call_as sv map_host_error as_settings (UpdateSettings (gq_default req) rv)) (\<lambda>s.
          act_return (write_json 200 (SettingsBody s))))))"

section \<open>Probes and trust\<close>

definition probe_and_challenge ::
  "router_config \<Rightarrow> 's services \<Rightarrow> host_id \<Rightarrow> revision \<Rightarrow> string \<Rightarrow> 16 word \<Rightarrow> ('s, http_response) handler" where
  "probe_and_challenge cfg sv h rv address port =
     (if \<not> rc_has_prober cfg then respond (write_error_response 501 ''probing_disabled'')
      else
        act_bind (call_as sv (\<lambda>_. write_error_response 503 ''probe_failed'') as_key (Probe address port)) (\<lambda>key.
        act_bind (call_as sv (\<lambda>_. write_error_response 500 ''challenge_creation_failed'') as_challenge
            (NewChallenge h rv (join_host_port address port) key)) (\<lambda>c.
          act_return (write_json 200 (ChallengeBody c)))))"

definition probe_draft_endpoint :: "router_config \<Rightarrow> platform_text \<Rightarrow> 's services \<Rightarrow> http_request \<Rightarrow> ('s, http_response) handler" where
  "probe_draft_endpoint cfg pt sv rq =
     act_bind (decoded_body (jd_probe (pt_json pt) (rc_max_body cfg) (rq_body rq))) (\<lambda>req.
       (let address = trim_space (pq_address req) in
        if address = [] then respond (write_error_response 400 ''address required'')
        else probe_and_challenge cfg sv [] 0 address (port_or_default (pq_port req))))"

definition probe_host_endpoint :: "router_config \<Rightarrow> 's services \<Rightarrow> string \<Rightarrow> ('s, http_response) handler" where
  "probe_host_endpoint cfg sv h =
     act_bind (require_hosts cfg) (\<lambda>_.
     act_bind (call_as sv map_host_error as_host (GetHost h)) (\<lambda>v.
       if hv_type v = ConnLocal then respond (write_error_response 400 ''cannot probe local host'')
       else probe_and_challenge cfg sv h (hv_revision v) (hv_address v) (port_or_default (hv_port v))))"

definition confirm_host_trust :: "router_config \<Rightarrow> platform_text \<Rightarrow> 's services \<Rightarrow> http_request \<Rightarrow> string \<Rightarrow> ('s, http_response) handler" where
  "confirm_host_trust cfg pt sv rq h =
     act_bind (require_hosts cfg) (\<lambda>_.
     act_bind (call_as sv map_host_error as_host (GetHost h)) (\<lambda>v.
       if hv_type v = ConnLocal then respond (write_error_response 400 ''cannot modify local host'')
       else
         act_bind (decoded_body (jd_trust (pt_json pt) (rc_max_body cfg) (rq_body rq))) (\<lambda>token.
           if token = [] then respond (write_error_response 400 ''challenge token required'')
           else
             act_bind (call_as sv (\<lambda>e.
                 if er_is e IsChallengeExpired then write_error_response 409 ''challenge_expired''
                 else if er_is e IsChallengeMismatch then write_error_response 409 ''challenge_mismatch''
                 else write_error_response 400 ''invalid_challenge'') as_pinned
                 (ConfirmChallenge token h (hv_revision v) (join_host_port (hv_address v) (port_or_default (hv_port v))))) (\<lambda>key.
             act_bind (call_as sv map_host_error as_host
                 (SaveHost
                   \<lparr> hi_id = h, hi_type = ConnOther [], hi_name = hv_name v, hi_address = hv_address v, hi_port = hv_port v,
                     hi_username = hv_username v, hi_cred_type = hv_cred_type v, hi_credentials = no_credentials,
                     hi_host_key = key, hi_challenge = [] \<rparr> (hv_revision v))) (\<lambda>updated.
             act_bind (announce cfg sv h (hv_conn_revision updated \<noteq> hv_conn_revision v)) (\<lambda>_.
               act_return (write_json 200 (HostBody updated))))))))"

definition get_host_capabilities :: "router_config \<Rightarrow> 's services \<Rightarrow> string \<Rightarrow> ('s, http_response) handler" where
  "get_host_capabilities cfg sv h =
     (if rc_has_capabilities cfg then
        act_bind (call_as sv map_host_error as_capabilities (Capabilities h)) (\<lambda>_. act_return (write_json 200 CapabilitiesBody))
      else if \<not> rc_has_hosts cfg then respond (write_error_response 404 ''host_not_found'')
      else act_bind (call_as sv map_host_error as_host (GetHost h)) (\<lambda>v.
        act_return (write_json 200 (UntestedBody h (hv_revision v)))))"

section \<open>Files\<close>

definition files_globally_enabled :: "router_config \<Rightarrow> ('s, unit) handler" where
  "files_globally_enabled cfg =
     (if rc_files_enabled cfg then act_return () else respond (write_error_response 404 ''not_found''))"

definition files_available :: "router_config \<Rightarrow> 's services \<Rightarrow> runtime_info \<Rightarrow> ('s, unit) handler" where
  "files_available cfg sv rt =
     (if \<not> rc_files_enabled cfg \<or> \<not> ri_files rt then respond (write_error_response 404 ''not_found'')
      else act_bind (call_as sv map_file_error as_enabled (FilesEnabled (ri_target rt))) (\<lambda>on.
        if on then act_return () else respond (write_error_response 404 ''not_found'')))"

text \<open>The gate every file route passes first.\<close>

definition open_files :: "router_config \<Rightarrow> 's services \<Rightarrow> string \<Rightarrow> ('s, runtime_info) handler" where
  "open_files cfg sv h =
     act_bind (files_globally_enabled cfg) (\<lambda>_.
     act_bind (resolve_runtime sv h) (\<lambda>rt.
     act_bind (files_available cfg sv rt) (\<lambda>_. act_return rt)))"

definition decode_file_request :: "'a decoding \<times> bool \<Rightarrow> ('s, 'a) handler" where
  "decode_file_request d =
     (case d of (v, ends) \<Rightarrow> act_bind (decoded_body v) (\<lambda>x. if ends then act_return x else respond bad_request))"

definition list_files :: "router_config \<Rightarrow> 's services \<Rightarrow> http_request \<Rightarrow> string \<Rightarrow> ('s, http_response) handler" where
  "list_files cfg sv rq h =
     act_bind (open_files cfg sv h) (\<lambda>rt.
     act_bind (call_as sv map_file_error as_listing (ListFiles (ri_target rt) (rq_query rq ''path''))) (\<lambda>l.
       act_return (write_json 200 (ListingBody l))))"

definition sent_size :: "file_info \<Rightarrow> int" where
  "sent_size f = (case fi_size_now f of Some n \<Rightarrow> if n < fi_size f then n else fi_size f | None \<Rightarrow> fi_size f)"

text \<open>\<open>http.ServeContent\<close> sends the section of that length; what it adds for range and conditional
  requests is the library's.\<close>

definition serve_file :: "router_config \<Rightarrow> platform_text \<Rightarrow> 's services \<Rightarrow> http_request \<Rightarrow> string \<Rightarrow> bool \<Rightarrow> ('s, http_response) handler" where
  "serve_file cfg pt sv rq h attachment =
     act_bind (open_files cfg sv h) (\<lambda>rt.
       (let path = rq_query rq ''path'' in
        act_bind (call_as sv map_file_error as_file (ReadFrom (ri_target rt) path)) (\<lambda>f.
          act_return
            \<lparr> rs_status = 200, rs_body = ContentBody (sent_size f),
              rs_headers =
                [(''Content-Type'', ''application/octet-stream''), (''X-File-Size'', int_string (sent_size f)),
                 (''X-File-Mtime'', int_string (fi_mtime f)), (''X-File-Mtime-Nanos'', int_string (fi_mtime_nanos f))]
                @ (if fi_binary f then [(''X-File-Binary'', ''1'')] else [])
                @ [(''Cache-Control'', ''no-store'')]
                @ (if attachment then [(''Content-Disposition'', ''attachment; filename='' @ pt_quote pt (base_of path))] else []) \<rparr>)))"

definition parse_optional_int64 :: "string \<Rightarrow> int option option" where
  "parse_optional_int64 v = (if v = [] then Some None else (case parse_int64 v of Some n \<Rightarrow> Some (Some n) | None \<Rightarrow> None))"

definition parse_required_int64 :: "string \<Rightarrow> int option" where
  "parse_required_int64 v = (case parse_optional_int64 v of Some (Some n) \<Rightarrow> Some n | _ \<Rightarrow> None)"

definition parse_flag :: "string \<Rightarrow> bool option" where
  "parse_flag v = (if v = [] \<or> v = ''0'' then Some False else if v = ''1'' then Some True else None)"

definition parse_expected_mtime :: "(string \<Rightarrow> string) \<Rightarrow> expected_mtime option option" where
  "parse_expected_mtime query =
     (case parse_optional_int64 (query ''expected_mtime'') of
        None \<Rightarrow> None
      | Some millis \<Rightarrow>
          (case parse_optional_int64 (query ''expected_mtime_nanos'') of
             None \<Rightarrow> None
           | Some nanos \<Rightarrow>
               (let digest = (if query ''expected_digest'' = [] then query ''expected_revision'' else query ''expected_digest'') in
                if millis = None \<and> nanos = None \<and> digest = [] then Some None
                else Some (Some \<lparr> em_millis = (case millis of Some m \<Rightarrow> m | None \<Rightarrow> 0), em_nanos = nanos, em_digest = digest \<rparr>))))"

definition parse_write_query_params :: "(string \<Rightarrow> string) \<Rightarrow> (int \<times> expected_mtime option \<times> bool) option" where
  "parse_write_query_params query =
     (case parse_required_int64 (query ''size'') of
        None \<Rightarrow> None
      | Some declared \<Rightarrow>
          (case parse_expected_mtime query of
             None \<Rightarrow> None
           | Some expected \<Rightarrow>
               (case parse_flag (query ''allow_other_names'') of
                  None \<Rightarrow> None
                | Some allow \<Rightarrow> Some (declared, expected, allow))))"

definition write_file_route :: "router_config \<Rightarrow> 's services \<Rightarrow> http_request \<Rightarrow> string \<Rightarrow> ('s, http_response) handler" where
  "write_file_route cfg sv rq h =
     act_bind (open_files cfg sv h) (\<lambda>rt.
       case parse_write_query_params (rq_query rq) of
         None \<Rightarrow> respond (write_error_response 400 ''invalid_body'')
       | Some (declared, expected, allow) \<Rightarrow>
           act_bind (check_expected_conn_rev rq (ri_target rt) None) (\<lambda>_.
           act_bind (call_as sv
               (\<lambda>e. if er_is e IsMaxBytes then write_error_response 413 ''file_too_large'' else map_file_error e) as_written
               (WriteTo (ri_target rt)
                 \<lparr> wc_path = rq_query rq ''path'', wc_limit = (if rc_max_file cfg > 0 then Some (rc_max_file cfg) else None),
                   wc_declared = declared, wc_expected = expected, wc_other_names = allow \<rparr>)) (\<lambda>r.
             act_return (write_json 200 (WrittenBody (wr_mtime r) (wr_mtime_nanos r))))))"

definition create_kind :: "string \<Rightarrow> bool option" where
  "create_kind k = (if k = ''file'' then Some False else if k = ''dir'' then Some True else None)"

definition create_entry_route :: "router_config \<Rightarrow> platform_text \<Rightarrow> 's services \<Rightarrow> http_request \<Rightarrow> string \<Rightarrow> ('s, http_response) handler" where
  "create_entry_route cfg pt sv rq h =
     act_bind (open_files cfg sv h) (\<lambda>rt.
     act_bind (decode_file_request (jd_create_file (pt_json pt) (rc_max_body cfg) (rq_body rq))) (\<lambda>req.
     act_bind (expect_revisions rq (ri_target rt) (cq_rev_snake req) (cq_rev_camel req)) (\<lambda>_.
       case create_kind (cq_kind req) of
         None \<Rightarrow> respond bad_request
       | Some is_dir \<Rightarrow>
           act_bind (call_as sv map_file_error as_unit (CreateEntry (ri_target rt) (cq_path req) is_dir)) (\<lambda>_.
             act_return (write_header 204)))))"

definition rename_entry_route :: "router_config \<Rightarrow> platform_text \<Rightarrow> 's services \<Rightarrow> http_request \<Rightarrow> string \<Rightarrow> ('s, http_response) handler" where
  "rename_entry_route cfg pt sv rq h =
     act_bind (open_files cfg sv h) (\<lambda>rt.
     act_bind (decode_file_request (jd_rename_file (pt_json pt) (rc_max_body cfg) (rq_body rq))) (\<lambda>req.
     act_bind (expect_revisions rq (ri_target rt) (nq_rev_snake req) (nq_rev_camel req)) (\<lambda>_.
     act_bind (call_as sv map_file_error as_unit (RenameEntry (ri_target rt) (nq_path req) (nq_new_path req))) (\<lambda>_.
       act_return (write_header 204)))))"

definition delete_entry_route :: "router_config \<Rightarrow> platform_text \<Rightarrow> 's services \<Rightarrow> http_request \<Rightarrow> string \<Rightarrow> ('s, http_response) handler" where
  "delete_entry_route cfg pt sv rq h =
     act_bind (open_files cfg sv h) (\<lambda>rt.
     act_bind (decode_file_request (jd_delete_file (pt_json pt) (rc_max_body cfg) (rq_body rq))) (\<lambda>req.
     act_bind (expect_revisions rq (ri_target rt) (dq_rev_snake req) (dq_rev_camel req)) (\<lambda>_.
     act_bind (call_as sv map_file_error as_unit (DeleteEntry (ri_target rt) (dq_path req) (dq_recursive req))) (\<lambda>_.
       act_return (write_header 204)))))"

definition session_working_directory :: "router_config \<Rightarrow> 's services \<Rightarrow> string \<Rightarrow> string \<Rightarrow> ('s, http_response) handler" where
  "session_working_directory cfg sv h name =
     act_bind (files_globally_enabled cfg) (\<lambda>_.
     act_bind (resolve_runtime sv h) (\<lambda>rt.
     act_bind (call_as sv map_session_error as_text (PaneDirectory (ri_target rt) name)) (\<lambda>dir.
     act_bind (if ri_files rt then call_as sv map_file_error as_enabled (FilesEnabled (ri_target rt)) else act_return False) (\<lambda>on.
     act_bind (if on then call_as sv map_file_error as_start (StartDirectory (ri_target rt) dir) else act_return (dir, False)) (\<lambda>(p, sub).
       act_return (write_json 200 (DirectoryBody p sub)))))))"

section \<open>Routing and authentication\<close>

datatype route =
    RListHosts | RCreateHost | RGetSettings | RUpdateSettings | RProbeDraft
  | RGetHost string | RUpdateHost string | RDeleteHost string | RProbeHost string | RTrustHost string | RCapabilities string
  | RListSessions string | RCreateSession string | RRenameSession string string | RKillSession string string
  | RWorkingDirectory string string | RIssueTicket
  | RListFiles string | RReadFile string | RDownloadFile string | RWriteFile string | RCreateEntry string
  | RRenameEntry string | RDeleteEntry string
  | RClientConfig | RWebSocket string string

definition is_get :: "string \<Rightarrow> bool" where
  "is_get m \<longleftrightarrow> m = ''GET'' \<or> m = ''HEAD''"

definition host_route :: "string \<Rightarrow> string \<Rightarrow> route option" where
  "host_route m h =
     (if m = ''POST'' then (if h = ''probe'' then Some RProbeDraft else None)
      else if is_get m then Some (RGetHost h)
      else if m = ''PUT'' \<or> m = ''PATCH'' then Some (RUpdateHost h)
      else if m = ''DELETE'' then Some (RDeleteHost h)
      else None)"

definition host_part_route :: "string \<Rightarrow> string \<Rightarrow> string \<Rightarrow> route option" where
  "host_part_route m h x =
     (if x = ''probe'' \<and> m = ''POST'' then Some (RProbeHost h)
      else if x = ''trust'' \<and> m = ''POST'' then Some (RTrustHost h)
      else if x = ''capabilities'' \<and> is_get m then Some (RCapabilities h)
      else if x = ''sessions'' \<and> is_get m then Some (RListSessions h)
      else if x = ''sessions'' \<and> m = ''POST'' then Some (RCreateSession h)
      else None)"

definition host_item_route :: "string \<Rightarrow> string \<Rightarrow> string \<Rightarrow> string \<Rightarrow> route option" where
  "host_item_route m h x y =
     (if x = ''sessions'' then
        (if m = ''PATCH'' then Some (RRenameSession h y) else if m = ''DELETE'' then Some (RKillSession h y) else None)
      else if x = ''files'' then
        (if y = ''list'' \<and> is_get m then Some (RListFiles h)
         else if y = ''read'' \<and> is_get m then Some (RReadFile h)
         else if y = ''download'' \<and> is_get m then Some (RDownloadFile h)
         else if y = ''write'' \<and> m = ''PUT'' then Some (RWriteFile h)
         else if y = ''create'' \<and> m = ''POST'' then Some (RCreateEntry h)
         else if y = ''rename'' \<and> m = ''POST'' then Some (RRenameEntry h)
         else if y = ''delete'' \<and> m = ''POST'' then Some (RDeleteEntry h)
         else None)
      else None)"

text \<open>The patterns of the mux; a wildcard matches one segment that is not empty.\<close>

definition route_of :: "string \<Rightarrow> string list \<Rightarrow> route option" where
  "route_of m p =
     (if list_ex (\<lambda>s. s = []) p then None
      else if take 2 p = [''api'', ''hosts''] then
        (case List.drop 2 p of
           [] \<Rightarrow> if is_get m then Some RListHosts else if m = ''POST'' then Some RCreateHost else None
         | [h] \<Rightarrow> host_route m h
         | [h, x] \<Rightarrow> host_part_route m h x
         | [h, x, y] \<Rightarrow> host_item_route m h x y
         | [h, x, n, y] \<Rightarrow>
             if x = ''sessions'' \<and> y = ''working-directory'' \<and> is_get m then Some (RWorkingDirectory h n) else None
         | _ \<Rightarrow> None)
      else if p = [''api'', ''host-settings''] then
        (if is_get m then Some RGetSettings else if m = ''PUT'' \<or> m = ''PATCH'' then Some RUpdateSettings else None)
      else if p = [''api'', ''ws-ticket''] then (if m = ''POST'' then Some RIssueTicket else None)
      else if p = [''api'', ''client-config''] then (if is_get m then Some RClientConfig else None)
      else (case p of [w, h, s] \<Rightarrow> if w = ''ws'' \<and> is_get m then Some (RWebSocket h s) else None | _ \<Rightarrow> None))"

definition bearer_token :: "http_request \<Rightarrow> string" where
  "bearer_token rq =
     (let h = rq_header rq ''Authorization'' in
      if \<not> has_prefix h ''Bearer '' then [] else trim_prefix h ''Bearer '')"

definition require_auth :: "(string \<Rightarrow> string) \<Rightarrow> string \<Rightarrow> http_request \<Rightarrow> ('s, http_response) handler \<Rightarrow> ('s, http_response) handler" where
  "require_auth sha expected rq next =
     (if expected = [] \<or> \<not> constant_time_equal sha (bearer_token rq) expected
      then respond (write_error_response 401 ''unauthorized'') else next)"

text \<open>What another handler answers: the WebSocket endpoint, the static files, or the mux itself (a
  redirect to the clean path, not found, or method not allowed).\<close>

definition elsewhere :: "string \<Rightarrow> http_response" where
  "elsewhere who = \<lparr> rs_status = 0, rs_body = ElsewhereBody who, rs_headers = [] \<rparr>"

definition unmatched :: "router_config \<Rightarrow> http_response" where
  "unmatched cfg = elsewhere (if rc_has_static cfg then ''static'' else ''mux'')"

definition handle_route :: "router_config \<Rightarrow> platform_text \<Rightarrow> 's services \<Rightarrow> http_request \<Rightarrow> route \<Rightarrow> ('s, http_response) handler" where
  "handle_route cfg pt sv rq r =
     (case r of
        RListHosts \<Rightarrow> list_hosts cfg sv
      | RCreateHost \<Rightarrow> create_host cfg pt sv rq
      | RGetSettings \<Rightarrow> get_host_settings cfg sv
      | RUpdateSettings \<Rightarrow> update_host_settings cfg pt sv rq
      | RProbeDraft \<Rightarrow> probe_draft_endpoint cfg pt sv rq
      | RGetHost h \<Rightarrow> get_host cfg sv h
      | RUpdateHost h \<Rightarrow> update_host cfg pt sv rq h
      | RDeleteHost h \<Rightarrow> delete_host cfg pt sv rq h
      | RProbeHost h \<Rightarrow> probe_host_endpoint cfg sv h
      | RTrustHost h \<Rightarrow> confirm_host_trust cfg pt sv rq h
      | RCapabilities h \<Rightarrow> get_host_capabilities cfg sv h
      | RListSessions h \<Rightarrow> list_sessions sv h
      | RCreateSession h \<Rightarrow> create_session cfg pt sv rq h
      | RRenameSession h n \<Rightarrow> rename_session cfg pt sv rq h n
      | RKillSession h n \<Rightarrow> kill_session sv rq h n
      | RWorkingDirectory h n \<Rightarrow> session_working_directory cfg sv h n
      | RIssueTicket \<Rightarrow> issue_ticket cfg pt sv rq
      | RListFiles h \<Rightarrow> list_files cfg sv rq h
      | RReadFile h \<Rightarrow> serve_file cfg pt sv rq h False
      | RDownloadFile h \<Rightarrow> serve_file cfg pt sv rq h True
      | RWriteFile h \<Rightarrow> write_file_route cfg sv rq h
      | RCreateEntry h \<Rightarrow> create_entry_route cfg pt sv rq h
      | RRenameEntry h \<Rightarrow> rename_entry_route cfg pt sv rq h
      | RDeleteEntry h \<Rightarrow> delete_entry_route cfg pt sv rq h
      | RClientConfig \<Rightarrow> get_client_config cfg
      | RWebSocket h s \<Rightarrow> act_return (elsewhere ''websocket''))"

text \<open>The routes without authentication: the client configuration, the WebSocket endpoint (which has
  its tickets) and what no pattern matches.\<close>

definition serve_http :: "router_config \<Rightarrow> platform_text \<Rightarrow> 's services \<Rightarrow> http_request \<Rightarrow> ('s, http_response) handler" where
  "serve_http cfg pt sv rq =
     (case route_of (rq_method rq) (rq_path rq) of
        None \<Rightarrow> respond (unmatched cfg)
      | Some RClientConfig \<Rightarrow> get_client_config cfg
      | Some (RWebSocket h s) \<Rightarrow>
          respond (if rc_has_ws cfg then elsewhere ''websocket'' else unmatched cfg)
      | Some r \<Rightarrow> require_auth (pt_sha pt) (rc_token cfg) rq (handle_route cfg pt sv rq r))"

text \<open>The response, whether the handler stopped early or ran to its end.\<close>

definition answer_request :: "router_config \<Rightarrow> platform_text \<Rightarrow> 's services \<Rightarrow> http_request \<Rightarrow> 's hub \<Rightarrow> http_response \<times> 's hub" where
  "answer_request cfg pt sv rq w =
     (case serve_http cfg pt sv rq w of (Inl r, w') \<Rightarrow> (r, w') | (Inr r, w') \<Rightarrow> (r, w'))"

text \<open>What \<open>NewRouterWithResolver\<close> defaults.\<close>

definition new_router_config :: "router_config \<Rightarrow> router_config" where
  "new_router_config cfg =
     cfg\<lparr> rc_max_body := (if rc_max_body cfg \<le> 0 then 65536 else rc_max_body cfg), rc_has_prober := True, rc_has_trust_store := True \<rparr>"

end
