(* ===== verification/LogCalculus.thy ===== *)
theory LogCalculus
  imports Prelude
begin

text \<open>
  A calculus for actions that log their exchanges with an environment.  \<open>log_ensures lg s m Q\<close> says that
  the action \<open>m\<close>, run when the exchanges \<open>s\<close> have been made, only adds to the log \<open>lg\<close> and ends with a result
  and a log that satisfy \<open>Q\<close>.  The rules in \<open>wp\<close> run an action symbolically.
\<close>

named_theorems wp \<open>rules of the log calculus\<close>

definition log_ensures :: "('w \<Rightarrow> 'x list) \<Rightarrow> 'x list \<Rightarrow> ('w, 'e, 'a) action \<Rightarrow> ('e + 'a \<Rightarrow> 'x list \<Rightarrow> bool) \<Rightarrow> bool" where
  "log_ensures lg s m Q \<longleftrightarrow> (\<forall>w. \<exists>l. lg (snd (m w)) = lg w @ l \<and> Q (fst (m w)) (s @ l))"

lemma log_ensures_return [wp]: "Q (Inr x) s \<Longrightarrow> log_ensures lg s (act_return x) Q"
  by (simp add: log_ensures_def)

lemma log_ensures_fail [wp]: "Q (Inl e) s \<Longrightarrow> log_ensures lg s (act_fail e) Q"
  by (simp add: log_ensures_def)

lemma log_ensures_lift [wp]: "Q r s \<Longrightarrow> log_ensures lg s (act_lift r) Q"
  by (simp add: log_ensures_def)

lemma log_ensures_pair [wp]: "Q r s \<Longrightarrow> log_ensures lg s (Pair r) Q"
  by (simp add: log_ensures_def)

text \<open>An exchange: the answer is the result, and is logged.\<close>

lemma log_ensures_ask:
  assumes "\<And>w. \<exists>a. fst (m w) = Inr a \<and> lg (snd (m w)) = lg w @ [(q, a)]" and "\<And>a. Q (Inr a) (s @ [(q, a)])"
  shows "log_ensures lg s m Q"
  unfolding log_ensures_def
proof
  fix w
  obtain a where "fst (m w) = Inr a" "lg (snd (m w)) = lg w @ [(q, a)]" using assms(1) by blast
  with assms(2) [of a] show "\<exists>l. lg (snd (m w)) = lg w @ l \<and> Q (fst (m w)) (s @ l)" by auto
qed

definition next_step :: "('w \<Rightarrow> 'x list) \<Rightarrow> ('a \<Rightarrow> ('w, 'e, 'b) action) \<Rightarrow> ('e + 'b \<Rightarrow> 'x list \<Rightarrow> bool) \<Rightarrow>
    'e + 'a \<Rightarrow> 'x list \<Rightarrow> bool" where
  "next_step lg k Q r s = (case r of Inl e \<Rightarrow> Q (Inl e) s | Inr x \<Rightarrow> log_ensures lg s (k x) Q)"

lemma next_step_simps [simp]:
  "next_step lg k Q (Inl e) s = Q (Inl e) s"
  "next_step lg k Q (Inr x) s = log_ensures lg s (k x) Q"
  by (simp_all add: next_step_def)

lemma log_ensures_bind [wp]:
  assumes "log_ensures lg s m (next_step lg k Q)"
  shows "log_ensures lg s (act_bind m k) Q"
  unfolding log_ensures_def
proof
  fix w
  obtain l where l: "lg (snd (m w)) = lg w @ l" "next_step lg k Q (fst (m w)) (s @ l)"
    using assms unfolding log_ensures_def by blast
  show "\<exists>l. lg (snd (act_bind m k w)) = lg w @ l \<and> Q (fst (act_bind m k w)) (s @ l)"
  proof (cases "m w")
    case (Pair r w')
    show ?thesis
    proof (cases r)
      case (Inl e)
      with Pair l show ?thesis by (auto simp: act_bind_def)
    next
      case (Inr x)
      with Pair l(2) have "log_ensures lg (s @ l) (k x) Q" by simp
      then obtain l' where "lg (snd (k x w')) = lg w' @ l'" "Q (fst (k x w')) ((s @ l) @ l')"
        unfolding log_ensures_def by blast
      with Pair Inr l show ?thesis by (auto simp: act_bind_def intro!: exI [of _ "l @ l'"])
    qed
  qed
qed

lemma log_ensures_if [wp]:
  "(b \<Longrightarrow> log_ensures lg s m Q) \<Longrightarrow> (\<not> b \<Longrightarrow> log_ensures lg s n Q) \<Longrightarrow> log_ensures lg s (if b then m else n) Q"
  by simp

lemma log_ensures_option [wp]:
  "(x = None \<Longrightarrow> log_ensures lg s m Q) \<Longrightarrow> (\<And>y. x = Some y \<Longrightarrow> log_ensures lg s (n y) Q)
   \<Longrightarrow> log_ensures lg s (case x of None \<Rightarrow> m | Some y \<Rightarrow> n y) Q"
  by (simp split: option.split)

lemma log_ensures_prod [wp]:
  "(\<And>a b. x = (a, b) \<Longrightarrow> log_ensures lg s (m a b) Q) \<Longrightarrow> log_ensures lg s (case x of (a, b) \<Rightarrow> m a b) Q"
  by (simp split: prod.split)

lemma log_ensures_weaken: "log_ensures lg s m P \<Longrightarrow> (\<And>r l. P r l \<Longrightarrow> Q r l) \<Longrightarrow> log_ensures lg s m Q"
  by (fastforce simp: log_ensures_def)

end
