(* ===== verification/HttpSafety.thy ===== *)
theory HttpSafety
  imports HttpHandlers LogCalculus
begin

text \<open>
  What the HTTP layer promises of the calls it makes.  The log calculus carries the
  proofs: \<open>ensures s m Q\<close> says that a handler, run when this request has made the exchanges \<open>s\<close>, ends
  with a result and a log that satisfy \<open>Q\<close>.  Each handler is then one symbolic run.
\<close>

section \<open>A calculus of exchanges\<close>

type_synonym exchange = "service_call \<times> service_answer"

abbreviation ensures :: "exchange list \<Rightarrow> ('s, 'a) handler \<Rightarrow> (http_response + 'a \<Rightarrow> exchange list \<Rightarrow> bool) \<Rightarrow> bool" where
  "ensures \<equiv> log_ensures hb_log"

lemma ensures_respond [wp]: "Q (Inl r) s \<Longrightarrow> ensures s (respond r) Q"
  unfolding respond_def by (rule log_ensures_fail)

lemma ensures_call [wp]: "(\<And>a. Q (Inr a) (s @ [(q, a)])) \<Longrightarrow> ensures s (call sv q) Q"
  by (rule log_ensures_ask) (simp_all add: call_def case_prod_beta)

lemma ensures_call_as [wp]:
  assumes "\<And>e. Q (Inl (f e)) (s @ [(q, Refused e)])"
    and "\<And>a. get a = None \<Longrightarrow> (\<And>e. a \<noteq> Refused e) \<Longrightarrow> Q (Inl impossible) (s @ [(q, a)])"
    and "\<And>a x. get a = Some x \<Longrightarrow> (\<And>e. a \<noteq> Refused e) \<Longrightarrow> Q (Inr x) (s @ [(q, a)])"
  shows "ensures s (call_as sv f get q) Q"
  unfolding call_as_def
proof (intro wp, simp)
  fix a
  show "ensures (s @ [(q, a)]) (checked f get a) Q"
  proof (cases "\<exists>e. a = Refused e")
    case True
    with assms(1) show ?thesis by (auto simp: checked_def intro!: wp)
  next
    case False
    with assms(2,3) [of a] show ?thesis
      unfolding checked_def by (cases a; cases "get a") (auto intro!: wp)
  qed
qed

lemma ensures_decoding [wp]:
  "(d = DecodeEOF \<Longrightarrow> ensures s m Q) \<Longrightarrow> (d = DecodeFailed \<Longrightarrow> ensures s n Q) \<Longrightarrow> (\<And>x. d = DecodedTo x \<Longrightarrow> ensures s (k x) Q)
   \<Longrightarrow> ensures s (case d of DecodeEOF \<Rightarrow> m | DecodeFailed \<Rightarrow> n | DecodedTo x \<Rightarrow> k x) Q"
  by (simp split: decoding.split)

lemma ensures_decoded_body [wp]:
  "(\<And>x. d = DecodedTo x \<Longrightarrow> Q (Inr x) s) \<Longrightarrow> Q (Inl bad_request) s \<Longrightarrow> ensures s (decoded_body d) Q"
  unfolding decoded_body_def by (auto intro!: wp)

section \<open>What a request may do\<close>

text \<open>The target a call acts on, and whether it changes anything there.\<close>

fun call_target :: "service_call \<Rightarrow> target option" where
  "call_target (ListSessions t) = Some t"
| "call_target (CreateSession t _) = Some t"
| "call_target (RenameSession t _ _) = Some t"
| "call_target (KillSession t _) = Some t"
| "call_target (GetSession t _) = Some t"
| "call_target (PaneDirectory t _) = Some t"
| "call_target (FilesEnabled t) = Some t"
| "call_target (StartDirectory t _) = Some t"
| "call_target (ListFiles t _) = Some t"
| "call_target (ReadFrom t _) = Some t"
| "call_target (WriteTo t _) = Some t"
| "call_target (CreateEntry t _ _) = Some t"
| "call_target (RenameEntry t _ _) = Some t"
| "call_target (DeleteEntry t _ _) = Some t"
| "call_target _ = None"

fun is_mutation :: "service_call \<Rightarrow> bool" where
  "is_mutation (CreateSession _ _) = True"
| "is_mutation (RenameSession _ _ _) = True"
| "is_mutation (KillSession _ _) = True"
| "is_mutation (WriteTo _ _) = True"
| "is_mutation (CreateEntry _ _ _) = True"
| "is_mutation (RenameEntry _ _ _) = True"
| "is_mutation (DeleteEntry _ _ _) = True"
| "is_mutation _ = False"

fun is_file_call :: "service_call \<Rightarrow> bool" where
  "is_file_call (StartDirectory _ _) = True"
| "is_file_call (ListFiles _ _) = True"
| "is_file_call (ReadFrom _ _) = True"
| "is_file_call (WriteTo _ _) = True"
| "is_file_call (CreateEntry _ _ _) = True"
| "is_file_call (RenameEntry _ _ _) = True"
| "is_file_call (DeleteEntry _ _ _) = True"
| "is_file_call _ = False"

text \<open>The host a request names: in its path, or for a ticket in its body.\<close>

definition named_host :: "router_config \<Rightarrow> platform_text \<Rightarrow> http_request \<Rightarrow> string option" where
  "named_host cfg pt rq =
     (if rq_path rq = [''api'', ''ws-ticket''] then
        (case jd_ticket (pt_json pt) (rc_max_body cfg) (rq_body rq) of DecodedTo x \<Rightarrow> Some (wr_host x) | _ \<Rightarrow> None)
      else if length (rq_path rq) > 2 then Some (rq_path rq ! 2) else None)"

text \<open>The connection revisions a request says it expects, in the query, the header and the body of its
  route; None for a number that does not parse.\<close>

definition sent_values :: "string \<Rightarrow> nat option list" where
  "sent_values v = (if v = [] then [] else [parse_uint64 v])"

definition given_values :: "nat option \<Rightarrow> nat option list" where
  "given_values v = (case v of None \<Rightarrow> [] | Some n \<Rightarrow> [Some n])"

definition body_revisions :: "router_config \<Rightarrow> platform_text \<Rightarrow> http_request \<Rightarrow> route \<Rightarrow> nat option list" where
  "body_revisions cfg pt rq r =
     (case r of
        RCreateSession _ \<Rightarrow> (case jd_session (pt_json pt) (rc_max_body cfg) (rq_body rq) of
            DecodedTo x \<Rightarrow> given_values (sq_rev_snake x) @ given_values (sq_rev_camel x) | _ \<Rightarrow> [])
      | RRenameSession _ _ \<Rightarrow> (case jd_session (pt_json pt) (rc_max_body cfg) (rq_body rq) of
            DecodedTo x \<Rightarrow> given_values (sq_rev_snake x) @ given_values (sq_rev_camel x) | _ \<Rightarrow> [])
      | RCreateEntry _ \<Rightarrow> (case jd_create_file (pt_json pt) (rc_max_body cfg) (rq_body rq) of
            (DecodedTo x, _) \<Rightarrow> given_values (cq_rev_snake x) @ given_values (cq_rev_camel x) | _ \<Rightarrow> [])
      | RRenameEntry _ \<Rightarrow> (case jd_rename_file (pt_json pt) (rc_max_body cfg) (rq_body rq) of
            (DecodedTo x, _) \<Rightarrow> given_values (nq_rev_snake x) @ given_values (nq_rev_camel x) | _ \<Rightarrow> [])
      | RDeleteEntry _ \<Rightarrow> (case jd_delete_file (pt_json pt) (rc_max_body cfg) (rq_body rq) of
            (DecodedTo x, _) \<Rightarrow> given_values (dq_rev_snake x) @ given_values (dq_rev_camel x) | _ \<Rightarrow> [])
      | _ \<Rightarrow> [])"

definition expected_revisions :: "router_config \<Rightarrow> platform_text \<Rightarrow> http_request \<Rightarrow> nat option list" where
  "expected_revisions cfg pt rq =
     sent_values (rq_query rq ''expected_connection_revision'')
     @ sent_values (rq_header rq ''X-Expected-Connection-Revision'')
     @ (case route_of (rq_method rq) (rq_path rq) of None \<Rightarrow> [] | Some r \<Rightarrow> body_revisions cfg pt rq r)"

text \<open>A call a request may make after the exchanges \<open>seen\<close>.\<close>

definition permitted :: "router_config \<Rightarrow> string option \<Rightarrow> nat option list \<Rightarrow> exchange list \<Rightarrow> service_call \<Rightarrow> bool" where
  "permitted cfg h revs seen q \<longleftrightarrow>
     (case call_target q of
        None \<Rightarrow> True
      | Some t \<Rightarrow>
          (\<exists>hid rt. h = Some hid \<and> (Resolve hid, RuntimeIs rt) \<in> set seen \<and> ri_target rt = t)
          \<and> (is_mutation q \<longrightarrow> set revs \<subseteq> {Some (t_conn_revision t)})
          \<and> (is_file_call q \<longrightarrow> rc_files_enabled cfg \<and> (FilesEnabled t, Enabled True) \<in> set seen))"

fun all_permitted :: "router_config \<Rightarrow> string option \<Rightarrow> nat option list \<Rightarrow> exchange list \<Rightarrow> exchange list \<Rightarrow> bool" where
  "all_permitted cfg h revs seen [] = True"
| "all_permitted cfg h revs seen (e # l) \<longleftrightarrow> permitted cfg h revs seen (fst e) \<and> all_permitted cfg h revs (seen @ [e]) l"

text \<open>An answer that is an error; the callbacks have none.\<close>

fun is_callback :: "service_call \<Rightarrow> bool" where
  "is_callback (HostChanged _) = True"
| "is_callback (HostMetadataChanged _) = True"
| "is_callback (HostConnectionChanged _) = True"
| "is_callback (HostRemoved _) = True"
| "is_callback _ = False"

definition was_refused :: "exchange \<Rightarrow> bool" where
  "was_refused e = (case snd e of Refused _ \<Rightarrow> \<not> is_callback (fst e) | _ \<Rightarrow> False)"

definition response_of :: "http_response + http_response \<Rightarrow> http_response" where
  "response_of r = (case r of Inl x \<Rightarrow> x | Inr x \<Rightarrow> x)"

definition orderly :: "router_config \<Rightarrow> string option \<Rightarrow> nat option list \<Rightarrow> http_response + http_response \<Rightarrow> exchange list \<Rightarrow> bool" where
  "orderly cfg h revs r l \<longleftrightarrow>
     all_permitted cfg h revs [] l \<and> (rs_status (response_of r) < 400 \<longrightarrow> \<not> list_ex was_refused l)"

section \<open>Runs of the handlers\<close>

lemma error_statuses [simp]:
  "rs_status (write_error_response n msg) = n"
  "rs_status (write_json n b) = n"
  "rs_status (write_header n) = n"
  "rs_status impossible = 500"
  by (simp_all add: write_error_response_def write_json_def write_header_def impossible_def)

lemma mapped_statuses [simp]:
  "400 \<le> rs_status (map_session_error e)"
  "400 \<le> rs_status (map_host_error e)"
  "400 \<le> rs_status (map_file_error e)"
  by (simp_all add: map_session_error_def map_host_error_def map_file_error_def map_host_file_error_def)

lemma was_refused_simps [simp]:
  "(\<And>e. a \<noteq> Refused e) \<Longrightarrow> \<not> was_refused (q, a)"
  "is_callback q \<Longrightarrow> \<not> was_refused (q, a)"
  by (simp_all add: was_refused_def split: service_answer.split)

lemma mapped_statuses_not [simp]:
  "\<not> rs_status (map_session_error e) < 400"
  "\<not> rs_status (map_host_error e) < 400"
  "\<not> rs_status (map_file_error e) < 400"
  by (simp_all add: not_less)

lemma as_simps [simp]:
  "as_runtime a = Some r \<longleftrightarrow> a = RuntimeIs r"
  "as_enabled a = Some b \<longleftrightarrow> a = Enabled b"
  by (auto simp: as_runtime_def as_enabled_def split: service_answer.splits)

lemma merge_revision_Inr: "merge_revision v found = Inr f \<Longrightarrow>
    set (sent_values v @ given_values found) \<subseteq> set (given_values f)"
  by (auto simp: merge_revision_def sent_values_def given_values_def split: if_splits option.splits)

lemma merge_revision_Inl: "merge_revision v found = Inl r \<Longrightarrow> r = bad_request"
  by (auto simp: merge_revision_def split: if_splits option.splits)

definition revisions_fit :: "http_request \<Rightarrow> target \<Rightarrow> nat option list \<Rightarrow> bool" where
  "revisions_fit rq t body \<longleftrightarrow>
     set (sent_values (rq_query rq ''expected_connection_revision'')
       @ sent_values (rq_header rq ''X-Expected-Connection-Revision'') @ body) \<subseteq> {Some (t_conn_revision t)}"

lemma ensures_check_rev [wp]:
  assumes "\<And>r. 400 \<le> rs_status r \<Longrightarrow> Q (Inl r) s"
    and "revisions_fit rq t (given_values b) \<Longrightarrow> Q (Inr ()) s"
  shows "ensures s (check_expected_conn_rev rq t b) Q"
  unfolding check_expected_conn_rev_def
proof (rule log_ensures_lift)
  let ?m1 = "merge_revision (rq_query rq ''expected_connection_revision'') b"
  let ?m2 = "merge_revision (rq_header rq ''X-Expected-Connection-Revision'')"
  let ?fit = "\<lambda>f2. case f2 of
      Some n \<Rightarrow> if t_conn_revision t \<noteq> n then Inl (write_error_response 409 ''host_revision_conflict'') else Inr ()
    | None \<Rightarrow> Inr ()"
  show "Q (rbind ?m1 (\<lambda>f1. rbind (?m2 f1) ?fit)) s"
  proof (cases ?m1)
    case (Inl r)
    then show ?thesis using assms(1) merge_revision_Inl [OF Inl] by simp
  next
    case (Inr f1)
    show ?thesis
    proof (cases "?m2 f1")
      case (Inl r)
      then show ?thesis using Inr assms(1) merge_revision_Inl [OF Inl] by simp
    next
      case (Inr f2)
      note f = merge_revision_Inr [OF \<open>?m1 = Inr f1\<close>] merge_revision_Inr [OF Inr]
      show ?thesis
      proof (cases "\<exists>n. f2 = Some n \<and> t_conn_revision t \<noteq> n")
        case True
        then show ?thesis using \<open>?m1 = Inr f1\<close> Inr assms(1) by auto
      next
        case False
        then have "set (given_values f2) \<subseteq> {Some (t_conn_revision t)}"
          by (auto simp: given_values_def split: option.splits)
        with f have "revisions_fit rq t (given_values b)" by (auto simp: revisions_fit_def)
        with False \<open>?m1 = Inr f1\<close> Inr assms(2) show ?thesis by (auto split: option.split)
      qed
    qed
  qed
qed

lemma resolve_body_revision_Inr: "resolve_body_revision a b = Inr f \<Longrightarrow>
    set (given_values a @ given_values b) \<subseteq> set (given_values f)"
  by (auto simp: resolve_body_revision_def given_values_def split: if_splits option.splits)

lemma ensures_expect [wp]:
  assumes "\<And>r. 400 \<le> rs_status r \<Longrightarrow> Q (Inl r) s"
    and "revisions_fit rq t (given_values a @ given_values b) \<Longrightarrow> Q (Inr ()) s"
  shows "ensures s (expect_revisions rq t a b) Q"
  unfolding expect_revisions_def
proof (intro log_ensures_bind log_ensures_lift)
  show "next_step hb_log (check_expected_conn_rev rq t) Q (resolve_body_revision a b) s"
  proof (cases "resolve_body_revision a b")
    case (Inl r)
    then have "r = bad_request" by (auto simp: resolve_body_revision_def split: if_splits)
    with Inl assms(1) show ?thesis by simp
  next
    case (Inr f)
    then have "revisions_fit rq t (given_values f) \<Longrightarrow> revisions_fit rq t (given_values a @ given_values b)"
      using resolve_body_revision_Inr [OF Inr] by (auto simp: revisions_fit_def)
    with Inr assms show ?thesis by (auto intro!: ensures_check_rev)
  qed
qed

definition route_host :: "router_config \<Rightarrow> platform_text \<Rightarrow> http_request \<Rightarrow> route \<Rightarrow> string option" where
  "route_host cfg pt rq r =
     (case r of
        RGetHost h \<Rightarrow> Some h | RUpdateHost h \<Rightarrow> Some h | RDeleteHost h \<Rightarrow> Some h | RProbeHost h \<Rightarrow> Some h
      | RTrustHost h \<Rightarrow> Some h | RCapabilities h \<Rightarrow> Some h | RListSessions h \<Rightarrow> Some h | RCreateSession h \<Rightarrow> Some h
      | RRenameSession h _ \<Rightarrow> Some h | RKillSession h _ \<Rightarrow> Some h | RWorkingDirectory h _ \<Rightarrow> Some h
      | RListFiles h \<Rightarrow> Some h | RReadFile h \<Rightarrow> Some h | RDownloadFile h \<Rightarrow> Some h | RWriteFile h \<Rightarrow> Some h
      | RCreateEntry h \<Rightarrow> Some h | RRenameEntry h \<Rightarrow> Some h | RDeleteEntry h \<Rightarrow> Some h
      | RIssueTicket \<Rightarrow> (case jd_ticket (pt_json pt) (rc_max_body cfg) (rq_body rq) of DecodedTo x \<Rightarrow> Some (wr_host x) | _ \<Rightarrow> None)
      | _ \<Rightarrow> None)"

definition route_revisions :: "router_config \<Rightarrow> platform_text \<Rightarrow> http_request \<Rightarrow> route \<Rightarrow> nat option list" where
  "route_revisions cfg pt rq r =
     sent_values (rq_query rq ''expected_connection_revision'')
     @ sent_values (rq_header rq ''X-Expected-Connection-Revision'') @ body_revisions cfg pt rq r"

abbreviation runs_orderly :: "router_config \<Rightarrow> platform_text \<Rightarrow> http_request \<Rightarrow> route \<Rightarrow> ('s, http_response) handler \<Rightarrow> bool" where
  "runs_orderly cfg pt rq r m \<equiv> ensures [] m (orderly cfg (route_host cfg pt rq r) (route_revisions cfg pt rq r))"

lemmas run_simps = orderly_def response_of_def permitted_def route_host_def
lemmas fit_simps = revisions_fit_def route_revisions_def body_revisions_def given_values_def

lemmas handler_defs = list_sessions_def create_session_def rename_session_def kill_session_def issue_ticket_def
  session_working_directory_def list_files_def serve_file_def write_file_route_def create_entry_route_def
  rename_entry_route_def delete_entry_route_def resolve_runtime_def open_files_def files_globally_enabled_def
  files_available_def decode_file_request_def

lemmas host_handler_defs = list_hosts_def get_host_def create_host_def update_host_def delete_host_def get_host_settings_def
  update_host_settings_def probe_draft_endpoint_def probe_host_endpoint_def probe_and_challenge_def confirm_host_trust_def
  get_host_capabilities_def require_hosts_def announce_def tell_def get_client_config_def

lemma session_routes_orderly:
  "runs_orderly cfg pt rq (RListSessions h) (list_sessions sv h)"
  "runs_orderly cfg pt rq (RKillSession h n) (kill_session sv rq h n)"
  "runs_orderly cfg pt rq (RCreateSession h) (create_session cfg pt sv rq h)"
  "runs_orderly cfg pt rq (RRenameSession h n) (rename_session cfg pt sv rq h n)"
  "runs_orderly cfg pt rq RIssueTicket (issue_ticket cfg pt sv rq)"
  "runs_orderly cfg pt rq (RWorkingDirectory h n) (session_working_directory cfg sv h n)"
  by (unfold handler_defs; auto intro!: wp simp: run_simps fit_simps)+

lemma file_routes_orderly:
  "runs_orderly cfg pt rq (RListFiles h) (list_files cfg sv rq h)"
  "runs_orderly cfg pt rq (RReadFile h) (serve_file cfg pt sv rq h False)"
  "runs_orderly cfg pt rq (RDownloadFile h) (serve_file cfg pt sv rq h True)"
  "runs_orderly cfg pt rq (RWriteFile h) (write_file_route cfg sv rq h)"
  "runs_orderly cfg pt rq (RCreateEntry h) (create_entry_route cfg pt sv rq h)"
  "runs_orderly cfg pt rq (RRenameEntry h) (rename_entry_route cfg pt sv rq h)"
  "runs_orderly cfg pt rq (RDeleteEntry h) (delete_entry_route cfg pt sv rq h)"
  by (unfold handler_defs Let_def; auto intro!: wp simp: run_simps fit_simps)+

lemma host_routes_orderly:
  "runs_orderly cfg pt rq RListHosts (list_hosts cfg sv)"
  "runs_orderly cfg pt rq RCreateHost (create_host cfg pt sv rq)"
  "runs_orderly cfg pt rq RGetSettings (get_host_settings cfg sv)"
  "runs_orderly cfg pt rq RUpdateSettings (update_host_settings cfg pt sv rq)"
  "runs_orderly cfg pt rq RProbeDraft (probe_draft_endpoint cfg pt sv rq)"
  "runs_orderly cfg pt rq (RGetHost h) (get_host cfg sv h)"
  "runs_orderly cfg pt rq (RUpdateHost h) (update_host cfg pt sv rq h)"
  "runs_orderly cfg pt rq (RDeleteHost h) (delete_host cfg pt sv rq h)"
  "runs_orderly cfg pt rq (RProbeHost h) (probe_host_endpoint cfg sv h)"
  "runs_orderly cfg pt rq (RTrustHost h) (confirm_host_trust cfg pt sv rq h)"
  "runs_orderly cfg pt rq (RCapabilities h) (get_host_capabilities cfg sv h)"
  "runs_orderly cfg pt rq RClientConfig (get_client_config cfg)"
  by (unfold host_handler_defs Let_def; 
      (rule wp | simp only: next_step_simps | (simp add: run_simps; fail))+)+

text \<open>A saved change of access, and a deletion, end in their announcement.\<close>

definition announced :: "http_response + http_response \<Rightarrow> exchange list \<Rightarrow> bool" where
  "announced r l \<longleftrightarrow>
     (\<forall>inp rv new. (SaveHost inp rv, HostIs new) \<in> set l \<and> rv \<noteq> 0 \<longrightarrow>
        (\<exists>old. (GetHost (hi_id inp), HostIs old) \<in> set l
           \<and> (hv_conn_revision new \<noteq> hv_conn_revision old \<longrightarrow> fst (last l) = HostConnectionChanged (hi_id inp))))
     \<and> (\<forall>h rv. (DeleteHost h rv, Finished) \<in> set l \<longrightarrow> fst (last l) = HostRemoved h)"

lemma as_host_simps [simp]:
  "as_host a = Some v \<longleftrightarrow> a = HostIs v"
  "as_unit a = Some u \<longleftrightarrow> a = Finished"
  by (auto simp: as_host_def as_unit_def split: service_answer.splits)

lemma as_none [simp]: "as_host (HostIs v) = None \<longleftrightarrow> False" "as_unit Finished = None \<longleftrightarrow> False"
  by (simp_all add: as_host_def as_unit_def)

lemma announced_session:
  "ensures [] (list_sessions sv h) announced"
  "ensures [] (kill_session sv rq h n) announced"
  "ensures [] (create_session cfg pt sv rq h) announced"
  "ensures [] (rename_session cfg pt sv rq h n) announced"
  "ensures [] (issue_ticket cfg pt sv rq) announced"
  "ensures [] (session_working_directory cfg sv h n) announced"
  by (unfold handler_defs; auto intro!: wp simp: announced_def)+

lemma announced_files:
  "ensures [] (list_files cfg sv rq h) announced"
  "ensures [] (serve_file cfg pt sv rq h b) announced"
  "ensures [] (write_file_route cfg sv rq h) announced"
  "ensures [] (create_entry_route cfg pt sv rq h) announced"
  "ensures [] (rename_entry_route cfg pt sv rq h) announced"
  "ensures [] (delete_entry_route cfg pt sv rq h) announced"
  by (unfold handler_defs Let_def; auto intro!: wp simp: announced_def)+

lemma announced_hosts:
  assumes "rc_on_connection cfg" and "rc_on_removed cfg"
  shows "ensures [] (list_hosts cfg sv) announced"
    "ensures [] (create_host cfg pt sv rq) announced"
    "ensures [] (get_host_settings cfg sv) announced"
    "ensures [] (update_host_settings cfg pt sv rq) announced"
    "ensures [] (probe_draft_endpoint cfg pt sv rq) announced"
    "ensures [] (get_host cfg sv h) announced"
    "ensures [] (update_host cfg pt sv rq h) announced"
    "ensures [] (delete_host cfg pt sv rq h) announced"
    "ensures [] (probe_host_endpoint cfg sv h) announced"
    "ensures [] (confirm_host_trust cfg pt sv rq h) announced"
    "ensures [] (get_host_capabilities cfg sv h) announced"
    "ensures [] (get_client_config cfg) announced"
  by (unfold host_handler_defs Let_def;
      (rule wp | simp only: next_step_simps | (use assms in \<open>auto simp: announced_def\<close>; fail))+)+

lemma handle_route_orderly: "runs_orderly cfg pt rq r (handle_route cfg pt sv rq r)"
proof (cases r)
  case (RWebSocket h s)
  then show ?thesis by (auto intro!: wp simp: handle_route_def run_simps)
qed (simp_all only: handle_route_def route.case session_routes_orderly file_routes_orderly host_routes_orderly)

lemma parts_host:
  "host_route m h = Some r \<Longrightarrow> route_host cfg pt rq r = Some g \<Longrightarrow> g = h"
  "host_part_route m h x = Some r \<Longrightarrow> route_host cfg pt rq r = Some g \<Longrightarrow> g = h"
  "host_item_route m h x y = Some r \<Longrightarrow> route_host cfg pt rq r = Some g \<Longrightarrow> g = h"
  by (auto simp: host_route_def host_part_route_def host_item_route_def route_host_def split: if_splits)

lemma route_of_named:
  assumes "route_of (rq_method rq) (rq_path rq) = Some r" and "route_host cfg pt rq r = Some h"
  shows "named_host cfg pt rq = Some h"
proof (cases "take 2 (rq_path rq) = [''api'', ''hosts'']")
  case True
  then obtain l where p: "rq_path rq = ''api'' # ''hosts'' # l"
    by (metis append_Cons append_Nil append_take_drop_id)
  show ?thesis using assms
    by (auto simp: route_of_def p named_host_def dest: parts_host split: if_splits list.splits)
       (auto simp: route_host_def)
next
  case False
  with assms show ?thesis
    by (auto simp: route_of_def named_host_def route_host_def split: if_splits list.splits)
qed

section \<open>Requests\<close>

lemma serve_orderly:
  "ensures [] (serve_http cfg pt sv rq) (orderly cfg (named_host cfg pt rq) (expected_revisions cfg pt rq))"
proof (cases "route_of (rq_method rq) (rq_path rq)")
  case None
  then show ?thesis by (auto simp: serve_http_def orderly_def intro!: wp)
next
  case (Some r)
  have "ensures [] (handle_route cfg pt sv rq r) (orderly cfg (named_host cfg pt rq) (expected_revisions cfg pt rq))"
  proof (rule log_ensures_weaken [OF handle_route_orderly])
    fix x l assume o: "orderly cfg (route_host cfg pt rq r) (route_revisions cfg pt rq r) x l"
    have "all_permitted cfg (route_host cfg pt rq r) revs seen l \<Longrightarrow> all_permitted cfg (named_host cfg pt rq) revs seen l"
      for revs seen
      by (induction l arbitrary: seen)
         (auto simp: permitted_def dest: route_of_named [OF Some] split: option.splits)
    with o show "orderly cfg (named_host cfg pt rq) (expected_revisions cfg pt rq) x l"
      by (simp add: orderly_def expected_revisions_def route_revisions_def Some)
  qed
  then show ?thesis
    by (auto simp: serve_http_def Some require_auth_def orderly_def handle_route_def split: route.split intro!: wp)
qed

lemma answer_run: "answer_request cfg pt sv rq w = (response_of (fst (serve_http cfg pt sv rq w)), snd (serve_http cfg pt sv rq w))"
  by (auto simp: answer_request_def response_of_def split: prod.split sum.split)

lemma answer_orderly:
  assumes "answer_request cfg pt sv rq w = (resp, w')"
  obtains l where "hb_log w' = hb_log w @ l"
    and "all_permitted cfg (named_host cfg pt rq) (expected_revisions cfg pt rq) [] l"
    and "rs_status resp < 400 \<Longrightarrow> \<not> list_ex was_refused l"
proof -
  from serve_orderly obtain l where l: "hb_log (snd (serve_http cfg pt sv rq w)) = hb_log w @ l"
    "orderly cfg (named_host cfg pt rq) (expected_revisions cfg pt rq) (fst (serve_http cfg pt sv rq w)) l"
    unfolding log_ensures_def by fastforce
  show ?thesis
    by (rule that [of l]) (use assms l in \<open>auto simp: answer_run orderly_def\<close>)
qed

lemma all_permitted_nth:
  "all_permitted cfg h revs seen l \<Longrightarrow> i < length l \<Longrightarrow> permitted cfg h revs (seen @ take i l) (fst (l ! i))"
proof (induction l arbitrary: seen i)
  case (Cons e l)
  show ?case
  proof (cases i)
    case 0
    with Cons.prems show ?thesis by simp
  next
    case (Suc j)
    with Cons.IH [of "seen @ [e]" j] Cons.prems show ?thesis by simp
  qed
qed simp

lemma permitted_at:
  assumes "all_permitted cfg h revs [] l" and "i < length l" and "call_target (fst (l ! i)) = Some t"
  shows "(\<exists>hid rt. h = Some hid \<and> (Resolve hid, RuntimeIs rt) \<in> set (take i l) \<and> ri_target rt = t)
    \<and> (is_mutation (fst (l ! i)) \<longrightarrow> set revs \<subseteq> {Some (t_conn_revision t)})
    \<and> (is_file_call (fst (l ! i)) \<longrightarrow> rc_files_enabled cfg \<and> (FilesEnabled t, Enabled True) \<in> set (take i l))"
  using all_permitted_nth [OF assms(1,2)] assms(3) by (simp add: permitted_def)

text \<open>A request to delete a file through a hub with one host, for the witnesses.\<close>

definition demo_config :: router_config where
  "demo_config =
     \<lparr> rc_token = ''key'', rc_max_body = 65536, rc_max_file = 1000, rc_files_enabled = True, rc_web = cfg_web default_config,
       rc_has_hosts = True, rc_has_capabilities = True, rc_has_prober = True, rc_has_trust_store = True,
       rc_target_issuer = True, rc_on_changed = True, rc_on_metadata = True, rc_on_connection = True,
       rc_on_removed = True, rc_has_static = True, rc_has_ws = True \<rparr>"

definition demo_platform :: platform_text where
  "demo_platform =
     \<lparr> pt_json =
         \<lparr> jd_session = (\<lambda>_ _. DecodeEOF), jd_ticket = (\<lambda>_ _. DecodeFailed), jd_create_host = (\<lambda>_ _. DecodeFailed),
           jd_update_host = (\<lambda>_ _. DecodeFailed), jd_revision = (\<lambda>_. DecodeFailed), jd_settings = (\<lambda>_ _. DecodeFailed),
           jd_probe = (\<lambda>_ _. DecodeFailed), jd_trust = (\<lambda>_ _. DecodeFailed), jd_create_file = (\<lambda>_ _. (DecodeFailed, True)),
           jd_rename_file = (\<lambda>_ _. (DecodeFailed, True)),
           jd_delete_file = (\<lambda>_ _. (DecodedTo \<lparr> dq_path = ''/a'', dq_recursive = False, dq_rev_snake = Some 5, dq_rev_camel = None \<rparr>, True)) \<rparr>,
       pt_quote = (\<lambda>s. s), pt_sha = (\<lambda>s. s) \<rparr>"

definition demo_target :: target where
  "demo_target = \<lparr> t_host = ''h'', t_revision = 7, t_conn_revision = 5, t_session = [] \<rparr>"

definition demo_services :: "nat services" where
  "demo_services q n =
     (case q of
        Resolve _ \<Rightarrow> RuntimeIs \<lparr> ri_target = demo_target, ri_files = True \<rparr>
      | FilesEnabled _ \<Rightarrow> Enabled True
      | _ \<Rightarrow> Finished, Suc n)"

definition demo_request :: "string \<Rightarrow> http_request" where
  "demo_request key =
     \<lparr> rq_method = ''POST'', rq_path = [''api'', ''hosts'', ''h'', ''files'', ''delete''], rq_query = (\<lambda>_. []),
       rq_header = (\<lambda>n. if n = ''Authorization'' then ''Bearer '' @ key else []), rq_body = [] \<rparr>"

definition demo_hub :: "nat hub" where
  "demo_hub = \<lparr> hb_state = 0, hb_log = [] \<rparr>"

definition demo_exchanges :: "exchange list" where
  "demo_exchanges =
     [(Resolve ''h'', RuntimeIs \<lparr> ri_target = demo_target, ri_files = True \<rparr>), (FilesEnabled demo_target, Enabled True),
      (DeleteEntry demo_target ''/a'' False, Finished)]"

lemma demo_run:
  "answer_request demo_config demo_platform demo_services (demo_request ''key'') demo_hub
   = (write_header 204, \<lparr> hb_state = 3, hb_log = demo_exchanges \<rparr>)"
  by (simp add: answer_request_def serve_http_def demo_request_def demo_hub_def demo_exchanges_def route_of_def
      host_item_route_def is_get_def require_auth_def constant_time_equal_def bearer_token_def go_strings demo_config_def
      demo_platform_def handle_route_def handler_defs decoded_body_def expect_revisions_def resolve_body_revision_def
      check_expected_conn_rev_def merge_revision_def demo_target_def call_as_def call_def checked_def demo_services_def
      as_runtime_def as_enabled_def as_unit_def act_bind_def)

section \<open>Properties\<close>

text \<open>C13: a request without the configured bearer token, or any request to a hub without a token, makes
  no call on any service and changes nothing; it is answered 401, unless it asks for the public client
  configuration, the WebSocket endpoint (which has its own tickets) or a path that is no route.\<close>

theorem unauthorised_requests_do_nothing:
  assumes "rc_token cfg = [] \<or> bearer_token rq = [] \<or> pt_sha pt (bearer_token rq) \<noteq> pt_sha pt (rc_token cfg)"
    and "answer_request cfg pt sv rq w = (resp, w')"
  shows "w' = w \<and> (rs_status resp = 401 \<or> route_of (rq_method rq) (rq_path rq) = None
    \<or> rq_path rq = [''api'', ''client-config''] \<or> take 1 (rq_path rq) = [''ws''])"
proof (cases "route_of (rq_method rq) (rq_path rq)")
  case None
  with assms(2) show ?thesis by (auto simp: answer_request_def serve_http_def respond_def)
next
  case (Some r)
  consider (config) "r = RClientConfig" | (ws) h n where "r = RWebSocket h n"
    | (api) "r \<noteq> RClientConfig" "\<forall>h n. r \<noteq> RWebSocket h n" by blast
  then show ?thesis
  proof cases
    case config
    with Some have "rq_path rq = [''api'', ''client-config'']"
      by (auto simp: route_of_def host_route_def host_part_route_def host_item_route_def split: if_splits list.splits)
    with assms(2) Some config show ?thesis
      by (auto simp: answer_request_def serve_http_def get_client_config_def)
  next
    case ws
    with Some have "take 1 (rq_path rq) = [''ws'']"
      by (auto simp: route_of_def host_route_def host_part_route_def host_item_route_def split: if_splits list.splits)
    with assms(2) Some ws show ?thesis
      by (auto simp: answer_request_def serve_http_def respond_def)
  next
    case api
    then have "serve_http cfg pt sv rq = require_auth (pt_sha pt) (rc_token cfg) rq (handle_route cfg pt sv rq r)"
      by (auto simp: serve_http_def Some split: route.split)
    with assms show ?thesis
      by (auto simp: answer_request_def require_auth_def constant_time_equal_def respond_def split: if_splits)
  qed
qed

theorem unauthorised_requests_do_nothing_witness:
  "answer_request demo_config demo_platform demo_services (demo_request ''kez'') demo_hub
     = (write_error_response 401 ''unauthorized'', demo_hub)
   \<and> rs_status (fst (answer_request demo_config demo_platform demo_services (demo_request ''kez'') demo_hub)) = 401"
proof -
  let ?a = "answer_request demo_config demo_platform demo_services (demo_request ''kez'') demo_hub"
  have "rc_token demo_config = [] \<or> bearer_token (demo_request ''kez'') = []
      \<or> pt_sha demo_platform (bearer_token (demo_request ''kez'')) \<noteq> pt_sha demo_platform (rc_token demo_config)"
    by (simp add: demo_config_def demo_platform_def bearer_token_def demo_request_def go_strings)
  from unauthorised_requests_do_nothing [OF this, of demo_services demo_hub "fst ?a" "snd ?a"]
  have "snd ?a = demo_hub" by simp
  moreover have "fst ?a = write_error_response 401 ''unauthorized''"
    by (simp add: answer_request_def serve_http_def demo_request_def route_of_def respond_def
        host_item_route_def is_get_def require_auth_def constant_time_equal_def bearer_token_def go_strings demo_config_def
        demo_platform_def)
  ultimately show ?thesis by (simp add: prod_eq_iff)
qed

text \<open>C4: every call on a host's runtime is on the target that the resolver returned, in the same request,
  for the host the request names; and a call that changes sessions or files is made only when every
  connection revision the request says it expects, in query, header or body, is that target's.\<close>

theorem mutations_match_expected_revision:
  assumes "answer_request cfg pt sv rq w = (resp, w')"
  shows "\<exists>l. hb_log w' = hb_log w @ l
    \<and> (\<forall>i < length l. \<forall>t. call_target (fst (l ! i)) = Some t \<longrightarrow>
         (\<exists>h rt. named_host cfg pt rq = Some h \<and> (Resolve h, RuntimeIs rt) \<in> set (take i l) \<and> ri_target rt = t)
         \<and> (is_mutation (fst (l ! i)) \<longrightarrow> set (expected_revisions cfg pt rq) \<subseteq> {Some (t_conn_revision t)}))"
proof -
  from assms obtain l where l: "hb_log w' = hb_log w @ l"
    "all_permitted cfg (named_host cfg pt rq) (expected_revisions cfg pt rq) [] l" by (rule answer_orderly)
  show ?thesis by (intro exI [of _ l] conjI allI impI l(1)) (use permitted_at [OF l(2)] in blast)+
qed

text \<open>C36: no file of any host is listed, read, written, created, renamed or deleted, and no start
  directory computed, unless files are enabled in the configuration and, earlier in the same request, by
  the file service of that very target.\<close>

theorem file_calls_gated:
  assumes "answer_request cfg pt sv rq w = (resp, w')"
  shows "\<exists>l. hb_log w' = hb_log w @ l
    \<and> (\<forall>i < length l. \<forall>t. is_file_call (fst (l ! i)) \<and> call_target (fst (l ! i)) = Some t \<longrightarrow>
         rc_files_enabled cfg \<and> (FilesEnabled t, Enabled True) \<in> set (take i l))"
proof -
  from assms obtain l where l: "hb_log w' = hb_log w @ l"
    "all_permitted cfg (named_host cfg pt rq) (expected_revisions cfg pt rq) [] l" by (rule answer_orderly)
  show ?thesis by (intro exI [of _ l] conjI allI impI l(1)) (use permitted_at [OF l(2)] in blast)+
qed

text \<open>C37: a response with a status below 400 is sent only when every service call of the request
  succeeded, on every route: no error of a service is swallowed.\<close>

theorem success_means_no_refusal:
  assumes "answer_request cfg pt sv rq w = (resp, w')" and "rs_status resp < 400"
  shows "\<exists>l. hb_log w' = hb_log w @ l \<and> (\<forall>q e. (q, Refused e) \<in> set l \<longrightarrow> is_callback q)"
proof -
  from assms(1) obtain l where l: "hb_log w' = hb_log w @ l" "\<not> list_ex was_refused l"
    using answer_orderly assms(2) by metis
  then have "is_callback q" if "(q, Refused e) \<in> set l" for q e
    using that by (fastforce simp: list_ex_iff was_refused_def)
  with l(1) show ?thesis by blast
qed

text \<open>C38: with the callbacks the hub installs, a request that changed how a host is reached, by an update
  or by confirming its key, or that removed a host, tells it to the connections, tickets and terminals
  before it is answered: the announcement is the last call of the request.\<close>

theorem host_changes_announced:
  assumes "answer_request cfg pt sv rq w = (resp, w')" and "rc_on_connection cfg" and "rc_on_removed cfg"
  shows "\<exists>l. hb_log w' = hb_log w @ l
    \<and> (\<forall>inp rv new. (SaveHost inp rv, HostIs new) \<in> set l \<and> rv \<noteq> 0 \<longrightarrow>
         (\<exists>old. (GetHost (hi_id inp), HostIs old) \<in> set l
            \<and> (hv_conn_revision new \<noteq> hv_conn_revision old \<longrightarrow> fst (last l) = HostConnectionChanged (hi_id inp))))
    \<and> (\<forall>h rv. (DeleteHost h rv, Finished) \<in> set l \<longrightarrow> fst (last l) = HostRemoved h)"
proof -
  have "ensures [] (serve_http cfg pt sv rq) announced"
  proof (cases "route_of (rq_method rq) (rq_path rq)")
    case None
    then show ?thesis by (auto simp: serve_http_def announced_def intro!: wp)
  next
    case (Some r)
    have "ensures [] (handle_route cfg pt sv rq r) announced"
    proof (cases r)
      case (RWebSocket h s)
      then show ?thesis by (auto intro!: wp simp: handle_route_def announced_def)
    qed (simp_all only: handle_route_def route.case announced_session announced_files announced_hosts [OF assms(2,3)])
    then show ?thesis
      by (auto simp: serve_http_def Some require_auth_def announced_def handle_route_def split: route.split intro!: wp)
  qed
  then obtain l where "hb_log (snd (serve_http cfg pt sv rq w)) = hb_log w @ l" "announced (fst (serve_http cfg pt sv rq w)) l"
    unfolding log_ensures_def by fastforce
  then show ?thesis using assms(1) unfolding announced_def by (auto simp: answer_run)
qed

definition demo_removal :: http_request where
  "demo_removal =
     \<lparr> rq_method = ''DELETE'', rq_path = [''api'', ''hosts'', ''h''], rq_query = (\<lambda>_. ''3''),
       rq_header = (\<lambda>_. ''Bearer key''), rq_body = [] \<rparr>"

lemma demo_removal_run:
  "answer_request demo_config demo_platform demo_services demo_removal demo_hub
   = (write_header 204, \<lparr> hb_state = 2, hb_log = [(DeleteHost ''h'' 3, Finished), (HostRemoved ''h'', Finished)] \<rparr>)"
  by (simp add: answer_request_def serve_http_def demo_removal_def demo_hub_def route_of_def host_route_def is_get_def
      require_auth_def constant_time_equal_def bearer_token_def go_strings demo_config_def demo_platform_def
      handle_route_def host_handler_defs query_revision_def call_as_def call_def checked_def demo_services_def
      as_unit_def act_bind_def)

theorem host_changes_announced_witness:
  "answer_request demo_config demo_platform demo_services demo_removal demo_hub
     = (write_header 204, \<lparr> hb_state = 2, hb_log = [(DeleteHost ''h'' 3, Finished), (HostRemoved ''h'', Finished)] \<rparr>)
   \<and> rc_on_connection demo_config \<and> rc_on_removed demo_config
   \<and> fst (last [(DeleteHost ''h'' 3, Finished), (HostRemoved ''h'', Finished)]) = HostRemoved ''h''"
proof -
  have c: "rc_on_connection demo_config" "rc_on_removed demo_config" by (simp_all add: demo_config_def)
  from host_changes_announced [OF demo_removal_run c]
  have "fst (last [(DeleteHost ''h'' 3, Finished), (HostRemoved ''h'', Finished)]) = HostRemoved ''h''"
    by (auto simp: demo_hub_def)
  with c demo_removal_run show ?thesis by simp
qed

lemma demo_log: "hb_log (\<lparr> hb_state = 3, hb_log = demo_exchanges \<rparr> :: nat hub) = hb_log demo_hub @ l \<longleftrightarrow> l = demo_exchanges"
  by (auto simp: demo_hub_def)

theorem mutations_match_expected_revision_witness:
  "length demo_exchanges = 3 \<and> is_mutation (fst (demo_exchanges ! 2))
   \<and> expected_revisions demo_config demo_platform (demo_request ''key'') = [Some 5]
   \<and> (Resolve ''h'', RuntimeIs \<lparr> ri_target = demo_target, ri_files = True \<rparr>) \<in> set (take 2 demo_exchanges)
   \<and> t_conn_revision demo_target = 5"
proof -
  have m: "is_mutation (fst (demo_exchanges ! 2))" "length demo_exchanges = 3"
      "call_target (fst (demo_exchanges ! 2)) = Some demo_target"
      "expected_revisions demo_config demo_platform (demo_request ''key'') = [Some 5]"
    by (simp_all add: demo_exchanges_def expected_revisions_def demo_request_def sent_values_def route_of_def
        host_item_route_def is_get_def body_revisions_def demo_platform_def given_values_def)
  obtain l where "l = demo_exchanges"
    and l: "\<forall>i < length l. \<forall>t. call_target (fst (l ! i)) = Some t \<longrightarrow>
         (\<exists>h rt. named_host demo_config demo_platform (demo_request ''key'') = Some h
            \<and> (Resolve h, RuntimeIs rt) \<in> set (take i l) \<and> ri_target rt = t)
         \<and> (is_mutation (fst (l ! i)) \<longrightarrow>
              set (expected_revisions demo_config demo_platform (demo_request ''key'')) \<subseteq> {Some (t_conn_revision t)})"
    using mutations_match_expected_revision [OF demo_run] unfolding demo_log by blast
  with m have "set [Some 5] \<subseteq> {Some (t_conn_revision demo_target)}" by (metis lessI numeral_2_eq_2 numeral_3_eq_3)
  then show ?thesis using m by (simp add: demo_exchanges_def)
qed

theorem file_calls_gated_witness:
  "is_file_call (fst (demo_exchanges ! 2)) \<and> rc_files_enabled demo_config
   \<and> (FilesEnabled demo_target, Enabled True) \<in> set (take 2 demo_exchanges)"
proof -
  have m: "is_file_call (fst (demo_exchanges ! 2))" "length demo_exchanges = 3"
      "call_target (fst (demo_exchanges ! 2)) = Some demo_target"
    by (simp_all add: demo_exchanges_def)
  obtain l where "l = demo_exchanges"
    and "\<forall>i < length l. \<forall>t. is_file_call (fst (l ! i)) \<and> call_target (fst (l ! i)) = Some t \<longrightarrow>
         rc_files_enabled demo_config \<and> (FilesEnabled t, Enabled True) \<in> set (take i l)"
    using file_calls_gated [OF demo_run] unfolding demo_log by blast
  with m show ?thesis by (metis lessI numeral_2_eq_2 numeral_3_eq_3)
qed

theorem success_means_no_refusal_witness:
  "rs_status (write_header 204) < 400 \<and> length demo_exchanges = 3
   \<and> (\<forall>t p b e. (DeleteEntry t p b, Refused e) \<notin> set demo_exchanges)"
proof -
  have s: "rs_status (write_header 204) < 400" by simp
  from success_means_no_refusal [OF demo_run s]
  have "is_callback (DeleteEntry t p b)" if "(DeleteEntry t p b, Refused e) \<in> set demo_exchanges" for t p b e
    using that unfolding demo_log by blast
  then show ?thesis by (auto simp: demo_exchanges_def)
qed

end
