(* ===== verification/WsHandler.thy ===== *)
theory WsHandler
  imports HttpModel TerminalManager ConnectionPool
begin

text \<open>
  \<open>hub/internal/host/runtime.go\<close> (which runtime a host identity selects) and
  \<open>hub/internal/transport/ws\<close> (\<open>handler.go\<close>, \<open>origin.go\<close>, \<open>options.go\<close>): the WebSocket attachment.
  \<open>ServeHTTP\<close> runs beside every other request, so it is modelled as the stages between which others may
  act: one definition per stage, each reading the shared state exactly where the code reads it.
\<close>

section \<open>Runtime resolution (runtime.go)\<close>

text \<open>A runtime: its target, and the lease its remote services hold; None for the services of the hub's
  own machine.\<close>

record runtime =
  rt_target :: target
  rt_lease :: "lease option"

datatype resolve_error = ContextEnded string | ResolveFailed host_error

definition local_target :: target where
  "local_target = \<lparr> t_host = local_id, t_revision = local_revision, t_conn_revision = local_revision, t_session = [] \<rparr>"

text \<open>\<open>ctx\<close>: the error of the request's context, if it has ended.\<close>

definition local_resolve :: "string option \<Rightarrow> host_id \<Rightarrow> resolve_error + runtime" where
  "local_resolve ctx h =
     (case ctx of
        Some e \<Rightarrow> Inl (ContextEnded e)
      | None \<Rightarrow>
          if h \<noteq> local_id then Inl (ResolveFailed (HostError (host_only h) HostNotFound []))
          else Inr \<lparr> rt_target = local_target, rt_lease = None \<rparr>)"

definition view_target :: "host_view \<Rightarrow> target" where
  "view_target v = \<lparr> t_host = hv_id v, t_revision = hv_revision v, t_conn_revision = hv_conn_revision v, t_session = [] \<rparr>"

text \<open>\<open>registry\<close>: the registry's answer for the host, None without a registry.  The lease asks the
  registry again: \<open>answer\<close> is what it says then.\<close>

definition multi_host_resolve ::
  "string option \<Rightarrow> (string + host_view) option \<Rightarrow> bool \<Rightarrow> registry_answer option \<Rightarrow> host_id \<Rightarrow> connections
   \<Rightarrow> (resolve_error + runtime) \<times> connections" where
  "multi_host_resolve ctx registry has_connections answer h conns =
     (case ctx of
        Some e \<Rightarrow> (Inl (ContextEnded e), conns)
      | None \<Rightarrow>
          if h = [] then (Inl (ResolveFailed (HostError (host_only h) HostNotFound [])), conns)
          else (case registry of
              None \<Rightarrow> (Inl (ResolveFailed (HostError (host_only h) HostNotFound [])), conns)
            | Some (Inl e) \<Rightarrow> (Inl (ResolveFailed (HostError (host_only h) HostNotFound e)), conns)
            | Some (Inr v) \<Rightarrow>
                (case hv_type v of
                   ConnLocal \<Rightarrow> (Inr \<lparr> rt_target = view_target v, rt_lease = None \<rparr>, conns)
                 | ConnSSH \<Rightarrow>
                     if \<not> has_connections then
                       (Inl (ResolveFailed (HostError (view_target v\<lparr>t_host := h\<rparr>) HostUnavailable [])), conns)
                     else (case lease_for answer h conns of
                         (Inl e, c) \<Rightarrow> (Inl (ResolveFailed e), c)
                       | (Inr l, c) \<Rightarrow> (Inr \<lparr> rt_target = ls_target l, rt_lease = Some l \<rparr>, c))
                 | ConnOther _ \<Rightarrow> (Inl (ResolveFailed (HostError (view_target v) HostUnsupported [])), conns))))"

section \<open>Options, origin and dimensions\<close>

record ws_options =
  wo_origin :: string
  wo_max_input :: int
  wo_max_dimension :: int
  wo_terminal :: options

definition default_max_input :: int where "default_max_input = 8 * 1024 * 1024"
definition default_max_dim :: int where "default_max_dim = 1000"

definition default_ws_options :: ws_options where
  "default_ws_options =
     \<lparr> wo_origin = [], wo_max_input = default_max_input, wo_max_dimension = default_max_dim, wo_terminal = default_options \<rparr>"

text \<open>What \<open>NewHandlerWithResolver\<close> makes of the options.\<close>

definition handler_options :: "ws_options \<Rightarrow> ws_options" where
  "handler_options opts =
     opts\<lparr> wo_max_input := (if wo_max_input opts \<le> 0 then default_max_input else wo_max_input opts),
           wo_max_dimension := (if wo_max_dimension opts \<le> 0 then default_max_dim else wo_max_dimension opts) \<rparr>"

definition check_origin :: "string \<Rightarrow> string \<Rightarrow> bool" where
  "check_origin origin configured \<longleftrightarrow> origin = [] \<or> origin = configured"

text \<open>Whether to go on, and whether the library's own origin check is switched off.\<close>

definition check_origin_header :: "ws_options \<Rightarrow> string \<Rightarrow> bool \<times> bool" where
  "check_origin_header opts origin =
     (if wo_origin opts = [] then (True, False)
      else if \<not> check_origin origin (wo_origin opts) then (False, False)
      else (True, True))"

definition parse_dimension :: "int \<Rightarrow> string \<Rightarrow> int \<Rightarrow> int" where
  "parse_dimension deflt v max_dim =
     (case atoi v of Some n \<Rightarrow> if 1 \<le> n \<and> n \<le> max_dim then n else deflt | None \<Rightarrow> deflt)"

definition parse_dimensions :: "string \<Rightarrow> string \<Rightarrow> int \<Rightarrow> int \<times> int" where
  "parse_dimensions cols rows max_dim = (parse_dimension 80 cols max_dim, parse_dimension 24 rows max_dim)"

definition map_redeem_error :: "ticket_error \<Rightarrow> string" where
  "map_redeem_error e =
     (case e of
        TicketExpired \<Rightarrow> ''ticket expired''
      | TicketMismatch \<Rightarrow> ''ticket does not match session''
      | TicketHostMismatch \<Rightarrow> ''ticket does not match session''
      | TicketSuperseded \<Rightarrow> ''host configuration changed''
      | TicketInvalid \<Rightarrow> ''invalid ticket'')"

text \<open>The ticket store has \<open>RedeemForTarget\<close>.\<close>

definition redeem_ticket :: "int \<Rightarrow> string \<Rightarrow> runtime \<Rightarrow> string \<Rightarrow> ticket_store \<Rightarrow> (ticket_error + unit) \<times> ticket_store" where
  "redeem_ticket now tid rt sess s =
     redeem_for_target now tid (t_host (rt_target rt)) (t_conn_revision (rt_target rt)) sess s"

section \<open>The stages of ServeHTTP\<close>

record ws_request =
  wq_host :: string
  wq_session :: string
  wq_ticket :: string
  wq_cols :: string
  wq_rows :: string
  wq_origin :: string

text \<open>How a request ends early: an HTTP error, a failed upgrade, or an error message and a close on the
  open connection, retryable or not (\<open>sendErrorAndClose\<close>).\<close>

datatype ws_end = HttpError nat string | NotUpgraded | ErrorAndClose string bool

definition close_code :: "bool \<Rightarrow> nat" where
  "close_code retryable = (if retryable then 1012 else 1008)"

datatype ws_stage =
    WsEpoch host_id nat
  | WsResolved runtime host_id nat
  | WsAccepted runtime host_id nat
  | WsRedeemed runtime host_id nat
  | WsSpawned runtime host_id nat
  | WsAttached
  | WsEnded ws_end

definition ws_host :: "ws_request \<Rightarrow> host_id" where
  "ws_host rq = (if wq_host rq = [] then local_id else wq_host rq)"

definition ws_arrive :: "ws_request \<Rightarrow> manager \<Rightarrow> ws_stage" where
  "ws_arrive rq m = WsEpoch (ws_host rq) (current_epoch m (ws_host rq))"

definition ws_resolve :: "host_id \<Rightarrow> nat \<Rightarrow> resolve_error + runtime \<Rightarrow> manager \<Rightarrow> ws_stage" where
  "ws_resolve raw e r m =
     (case r of
        Inl _ \<Rightarrow> WsEnded (HttpError 404 ''host not found'')
      | Inr rt \<Rightarrow>
          (let h = t_host (rt_target rt) in
           if h = [] then WsResolved rt raw e
           else WsResolved rt h (if h \<noteq> raw then current_epoch m h else e)))"

definition ws_accept :: "ws_options \<Rightarrow> ws_request \<Rightarrow> bool \<Rightarrow> runtime \<Rightarrow> host_id \<Rightarrow> nat \<Rightarrow> ws_stage" where
  "ws_accept opts rq upgraded rt h e =
     (if \<not> fst (check_origin_header opts (wq_origin rq)) then WsEnded (HttpError 403 ''forbidden origin'')
      else if \<not> upgraded then WsEnded NotUpgraded
      else WsAccepted rt h e)"

definition ws_redeem :: "int \<Rightarrow> ws_request \<Rightarrow> runtime \<Rightarrow> host_id \<Rightarrow> nat \<Rightarrow> ticket_store \<Rightarrow> ws_stage \<times> ticket_store" where
  "ws_redeem now rq rt h e s =
     (case redeem_ticket now (wq_ticket rq) rt (wq_session rq) s of
        (Inl x, s') \<Rightarrow> (WsEnded (ErrorAndClose (map_redeem_error x) False), s')
      | (Inr _, s') \<Rightarrow> (WsRedeemed rt h e, s'))"

text \<open>\<open>tmux\<close>: the error of the tmux check, when there is one to make; \<open>spawn\<close>: the error of
  \<open>NewProcess\<close>.\<close>

definition ws_spawn :: "string option \<Rightarrow> string option \<Rightarrow> runtime \<Rightarrow> host_id \<Rightarrow> nat \<Rightarrow> ws_stage" where
  "ws_spawn tmux spawn rt h e =
     (case tmux of
        Some x \<Rightarrow> WsEnded (ErrorAndClose (''tmux unavailable: '' @ x) True)
      | None \<Rightarrow>
          (case spawn of
             Some x \<Rightarrow> WsEnded (ErrorAndClose (''attach failed: '' @ x) True)
           | None \<Rightarrow> WsSpawned rt h e))"

definition ws_attachment :: "ws_options \<Rightarrow> ws_request \<Rightarrow> host_id \<Rightarrow> nat \<Rightarrow> attachment" where
  "ws_attachment opts rq h e =
     (case parse_dimensions (wq_cols rq) (wq_rows rq) (wo_max_dimension opts) of
        (cols, rows) \<Rightarrow> with_epoch e (with_host h (new_attachment (wo_terminal opts) (wq_session rq) cols rows)))"

text \<open>A refused attachment has its process detached and the peer told to retry.\<close>

definition ws_register :: "ws_options \<Rightarrow> ws_request \<Rightarrow> nat \<Rightarrow> host_id \<Rightarrow> nat \<Rightarrow> terminals \<Rightarrow> ws_stage \<times> terminals" where
  "ws_register opts rq i h e t =
     (case add_attachment i (ws_attachment opts rq h e) t of
        (Inl _, t') \<Rightarrow> (WsEnded (ErrorAndClose ''hub shutting down'' True), t')
      | (Inr _, t') \<Rightarrow> (WsAttached, t'))"

section \<open>Facts\<close>

text \<open>A resolved runtime is the host that was asked for, so the epoch is never read a second time.\<close>

lemma lease_host: "lease_for answer h s = (Inr l, s') \<Longrightarrow> t_host (ls_target l) = h"
  by (auto simp: lease_for_def Let_def host_only_def split: option.splits registry_answer.splits if_splits prod.splits)

lemma resolve_host:
  assumes "multi_host_resolve ctx reg hc answer h s = (Inr rt, s')" and "\<And>v. reg = Some (Inr v) \<Longrightarrow> hv_id v = h"
  shows "t_host (rt_target rt) = h \<and> h \<noteq> []"
  using assms
  by (auto simp: multi_host_resolve_def view_target_def lease_host split: option.splits sum.splits conn_type.splits if_splits prod.splits)

lemma parse_dimensions_bounds:
  assumes "80 \<le> max_dim" and "parse_dimensions c r max_dim = (cols, rows)"
  shows "1 \<le> cols \<and> cols \<le> max_dim \<and> 1 \<le> rows \<and> rows \<le> max_dim"
  using assms by (auto simp: parse_dimensions_def parse_dimension_def split: option.splits if_splits)

end
