(* ===== verification/HubModel.thy ===== *)
theory HubModel
  imports WsHandler HttpHandlers ConfigValidate
begin

text \<open>
  \<open>hub/internal/app/app.go\<close>: how the hub composes its parts.  The configuration is projected onto the
  terminal, WebSocket and router options; a change of a host is announced to the connections, the tickets
  and the terminals; and every WebSocket request, ticket request and announcement runs beside all others.
\<close>

section \<open>Projections of the configuration\<close>

definition default_input_chunk_size :: int where "default_input_chunk_size = 32 * 1024"

definition new_ws_options :: "config \<Rightarrow> ws_options" where
  "new_ws_options cfg =
     (let t = cfg_terminal cfg; k = cfg_websocket cfg in
      \<lparr> wo_origin = wk_origin k, wo_max_input = wk_max_input_message_bytes k, wo_max_dimension = te_max_dimension t,
        wo_terminal =
          \<lparr> o_max_dimension = te_max_dimension t, o_staging_bytes = te_staging_buffer_bytes t,
            o_high_water = te_output_high_water_bytes t, o_low_water = te_output_low_water_bytes t,
            o_poll_interval = te_backpressure_poll_interval t, o_control_timeout = wk_control_write_timeout k,
            o_output_timeout = wk_output_write_timeout k, o_exit_timeout = wk_exit_write_timeout k,
            o_input_chunk = default_input_chunk_size \<rparr> \<rparr>)"

text \<open>\<open>newRouterConfig\<close> and \<open>setupHostRouterConfig\<close>: every dependency and callback is set.\<close>

definition setup_host_router_config :: "config \<Rightarrow> bool \<Rightarrow> router_config" where
  "setup_host_router_config cfg has_static =
     \<lparr> rc_token = au_token (cfg_auth cfg), rc_max_body = sv_max_request_body_bytes (cfg_server cfg),
       rc_max_file = fc_max_file_size (cfg_files cfg), rc_files_enabled = fc_enabled (cfg_files cfg),
       rc_web = cfg_web cfg, rc_has_hosts = True, rc_has_capabilities = True, rc_has_prober = False,
       rc_has_trust_store = True, rc_target_issuer = True, rc_on_changed = True, rc_on_metadata = True,
       rc_on_connection = True, rc_on_removed = True, rc_has_static = has_static, rc_has_ws = True \<rparr>"

section \<open>The startup banner\<close>

definition browser_url :: "string \<Rightarrow> string" where
  "browser_url addr =
     (case split_host_port addr of
        None \<Rightarrow> ''http://'' @ addr
      | Some (h, p) \<Rightarrow>
          ''http://'' @ net_join (if h = [] \<or> h = ''0.0.0.0'' \<or> h = ''::'' then ''127.0.0.1'' else h) p)"

definition source_string :: "source \<Rightarrow> string" where
  "source_string s =
     (case s of SourceDefault \<Rightarrow> ''default'' | SourceYAML \<Rightarrow> ''yaml'' | SourceEnvironment \<Rightarrow> ''environment''
      | SourceCLI \<Rightarrow> ''cli'' | SourceGenerated \<Rightarrow> ''generated'')"

text \<open>A provenance without a token source, the zero value, counts as generated.\<close>

definition startup_banner :: "string \<Rightarrow> source option \<Rightarrow> string \<Rightarrow> string" where
  "startup_banner token token_source addr =
     ''visual-tmux-client: token: '' @ token @ '' (source: ''
     @ (case token_source of Some s \<Rightarrow> source_string s | None \<Rightarrow> ''generated'') @ '')'' @ [CHR 0x0A]
     @ ''visual-tmux-client: open '' @ browser_url addr @ [CHR 0x0A]"

section \<open>Shutdown\<close>

text \<open>\<open>Shutdown\<close>: what it does, in order, and the errors it joins.  \<open>outcome\<close> is the error of each
  action, if any; \<open>started\<close> says whether \<open>Start\<close> began the sweeper.  The terminals go first, while
  the server still serves them, and the files' handles only when no request is served any more.\<close>

datatype shutdown_action =
    StopSweeper | ShutAttachments | ShutServer | CloseServer | CloseFiles | CloseConnections | CloseRegistry

definition shutdown_error :: "string \<Rightarrow> string option \<Rightarrow> string list" where
  "shutdown_error what e = (case e of None \<Rightarrow> [] | Some x \<Rightarrow> [what @ x])"

definition app_shutdown :: "bool \<Rightarrow> (shutdown_action \<Rightarrow> string option) \<Rightarrow> shutdown_action list \<times> string list" where
  "app_shutdown started outcome =
     ((if started then [StopSweeper] else [])
      @ [ShutAttachments, ShutServer] @ (if outcome ShutServer = None then [] else [CloseServer])
      @ [CloseFiles, CloseConnections, CloseRegistry],
      shutdown_error ''attachment shutdown: '' (outcome ShutAttachments)
      @ shutdown_error ''http shutdown: '' (outcome ShutServer)
      @ shutdown_error [] (outcome CloseConnections) @ shutdown_error [] (outcome CloseRegistry))"

section \<open>The hub as a whole\<close>

text \<open>How far the announcement of a host's change has come: the row is committed, its pool is closed, its
  tickets are gone, its epoch is raised and these attachments are still to be closed.\<close>

datatype announce_stage = Committed | Disconnected | TicketsRevoked | Closing "nat list"

type_synonym ticket_key = "host_id \<times> revision \<times> string"

text \<open>
  The registry's hosts with the highest connection revision each identity has had (\<open>registry.go\<close> hands out
  a higher one for every change of access, also after a deletion: theory HostHistory), the shared stores, the
  WebSocket requests and announcements under way.  The last three fields record history for the statements:
  the connection revision an attachment's process runs on, and how many tickets were issued and processes
  started for a host, revision and session.
\<close>

record hub_world =
  hw_rows :: "host_id \<Rightarrow> host_view option"
  hw_marks :: "host_id \<Rightarrow> revision"
  hw_tickets :: ticket_store
  hw_conns :: connections
  hw_terms :: terminals
  hw_requests :: "nat \<Rightarrow> (ws_request \<times> ws_stage) option"
  hw_changes :: "(host_id \<times> announce_stage) multiset"
  hw_runs_on :: "nat \<Rightarrow> revision"
  hw_issued :: "ticket_key \<Rightarrow> nat"
  hw_started :: "ticket_key \<Rightarrow> nat"

abbreviation hub_manager :: "hub_world \<Rightarrow> manager" where
  "hub_manager w \<equiv> tm_mgr (hw_terms w)"

definition hub_registry_get :: "hub_world \<Rightarrow> host_id \<Rightarrow> string + host_view" where
  "hub_registry_get w h = (case hw_rows w h of Some v \<Rightarrow> Inr v | None \<Rightarrow> Inl ''host not found'')"

definition registry_answer_for :: "hub_world \<Rightarrow> host_id \<Rightarrow> registry_answer" where
  "registry_answer_for w h =
     (case hw_rows w h of
        None \<Rightarrow> NoHost
      | Some v \<Rightarrow> if hv_type v = ConnLocal then IsLocal else HostRecord (hv_revision v) (hv_conn_revision v))"

definition set_stage :: "nat \<Rightarrow> ws_request \<Rightarrow> ws_stage \<Rightarrow> hub_world \<Rightarrow> hub_world" where
  "set_stage n rq st w = w\<lparr>hw_requests := (hw_requests w)(n \<mapsto> (rq, st))\<rparr>"

definition bump :: "ticket_key \<Rightarrow> (ticket_key \<Rightarrow> nat) \<Rightarrow> ticket_key \<Rightarrow> nat" where
  "bump k f = f(k := Suc (f k))"

definition runtime_key :: "ws_request \<Rightarrow> runtime \<Rightarrow> ticket_key" where
  "runtime_key rq rt = (t_host (rt_target rt), t_conn_revision (rt_target rt), wq_session rq)"

text \<open>The callback \<open>OnHostConnectionChanged\<close>, which is also \<open>OnHostRemoved\<close> and \<open>OnHostChanged\<close>, one shared
  action at a time; \<open>snapshot\<close> is what \<open>CloseHost\<close> finds under its lock.\<close>

fun announce_next :: "host_id \<Rightarrow> nat list \<Rightarrow> announce_stage \<Rightarrow> hub_world \<Rightarrow> announce_stage option \<times> hub_world" where
  "announce_next h snapshot Committed w = (Some Disconnected, w\<lparr>hw_conns := invalidate h (hw_conns w)\<rparr>)"
| "announce_next h snapshot Disconnected w = (Some TicketsRevoked, w\<lparr>hw_tickets := invalidate_host h (hw_tickets w)\<rparr>)"
| "announce_next h snapshot TicketsRevoked w = (Some (Closing snapshot), w\<lparr>hw_terms := close_host_locked h (hw_terms w)\<rparr>)"
| "announce_next h snapshot (Closing []) w = (None, w)"
| "announce_next h snapshot (Closing (i # is)) w =
     (Some (Closing is), w\<lparr>hw_terms := finishing force_close i (hw_terms w)\<rparr>)"

definition after_announce :: "host_id \<Rightarrow> announce_stage \<Rightarrow> announce_stage option \<times> hub_world \<Rightarrow> hub_world" where
  "after_announce h st r =
     (case r of (next, w) \<Rightarrow>
        w\<lparr>hw_changes := hw_changes w - {#(h, st)#} + (case next of None \<Rightarrow> {#} | Some st' \<Rightarrow> {#(h, st')#})\<rparr>)"

text \<open>The process of a registered attachment keeps running on the runtime it was started on.\<close>

definition hub_register :: "ws_options \<Rightarrow> nat \<Rightarrow> nat \<Rightarrow> ws_request \<Rightarrow> runtime \<Rightarrow> host_id \<Rightarrow> nat \<Rightarrow> hub_world \<Rightarrow> hub_world" where
  "hub_register opts n i rq rt h e w =
     (case ws_register opts rq i h e (hw_terms w) of (st, t) \<Rightarrow>
        set_stage n rq st (w\<lparr>hw_terms := t, hw_runs_on := (hw_runs_on w)(i := t_conn_revision (rt_target rt))\<rparr>))"

definition hub_spawn :: "nat \<Rightarrow> string option \<Rightarrow> string option \<Rightarrow> ws_request \<Rightarrow> runtime \<Rightarrow> host_id \<Rightarrow> nat \<Rightarrow> hub_world \<Rightarrow> hub_world" where
  "hub_spawn n tmux spawn rq rt h e w =
     (let w' = set_stage n rq (ws_spawn tmux spawn rt h e) w in
      if tmux = None \<and> spawn = None then w'\<lparr>hw_started := bump (runtime_key rq rt) (hw_started w)\<rparr> else w')"

definition hub_issue :: "(nat \<Rightarrow> nat list option) \<Rightarrow> int \<Rightarrow> host_id \<Rightarrow> revision \<Rightarrow> string \<Rightarrow> hub_world \<Rightarrow> hub_world" where
  "hub_issue rand now h r sess w =
     (case issue_for_target rand now h r sess (hw_tickets w) of
        (Inl _, s) \<Rightarrow> w\<lparr>hw_tickets := s\<rparr>
      | (Inr _, s) \<Rightarrow>
          w\<lparr>hw_tickets := s, hw_issued := bump (default_host h, default_conn_rev r, sess) (hw_issued w)\<rparr>)"

inductive hub_step :: "ws_options \<Rightarrow> hub_world \<Rightarrow> hub_world \<Rightarrow> bool" for opts where
  arrive: "hw_requests w n = None \<Longrightarrow> hub_step opts w (set_stage n rq (ws_arrive rq (hub_manager w)) w)"
| resolve: "hw_requests w n = Some (rq, WsEpoch raw e) \<Longrightarrow>
    reg \<in> {hub_registry_get w raw, Inl err} \<Longrightarrow> answer \<in> {registry_answer_for w raw, RegistryError err} \<Longrightarrow>
    multi_host_resolve ctx (Some reg) True (Some answer) raw (hw_conns w) = (r, conns) \<Longrightarrow>
    hub_step opts w (set_stage n rq (ws_resolve raw e r (hub_manager w)) (w\<lparr>hw_conns := conns\<rparr>))"
| accept: "hw_requests w n = Some (rq, WsResolved rt h e) \<Longrightarrow>
    hub_step opts w (set_stage n rq (ws_accept opts rq upgraded rt h e) w)"
| redeem: "hw_requests w n = Some (rq, WsAccepted rt h e) \<Longrightarrow> ws_redeem now rq rt h e (hw_tickets w) = (st, s) \<Longrightarrow>
    hub_step opts w (set_stage n rq st (w\<lparr>hw_tickets := s\<rparr>))"
| spawn: "hw_requests w n = Some (rq, WsRedeemed rt h e) \<Longrightarrow> hub_step opts w (hub_spawn n tmux sp rq rt h e w)"
| attach: "hw_requests w n = Some (rq, WsSpawned rt h e) \<Longrightarrow> tm_store (hw_terms w) i = None \<Longrightarrow>
    hub_step opts w (hub_register opts n i rq rt h e w)"
| issue: "hub_step opts w (hub_issue rand now h r sess w)"
| sweep: "hub_step opts w (w\<lparr>hw_tickets := ticket_sweep now (hw_tickets w)\<rparr>)"
| create: "hw_rows w h = None \<Longrightarrow> h \<noteq> [] \<Longrightarrow> hv_id v = h \<Longrightarrow> hw_marks w h < hv_conn_revision v \<Longrightarrow>
    hub_step opts w (w\<lparr>hw_rows := (hw_rows w)(h \<mapsto> v), hw_marks := (hw_marks w)(h := hv_conn_revision v)\<rparr>)"
| rename: "hw_rows w h = Some u \<Longrightarrow> hv_id v = h \<Longrightarrow> hv_conn_revision v = hv_conn_revision u \<Longrightarrow>
    hub_step opts w (w\<lparr>hw_rows := (hw_rows w)(h \<mapsto> v)\<rparr>)"
| change: "hw_rows w h = Some u \<Longrightarrow> hv_id v = h \<Longrightarrow> hw_marks w h < hv_conn_revision v \<Longrightarrow>
    hub_step opts w (w\<lparr>hw_rows := (hw_rows w)(h \<mapsto> v), hw_marks := (hw_marks w)(h := hv_conn_revision v),
      hw_changes := add_mset (h, Committed) (hw_changes w)\<rparr>)"
| remove: "hw_rows w h = Some u \<Longrightarrow>
    hub_step opts w (w\<lparr>hw_rows := (hw_rows w)(h := None), hw_changes := add_mset (h, Committed) (hw_changes w)\<rparr>)"
| announce: "(h, st) \<in># hw_changes w \<Longrightarrow> set snapshot = {i. on_host h (hw_terms w) i} \<Longrightarrow>
    hub_step opts w (after_announce h st (announce_next h snapshot st w))"
| leave: "f \<in> {force_close, attachment_shutdown, on_client_gone} \<Longrightarrow>
    hub_step opts w (w\<lparr>hw_terms := finishing f i (hw_terms w)\<rparr>)"
| stop: "set snapshot = mg_attachments (hub_manager w) \<Longrightarrow> set done \<subseteq> set snapshot \<Longrightarrow>
    manager_shutdown snapshot done outcome (hw_terms w) = (ok, t) \<Longrightarrow> hub_step opts w (w\<lparr>hw_terms := t\<rparr>)"
| network: "cn_step (hw_conns w) c \<Longrightarrow> hub_step opts w (w\<lparr>hw_conns := c\<rparr>)"

text \<open>A hub that has just started on a registry.\<close>

definition start_hub :: "config \<Rightarrow> conn_config \<Rightarrow> (host_id \<Rightarrow> host_view option) \<Rightarrow> (host_id \<Rightarrow> revision) \<Rightarrow> hub_world" where
  "start_hub cfg conn_cfg rows marks =
     \<lparr> hw_rows = rows, hw_marks = marks, hw_tickets = new_ticket_store (au_ticket_ttl (cfg_auth cfg)),
       hw_conns = new_connection_manager conn_cfg, hw_terms = start_terminals (sd_attachment_timeout (cfg_shutdown cfg)),
       hw_requests = Map.empty, hw_changes = {#}, hw_runs_on = (\<lambda>_. 0), hw_issued = (\<lambda>_. 0), hw_started = (\<lambda>_. 0) \<rparr>"

definition rows_ok :: "(host_id \<Rightarrow> host_view option) \<Rightarrow> (host_id \<Rightarrow> revision) \<Rightarrow> bool" where
  "rows_ok rows marks \<longleftrightarrow> (\<forall>h v. rows h = Some v \<longrightarrow>
     hv_id v = h \<and> h \<noteq> [] \<and> 0 < hv_conn_revision v \<and> hv_conn_revision v \<le> marks h)"

end
