(* ===== verification/HubSafety.thy ===== *)
theory HubSafety
  imports HubModel
begin

text \<open>
  What the composed hub guarantees whatever the interleaving: no terminal outlives the connection it was
  opened on once the change of its host is announced, and every process was paid for by a ticket of its own.
\<close>

section \<open>Attachments and host changes\<close>

definition current :: "hub_world \<Rightarrow> host_id \<Rightarrow> revision \<Rightarrow> bool" where
  "current w h r \<longleftrightarrow> (\<exists>v. hw_rows w h = Some v \<and> hv_conn_revision v = r)"

fun before_epoch :: "announce_stage \<Rightarrow> bool" where
  "before_epoch (Closing _) = False"
| "before_epoch _ = True"

definition announcing :: "hub_world \<Rightarrow> host_id \<Rightarrow> bool" where
  "announcing w h \<longleftrightarrow> (\<exists>st. (h, st) \<in># hw_changes w \<and> before_epoch st)"

text \<open>The attachments that an announcement has still to close.\<close>

definition to_close :: "hub_world \<Rightarrow> host_id \<Rightarrow> nat set" where
  "to_close w h = {i. \<exists>is. (h, Closing is) \<in># hw_changes w \<and> i \<in> set is}"

fun stage_on :: "ws_stage \<Rightarrow> (runtime \<times> host_id \<times> nat) option" where
  "stage_on (WsResolved rt h e) = Some (rt, h, e)"
| "stage_on (WsAccepted rt h e) = Some (rt, h, e)"
| "stage_on (WsRedeemed rt h e) = Some (rt, h, e)"
| "stage_on (WsSpawned rt h e) = Some (rt, h, e)"
| "stage_on _ = None"

definition fresh_or_announced :: "hub_world \<Rightarrow> ws_stage \<Rightarrow> bool" where
  "fresh_or_announced w st \<longleftrightarrow>
     (case stage_on st of
        None \<Rightarrow> (case st of WsEpoch h e \<Rightarrow> h \<noteq> [] \<and> e \<le> current_epoch (hub_manager w) h | _ \<Rightarrow> True)
      | Some (rt, h, e) \<Rightarrow>
          h \<noteq> [] \<and> t_host (rt_target rt) = h \<and> 0 < t_conn_revision (rt_target rt)
          \<and> e \<le> current_epoch (hub_manager w) h
          \<and> (e = current_epoch (hub_manager w) h \<longrightarrow> current w h (t_conn_revision (rt_target rt)) \<or> announcing w h))"

definition attached_ok :: "hub_world \<Rightarrow> bool" where
  "attached_ok w \<longleftrightarrow> (\<forall>i \<in> mg_attachments (hub_manager w). \<forall>a. tm_store (hw_terms w) i = Some a \<longrightarrow>
     current w (at_host a) (hw_runs_on w i) \<or> announcing w (at_host a) \<or> i \<in> to_close w (at_host a))"

definition hub_inv :: "hub_world \<Rightarrow> bool" where
  "hub_inv w \<longleftrightarrow> rows_ok (hw_rows w) (hw_marks w) \<and> tracked_live (hw_terms w) \<and> attached_ok w
     \<and> (\<forall>n rq st. hw_requests w n = Some (rq, st) \<longrightarrow> fresh_or_announced w st)"

text \<open>Resolution answers with the connection revision the registry has.\<close>

lemma resolve_current:
  assumes "multi_host_resolve ctx (Some reg) True (Some answer) h conns = (Inr rt, conns')"
    and "reg \<in> {hub_registry_get w h, Inl err}" and "answer \<in> {registry_answer_for w h, RegistryError err}"
    and "rows_ok (hw_rows w) (hw_marks w)"
  shows "t_host (rt_target rt) = h \<and> h \<noteq> [] \<and> 0 < t_conn_revision (rt_target rt) \<and> current w h (t_conn_revision (rt_target rt))"
proof -
  have ok: "hv_id v = h \<and> h \<noteq> [] \<and> hv_conn_revision v \<noteq> 0" if "hw_rows w h = Some v" for v
    using assms(4) that by (auto simp: rows_ok_def)
  show ?thesis
  proof (cases "hw_rows w h")
    case None
    with assms(1-3) show ?thesis
      by (auto simp: multi_host_resolve_def hub_registry_get_def split: option.splits if_splits)
  next
    case (Some v)
    with assms(1-3) ok [OF Some] show ?thesis
      by (auto simp: multi_host_resolve_def hub_registry_get_def registry_answer_for_def lease_for_def Let_def view_target_def
          current_def split: option.splits sum.splits conn_type.splits if_splits prod.splits)
  qed
qed

lemma current_cong: "hw_rows w' = hw_rows w \<Longrightarrow> current w' = current w"
  by (simp add: current_def fun_eq_iff)

lemma stage_cong:
  assumes "hw_rows w' = hw_rows w" and "hw_changes w' = hw_changes w"
    and "mg_epochs (hub_manager w') = mg_epochs (hub_manager w)"
  shows "fresh_or_announced w' = fresh_or_announced w" "announcing w' = announcing w" "to_close w' = to_close w"
  using assms by (simp_all add: fresh_or_announced_def announcing_def to_close_def current_def current_epoch_def fun_eq_iff
      split: option.split ws_stage.split)

lemma set_stage_simps [simp]:
  "hw_rows (set_stage n rq st w) = hw_rows w" "hw_marks (set_stage n rq st w) = hw_marks w"
  "hw_terms (set_stage n rq st w) = hw_terms w" "hw_changes (set_stage n rq st w) = hw_changes w"
  "hw_runs_on (set_stage n rq st w) = hw_runs_on w" "hw_tickets (set_stage n rq st w) = hw_tickets w"
  "hw_issued (set_stage n rq st w) = hw_issued w" "hw_started (set_stage n rq st w) = hw_started w"
  "hw_conns (set_stage n rq st w) = hw_conns w"
  "hw_requests (set_stage n rq st w) = (hw_requests w)(n \<mapsto> (rq, st))"
  by (simp_all add: set_stage_def)

text \<open>A step of a request that touches neither hosts, announcements nor terminals.\<close>

lemma request_inv:
  assumes "hub_inv w" and "fresh_or_announced w st"
    and "hw_rows w' = hw_rows w" "hw_marks w' = hw_marks w" "hw_terms w' = hw_terms w" "hw_changes w' = hw_changes w"
      "hw_runs_on w' = hw_runs_on w" "hw_requests w' = (hw_requests w)(n \<mapsto> (rq, st))"
  shows "hub_inv w'"
  using assms stage_cong [of w' w] current_cong [of w' w] by (auto simp: hub_inv_def attached_ok_def)

lemma quiet_inv:
  assumes "hub_inv w"
    and "hw_rows w' = hw_rows w" "hw_marks w' = hw_marks w" "hw_terms w' = hw_terms w" "hw_changes w' = hw_changes w"
      "hw_runs_on w' = hw_runs_on w" "hw_requests w' = hw_requests w"
  shows "hub_inv w'"
  using assms stage_cong [of w' w] current_cong [of w' w] by (auto simp: hub_inv_def attached_ok_def)

text \<open>Attachments that end.\<close>

lemma ending_inv:
  assumes "hub_inv w" and "keeps_host f" and "w' = w\<lparr>hw_terms := finishing f i (hw_terms w)\<rparr>"
  shows "hub_inv w'"
proof -
  have eq: "hw_rows w' = hw_rows w" "hw_changes w' = hw_changes w" "hw_requests w' = hw_requests w"
      "hw_marks w' = hw_marks w" "hw_runs_on w' = hw_runs_on w"
      "mg_epochs (hub_manager w') = mg_epochs (hub_manager w)" "tracked_live (hw_terms w')"
    using assms(1) by (simp_all add: assms(3) finishing_mgr finishing_tracked hub_inv_def)
  have "attached_ok w'" unfolding attached_ok_def
  proof (intro ballI allI impI)
    fix j b assume j: "j \<in> mg_attachments (hub_manager w')" "tm_store (hw_terms w') j = Some b"
    then obtain a where a: "tm_store (hw_terms w) j = Some a" "at_host b = at_host a"
      using finishing_store [of f i "hw_terms w" j b] assms(2) by (auto simp: assms(3) keeps_host_def)
    moreover have "j \<in> mg_attachments (hub_manager w)" using j(1) finishing_mgr(3) by (fastforce simp: assms(3))
    ultimately show "current w' (at_host b) (hw_runs_on w' j) \<or> announcing w' (at_host b) \<or> j \<in> to_close w' (at_host b)"
      using assms(1) eq stage_cong [of w' w] current_cong [of w' w] by (auto simp: hub_inv_def attached_ok_def)
  qed
  with assms(1) eq stage_cong [of w' w] show ?thesis by (auto simp: hub_inv_def)
qed

text \<open>A step that keeps the terminals and can only add announcements.\<close>

lemma more_announced_inv:
  assumes "hub_inv w"
    and "hw_terms w' = hw_terms w" "hw_runs_on w' = hw_runs_on w" "hw_requests w' = hw_requests w"
    and "rows_ok (hw_rows w') (hw_marks w')"
    and "\<And>h r. current w h r \<Longrightarrow> current w' h r \<or> announcing w' h" and "\<And>h. announcing w h \<Longrightarrow> announcing w' h"
    and "\<And>h. to_close w h \<subseteq> to_close w' h"
  shows "hub_inv w'"
proof -
  have "fresh_or_announced w' st" if "fresh_or_announced w st" for st
    using that assms(2,6,7) by (cases st) (auto simp: fresh_or_announced_def)
  moreover have "attached_ok w'"
    using assms(1,2,3,6,7,8) by (fastforce simp: attached_ok_def hub_inv_def)
  ultimately show ?thesis using assms(1,2,4,5) by (auto simp: hub_inv_def)
qed

lemma other_change: "y \<in># c \<Longrightarrow> y \<noteq> x \<Longrightarrow> y \<in># c - {#x#} + d"
  by (simp add: in_diff_count)

lemma announcing_keep:
  assumes "hw_changes w' = hw_changes w - {#(h, st)#} + d" and "announcing w g"
    and "g \<noteq> h \<or> \<not> before_epoch st \<or> (\<exists>st'. before_epoch st' \<and> (h, st') \<in># d)"
  shows "announcing w' g"
proof -
  from assms(2) obtain s where s: "(g, s) \<in># hw_changes w" "before_epoch s" by (auto simp: announcing_def)
  show ?thesis
  proof (cases "(g, s) = (h, st)")
    case True
    with assms(3) s obtain st' where st': "before_epoch st'" "(h, st') \<in># d" by auto
    then have "(h, st') \<in># hw_changes w'" by (simp add: assms(1))
    with True st'(1) show ?thesis by (auto simp: announcing_def)
  next
    case False
    then have "(g, s) \<in># hw_changes w'" using other_change [OF s(1)] by (simp only: assms(1))
    with s(2) show ?thesis by (auto simp: announcing_def)
  qed
qed

lemma to_close_keep:
  assumes "hw_changes w' = hw_changes w - {#(h, st)#} + d" and "i \<in> to_close w g"
    and "\<And>is. st = Closing is \<Longrightarrow> i \<in> set is \<Longrightarrow> \<exists>js. (h, Closing js) \<in># d \<and> i \<in> set js"
  shows "i \<in> to_close w' g"
proof -
  from assms(2) obtain js where s: "(g, Closing js) \<in># hw_changes w" "i \<in> set js" by (auto simp: to_close_def)
  show ?thesis
  proof (cases "(g, Closing js) = (h, st)")
    case True
    with assms(3) [of js] s(2) obtain ks where ks: "(h, Closing ks) \<in># d" "i \<in> set ks" by blast
    then have "(h, Closing ks) \<in># hw_changes w'" by (simp add: assms(1))
    with True ks(2) show ?thesis by (auto simp: to_close_def)
  next
    case False
    then have "(g, Closing js) \<in># hw_changes w'" using other_change [OF s(1)] by (simp only: assms(1))
    with s(2) show ?thesis by (auto simp: to_close_def)
  qed
qed

lemma after_announce_simps [simp]:
  "hw_rows (after_announce h st r) = hw_rows (snd r)" "hw_marks (after_announce h st r) = hw_marks (snd r)"
  "hw_terms (after_announce h st r) = hw_terms (snd r)" "hw_runs_on (after_announce h st r) = hw_runs_on (snd r)"
  "hw_tickets (after_announce h st r) = hw_tickets (snd r)" "hw_requests (after_announce h st r) = hw_requests (snd r)"
  "hw_issued (after_announce h st r) = hw_issued (snd r)" "hw_started (after_announce h st r) = hw_started (snd r)"
  by (simp_all add: after_announce_def case_prod_beta)

lemma announce_early_inv:
  assumes "hub_inv w" and "st = Committed \<or> st = Disconnected"
  shows "hub_inv (after_announce h st (announce_next h snapshot st w))"
proof -
  obtain v st' where n: "announce_next h snapshot st w = (Some st', v)" "before_epoch st'"
    "hw_rows v = hw_rows w" "hw_marks v = hw_marks w" "hw_terms v = hw_terms w" "hw_changes v = hw_changes w"
    "hw_runs_on v = hw_runs_on w" "hw_requests v = hw_requests w"
    using assms(2) by fastforce
  have ch: "hw_changes (after_announce h st (Some st', v)) = hw_changes w - {#(h, st)#} + {#(h, st')#}"
    by (simp add: after_announce_def n)
  show ?thesis unfolding n(1)
  proof (rule more_announced_inv [OF assms(1)])
    show "announcing (after_announce h st (Some st', v)) g" if "announcing w g" for g
      by (rule announcing_keep [OF ch that]) (use n(2) in auto)
    show "to_close w g \<subseteq> to_close (after_announce h st (Some st', v)) g" for g
      using assms(2) by (intro subsetI to_close_keep [OF ch]) auto
  qed (use assms(1) n in \<open>auto simp: current_def hub_inv_def\<close>)
qed

lemma announce_epoch_inv:
  assumes "hub_inv w" and snapshot: "set snapshot = {i. on_host h (hw_terms w) i}"
  shows "hub_inv (after_announce h TicketsRevoked (announce_next h snapshot TicketsRevoked w))"
proof -
  define w' where "w' = after_announce h TicketsRevoked (announce_next h snapshot TicketsRevoked w)"
  have ch: "hw_changes w' = hw_changes w - {#(h, TicketsRevoked)#} + {#(h, Closing snapshot)#}"
    by (simp add: after_announce_def w'_def)
  have eq: "hw_terms w' = close_host_locked h (hw_terms w)" "hw_rows w' = hw_rows w" "hw_marks w' = hw_marks w"
    "hw_runs_on w' = hw_runs_on w" "hw_requests w' = hw_requests w" by (simp_all add: w'_def)
  have ann: "announcing w' g" if "announcing w g" "g \<noteq> h" for g
    by (rule announcing_keep [OF ch that(1)]) (use that(2) in simp)
  have cl: "to_close w g \<subseteq> to_close w' g" for g by (intro subsetI to_close_keep [OF ch]) auto
  have cur: "current w' = current w" by (rule current_cong) (rule eq)
  have cl_h: "set snapshot \<subseteq> to_close w' h" unfolding to_close_def ch by auto
  have "attached_ok w'" unfolding attached_ok_def
  proof (intro ballI allI impI)
    fix i a assume i: "i \<in> mg_attachments (hub_manager w')" "tm_store (hw_terms w') i = Some a"
    then have i': "i \<in> mg_attachments (hub_manager w)" "tm_store (hw_terms w) i = Some a"
      by (simp_all add: eq close_host_locked_def)
    show "current w' (at_host a) (hw_runs_on w' i) \<or> announcing w' (at_host a) \<or> i \<in> to_close w' (at_host a)"
    proof (cases "at_host a = h")
      case True
      with i' have "i \<in> set snapshot" by (simp add: snapshot on_host_def)
      with cl_h True show ?thesis by blast
    next
      case False
      have "current w (at_host a) (hw_runs_on w i) \<or> announcing w (at_host a) \<or> i \<in> to_close w (at_host a)"
        using i' assms(1) by (simp add: hub_inv_def attached_ok_def)
      with ann [OF _ False] cl [of "at_host a"] show ?thesis by (auto simp: cur eq)
    qed
  qed
  moreover have "fresh_or_announced w' st" if "fresh_or_announced w st" for st
    using that ann by (cases st) (auto simp: fresh_or_announced_def cur eq close_host_locked_def current_epoch_def)
  moreover have "tracked_live (hw_terms w')"
    using assms(1) by (simp add: eq hub_inv_def tracked_live_def close_host_locked_def)
  ultimately have "hub_inv w'" using assms(1) by (auto simp: hub_inv_def eq)
  then show ?thesis by (simp only: w'_def)
qed

lemma announce_close_inv:
  assumes "hub_inv w"
  shows "hub_inv (after_announce h (Closing is) (announce_next h snapshot (Closing is) w))"
proof -
  define w' where "w' = after_announce h (Closing is) (announce_next h snapshot (Closing is) w)"
  have "hub_inv w'"
  proof (cases "is")
    case Nil
    have ch: "hw_changes w' = hw_changes w - {#(h, Closing [])#} + {#}" by (simp add: after_announce_def Nil w'_def)
    show ?thesis
    proof (rule more_announced_inv [OF assms(1)])
      show "announcing w' g" if "announcing w g" for g by (rule announcing_keep [OF ch that]) simp
      show "to_close w g \<subseteq> to_close w' g" for g by (intro subsetI to_close_keep [OF ch]) auto
    qed (use assms in \<open>auto simp: w'_def Nil current_def hub_inv_def\<close>)
  next
    case (Cons i is')
    define v where "v = w\<lparr>hw_terms := finishing force_close i (hw_terms w)\<rparr>"
    have v: "hub_inv v" by (rule ending_inv [OF assms(1) keeps_host_closers(1) v_def])
    have gone: "i \<notin> mg_attachments (hub_manager v)"
      using assms(1) finishing_gone [of "hw_terms w" force_close i] by (simp add: hub_inv_def v_def)
    have ch: "hw_changes w' = hw_changes v - {#(h, Closing is)#} + {#(h, Closing is')#}"
      by (simp add: after_announce_def Cons w'_def v_def)
    have eq: "hw_terms w' = hw_terms v" "hw_rows w' = hw_rows v" "hw_requests w' = hw_requests v"
      "hw_runs_on w' = hw_runs_on v" "hw_marks w' = hw_marks v" by (simp_all add: Cons w'_def v_def)
    have ann: "announcing w' g" if "announcing v g" for g by (rule announcing_keep [OF ch that]) simp
    have cl: "j \<in> to_close w' g" if "j \<in> to_close v g" "j \<noteq> i" for j g
      by (rule to_close_keep [OF ch that(1)]) (use that(2) Cons in auto)
    have cur: "current w' = current v" by (rule current_cong) (rule eq)
    have "fresh_or_announced w' st" if "fresh_or_announced v st" for st
      using that ann by (cases st) (auto simp: fresh_or_announced_def cur eq)
    moreover have "attached_ok w'" unfolding attached_ok_def
    proof (intro ballI allI impI)
      fix j a assume "j \<in> mg_attachments (hub_manager w')" "tm_store (hw_terms w') j = Some a"
      then have j: "j \<in> mg_attachments (hub_manager v)" "tm_store (hw_terms v) j = Some a" "j \<noteq> i"
        using gone by (auto simp: eq)
      then have "current v (at_host a) (hw_runs_on v j) \<or> announcing v (at_host a) \<or> j \<in> to_close v (at_host a)"
        using v by (simp add: hub_inv_def attached_ok_def)
      with ann cl [OF _ j(3)] show "current w' (at_host a) (hw_runs_on w' j) \<or> announcing w' (at_host a) \<or> j \<in> to_close w' (at_host a)"
        by (auto simp: cur eq)
    qed
    ultimately show ?thesis using v by (auto simp: hub_inv_def eq)
  qed
  then show ?thesis by (simp only: w'_def)
qed

lemma fold_ending_inv:
  "hub_inv w \<Longrightarrow> keeps_host f \<Longrightarrow> hub_inv (w\<lparr>hw_terms := fold (finishing f) is (hw_terms w)\<rparr>)"
proof (induction "is" arbitrary: w)
  case (Cons i "is")
  have "hub_inv (w\<lparr>hw_terms := finishing f i (hw_terms w)\<rparr>)" by (rule ending_inv [OF Cons.prems refl])
  from Cons.IH [OF this Cons.prems(2)] show ?case by simp
qed simp

lemma closing_inv:
  assumes "hub_inv w"
  shows "hub_inv (w\<lparr>hw_terms := (hw_terms w)\<lparr>tm_mgr := (hub_manager w)\<lparr>mg_closing := True\<rparr>\<rparr>\<rparr>)" (is "hub_inv ?w")
proof -
  have "current ?w = current w" by (rule current_cong) simp
  with assms stage_cong [of ?w w] show ?thesis
    by (auto simp: hub_inv_def attached_ok_def tracked_live_def)
qed

lemma stop_inv:
  assumes "hub_inv w" and "manager_shutdown snapshot done outcome (hw_terms w) = (ok, t)"
  shows "hub_inv (w\<lparr>hw_terms := t\<rparr>)"
proof -
  let ?v = "w\<lparr>hw_terms := (hw_terms w)\<lparr>tm_mgr := (hub_manager w)\<lparr>mg_closing := True\<rparr>\<rparr>\<rparr>"
  note v = fold_ending_inv [OF closing_inv [OF assms(1)] keeps_host_closers(2)]
  show ?thesis
    using assms(2) v [of snapshot] fold_ending_inv [OF v [of "done"] keeps_host_closers(1), of snapshot]
    by (cases outcome) (auto simp: manager_shutdown_def Let_def)
qed

lemma attach_inv:
  assumes "hub_inv w" and "hw_requests w n = Some (rq, WsSpawned rt h e)" and "tm_store (hw_terms w) i = None"
  shows "hub_inv (hub_register opts n i rq rt h e w)"
proof -
  define a where "a = ws_attachment opts rq h e"
  have a: "at_host a = h" "at_epoch a = e" "\<not> at_finished a"
    by (simp_all add: a_def ws_attachment_def with_epoch_def with_host_def new_attachment_def split: prod.split)
  have st: "fresh_or_announced w (WsSpawned rt h e)" using assms(1,2) by (auto simp: hub_inv_def)
  have untracked: "i \<notin> mg_attachments (hub_manager w)"
    using assms(1,3) by (auto simp: hub_inv_def tracked_live_def)
  let ?w = "hub_register opts n i rq rt h e w"
  have eq: "hw_rows ?w = hw_rows w" "hw_marks ?w = hw_marks w" "hw_changes ?w = hw_changes w"
      "hw_runs_on ?w = (hw_runs_on w)(i := t_conn_revision (rt_target rt))"
    by (simp_all add: hub_register_def split: prod.split)
  have epochs: "mg_epochs (hub_manager ?w) = mg_epochs (hub_manager w)"
    by (auto simp: hub_register_def ws_register_def add_attachment_def register_def split: prod.splits sum.splits if_splits)
  have same: "fresh_or_announced ?w = fresh_or_announced w" "announcing ?w = announcing w" "to_close ?w = to_close w"
      "current ?w = current w"
    by (intro stage_cong current_cong eq epochs)+
  show ?thesis
  proof (cases "register i a (hub_manager w)")
    case (Pair r m)
    show ?thesis
    proof (cases r)
      case (Inl x)
      then have terms: "hw_terms ?w = hw_terms w"
        and req: "hw_requests ?w = (hw_requests w)(n \<mapsto> (rq, WsEnded (ErrorAndClose ''hub shutting down'' True)))"
        using Pair by (simp_all add: hub_register_def ws_register_def add_attachment_def a_def)
      have "attached_ok ?w" using assms(1) untracked by (auto simp: hub_inv_def attached_ok_def same eq terms)
      with assms(1) req show ?thesis by (auto simp: hub_inv_def same eq terms fresh_or_announced_def)
    next
      case (Inr u)
      with Pair have m: "m = (hub_manager w)\<lparr>mg_attachments := insert i (mg_attachments (hub_manager w))\<rparr>"
        and e: "h \<noteq> [] \<longrightarrow> e = mg_epochs (hub_manager w) h"
        using a by (auto simp: register_def split: if_splits)
      have terms: "hw_terms ?w = (hw_terms w)\<lparr>tm_mgr := m, tm_store := (tm_store (hw_terms w))(i \<mapsto> a)\<rparr>"
        and req: "hw_requests ?w = (hw_requests w)(n \<mapsto> (rq, WsAttached))"
        using Pair Inr by (simp_all add: hub_register_def ws_register_def add_attachment_def a_def)
      have cur: "current w h (t_conn_revision (rt_target rt)) \<or> announcing w h"
        using st e by (auto simp: fresh_or_announced_def current_epoch_def)
      have "attached_ok ?w" unfolding attached_ok_def
      proof (intro ballI allI impI)
        fix j b assume j: "j \<in> mg_attachments (hub_manager ?w)" "tm_store (hw_terms ?w) j = Some b"
        show "current ?w (at_host b) (hw_runs_on ?w j) \<or> announcing ?w (at_host b) \<or> j \<in> to_close ?w (at_host b)"
        proof (cases "j = i")
          case True
          with j(2) a cur show ?thesis by (auto simp: same eq terms)
        next
          case False
          with j assms(1) show ?thesis by (auto simp: same eq terms m hub_inv_def attached_ok_def)
        qed
      qed
      moreover have "tracked_live (hw_terms ?w)"
        using assms(1) a(3) by (auto simp: terms m hub_inv_def tracked_live_def)
      ultimately show ?thesis using assms(1) by (auto simp: hub_inv_def same eq req fresh_or_announced_def)
    qed
  qed
qed

lemma rows_inv:
  assumes "hub_inv w" and "rows_ok rows marks"
    and "\<And>g v. hw_rows w g = Some v \<Longrightarrow>
        (\<exists>u. rows g = Some u \<and> hv_conn_revision u = hv_conn_revision v) \<or> (g, Committed) \<in># d"
  shows "hub_inv (w\<lparr>hw_rows := rows, hw_marks := marks, hw_changes := hw_changes w + d\<rparr>)" (is "hub_inv ?w")
proof (rule more_announced_inv [OF assms(1)])
  show "current ?w h r \<or> announcing ?w h" if "current w h r" for h r
  proof -
    from that obtain v where "hw_rows w h = Some v" "hv_conn_revision v = r" by (auto simp: current_def)
    with assms(3) [of h v] show ?thesis by (fastforce simp: current_def announcing_def)
  qed
  show "announcing ?w h" if "announcing w h" for h using that by (auto simp: announcing_def)
  show "to_close w h \<subseteq> to_close ?w h" for h by (auto simp: to_close_def)
qed (use assms(2) in simp_all)

lemma hub_step_inv: "hub_step opts w w' \<Longrightarrow> hub_inv w \<Longrightarrow> hub_inv w'"
proof (induction rule: hub_step.induct)
  case (arrive w n rq)
  show ?case
    by (rule request_inv [where st = "ws_arrive rq (hub_manager w)" and n = n and rq = rq, OF arrive.prems])
       (simp_all add: fresh_or_announced_def ws_arrive_def ws_host_def local_id_def)
next
  case (resolve w n rq raw e reg err answer ctx r conns)
  have "fresh_or_announced w (WsEpoch raw e)"
    using resolve.hyps(1) resolve.prems unfolding hub_inv_def by blast
  then have ep: "raw \<noteq> []" "e \<le> current_epoch (hub_manager w) raw"
    by (simp_all add: fresh_or_announced_def)
  have "fresh_or_announced w (ws_resolve raw e r (hub_manager w))"
  proof (cases r)
    case (Inr rt)
    with resolve resolve_current [of ctx reg answer raw "hw_conns w" rt conns w err] ep show ?thesis
      by (auto simp: ws_resolve_def Let_def fresh_or_announced_def hub_inv_def)
  qed (simp add: ws_resolve_def fresh_or_announced_def)
  then show ?case
    by (rule request_inv [where n = n and rq = rq, OF resolve.prems]) simp_all
next
  case (accept w n rq rt h e upgraded)
  then have "fresh_or_announced w (WsResolved rt h e)" by (auto simp: hub_inv_def)
  then have "fresh_or_announced w (ws_accept opts rq upgraded rt h e)"
    by (simp add: ws_accept_def fresh_or_announced_def)
  then show ?case by (rule request_inv [where n = n and rq = rq, OF accept.prems]) simp_all
next
  case (redeem w n rq rt h e now st s)
  then have "fresh_or_announced w (WsAccepted rt h e)" by (auto simp: hub_inv_def)
  with redeem.hyps(2) have "fresh_or_announced w st"
    by (auto simp: ws_redeem_def fresh_or_announced_def split: prod.splits sum.splits)
  then show ?case by (rule request_inv [where n = n and rq = rq, OF redeem.prems]) simp_all
next
  case (spawn w n rq rt h e tmux sp)
  then have "fresh_or_announced w (WsRedeemed rt h e)" by (auto simp: hub_inv_def)
  then have "fresh_or_announced w (ws_spawn tmux sp rt h e)"
    by (simp add: ws_spawn_def fresh_or_announced_def split: option.split)
  then show ?case
    by (rule request_inv [where n = n and rq = rq, OF spawn.prems]) (simp_all add: hub_spawn_def Let_def)
next
  case (attach w n rq rt h e i)
  then show ?case using attach_inv by blast
next
  case (issue w rand now h r sess)
  show ?case by (rule quiet_inv [OF issue]) (simp_all add: hub_issue_def split: prod.split sum.split)
next
  case (sweep w now)
  show ?case by (rule quiet_inv [OF sweep]) simp_all
next
  case (create w h v)
  have "rows_ok ((hw_rows w)(h \<mapsto> v)) ((hw_marks w)(h := hv_conn_revision v))"
    using create by (auto simp: hub_inv_def rows_ok_def)
  from rows_inv [OF create.prems this, of "{#}"] create.hyps(1) show ?case by fastforce
next
  case (rename w h u v)
  have "rows_ok ((hw_rows w)(h \<mapsto> v)) (hw_marks w)"
    using rename by (fastforce simp: hub_inv_def rows_ok_def)
  from rows_inv [OF rename.prems this, of "{#}"] rename.hyps show ?case by fastforce
next
  case (change w h u v)
  have "rows_ok ((hw_rows w)(h \<mapsto> v)) ((hw_marks w)(h := hv_conn_revision v))"
    using change by (fastforce simp: hub_inv_def rows_ok_def)
  from rows_inv [OF change.prems this, of "{#(h, Committed)#}"] show ?case by fastforce
next
  case (remove w h u)
  have "rows_ok ((hw_rows w)(h := None)) (hw_marks w)"
    using remove by (auto simp: hub_inv_def rows_ok_def)
  from rows_inv [OF remove.prems this, of "{#(h, Committed)#}"] show ?case by fastforce
next
  case (announce h st w snapshot)
  show ?case
  proof (cases st)
    case TicketsRevoked
    then show ?thesis using announce_epoch_inv [OF announce.prems announce.hyps(2)] by simp
  next
    case (Closing "is")
    then show ?thesis using announce_close_inv [OF announce.prems] by simp
  next
    case Committed
    then show ?thesis using announce_early_inv [OF announce.prems, of Committed h snapshot] by simp
  next
    case Disconnected
    then show ?thesis using announce_early_inv [OF announce.prems, of Disconnected h snapshot] by simp
  qed
next
  case (leave f w i)
  then show ?case using ending_inv [OF leave.prems _ refl, of f i] by auto
next
  case (stop snapshot w "done" outcome ok t)
  then show ?case using stop_inv by blast
next
  case (network w c)
  show ?case by (rule quiet_inv [OF network.prems]) simp_all
qed

lemma start_hub_inv: "rows_ok rows marks \<Longrightarrow> hub_inv (start_hub cfg conn_cfg rows marks)"
  by (simp add: hub_inv_def start_hub_def attached_ok_def tracked_live_def start_terminals_def new_manager_def)

lemma hub_run_inv: "(hub_step opts)\<^sup>*\<^sup>* (start_hub cfg conn_cfg rows marks) w \<Longrightarrow> rows_ok rows marks \<Longrightarrow> hub_inv w"
  by (induction rule: rtranclp_induct) (auto intro: start_hub_inv hub_step_inv)

section \<open>Tickets and processes\<close>

definition ticket_key_of :: "ticket \<Rightarrow> ticket_key" where
  "ticket_key_of t = (tk_host t, tk_conn_revision t, tk_session t)"

definition live_tickets :: "hub_world \<Rightarrow> ticket_key \<Rightarrow> string set" where
  "live_tickets w k = {tid. \<exists>t. ts_by_id (hw_tickets w) tid = Some t \<and> ticket_key_of t = k}"

definition waiting :: "hub_world \<Rightarrow> ticket_key \<Rightarrow> nat set" where
  "waiting w k = {n. \<exists>rq rt h e. hw_requests w n = Some (rq, WsRedeemed rt h e) \<and> runtime_key rq rt = k}"

definition paid :: "hub_world \<Rightarrow> bool" where
  "paid w \<longleftrightarrow> finite (dom (ts_by_id (hw_tickets w))) \<and> finite (dom (hw_requests w))
     \<and> (\<forall>k. hw_started w k + card (waiting w k) + card (live_tickets w k) \<le> hw_issued w k)"

lemma paid_at: "paid w \<Longrightarrow> hw_started w k + card (waiting w k) + card (live_tickets w k) \<le> hw_issued w k"
  unfolding paid_def by blast

lemma paid_finite: "paid w \<Longrightarrow> finite (dom (ts_by_id (hw_tickets w)))" "paid w \<Longrightarrow> finite (dom (hw_requests w))"
  unfolding paid_def by blast+

lemma paidI:
  "finite (dom (ts_by_id (hw_tickets w))) \<Longrightarrow> finite (dom (hw_requests w))
   \<Longrightarrow> (\<And>k. hw_started w k + card (waiting w k) + card (live_tickets w k) \<le> hw_issued w k) \<Longrightarrow> paid w"
  unfolding paid_def by blast

lemma finite_live: "finite (dom (ts_by_id (hw_tickets w))) \<Longrightarrow> finite (live_tickets w k)"
  by (rule finite_subset [of _ "dom (ts_by_id (hw_tickets w))"]) (auto simp: live_tickets_def)

lemma finite_waiting: "finite (dom (hw_requests w)) \<Longrightarrow> finite (waiting w k)"
  by (rule finite_subset [of _ "dom (hw_requests w)"]) (auto simp: waiting_def)

text \<open>A step that adds neither a waiting request nor a ticket.\<close>

lemma paid_less:
  assumes "paid w" and "hw_started w' = hw_started w" and "hw_issued w' = hw_issued w"
    and "\<And>k. waiting w' k \<subseteq> waiting w k" and "\<And>k. live_tickets w' k \<subseteq> live_tickets w k"
    and "finite (dom (ts_by_id (hw_tickets w')))" and "finite (dom (hw_requests w'))"
  shows "paid w'"
proof -
  have "hw_started w' k + card (waiting w' k) + card (live_tickets w' k) \<le> hw_issued w' k" for k
  proof -
    have "card (waiting w' k) \<le> card (waiting w k)" "card (live_tickets w' k) \<le> card (live_tickets w k)"
      using assms(1,4,5) by (intro card_mono; simp add: paid_def finite_live finite_waiting)+
    with paid_at [OF assms(1), of k] show ?thesis using assms(2,3) by simp
  qed
  with assms(6,7) show ?thesis by (intro paidI)
qed

fun is_redeemed :: "ws_stage \<Rightarrow> bool" where
  "is_redeemed (WsRedeemed _ _ _) = True"
| "is_redeemed _ = False"

lemma waiting_set_stage: "\<not> is_redeemed st \<Longrightarrow> waiting (set_stage n rq st w) k \<subseteq> waiting w k"
  by (auto simp: waiting_def split: if_splits)

lemma paid_stage:
  assumes "paid w" and "\<not> is_redeemed st"
    and "hw_tickets v = hw_tickets w" "hw_requests v = hw_requests w" "hw_started v = hw_started w" "hw_issued v = hw_issued w"
  shows "paid (set_stage n rq st v)"
proof (rule paid_less [OF assms(1)])
  show "waiting (set_stage n rq st v) k \<subseteq> waiting w k" for k
    using waiting_set_stage [OF assms(2), of n rq v k] assms(4) by (simp add: waiting_def)
qed (use assms in \<open>auto simp: paid_def live_tickets_def\<close>)

lemma paid_quiet:
  assumes "paid w" "hw_tickets v = hw_tickets w" "hw_requests v = hw_requests w" "hw_started v = hw_started w" "hw_issued v = hw_issued w"
  shows "paid v"
  using assms by (simp add: paid_def live_tickets_def waiting_def)

lemma redeem_spends:
  assumes "redeem_for_target now tid h r sess s = (x, s')"
  shows "ts_by_id s' \<subseteq>\<^sub>m ts_by_id s"
    and "x = Inr u \<Longrightarrow> \<exists>t. ts_by_id s tid = Some t \<and> ticket_key_of t = (default_host h, default_conn_rev r, sess) \<and> ts_by_id s' tid = None"
  using assms
  by (auto simp: redeem_for_target_def Let_def check_ticket_def ticket_key_of_def map_le_def dom_def
      split: if_splits option.splits)

lemma live_le:
  "ts_by_id (hw_tickets w') \<subseteq>\<^sub>m ts_by_id (hw_tickets w) \<Longrightarrow> live_tickets w' k \<subseteq> live_tickets w k"
  by (auto simp: live_tickets_def map_le_def dom_def)

lemma finite_le: "m' \<subseteq>\<^sub>m m \<Longrightarrow> finite (dom m) \<Longrightarrow> finite (dom m')"
  by (metis finite_subset map_le_implies_dom_le)

lemma redeem_paid:
  assumes "paid w" and "fresh_or_announced w (WsAccepted rt h e)" and "hw_requests w n = Some (rq, WsAccepted rt h e)"
    and "ws_redeem now rq rt h e (hw_tickets w) = (st, s)"
  shows "paid (set_stage n rq st (w\<lparr>hw_tickets := s\<rparr>))"
proof -
  let ?w = "set_stage n rq st (w\<lparr>hw_tickets := s\<rparr>)"
  obtain x where r: "redeem_ticket now (wq_ticket rq) rt (wq_session rq) (hw_tickets w) = (x, s)"
    using assms(4) by (auto simp: ws_redeem_def split: prod.splits sum.splits)
  note spends = redeem_spends [OF r [unfolded redeem_ticket_def]]
  have live: "live_tickets ?w k \<subseteq> live_tickets w k" for k using spends(1) by (intro live_le) simp
  have fin: "finite (dom (ts_by_id (hw_tickets ?w)))" "finite (dom (hw_requests ?w))"
    using assms(1) finite_le [OF spends(1)] by (simp_all add: paid_def)
  show ?thesis
  proof (cases x)
    case (Inl y)
    then have "\<not> is_redeemed st" using r assms(4) by (auto simp: ws_redeem_def)
    then have "waiting ?w k \<subseteq> waiting w k" for k
      using waiting_set_stage [of st n rq "w\<lparr>hw_tickets := s\<rparr>" k] by (simp add: waiting_def)
    with live fin show ?thesis by (intro paid_less [OF assms(1)]) simp_all
  next
    case (Inr u)
    then have st: "st = WsRedeemed rt h e" using r assms(4) by (simp add: ws_redeem_def)
    have t: "t_host (rt_target rt) \<noteq> []" "0 < t_conn_revision (rt_target rt)"
      using assms(2) by (auto simp: fresh_or_announced_def)
    obtain tk where tk: "ts_by_id (hw_tickets w) (wq_ticket rq) = Some tk" "ticket_key_of tk = runtime_key rq rt"
        "ts_by_id s (wq_ticket rq) = None"
      using spends(2) [OF Inr] t by (auto simp: default_host_def default_conn_rev_def runtime_key_def)
    have n: "n \<notin> waiting w k" for k using assms(3) by (simp add: waiting_def)
    have "hw_started ?w k + card (waiting ?w k) + card (live_tickets ?w k) \<le> hw_issued ?w k" for k
    proof (cases "k = runtime_key rq rt")
      case True
      have "waiting ?w k = insert n (waiting w k)" by (auto simp: waiting_def st True)
      then have "card (waiting ?w k) = Suc (card (waiting w k))"
        using n finite_waiting paid_finite [OF assms(1)] by simp
      moreover have "wq_ticket rq \<in> live_tickets w k" "wq_ticket rq \<notin> live_tickets ?w k"
        using tk True by (auto simp: live_tickets_def)
      then have "live_tickets ?w k \<subset> live_tickets w k" using live [of k] by blast
      then have "card (live_tickets ?w k) < card (live_tickets w k)"
        using finite_live paid_finite [OF assms(1)] by (simp add: psubset_card_mono)
      ultimately show ?thesis using paid_at [OF assms(1), of k] by simp
    next
      case False
      then have "waiting ?w k \<subseteq> waiting w k" by (auto simp: waiting_def st split: if_splits)
      then have "card (waiting ?w k) \<le> card (waiting w k)"
        using finite_waiting paid_finite [OF assms(1)] by (simp add: card_mono)
      moreover have "card (live_tickets ?w k) \<le> card (live_tickets w k)"
        using live finite_live paid_finite [OF assms(1)] by (simp add: card_mono)
      ultimately show ?thesis using paid_at [OF assms(1), of k] by simp
    qed
    with fin show ?thesis by (intro paidI)
  qed
qed

lemma spawn_paid:
  assumes "paid w" and "hw_requests w n = Some (rq, WsRedeemed rt h e)"
  shows "paid (hub_spawn n tmux sp rq rt h e w)"
proof (cases "tmux = None \<and> sp = None")
  case False
  then have "\<not> is_redeemed (ws_spawn tmux sp rt h e)" by (auto simp: ws_spawn_def split: option.split)
  with False assms(1) show ?thesis by (auto simp: hub_spawn_def Let_def intro: paid_stage)
next
  case True
  let ?w = "hub_spawn n tmux sp rq rt h e w"
  have eq: "hw_requests ?w = (hw_requests w)(n \<mapsto> (rq, WsSpawned rt h e))" "hw_tickets ?w = hw_tickets w"
      "hw_issued ?w = hw_issued w" "hw_started ?w = bump (runtime_key rq rt) (hw_started w)"
    using True by (simp_all add: hub_spawn_def ws_spawn_def Let_def)
  have live: "live_tickets ?w = live_tickets w" by (simp add: live_tickets_def eq fun_eq_iff)
  have "hw_started ?w k + card (waiting ?w k) + card (live_tickets ?w k) \<le> hw_issued ?w k" for k
  proof -
    note base = paid_at [OF assms(1), of k]
    have fin: "finite (waiting w k)" using assms(1) finite_waiting paid_finite by blast
    have w: "waiting ?w k = waiting w k - {n}" by (auto simp: waiting_def eq split: if_splits)
    show ?thesis
    proof (cases "k = runtime_key rq rt")
      case True
      then have "n \<in> waiting w k" using assms(2) by (auto simp: waiting_def)
      with fin w have "Suc (card (waiting ?w k)) = card (waiting w k)" by (metis card_Suc_Diff1)
      with base True show ?thesis by (simp add: live eq bump_def)
    next
      case False
      have "card (waiting ?w k) \<le> card (waiting w k)" using fin w by (simp add: card_mono)
      with base False show ?thesis by (simp add: live eq bump_def)
    qed
  qed
  with paid_finite [OF assms(1)] show ?thesis by (intro paidI) (simp_all add: eq)
qed

lemma issue_paid:
  assumes "paid w"
  shows "paid (hub_issue rand now h r sess w)"
proof (cases "random_token rand (int ticket_entropy_bytes)")
  case (Inl x)
  then have "hub_issue rand now h r sess w = w\<lparr>hw_tickets := hw_tickets w\<rparr>"
    by (simp add: hub_issue_def issue_for_target_def)
  with assms show ?thesis by simp
next
  case (Inr tid)
  let ?w = "hub_issue rand now h r sess w" and ?k = "(default_host h, default_conn_rev r, sess)"
  obtain t where t: "ticket_key_of t = ?k" "ts_by_id (hw_tickets ?w) = (ts_by_id (hw_tickets w))(tid \<mapsto> t)"
    by (rule that [of "\<lparr> tk_host = default_host h, tk_conn_revision = default_conn_rev r, tk_session = sess,
          tk_expires = now + ts_ttl (hw_tickets w) \<rparr>"])
       (simp_all add: hub_issue_def issue_for_target_def Inr Let_def ticket_key_of_def)
  have eq: "hw_requests ?w = hw_requests w" "hw_started ?w = hw_started w" "hw_issued ?w = bump ?k (hw_issued w)"
    by (simp_all add: hub_issue_def issue_for_target_def Inr Let_def)
  have wait: "waiting ?w = waiting w" by (simp add: waiting_def eq fun_eq_iff)
  have "hw_started ?w k + card (waiting ?w k) + card (live_tickets ?w k) \<le> hw_issued ?w k" for k
  proof -
    note base = paid_at [OF assms, of k]
    have fin: "finite (live_tickets w k)" using assms finite_live paid_finite by blast
    show ?thesis
    proof (cases "k = ?k")
      case True
      have "live_tickets ?w k \<subseteq> insert tid (live_tickets w k)" by (auto simp: live_tickets_def t(2) split: if_splits)
      then have "card (live_tickets ?w k) \<le> card (insert tid (live_tickets w k))" using fin by (intro card_mono) simp_all
      also have "\<dots> \<le> Suc (card (live_tickets w k))" using fin by (simp add: card_insert_if)
      finally show ?thesis using base True by (simp add: wait eq bump_def)
    next
      case False
      have "live_tickets ?w k \<subseteq> live_tickets w k" using False t(1) by (auto simp: live_tickets_def t(2) split: if_splits)
      then have "card (live_tickets ?w k) \<le> card (live_tickets w k)" using fin by (simp add: card_mono)
      with base False show ?thesis by (auto simp: wait eq bump_def)
    qed
  qed
  with paid_finite [OF assms] show ?thesis by (intro paidI) (simp_all add: eq t(2))
qed

lemma tickets_dropped_paid:
  assumes "paid w" and "ts_by_id s \<subseteq>\<^sub>m ts_by_id (hw_tickets w)" and "hw_tickets v = s"
    and "hw_requests v = hw_requests w" "hw_started v = hw_started w" "hw_issued v = hw_issued w"
  shows "paid v"
proof (rule paid_less [OF assms(1)])
  show "live_tickets v k \<subseteq> live_tickets w k" for k using assms(2,3) by (intro live_le) simp
qed (use assms finite_le [OF assms(2)] in \<open>auto simp: paid_def waiting_def\<close>)

lemma after_announce_paid:
  assumes "paid w"
  shows "paid (after_announce h st (announce_next h snapshot st w))"
proof (cases st)
  case Disconnected
  show ?thesis
    by (rule tickets_dropped_paid [OF assms, of "invalidate_host h (hw_tickets w)"])
       (simp_all add: Disconnected invalidate_host_def map_filter_entries_map_le)
next
  case (Closing "is")
  then show ?thesis by (cases "is") (auto intro!: paid_quiet [OF assms])
qed (auto intro!: paid_quiet [OF assms])

lemma hub_step_paid: "hub_step opts w w' \<Longrightarrow> hub_inv w \<Longrightarrow> paid w \<Longrightarrow> paid w'"
proof (induction rule: hub_step.induct)
  case (arrive w n rq)
  then show ?case by (intro paid_stage [where w = w]) (simp_all add: ws_arrive_def)
next
  case (resolve w n rq raw e reg err answer ctx r conns)
  then show ?case
    by (intro paid_stage [where w = w]) (simp_all add: ws_resolve_def Let_def split: sum.split)
next
  case (accept w n rq rt h e upgraded)
  then show ?case by (intro paid_stage [where w = w]) (simp_all add: ws_accept_def)
next
  case (redeem w n rq rt h e now st s)
  have "fresh_or_announced w (WsAccepted rt h e)" using redeem.hyps(1) redeem.prems(1) unfolding hub_inv_def by blast
  then show ?case using redeem_paid redeem by blast
next
  case (spawn w n rq rt h e tmux sp)
  then show ?case using spawn_paid by blast
next
  case (attach w n rq rt h e i)
  then show ?case
    by (auto simp: hub_register_def ws_register_def split: prod.split sum.splits intro!: paid_stage [where w = w])
next
  case (issue w rand now h r sess)
  then show ?case using issue_paid by blast
next
  case (sweep w now)
  show ?case
    by (rule tickets_dropped_paid [OF sweep.prems(2), of "ticket_sweep now (hw_tickets w)"])
       (simp_all add: ticket_sweep_def map_filter_entries_map_le)
next
  case (announce h st w snapshot)
  then show ?case using after_announce_paid by blast
qed (auto intro: paid_quiet)

lemma hub_run_paid:
  assumes "(hub_step opts)\<^sup>*\<^sup>* (start_hub cfg conn_cfg rows marks) w" and "rows_ok rows marks"
  shows "paid w"
  using assms(1)
proof (induction rule: rtranclp_induct)
  case base
  show ?case by (simp add: paid_def start_hub_def new_ticket_store_def live_tickets_def waiting_def)
next
  case (step v w)
  then show ?case using hub_step_paid hub_run_inv [OF _ assms(2)] by blast
qed

section \<open>Properties\<close>

text \<open>C1: in every interleaving of WebSocket requests, changes of hosts and their announcements, a tracked
  attachment runs on its host's current connection revision, or the announcement of a change of that host
  is still under way; so once a change or removal of a host has been answered, no terminal remains on the
  connection it replaced.  The epoch read before the host is resolved is what makes the race safe.\<close>

theorem attachments_follow_host_changes:
  assumes "(hub_step opts)\<^sup>*\<^sup>* (start_hub cfg conn_cfg rows marks) w" and "rows_ok rows marks"
    and "i \<in> mg_attachments (hub_manager w)"
  shows "\<exists>a. tm_store (hw_terms w) i = Some a \<and> \<not> at_finished a
    \<and> ((\<exists>v. hw_rows w (at_host a) = Some v \<and> hv_conn_revision v = hw_runs_on w i)
       \<or> (\<exists>st. (at_host a, st) \<in># hw_changes w))"
proof -
  have inv: "hub_inv w" using assms(1,2) by (rule hub_run_inv)
  with assms(3) obtain a where a: "tm_store (hw_terms w) i = Some a" "\<not> at_finished a"
    by (auto simp: hub_inv_def tracked_live_def)
  with inv assms(3) have "current w (at_host a) (hw_runs_on w i) \<or> announcing w (at_host a) \<or> i \<in> to_close w (at_host a)"
    by (simp add: hub_inv_def attached_ok_def)
  with a show ?thesis by (auto simp: current_def announcing_def to_close_def)
qed

text \<open>C15: in every interleaving, the processes ever started for a host, connection revision and session are
  at most as many as the tickets issued for exactly these, and those still to be started or redeemed fit
  under the same count.\<close>

theorem processes_paid_by_tickets:
  assumes "(hub_step opts)\<^sup>*\<^sup>* (start_hub cfg conn_cfg rows marks) w" and "rows_ok rows marks"
  shows "hw_started w (h, r, s) + card (waiting w (h, r, s)) + card (live_tickets w (h, r, s)) \<le> hw_issued w (h, r, s)"
  using paid_at [OF hub_run_paid [OF assms]] .

text \<open>A run in which a client attaches to a session of a remote host, for the witnesses.\<close>

definition demo_view :: host_view where
  "demo_view =
     \<lparr> hv_id = ''h'', hv_revision = 4, hv_conn_revision = 3, hv_name = ''box'', hv_type = ConnSSH, hv_address = ''10.0.0.1'',
       hv_port = 22, hv_username = ''u'', hv_cred_type = ''password'', hv_has_credential = True, hv_trusted = True \<rparr>"

definition demo_start :: hub_world where
  "demo_start =
     start_hub default_config default_connection_config (Map.empty(''h'' \<mapsto> demo_view)) (\<lambda>_. 3)"

definition demo_ws_request :: ws_request where
  "demo_ws_request =
     \<lparr> wq_host = ''h'', wq_session = ''s'', wq_ticket = ''AQID'', wq_cols = ''100'', wq_rows = ''0'', wq_origin = [] \<rparr>"

lemma demo_token: "raw_url_encode [1, 2, 3] = ''AQID''" "raw_url_encode [Suc 0, 2, 3] = ''AQID''"
  by code_simp+

lemma demo_issued:
  defines "w1 \<equiv> hub_issue (\<lambda>_. Some [1, 2, 3]) 0 ''h'' 3 ''s'' demo_start"
  shows "hw_requests w1 = Map.empty" "hw_rows w1 = hw_rows demo_start" "hw_terms w1 = hw_terms demo_start"
    "hw_started w1 = (\<lambda>_. 0)" "hw_issued w1 (''h'', 3, ''s'') = 1"
    "ts_by_id (hw_tickets w1) ''AQID'' =
       Some \<lparr> tk_host = ''h'', tk_conn_revision = 3, tk_session = ''s'', tk_expires = 30 * 1000000000 \<rparr>"
  by (simp_all add: w1_def hub_issue_def issue_for_target_def random_token_def ticket_entropy_bytes_def Let_def bump_def
      default_host_def default_conn_rev_def demo_start_def start_hub_def new_ticket_store_def default_config_def
      demo_token del: raw_url_encode.simps)

lemma hub_demo_resolves:
  assumes "hw_rows w = hw_rows demo_start"
  shows "\<exists>rt conns. multi_host_resolve None (Some (hub_registry_get w ''h'')) True (Some (registry_answer_for w ''h'')) ''h'' c
      = (Inr rt, conns) \<and> t_host (rt_target rt) = ''h'' \<and> t_conn_revision (rt_target rt) = 3"
  by (simp add: multi_host_resolve_def hub_registry_get_def registry_answer_for_def assms demo_start_def start_hub_def
      demo_view_def lease_for_def local_id_def split: prod.split)

lemma hub_demo_run:
  "\<exists>w. (hub_step default_ws_options)\<^sup>*\<^sup>* demo_start w \<and> 0 \<in> mg_attachments (hub_manager w)
     \<and> hw_started w (''h'', 3, ''s'') = 1 \<and> hw_issued w (''h'', 3, ''s'') = 1"
proof -
  define w1 where "w1 = hub_issue (\<lambda>_. Some [1, 2, 3]) 0 ''h'' 3 ''s'' demo_start"
  note w1 = demo_issued [folded w1_def]
  let ?rq = demo_ws_request and ?o = default_ws_options
  define w2 where "w2 = set_stage 0 ?rq (WsEpoch ''h'' 0) w1"
  have epoch: "mg_epochs (hub_manager demo_start) = (\<lambda>_. 0)" "\<not> mg_closing (hub_manager demo_start)"
      "tm_store (hw_terms demo_start) = Map.empty"
    by (simp_all add: demo_start_def start_hub_def start_terminals_def new_manager_def)
  have a2: "ws_arrive ?rq (hub_manager w1) = WsEpoch ''h'' 0"
    by (simp add: ws_arrive_def ws_host_def demo_ws_request_def current_epoch_def w1 epoch)
  obtain rt conns where rt: "multi_host_resolve None (Some (hub_registry_get w2 ''h'')) True (Some (registry_answer_for w2 ''h'')) ''h''
        (hw_conns w2) = (Inr rt, conns)" "t_host (rt_target rt) = ''h''" "t_conn_revision (rt_target rt) = 3"
    using hub_demo_resolves [of w2 "hw_conns w2"] by (auto simp: w2_def w1)
  define w3 where "w3 = set_stage 0 ?rq (WsResolved rt ''h'' 0) (w2\<lparr>hw_conns := conns\<rparr>)"
  define w4 where "w4 = set_stage 0 ?rq (WsAccepted rt ''h'' 0) w3"
  define s where "s = snd (ws_redeem 0 ?rq rt ''h'' 0 (hw_tickets w4))"
  define w5 where "w5 = set_stage 0 ?rq (WsRedeemed rt ''h'' 0) (w4\<lparr>hw_tickets := s\<rparr>)"
  define w6 where "w6 = hub_spawn 0 None None ?rq rt ''h'' 0 w5"
  define w7 where "w7 = hub_register ?o 0 0 ?rq rt ''h'' 0 w6"
  have redeemed: "ws_redeem 0 ?rq rt ''h'' 0 (hw_tickets w4) = (WsRedeemed rt ''h'' 0, s)"
    by (simp add: s_def ws_redeem_def redeem_ticket_def redeem_for_target_def w4_def w3_def w2_def w1 rt demo_ws_request_def
        check_ticket_def default_host_def default_conn_rev_def Let_def)
  have "hub_step ?o demo_start w1" unfolding w1_def by (rule hub_step.issue)
  moreover have "hub_step ?o w1 w2" using hub_step.arrive [of w1 0 ?o ?rq] by (simp add: w2_def a2 [unfolded w1] w1)
  moreover have "hub_step ?o w2 w3"
    using hub_step.resolve [of w2 0 ?rq "''h''" 0 _ "[]", OF _ _ _ rt(1)]
    by (simp add: w3_def w2_def rt(2) ws_resolve_def)
  moreover have "hub_step ?o w3 w4"
    using hub_step.accept [of w3 0 ?rq rt "''h''" 0 ?o True]
    by (simp add: w4_def w3_def ws_accept_def check_origin_header_def default_ws_options_def)
  moreover have "hub_step ?o w4 w5"
    using hub_step.redeem [OF _ redeemed] by (simp add: w5_def w4_def)
  moreover have "hub_step ?o w5 w6" using hub_step.spawn [of w5 0 ?rq rt "''h''" 0] by (simp add: w6_def w5_def)
  moreover have "hub_step ?o w6 w7"
    using hub_step.attach [of w6 0 ?rq rt "''h''" 0 0]
    by (simp add: w7_def w6_def hub_spawn_def Let_def ws_spawn_def w5_def w4_def w3_def w2_def w1 epoch)
  ultimately have "(hub_step ?o)\<^sup>*\<^sup>* demo_start w7" by (meson converse_rtranclp_into_rtranclp rtranclp.rtrancl_refl)
  moreover have "0 \<in> mg_attachments (hub_manager w7)"
    by (simp add: w7_def hub_register_def ws_register_def add_attachment_def register_def ws_attachment_def with_epoch_def
        with_host_def case_prod_beta w6_def hub_spawn_def Let_def w5_def w4_def w3_def w2_def w1 epoch)
  moreover have "hw_started w7 (''h'', 3, ''s'') = 1 \<and> hw_issued w7 (''h'', 3, ''s'') = 1"
    by (simp add: w7_def hub_register_def case_prod_beta w6_def hub_spawn_def Let_def w5_def w4_def w3_def w2_def w1
        bump_def runtime_key_def rt demo_ws_request_def)
  ultimately show ?thesis by blast
qed

lemma demo_rows: "rows_ok (Map.empty(''h'' \<mapsto> demo_view)) (\<lambda>_. 3)"
  by (simp add: rows_ok_def demo_view_def)

theorem attachments_follow_host_changes_witness:
  "\<exists>w a. (hub_step default_ws_options)\<^sup>*\<^sup>* demo_start w \<and> 0 \<in> mg_attachments (hub_manager w)
     \<and> tm_store (hw_terms w) 0 = Some a
     \<and> ((\<exists>v. hw_rows w (at_host a) = Some v \<and> hv_conn_revision v = hw_runs_on w 0)
        \<or> (\<exists>st. (at_host a, st) \<in># hw_changes w))"
proof -
  obtain w where w: "(hub_step default_ws_options)\<^sup>*\<^sup>* demo_start w" "0 \<in> mg_attachments (hub_manager w)"
    using hub_demo_run by blast
  from attachments_follow_host_changes [OF w(1) [unfolded demo_start_def] demo_rows w(2)] w show ?thesis by blast
qed

theorem processes_paid_by_tickets_witness:
  "\<exists>w. (hub_step default_ws_options)\<^sup>*\<^sup>* demo_start w \<and> hw_started w (''h'', 3, ''s'') = 1
     \<and> hw_issued w (''h'', 3, ''s'') = 1 \<and> card (live_tickets w (''h'', 3, ''s'')) = 0"
proof -
  obtain w where w: "(hub_step default_ws_options)\<^sup>*\<^sup>* demo_start w" "hw_started w (''h'', 3, ''s'') = 1"
      "hw_issued w (''h'', 3, ''s'') = 1"
    using hub_demo_run by blast
  from processes_paid_by_tickets [OF w(1) [unfolded demo_start_def] demo_rows, of "''h''" 3 "''s''"] w
  show ?thesis by auto
qed

end
