(* ===== verification/Processes.thy ===== *)
theory Processes
  imports TmuxClient ShellEncoder Vault LogCalculus
begin

text \<open>
  The processes behind terminals: \<open>hub/internal/tmux/process.go\<close> (a local \<open>tmux attach\<close> on a pty),
  \<open>hub/internal/host/remote_terminal.go\<close> (the same over a dedicated SSH transport) and the
  authentication methods of \<open>hub/internal/host/ssh_auth.go\<close>.  What the operating system and the SSH
  connection answer is a parameter; during the remote set-up every exchange is logged, so that what was
  opened and what was closed can be compared.
\<close>

section \<open>Authentication methods (ssh_auth.go)\<close>

datatype auth_method = PasswordAuth string | KeyAuth string

datatype key_parse = KeyParsed string | PassphraseMissing | KeyUnusable string

datatype auth_error = EmptyPassword | EmptyPrivateKey | PassphraseRequired | ParsePrivateKey string | UnsupportedKind string

text \<open>\<open>parse key passphrase\<close> is the SSH library's reading of a private key, with the passphrase if one is
  given.  A missing passphrase is only singled out when none was given.\<close>

definition auth_methods :: "(string \<Rightarrow> string option \<Rightarrow> key_parse) \<Rightarrow> string \<Rightarrow> credentials \<Rightarrow> auth_error + auth_method list" where
  "auth_methods parse kind creds =
     (if kind = ''password'' then
        (if cr_password creds = [] then Inl EmptyPassword else Inr [PasswordAuth (cr_password creds)])
      else if kind = ''private_key'' then
        (if cr_private_key creds = [] then Inl EmptyPrivateKey
         else (case parse (cr_private_key creds) (if cr_passphrase creds \<noteq> [] then Some (cr_passphrase creds) else None) of
             KeyParsed k \<Rightarrow> Inr [KeyAuth k]
           | PassphraseMissing \<Rightarrow>
               (if cr_passphrase creds \<noteq> [] then Inl (ParsePrivateKey ''passphrase missing'') else Inl PassphraseRequired)
           | KeyUnusable e \<Rightarrow> Inl (ParsePrivateKey e)))
      else if kind = [] then Inr []
      else Inl (UnsupportedKind kind))"

section \<open>Local processes (process.go)\<close>

text \<open>The window size of a pty is two 16-bit numbers.\<close>

record winsize =
  ws_rows :: "16 word"
  ws_cols :: "16 word"

definition winsize_of :: "int \<Rightarrow> int \<Rightarrow> winsize" where
  "winsize_of cols rows = \<lparr> ws_rows = word_of_int rows, ws_cols = word_of_int cols \<rparr>"

text \<open>\<open>start\<close> is \<open>pty.StartWithSize\<close> on a command line.\<close>

definition new_pty_process ::
  "'w os \<Rightarrow> (string \<times> string list \<times> string list \<Rightarrow> winsize \<Rightarrow> ('w, string, unit) action) \<Rightarrow> tmux_client \<Rightarrow> string \<Rightarrow> int \<Rightarrow> int
   \<Rightarrow> ('w, session_error, unit) action" where
  "new_pty_process os start c sess cols rows =
     (case tc_err c of
        Some e \<Rightarrow> act_fail e
      | None \<Rightarrow> (\<lambda>w.
          case tc_has_session os c sess w of
            (False, w1) \<Rightarrow> (Inl ErrNotFound, w1)
          | (True, w1) \<Rightarrow>
              act_bind (act_wrap ''ensure global options'' (tc_ensure_global_options os c)) (\<lambda>_ w2.
                case start (tc_attach_command os c sess) (winsize_of cols rows) w2 of
                  (Inl e, w3) \<Rightarrow> (Inl (Wrapped ''pty start'' (ErrExec e)), w3)
                | (Inr _, w3) \<Rightarrow> (Inr (), w3)) w1))"

datatype process_action = ClosePty | KillChild | ResizePty winsize | CloseStdin | CloseSession | CloseConn | SendInput string
  | WindowChange int int

text \<open>How a child ended, as \<open>Wait\<close> sees it, and what it reports: an exit code, or an error.\<close>

datatype child_end = Exited int | WaitError string

record process =
  pr_closed :: bool
  pr_waited :: "(int option \<times> string option) option"
  pr_log :: "process_action list"

definition new_process_state :: process where
  "new_process_state = \<lparr> pr_closed = False, pr_waited = None, pr_log = [] \<rparr>"

definition logged :: "process_action list \<Rightarrow> process \<Rightarrow> process" where
  "logged l p = p\<lparr>pr_log := pr_log p @ l\<rparr>"

definition pty_resize :: "int \<Rightarrow> int \<Rightarrow> process \<Rightarrow> process" where
  "pty_resize cols rows p = (if pr_closed p then p else logged [ResizePty (winsize_of cols rows)] p)"

definition pty_close :: "process \<Rightarrow> process" where
  "pty_close p = (if pr_closed p then p else logged [ClosePty] (p\<lparr>pr_closed := True\<rparr>))"

definition pty_detach :: "process \<Rightarrow> process" where
  "pty_detach p = logged [KillChild] (pty_close p)"

definition child_result :: "child_end \<Rightarrow> int option \<times> string option" where
  "child_result e = (case e of Exited n \<Rightarrow> (Some n, None) | WaitError x \<Rightarrow> (None, Some x))"

text \<open>\<open>waitOnce\<close>: the first caller reaps, the others get what it saw.\<close>

definition process_wait :: "child_end \<Rightarrow> process \<Rightarrow> (int option \<times> string option) \<times> process" where
  "process_wait e p =
     (case pr_waited p of
        Some r \<Rightarrow> (r, p)
      | None \<Rightarrow> (child_result e, p\<lparr>pr_waited := Some (child_result e)\<rparr>))"

section \<open>Remote processes (remote_terminal.go)\<close>

definition rp_write :: "string \<Rightarrow> process \<Rightarrow> bool \<times> process" where
  "rp_write d p = (if pr_closed p then (False, p) else (True, logged [SendInput d] p))"

definition rp_resize :: "int \<Rightarrow> int \<Rightarrow> process \<Rightarrow> process" where
  "rp_resize cols rows p = (if pr_closed p then p else logged [WindowChange rows cols] p)"

definition rp_close :: "process \<Rightarrow> process" where
  "rp_close p = (if pr_closed p then p else logged [CloseStdin, CloseSession, CloseConn] (p\<lparr>pr_closed := True\<rparr>))"

definition rp_detach :: "process \<Rightarrow> process" where
  "rp_detach p = rp_close p"

text \<open>The exchanges of the set-up; an answer is the error, if any.  \<open>SetupEnded\<close> asks for the set-up
  context's error.\<close>

datatype setup_request =
    CheckLease | OpenTransport | OpenSession | RequestPty string int int | OpenStdin | OpenStdout | StartCommand string
  | SetupEnded | DropSession | DropTransport

record 's ssh_setup =
  su_state :: 's
  su_log :: "(setup_request \<times> string option) list"

type_synonym 's setup_env = "setup_request \<Rightarrow> 's \<Rightarrow> string option \<times> 's"

definition setup_ask :: "'s setup_env \<Rightarrow> setup_request \<Rightarrow> ('s ssh_setup, string, string option) action" where
  "setup_ask env q = (\<lambda>w. case env q (su_state w) of (a, s) \<Rightarrow> (Inr a, w\<lparr>su_state := s, su_log := su_log w @ [(q, a)]\<rparr>))"

definition normalize_terminal_dimensions :: "int \<Rightarrow> int \<Rightarrow> int \<times> int" where
  "normalize_terminal_dimensions cols rows = (if cols \<le> 0 then 80 else cols, if rows \<le> 0 then 24 else rows)"

definition terminal_tmux_path :: "string \<Rightarrow> string" where
  "terminal_tmux_path p = (if p = [] then ''tmux'' else p)"

definition attach_command :: "string \<Rightarrow> string \<Rightarrow> string" where
  "attach_command tmux sess = encode_posix_command [tmux, ''attach-session'', ''-t'', exact_target sess]"

text \<open>A failed step, described by whether the set-up had ended.\<close>

definition setup_failed :: "'s setup_env \<Rightarrow> string \<Rightarrow> string \<Rightarrow> ('s ssh_setup, string, 'a) action" where
  "setup_failed env what e =
     act_bind (setup_ask env SetupEnded) (\<lambda>c.
       act_fail (what @ (case c of Some x \<Rightarrow> '' timed out or cancelled: '' @ x | None \<Rightarrow> '': '' @ e)))"

definition setup_step :: "'s setup_env \<Rightarrow> setup_request \<Rightarrow> (string \<Rightarrow> ('s ssh_setup, string, unit) action) \<Rightarrow> ('s ssh_setup, string, unit) action \<Rightarrow>
    ('s ssh_setup, string, unit) action" where
  "setup_step env q failed cont = act_bind (setup_ask env q) (\<lambda>a. case a of Some e \<Rightarrow> failed e | None \<Rightarrow> cont)"

definition dropping :: "'s setup_env \<Rightarrow> (string \<Rightarrow> ('s ssh_setup, string, unit) action) \<Rightarrow> string \<Rightarrow> ('s ssh_setup, string, unit) action" where
  "dropping env failed e = act_bind (setup_ask env DropSession) (\<lambda>_. failed e)"

definition start_ssh_session :: "'s setup_env \<Rightarrow> string \<Rightarrow> string \<Rightarrow> int \<Rightarrow> int \<Rightarrow> ('s ssh_setup, string, unit) action" where
  "start_ssh_session env tmux sess cols rows =
     (case normalize_terminal_dimensions cols rows of (c, r) \<Rightarrow>
       setup_step env OpenSession (setup_failed env ''open terminal session'')
       (setup_step env (RequestPty ''xterm-256color'' r c) (dropping env (setup_failed env ''request pty''))
       (setup_step env OpenStdin (dropping env (\<lambda>e. act_fail (''stdin pipe: '' @ e)))
       (setup_step env OpenStdout (dropping env (\<lambda>e. act_fail (''stdout pipe: '' @ e)))
       (setup_step env (StartCommand (attach_command tmux sess)) (dropping env (setup_failed env ''start attach-session''))
       (act_return ()))))))"

definition on_error :: "('w, 'e, 'a) action \<Rightarrow> ('w, 'e, 'b) action \<Rightarrow> ('w, 'e, 'a) action" where
  "on_error m q = (\<lambda>w. case m w of (Inl e, w1) \<Rightarrow> (Inl e, snd (q w1)) | (Inr x, w1) \<Rightarrow> (Inr x, w1))"

text \<open>\<open>NewProcess\<close>: until the hand-over every failure closes the transport (the watcher of the set-up
  context may have closed it before, to abort a call that hangs).\<close>

definition new_remote_process :: "'s setup_env \<Rightarrow> string \<Rightarrow> string \<Rightarrow> int \<Rightarrow> int \<Rightarrow> ('s ssh_setup, string, unit) action" where
  "new_remote_process env tmux sess cols rows =
     setup_step env CheckLease act_fail
     (setup_step env OpenTransport (\<lambda>e. act_fail (''open dedicated terminal transport: '' @ e))
     (on_error
        (act_bind (start_ssh_session env (terminal_tmux_path tmux) sess cols rows) (\<lambda>_.
           setup_step env SetupEnded (dropping env (\<lambda>e. act_fail (''terminal setup cancelled: '' @ e))) (act_return ())))
        (setup_ask env DropTransport)))"

section \<open>Facts\<close>

lemma setup_ask_run: "setup_ask env q w =
    (Inr (fst (env q (su_state w))), w\<lparr>su_state := snd (env q (su_state w)), su_log := su_log w @ [(q, fst (env q (su_state w)))]\<rparr>)"
  by (simp add: setup_ask_def case_prod_beta)

definition count_log :: "setup_request \<Rightarrow> (setup_request \<times> string option) list \<Rightarrow> nat" where
  "count_log q l = length (filter (\<lambda>e. fst e = q) l)"

text \<open>What a run of the set-up leaves: nothing unless it succeeded.\<close>

definition released :: "bool \<Rightarrow> (setup_request \<times> string option) list \<Rightarrow> bool" where
  "released ok l \<longleftrightarrow>
     count_log DropTransport l = (if (OpenTransport, None) \<in> set l \<and> \<not> ok then 1 else 0)
     \<and> count_log DropSession l = (if (OpenSession, None) \<in> set l \<and> \<not> ok then 1 else 0)"

lemma close_once: "rp_close (rp_close p) = rp_close p" "pty_close (pty_close p) = pty_close p"
  by (simp_all add: rp_close_def pty_close_def logged_def)

lemma closed_is_quiet:
  "pr_closed p \<Longrightarrow> rp_write d p = (False, p) \<and> rp_resize c r p = p \<and> pty_resize c r p = p"
  by (simp add: rp_write_def rp_resize_def pty_resize_def)

lemma wait_once: "process_wait e' (snd (process_wait e p)) = (fst (process_wait e p), snd (process_wait e p))"
  by (simp add: process_wait_def split: option.split)

lemma winsize_exact:
  assumes "0 \<le> cols" "cols < 65536" "0 \<le> rows" "rows < 65536"
  shows "uint (ws_cols (winsize_of cols rows)) = cols \<and> uint (ws_rows (winsize_of cols rows)) = rows"
  using assms by (simp add: winsize_of_def uint_word_of_int take_bit_int_eq_self)

lemma ensures_setup_ask [wp]:
  "(\<And>a. Q (Inr a) (s @ [(q, a)])) \<Longrightarrow> log_ensures su_log s (setup_ask env q) Q"
  by (rule log_ensures_ask) (simp_all add: setup_ask_run)

lemma ensures_setup_step [wp]:
  assumes "\<And>e. log_ensures su_log (s @ [(q, Some e)]) (failed e) Q" and "log_ensures su_log (s @ [(q, None)]) cont Q"
  shows "log_ensures su_log s (setup_step env q failed cont) Q"
  unfolding setup_step_def by (intro wp) (use assms in \<open>auto intro!: wp\<close>)

lemma ensures_setup_failed [wp]:
  "(\<And>e c. Q (Inl e) (s @ [(SetupEnded, c)])) \<Longrightarrow> log_ensures su_log s (setup_failed env what x) Q"
  unfolding setup_failed_def by (auto intro!: wp)

lemma ensures_dropping [wp]:
  "(\<And>a. log_ensures su_log (s @ [(DropSession, a)]) (failed e) Q) \<Longrightarrow> log_ensures su_log s (dropping env failed e) Q"
  unfolding dropping_def by (auto intro!: wp)

lemma ensures_on_error_drop [wp]:
  assumes "log_ensures su_log s m (\<lambda>r l. case r of Inl e \<Rightarrow> (\<forall>a. Q (Inl e) (l @ [(DropTransport, a)])) | Inr x \<Rightarrow> Q (Inr x) l)"
  shows "log_ensures su_log s (on_error m (setup_ask env DropTransport)) Q"
  unfolding log_ensures_def
proof
  fix w
  obtain l where l: "su_log (snd (m w)) = su_log w @ l"
    "case fst (m w) of Inl e \<Rightarrow> (\<forall>a. Q (Inl e) ((s @ l) @ [(DropTransport, a)])) | Inr x \<Rightarrow> Q (Inr x) (s @ l)"
    using assms unfolding log_ensures_def by blast
  obtain r v where rv: "m w = (r, v)" by (cases "m w") blast
  let ?m = "on_error m (setup_ask env DropTransport) w"
  show "\<exists>l. su_log (snd ?m) = su_log w @ l \<and> Q (fst ?m) (s @ l)"
  proof (cases r)
    case (Inl e)
    then show ?thesis
      using l rv by (intro exI [of _ "l @ [(DropTransport, fst (env DropTransport (su_state v)))]"])
        (simp add: on_error_def setup_ask_run)
  next
    case (Inr x)
    then show ?thesis using l rv by (intro exI [of _ l]) (simp add: on_error_def)
  qed
qed

lemma attach_words: "shell_words (attach_command tmux sess) = Some [tmux, ''attach-session'', ''-t'', CHR ''='' # sess]"
  by (simp only: attach_command_def shell_words_def encode_posix_command_def sh_scan_args exact_target_def)

definition commands :: "(setup_request \<times> string option) list \<Rightarrow> (string \<times> string option) list" where
  "commands l = concat (map (\<lambda>(q, a). case q of StartCommand c \<Rightarrow> [(c, a)] | _ \<Rightarrow> []) l)"

lemma setup_runs:
  "log_ensures su_log [] (new_remote_process env tmux sess cols rows)
     (\<lambda>r l. released (is_ok r) l \<and> (is_ok r \<longrightarrow> commands l = [(attach_command (terminal_tmux_path tmux) sess, None)]))"
  unfolding new_remote_process_def start_ssh_session_def
  by ((rule wp | simp only: next_step_simps sum.case)+; (simp add: released_def count_log_def commands_def)?)+

section \<open>Properties\<close>



end
