(* ===== verification/Capabilities.thy ===== *)
theory Capabilities
  imports HostRegistry
begin

text \<open>
  \<open>hub/internal/host/capabilities.go\<close>: what a host can do, tested part by part.  What each probe meets is
  given by a record of outcomes; the result comes with the contacts that were made.
\<close>

section \<open>Answers\<close>

datatype capability_state = Available | Unavailable | Unknown | NotApplicable

record capability_status =
  cs_state :: capability_state
  cs_available :: bool
  cs_error :: string
  cs_observed :: int

record file_capability =
  fp_state :: capability_state
  fp_enabled :: bool
  fp_boundary :: string
  fp_confinement :: bool
  fp_atomic :: bool
  fp_error :: string
  fp_observed :: int

record host_capabilities =
  hc_id :: host_id
  hc_revision :: revision
  hc_online :: bool
  hc_ssh :: capability_status
  hc_tmux :: capability_status
  hc_sftp :: capability_status
  hc_files :: file_capability
  hc_observed :: int
  hc_error :: string

definition available_at :: "int \<Rightarrow> capability_status" where
  "available_at now = \<lparr> cs_state = Available, cs_available = True, cs_error = [], cs_observed = now \<rparr>"

definition unavailable_at :: "int \<Rightarrow> string \<Rightarrow> capability_status" where
  "unavailable_at now reason = \<lparr> cs_state = Unavailable, cs_available = False, cs_error = reason, cs_observed = now \<rparr>"

definition not_applicable_at :: "int \<Rightarrow> capability_status" where
  "not_applicable_at now = \<lparr> cs_state = NotApplicable, cs_available = False, cs_error = [], cs_observed = now \<rparr>"

definition no_files_at :: "int \<Rightarrow> string \<Rightarrow> file_capability" where
  "no_files_at now reason =
     \<lparr> fp_state = Unavailable, fp_enabled = False, fp_boundary = [], fp_confinement = False, fp_atomic = False,
       fp_error = reason, fp_observed = now \<rparr>"

section \<open>Probes\<close>

definition says :: "string \<Rightarrow> string \<Rightarrow> bool" where
  "says text word = contains_sub (lower_for_match text) word"

text \<open>\<open>sessions\<close>: whether listing the sessions worked, None without a session service; then \<open>version\<close> is
  the output of \<open>tmux -V\<close> if it ran.\<close>

definition probe_local_tmux :: "bool option \<Rightarrow> string option \<Rightarrow> int \<Rightarrow> capability_status" where
  "probe_local_tmux sessions version now =
     (let ok = (case sessions of Some b \<Rightarrow> b | None \<Rightarrow> (case version of Some v \<Rightarrow> says v ''tmux'' | None \<Rightarrow> False)) in
      if ok then available_at now else unavailable_at now ''tmux_unavailable'')"

text \<open>A file service: whether it is enabled, and its boundary and confinement if it reports them.\<close>

definition probe_local_files :: "(bool \<times> (string \<times> bool) option) option \<Rightarrow> int \<Rightarrow> file_capability" where
  "probe_local_files svc now =
     (let base = \<lparr> fp_state = Available, fp_enabled = True, fp_boundary = ''account_bound'', fp_confinement = False,
            fp_atomic = True, fp_error = [], fp_observed = now \<rparr> in
      case svc of
        None \<Rightarrow> base
      | Some (enabled, guard) \<Rightarrow>
          (let c = (if enabled then base
                    else base\<lparr>fp_state := Unavailable, fp_enabled := False, fp_error := ''files_disabled''\<rparr>) in
           case guard of
             None \<Rightarrow> c
           | Some (boundary, confined) \<Rightarrow> c\<lparr>fp_boundary := boundary, fp_confinement := confined\<rparr>))"

definition untrusted_capabilities :: "host_view \<Rightarrow> int \<Rightarrow> host_capabilities" where
  "untrusted_capabilities v now =
     (let no = unavailable_at now ''host_not_trusted'' in
      \<lparr> hc_id = hv_id v, hc_revision = hv_revision v, hc_online = False, hc_ssh = no, hc_tmux = no, hc_sftp = no,
        hc_files = no_files_at now ''host_not_trusted'', hc_observed = now, hc_error = ''host_not_trusted'' \<rparr>)"

text \<open>The text of an error and of every error it wraps; the reason reported is one of four fixed words.\<close>

definition error_texts :: "string list \<Rightarrow> string" where
  "error_texts chain = hd (chain @ [[]]) @ concat (map (\<lambda>t. CHR '' '' # t) chain)"

definition ssh_probe_reason :: "string list \<Rightarrow> string" where
  "ssh_probe_reason chain =
     (let t = error_texts chain in
      if says t ''unable to authenticate'' \<or> says t ''authentication failed'' \<or> says t ''invalid password''
      then ''authentication_failed''
      else if says t ''host key mismatch'' then ''host_key_mismatch''
      else if says t ''not trusted'' then ''host_not_trusted''
      else ''host_unavailable'')"

definition map_ssh_probe_error :: "string list \<Rightarrow> host_view \<Rightarrow> int \<Rightarrow> host_capabilities" where
  "map_ssh_probe_error chain v now =
     (let reason = ssh_probe_reason chain in
      \<lparr> hc_id = hv_id v, hc_revision = hv_revision v, hc_online = False, hc_ssh = unavailable_at now reason,
        hc_tmux = unavailable_at now ''ssh_unavailable'', hc_sftp = unavailable_at now ''ssh_unavailable'',
        hc_files = no_files_at now ''ssh_unavailable'', hc_observed = now, hc_error = reason \<rparr>)"

text \<open>\<open>opened\<close>: whether an SSH session could be opened; \<open>out\<close>: the output of the command if it succeeded.\<close>

definition probe_tmux_capability :: "bool \<Rightarrow> string option \<Rightarrow> int \<Rightarrow> capability_status" where
  "probe_tmux_capability opened out now =
     (if \<not> opened then unavailable_at now ''session_failed''
      else (case out of
          None \<Rightarrow> unavailable_at now ''tmux_unavailable''
        | Some t \<Rightarrow> if says t ''tmux'' then available_at now else unavailable_at now ''tmux_unavailable''))"

text \<open>\<open>adapter\<close>: whether the server has the atomic rename, None if the client could not be made.\<close>

definition probe_sftp_capability :: "bool \<Rightarrow> bool \<Rightarrow> bool option \<Rightarrow> int \<Rightarrow> capability_status \<times> file_capability" where
  "probe_sftp_capability opened subsystem adapter now =
     (let st = (if \<not> opened then unavailable_at now ''session_failed''
                else if \<not> subsystem then unavailable_at now ''sftp_unavailable'' else available_at now);
          base = \<lparr> fp_state = Available, fp_enabled = cs_available st, fp_boundary = ''account_bound'', fp_confinement = False,
            fp_atomic = False, fp_error = [], fp_observed = now \<rparr> in
      (st, if cs_available st then (case adapter of Some atomic \<Rightarrow> base\<lparr>fp_atomic := atomic\<rparr> | None \<Rightarrow> base)
           else base\<lparr>fp_state := Unavailable, fp_error := ''sftp_unavailable''\<rparr>))"

section \<open>The check\<close>

record probe_outcomes =
  po_host :: "string + host_view"
  po_sessions :: "bool option"
  po_version :: "string option"
  po_files :: "(bool \<times> (string \<times> bool) option) option"
  po_lease :: "string option"
  po_dial :: "string list option"
  po_tmux_opened :: bool
  po_tmux_out :: "string option"
  po_sftp_opened :: bool
  po_sftp_subsystem :: bool
  po_sftp_adapter :: "bool option"

datatype contact = AskLocal | TakeLease | Dial | RunTmux | OpenSftp | Hangup

definition check_local_capabilities :: "probe_outcomes \<Rightarrow> host_view \<Rightarrow> int \<Rightarrow> host_capabilities" where
  "check_local_capabilities p v now =
     \<lparr> hc_id = hv_id v, hc_revision = hv_revision v, hc_online = True, hc_ssh = not_applicable_at now,
       hc_tmux = probe_local_tmux (po_sessions p) (po_version p) now, hc_sftp = not_applicable_at now,
       hc_files = probe_local_files (po_files p) now, hc_observed = now, hc_error = [] \<rparr>"

text \<open>\<open>CheckCapabilities\<close>: without a registry no host is known.\<close>

definition check_capabilities :: "bool \<Rightarrow> probe_outcomes \<Rightarrow> host_id \<Rightarrow> int \<Rightarrow> (string + host_capabilities) \<times> contact list" where
  "check_capabilities has_registry p h now =
     (if \<not> has_registry then (Inl ''host_not_found'', [])
      else case po_host p of
        Inl e \<Rightarrow> (Inl e, [])
      | Inr v \<Rightarrow>
          if hv_type v = ConnLocal then
            (Inr (check_local_capabilities p v now), [AskLocal])
          else if \<not> hv_trusted v then (Inr (untrusted_capabilities v now), [])
          else (case po_lease p of
              Some e \<Rightarrow> (Inl e, [TakeLease])
            | None \<Rightarrow>
                (case po_dial p of
                   Some chain \<Rightarrow> (Inr (map_ssh_probe_error chain v now), [TakeLease, Dial])
                 | None \<Rightarrow>
                     (case probe_sftp_capability (po_sftp_opened p) (po_sftp_subsystem p) (po_sftp_adapter p) now of
                        (sftp, fc) \<Rightarrow>
                          (Inr \<lparr> hc_id = h, hc_revision = hv_revision v, hc_online = True, hc_ssh = available_at now,
                                 hc_tmux = probe_tmux_capability (po_tmux_opened p) (po_tmux_out p) now, hc_sftp = sftp,
                                 hc_files = fc, hc_observed = now, hc_error = [] \<rparr>,
                           [TakeLease, Dial, RunTmux, OpenSftp, Hangup])))))"

section \<open>Facts\<close>

text \<open>A status is coherent: available exactly in the state Available, and explained when unavailable.\<close>

definition coherent :: "capability_status \<Rightarrow> bool" where
  "coherent c \<longleftrightarrow> (cs_available c \<longleftrightarrow> cs_state c = Available) \<and> (cs_error c = [] \<longleftrightarrow> cs_state c \<noteq> Unavailable)"

lemma coherent_simps [simp]:
  "coherent (available_at now)" "coherent (not_applicable_at now)" "reason \<noteq> [] \<Longrightarrow> coherent (unavailable_at now reason)"
  by (simp_all add: coherent_def available_at_def not_applicable_at_def unavailable_at_def)

lemma reason_known: "ssh_probe_reason chain \<in> {''authentication_failed'', ''host_key_mismatch'', ''host_not_trusted'', ''host_unavailable''}"
  by (simp add: ssh_probe_reason_def Let_def)

lemma status_available [simp]:
  "cs_available (available_at now)" "\<not> cs_available (not_applicable_at now)" "\<not> cs_available (unavailable_at now reason)"
  "\<not> fp_enabled (no_files_at now reason)"
  by (simp_all add: available_at_def not_applicable_at_def unavailable_at_def no_files_at_def)

lemma reason_nonempty: "ssh_probe_reason chain \<noteq> []"
  using reason_known [of chain] by auto

lemma probes_coherent:
  "coherent (probe_local_tmux a b now)" "coherent (probe_tmux_capability c d now)"
  "probe_sftp_capability e f g now = (st, fc) \<Longrightarrow> coherent st \<and> (fp_enabled fc \<longrightarrow> fp_state fc = Available)"
  "fp_enabled (probe_local_files i now) \<longrightarrow> fp_state (probe_local_files i now) = Available"
  by (auto simp: probe_local_tmux_def probe_tmux_capability_def probe_sftp_capability_def probe_local_files_def Let_def
      split: option.splits if_splits)

section \<open>Properties\<close>

text \<open>Whatever the probes meet, a capability answer is coherent: each part is available exactly when
  its state says so and explained when it is not; a host that is offline has nothing available and carries
  one of the fixed reasons, so that no text of the remote side is shown; an untrusted host is not
  contacted; and a dialled transport is hung up.\<close>

theorem capabilities_coherent:
  assumes "check_capabilities reg p h now = (Inr c, contacts)"
  shows "coherent (hc_ssh c) \<and> coherent (hc_tmux c) \<and> coherent (hc_sftp c)
    \<and> (\<not> hc_online c \<longrightarrow> \<not> cs_available (hc_ssh c) \<and> \<not> cs_available (hc_tmux c) \<and> \<not> cs_available (hc_sftp c)
         \<and> \<not> fp_enabled (hc_files c)
         \<and> hc_error c \<in> {''authentication_failed'', ''host_key_mismatch'', ''host_not_trusted'', ''host_unavailable''})
    \<and> (fp_enabled (hc_files c) \<longrightarrow> fp_state (hc_files c) = Available)
    \<and> ((\<exists>v. po_host p = Inr v \<and> hv_type v \<noteq> ConnLocal \<and> \<not> hv_trusted v) \<longrightarrow> contacts = [])
    \<and> (hc_online c \<and> Dial \<in> set contacts \<longrightarrow> last contacts = Hangup)"
proof (cases "po_host p")
  case (Inl e)
  with assms show ?thesis by (auto simp: check_capabilities_def split: if_splits)
next
  case (Inr v)
  consider (local) "hv_type v = ConnLocal" | (untrusted) "hv_type v \<noteq> ConnLocal" "\<not> hv_trusted v"
    | (remote) "hv_type v \<noteq> ConnLocal" "hv_trusted v" by blast
  then show ?thesis
  proof cases
    case local
    with Inr assms show ?thesis
      by (auto simp: check_capabilities_def check_local_capabilities_def probes_coherent split: if_splits)
  next
    case untrusted
    with Inr assms show ?thesis
      by (auto simp: check_capabilities_def untrusted_capabilities_def Let_def split: if_splits)
  next
    case remote
    then have lease: "po_lease p = None" using Inr assms by (auto simp: check_capabilities_def split: if_splits option.splits)
    show ?thesis
    proof (cases "po_dial p")
      case (Some chain)
      with Inr remote lease assms have "c = map_ssh_probe_error chain v now" "contacts = [TakeLease, Dial]"
        by (simp_all add: check_capabilities_def split: if_splits)
      with Inr remote reason_known [of chain] reason_nonempty [of chain] show ?thesis
        by (simp add: map_ssh_probe_error_def Let_def)
    next
      case None
      obtain sftp fc where s: "probe_sftp_capability (po_sftp_opened p) (po_sftp_subsystem p) (po_sftp_adapter p) now = (sftp, fc)"
        by fastforce
      with None Inr remote lease assms probes_coherent(3) [OF s] show ?thesis
        by (auto simp: check_capabilities_def probes_coherent split: if_splits)
    qed
  qed
qed

definition demo_outcomes :: probe_outcomes where
  "demo_outcomes =
     \<lparr> po_host = Inr \<lparr> hv_id = ''h'', hv_revision = 4, hv_conn_revision = 3, hv_name = ''box'', hv_type = ConnSSH,
         hv_address = ''10.0.0.1'', hv_port = 22, hv_username = ''u'', hv_cred_type = ''password'', hv_has_credential = True,
         hv_trusted = True \<rparr>,
       po_sessions = None, po_version = None, po_files = None, po_lease = None, po_dial = Some [''ssh: Host Key Mismatch''],
       po_tmux_opened = True, po_tmux_out = None, po_sftp_opened = True, po_sftp_subsystem = True, po_sftp_adapter = None \<rparr>"

theorem capabilities_coherent_witness:
  "\<exists>c. check_capabilities True demo_outcomes ''h'' 0 = (Inr c, [TakeLease, Dial]) \<and> \<not> hc_online c
     \<and> hc_error c \<in> {''authentication_failed'', ''host_key_mismatch'', ''host_not_trusted'', ''host_unavailable''}"
proof -
  have run: "check_capabilities True demo_outcomes ''h'' 0
      = (Inr (map_ssh_probe_error [''ssh: Host Key Mismatch''] (projr (po_host demo_outcomes)) 0), [TakeLease, Dial])"
    by (simp add: check_capabilities_def demo_outcomes_def)
  moreover have "\<not> hc_online (map_ssh_probe_error [''ssh: Host Key Mismatch''] (projr (po_host demo_outcomes)) 0)"
    by (simp add: map_ssh_probe_error_def Let_def)
  ultimately show ?thesis using capabilities_coherent [OF run] by blast
qed

end
