(* ===== verification/StaticFiles.thy ===== *)
theory StaticFiles
  imports HttpHandlers
begin

text \<open>
  \<open>hub/internal/transport/http/static.go\<close>: the embedded browser client.  Reading an embedded file and the
  table of MIME types are parameters; below \<open>/assets/\<close> the standard library's file server answers.
\<close>

section \<open>Content types\<close>

text \<open>\<open>filepath.Ext\<close>: from the last dot of the last element.\<close>

definition file_ext :: "string \<Rightarrow> string" where
  "file_ext name =
     (let base = rev (takeWhile (\<lambda>c. c \<noteq> CHR ''/'') (rev name)) in
      if CHR ''.'' \<notin> set base then []
      else CHR ''.'' # rev (takeWhile (\<lambda>c. c \<noteq> CHR ''.'') (rev base)))"

definition markdown_content_type :: string where
  "markdown_content_type = ''text/markdown; charset=utf-8''"

definition content_type_for :: "(string \<Rightarrow> string) \<Rightarrow> string \<Rightarrow> string" where
  "content_type_for mime name =
     (if ascii_lower (file_ext name) = ''.md'' then markdown_content_type
      else if mime (file_ext name) \<noteq> [] then mime (file_ext name)
      else ''application/octet-stream'')"

section \<open>The handler\<close>

datatype static_reply =
    FromFileServer string
  | JsonReply http_response
  | FileReply string string string
  | MissingReply string

definition immutable_cache :: string where "immutable_cache = ''public, max-age=31536000, immutable''"

definition static_spa :: "(string \<Rightarrow> string) \<Rightarrow> (string \<Rightarrow> string option) \<Rightarrow> string \<Rightarrow> static_reply" where
  "static_spa mime read path =
     (if has_prefix path ''/assets/'' then FromFileServer immutable_cache
      else if has_prefix path ''/api/'' \<or> has_prefix path ''/ws/'' then JsonReply (write_error_response 404 ''not_found'')
      else
        (let name = trim_prefix path ''/'';
             index = (case read ''index.html'' of
                 None \<Rightarrow> MissingReply ''no-cache''
               | Some data \<Rightarrow> FileReply ''no-cache'' ''text/html; charset=utf-8'' data) in
         if name \<noteq> [] \<and> name \<noteq> ''index.html'' then
           (case read name of Some data \<Rightarrow> FileReply ''no-cache'' (content_type_for mime name) data | None \<Rightarrow> index)
         else index))"

section \<open>Facts\<close>

text \<open>What the browser may keep for a year is only ever an asset; an API or WebSocket path that no route
  matched is an error, never a page; any other path shows a file under its own type or else the page.\<close>

lemma static_cache: "static_spa mime read path = FromFileServer c \<longleftrightarrow> has_prefix path ''/assets/'' \<and> c = immutable_cache"
  by (auto simp: static_spa_def Let_def split: option.split)

lemma static_api:
  "has_prefix path ''/api/'' \<or> has_prefix path ''/ws/'' \<Longrightarrow>
     static_spa mime read path = JsonReply (write_error_response 404 ''not_found'')"
  by (auto simp: static_spa_def has_prefix_iff)

lemma static_page:
  assumes "\<not> has_prefix path ''/assets/''" "\<not> has_prefix path ''/api/''" "\<not> has_prefix path ''/ws/''" and "read ''index.html'' = Some page"
  shows "static_spa mime read path =
    (case (if trim_prefix path ''/'' \<in> {[], ''index.html''} then None else read (trim_prefix path ''/'')) of
       None \<Rightarrow> FileReply ''no-cache'' ''text/html; charset=utf-8'' page
     | Some data \<Rightarrow> FileReply ''no-cache'' (content_type_for mime (trim_prefix path ''/'')) data)"
  using assms by (auto simp: static_spa_def Let_def split: option.split)

lemma file_ext_of:
  assumes "CHR ''.'' \<notin> set e" and "CHR ''/'' \<notin> set e"
  shows "file_ext (base @ CHR ''.'' # e) = CHR ''.'' # e"
proof -
  have e: "\<forall>c\<in>set (rev e). c \<noteq> CHR ''.''" "\<forall>c\<in>set (rev e). c \<noteq> CHR ''/''" using assms by auto
  show ?thesis
    by (simp add: file_ext_def takeWhile_append_all [OF e(1)] takeWhile_append_all [OF e(2)])
qed

lemma markdown_any_case:
  assumes "ascii_lower e = ''md''" and "CHR ''.'' \<notin> set e" and "CHR ''/'' \<notin> set e"
  shows "content_type_for mime (base @ CHR ''.'' # e) = markdown_content_type"
proof -
  have "ascii_lower (CHR ''.'' # e) = ''.md''" using assms(1) by (simp add: ascii_lower_def ascii_lower_char_def)
  then show ?thesis by (simp add: content_type_for_def file_ext_of [OF assms(2,3)])
qed

end
