(* ===== verification/Dialing.thy ===== *)
theory Dialing
  imports ConnectionPool RemoteFiles SftpWire HttpHandlers
begin

text \<open>
  The network calls behind a host: \<open>ProbeEndpoint\<close> of \<open>hub/internal/host/trust.go\<close>, which only asks a
  server for its key, \<open>dialAndHandshake\<close> and \<open>triggerPendingCleanups\<close> of
  \<open>hub/internal/host/connection.go\<close>, and the adapter of \<open>hub/internal/host/sftp_adapter.go\<close> with the
  channel its bounded listing runs on.  What the network and the SSH library answer is a record; every
  call on a connection is listed, so that what is opened can be compared with what is closed.
\<close>

section \<open>The network\<close>

text \<open>\<open>nw_key\<close> is the key the server offers during the handshake, if it comes so far; \<open>nw_up\<close> says
  whether the handshake gave a connection, and its error if not.\<close>

record network =
  nw_dial :: "string option"
  nw_now :: int
  nw_deadline :: "int option"
  nw_key :: "string option"
  nw_up :: "string option"
  nw_ended :: "string option"

datatype net_event = Dialled string int | DeadlineSet int | DeadlineCleared | Handshake | SshClosed | TcpClosed

definition endpoint_of :: "string \<Rightarrow> nat \<Rightarrow> string" where
  "endpoint_of address port = net_join address (dec_string port)"

section \<open>Asking for a key (trust.go)\<close>

definition default_dial_timeout :: int where "default_dial_timeout = 10 * second"

definition probe_endpoint :: "network \<Rightarrow> string \<Rightarrow> nat \<Rightarrow> int \<Rightarrow> (string + string) \<times> net_event list" where
  "probe_endpoint nw address port dial_timeout =
     (let endpoint = endpoint_of address (if port = 0 then 22 else port);
          timeout = (if dial_timeout \<le> 0 then default_dial_timeout else dial_timeout);
          deadline = (case nw_deadline nw of
              Some d \<Rightarrow> if d < nw_now nw + timeout then d else nw_now nw + timeout
            | None \<Rightarrow> nw_now nw + timeout) in
      case nw_dial nw of
        Some e \<Rightarrow> (Inl (''probe dial: '' @ e), [Dialled endpoint timeout])
      | None \<Rightarrow>
          (case nw_key nw of
             None \<Rightarrow> Inl ''failed to obtain server host key during handshake''
           | Some k \<Rightarrow> Inr k,
           [Dialled endpoint timeout, DeadlineSet deadline, Handshake, DeadlineCleared]
           @ (if nw_up nw = None then [SshClosed] else []) @ [TcpClosed]))"

section \<open>Connecting (connection.go)\<close>

datatype dial_failure = ContextDone string | Unreachable host_error

text \<open>The dialer itself reports the host as unavailable, also when the context ended.\<close>

definition dial_and_handshake :: "network \<Rightarrow> conn_config \<Rightarrow> target \<Rightarrow> string \<Rightarrow> (dial_failure + unit) \<times> net_event list" where
  "dial_and_handshake nw cfg t endpoint =
     (case nw_dial nw of
        Some e \<Rightarrow> (Inl (Unreachable (HostError t HostUnavailable e)), [Dialled endpoint (cc_dial_timeout cfg)])
      | None \<Rightarrow>
          (let opened = [Dialled endpoint (cc_dial_timeout cfg), DeadlineSet (nw_now nw + cc_handshake_timeout cfg), Handshake] in
           case nw_up nw of
             Some e \<Rightarrow>
               (Inl (case nw_ended nw of Some c \<Rightarrow> ContextDone c | None \<Rightarrow> Unreachable (HostError t HostUnavailable e)),
                opened @ [TcpClosed])
           | None \<Rightarrow> (Inr (), opened @ [DeadlineCleared])))"

text \<open>What \<open>dialTransport\<close> makes of it: a failure counts against the host unless the caller gave up.\<close>

definition transport_outcome :: "network \<Rightarrow> dial_failure + unit \<Rightarrow> dial_outcome" where
  "transport_outcome nw r =
     (case r of Inr _ \<Rightarrow> DialOk | Inl _ \<Rightarrow> if nw_ended nw = None then DialFailed else DialCancelled)"

text \<open>Once a control connection is up, what earlier writes left behind is cleaned up, if a lease can be had.\<close>

definition trigger_pending_cleanups :: "'s env \<Rightarrow> target \<Rightarrow> (string + 'n list) \<Rightarrow> bool \<Rightarrow> ('s, unit) remote_op" where
  "trigger_pending_cleanups env t listing leased =
     (case listing of
        Inr (_ # _) \<Rightarrow>
          if leased then act_bind (run_pending_cleanups env (new_remote_file_service (t_host t) 0 0 True)) (\<lambda>_. act_return ())
          else act_return ()
      | _ \<Rightarrow> act_return ())"

section \<open>The SFTP adapter (sftp_adapter.go)\<close>

record sftp_adapter =
  sa_extensions :: "string \<Rightarrow> string option"
  sa_closed :: bool

definition posix_rename_extension :: string where "posix_rename_extension = ''posix-rename@openssh.com''"
definition fsync_extension :: string where "fsync_extension = ''fsync@openssh.com''"

definition known_extensions :: "string list" where
  "known_extensions = [posix_rename_extension, fsync_extension, ''statvfs@openssh.com'', ''hardlink@openssh.com'']"

text \<open>\<open>NewSFTPAdapter\<close>: \<open>offered\<close> are the extensions the server advertises, or why the SFTP handshake failed.\<close>

definition new_sftp_adapter :: "bool \<Rightarrow> string + (string \<Rightarrow> string option) \<Rightarrow> string + sftp_adapter" where
  "new_sftp_adapter has_client offered =
     (if \<not> has_client then Inl ''ssh client is nil''
      else (case offered of
          Inl e \<Rightarrow> Inl (''sftp handshake failed: '' @ e)
        | Inr ext \<Rightarrow> Inr \<lparr> sa_extensions = fold (\<lambda>x m. case ext x of None \<Rightarrow> m | Some v \<Rightarrow> m(x \<mapsto> v)) known_extensions Map.empty,
            sa_closed = False \<rparr>))"

definition has_extension :: "sftp_adapter \<Rightarrow> string \<Rightarrow> bool" where
  "has_extension a name \<longleftrightarrow> sa_extensions a name \<noteq> None"

text \<open>Whether the SFTP client underneath is closed by this call.\<close>

definition adapter_close :: "sftp_adapter \<Rightarrow> bool \<times> sftp_adapter" where
  "adapter_close a = (if sa_closed a then (False, a) else (True, a\<lparr>sa_closed := True\<rparr>))"

text \<open>The channel of \<open>ReadDirBounded\<close>: each step's error, if any.\<close>

record channel =
  ch_session :: "string option"
  ch_stdin :: "string option"
  ch_stdout :: "string option"
  ch_subsystem :: "string option"

datatype channel_event = ChannelOpened | StdinOpened | SubsystemAsked | StdinClosed | ChannelClosed

definition bounded_listing ::
  "channel \<Rightarrow> (nat \<Rightarrow> bool) \<Rightarrow> (nat \<Rightarrow> bool) \<Rightarrow> string \<Rightarrow> int \<Rightarrow> string
     \<Rightarrow> (string + string list \<times> (wire_error + remote_entry list \<times> bool) option) \<times> channel_event list" where
  "bounded_listing ch good live dir_path max_entries stream =
     (case ch_session ch of
        Some e \<Rightarrow> (Inl (''open sftp channel: '' @ e), [])
      | None \<Rightarrow>
          (case ch_stdin ch of
             Some e \<Rightarrow> (Inl e, [ChannelOpened, ChannelClosed])
           | None \<Rightarrow>
               (case ch_stdout ch of
                  Some e \<Rightarrow> (Inl e, [ChannelOpened, StdinOpened, StdinClosed, ChannelClosed])
                | None \<Rightarrow>
                    (case ch_subsystem ch of
                       Some e \<Rightarrow> Inl (''request sftp subsystem: '' @ e)
                     | None \<Rightarrow> Inr (read_dir_bounded good live dir_path max_entries stream),
                     [ChannelOpened, StdinOpened, SubsystemAsked, StdinClosed, ChannelClosed]))))"

section \<open>Facts\<close>

text \<open>Every connection opened is closed exactly once, or handed over with its deadline cleared.\<close>

definition times_closed :: "net_event list \<Rightarrow> nat" where
  "times_closed l = length (filter (\<lambda>e. e = TcpClosed) l)"

lemma probe_closes: "times_closed (snd (probe_endpoint nw a p t)) = (if nw_dial nw = None then 1 else 0)"
  by (simp add: times_closed_def probe_endpoint_def Let_def split: option.split)

lemma probe_deadline:
  assumes "DeadlineSet d \<in> set (snd (probe_endpoint nw a p t))"
  shows "d \<le> nw_now nw + (if t \<le> 0 then default_dial_timeout else t)" and "nw_deadline nw = Some c \<Longrightarrow> d \<le> c"
  using assms by (auto simp: probe_endpoint_def Let_def split: option.splits if_splits)

lemma handshake_closes:
  "times_closed (snd (dial_and_handshake nw cfg t ep))
     = (if nw_dial nw = None \<and> \<not> is_ok (fst (dial_and_handshake nw cfg t ep)) then 1 else 0)"
  by (simp add: times_closed_def dial_and_handshake_def Let_def split: option.split)

lemma handed_over_clear:
  "is_ok (fst (dial_and_handshake nw cfg t ep)) \<Longrightarrow> last (snd (dial_and_handshake nw cfg t ep)) = DeadlineCleared"
  by (simp add: dial_and_handshake_def Let_def split: option.splits)

text \<open>Only a host that could not be reached counts as failing; the permit comes back unless the host is up.\<close>

lemma outcome_exact:
  "transport_outcome nw (fst (dial_and_handshake nw cfg t ep)) = DialOk \<longleftrightarrow> nw_dial nw = None \<and> nw_up nw = None"
  "transport_outcome nw (fst (dial_and_handshake nw cfg t ep)) = DialFailed
     \<longleftrightarrow> nw_ended nw = None \<and> (nw_dial nw \<noteq> None \<or> nw_up nw \<noteq> None)"
  by (auto simp: transport_outcome_def dial_and_handshake_def Let_def split: option.split)

text \<open>The adapter knows an extension exactly when the server offers one of the four it asks for, and closes
  its client once; the channel of a listing never stays open.\<close>

lemma has_extension_exact:
  assumes "new_sftp_adapter c (Inr ext) = Inr a"
  shows "has_extension a x \<longleftrightarrow> x \<in> set known_extensions \<and> ext x \<noteq> None"
  using assms
  by (auto simp: new_sftp_adapter_def has_extension_def known_extensions_def posix_rename_extension_def fsync_extension_def
      split: if_splits option.splits)

lemma adapter_closes_once: "fst (adapter_close (snd (adapter_close a))) = False"
  by (simp add: adapter_close_def)

lemma listing_closes_channel:
  "ChannelOpened \<in> set (snd (bounded_listing ch good live d n s)) \<Longrightarrow> last (snd (bounded_listing ch good live d n s)) = ChannelClosed"
  by (simp add: bounded_listing_def split: option.splits)

end
