(* ===== verification/Startup.thy ===== *)
theory Startup
  imports ConfigSafety HubSafety Processes HostHistory
begin

text \<open>
  From the command line to a hub that serves: \<open>run\<close> and \<open>main\<close> of \<open>hub/cmd/visual-tmux-client/main.go\<close>
  and \<open>New\<close>, \<open>Start\<close>, \<open>newFileService\<close> and \<open>resolveLocalBackend\<close> of \<open>hub/internal/app/app.go\<close>.  What
  the machine answers (files, key, database, random bytes, the listening socket) is one record; what a
  run does that can be seen from outside is a list of events.
\<close>

section \<open>The machine\<close>

record 'c machine =
  mc_load :: loader
  mc_work_dir :: "string option"
  mc_roots :: "string \<Rightarrow> os_error + nat"
  mc_stat :: "string \<Rightarrow> bool"
  mc_look_path :: "string option"
  mc_rand :: "nat \<Rightarrow> nat list option"
  mc_aead :: "'c aead"
  mc_init :: init_env
  mc_config_dir :: "string option"
  mc_disk :: "string \<Rightarrow> 'c state_dir"
  mc_key :: "string \<Rightarrow> key_file"
  mc_listen :: "string \<Rightarrow> string + string"

abbreviation mc_fs :: "'c machine \<Rightarrow> fs_view" where
  "mc_fs m \<equiv> pf_fs (ld_platform (mc_load m))"

section \<open>Building the application (app.go)\<close>

text \<open>The overrides tests pass; a process factory or backend given by a test is only a name here.\<close>

record overrides =
  ov_socket :: string
  ov_process :: "nat option"
  ov_backend :: "nat option"

definition no_overrides :: overrides where
  "no_overrides = \<lparr> ov_socket = [], ov_process = None, ov_backend = None \<rparr>"

datatype local_part = TmuxPart tmux_client | GivenPart nat

definition session_backend_factory :: "'c machine \<Rightarrow> string \<Rightarrow> string \<Rightarrow> tmux_client" where
  "session_backend_factory m path socket = new_client (mc_stat m) (mc_look_path m) path socket"

definition resolve_local_backend :: "'c machine \<Rightarrow> config \<Rightarrow> overrides \<Rightarrow> local_part \<times> local_part" where
  "resolve_local_backend m cfg ov =
     (case (ov_process ov, ov_backend ov) of
        (Some p, Some b) \<Rightarrow> (GivenPart p, GivenPart b)
      | _ \<Rightarrow> (let c = TmuxPart (session_backend_factory m (tx_path (cfg_tmux cfg)) (ov_socket ov)) in (c, c)))"

definition no_roots :: root_set where
  "no_roots = \<lparr> rs_roots = [], rs_handles = [], rs_closed = False \<rparr>"

text \<open>\<open>files.NewService\<close>: no root set counts as one without roots.\<close>

definition new_service :: "root_set option \<Rightarrow> int \<Rightarrow> nat \<Rightarrow> bool \<Rightarrow> file_service" where
  "new_service roots max_size max_entries enabled =
     \<lparr> fsv_roots = (case roots of None \<Rightarrow> no_roots | Some s \<Rightarrow> s), fsv_max_size = max_size, fsv_max_entries = max_entries,
       fsv_enabled = enabled \<rparr>"

definition new_file_service :: "'c machine \<Rightarrow> config \<Rightarrow> file_error + file_service" where
  "new_file_service m cfg =
     (let f = cfg_files cfg in
      if \<not> fc_enabled f then Inr (new_service None (fc_max_file_size f) (nat (fc_max_dir_entries f)) False)
      else rbind (new_root_set (mc_fs m) (mc_roots m) (fc_roots f)) (\<lambda>s.
        Inr (new_service (Some s) (fc_max_file_size f) (nat (fc_max_dir_entries f)) (fc_enabled f))))"

definition close_service :: "file_service \<Rightarrow> file_service" where
  "close_service s = s\<lparr>fsv_roots := close_root_set (fsv_roots s)\<rparr>"

text \<open>\<open>NewRouterWithResolver\<close> puts a default in the place of a missing bound.\<close>

definition complete_router :: "router_config \<Rightarrow> router_config" where
  "complete_router rc = (if rc_max_body rc \<le> 0 then rc\<lparr>rc_max_body := 64 * 1024\<rparr> else rc)"

definition registry_key_path :: "hosts_config \<Rightarrow> string \<Rightarrow> string" where
  "registry_key_path h dir = (if hc_master_key_file h = [] then dir @ ''/master.key'' else hc_master_key_file h)"

definition open_registry :: "'c machine \<Rightarrow> hosts_config \<Rightarrow> (store_error + unit) \<times> 'c registry option" where
  "open_registry m h =
     (let dir = (case state_directory (hc_state_dir h) (mc_config_dir m) of None \<Rightarrow> [] | Some d \<Rightarrow> d) in
      new_registry (mc_aead m) (mc_init m) (hc_state_dir h) (mc_config_dir m) (mc_disk m dir)
        (mc_key m (registry_key_path h dir)))"

record 'c app =
  ap_config :: config
  ap_terminals :: terminals
  ap_tickets :: ticket_store
  ap_processes :: local_part
  ap_sessions :: local_part
  ap_files :: file_service
  ap_registry :: "'c registry"
  ap_connections :: connections
  ap_local :: runtime
  ap_ws :: ws_options
  ap_router :: router_config
  ap_trust :: trust_store
  ap_addr :: string
  ap_read_header_timeout :: int
  ap_idle_timeout :: int

datatype app_error = FileRoots file_error | HostRegistry store_error

definition default_trust_store_ttl :: int where "default_trust_store_ttl = 300 * second"

text \<open>\<open>New\<close>, with the file service it built and closed again when the registry cannot be opened.  The
  connections get the defaults, not the times and the bound of the configuration's hosts section.\<close>

definition new_app :: "'c machine \<Rightarrow> config \<Rightarrow> bool \<Rightarrow> overrides \<Rightarrow> (app_error \<times> file_service option) + 'c app" where
  "new_app m cfg has_static ov =
     (case resolve_local_backend m cfg ov of (procs, backend) \<Rightarrow>
      (case new_file_service m cfg of
         Inl e \<Rightarrow> Inl (FileRoots e, None)
       | Inr fsv \<Rightarrow>
           (case open_registry m (cfg_hosts cfg) of
              (Inr _, Some g) \<Rightarrow>
                Inr \<lparr> ap_config = cfg, ap_terminals = start_terminals (sd_attachment_timeout (cfg_shutdown cfg)),
                  ap_tickets = new_ticket_store (au_ticket_ttl (cfg_auth cfg)), ap_processes = procs, ap_sessions = backend,
                  ap_files = fsv, ap_registry = g, ap_connections = new_connection_manager default_connection_config,
                  ap_local = \<lparr> rt_target = local_target, rt_lease = None \<rparr>, ap_ws = new_ws_options cfg,
                  ap_router = complete_router (setup_host_router_config cfg has_static),
                  ap_trust = new_trust_store default_trust_store_ttl, ap_addr = sv_addr (cfg_server cfg),
                  ap_read_header_timeout = sv_read_header_timeout (cfg_server cfg),
                  ap_idle_timeout = sv_idle_timeout (cfg_server cfg) \<rparr>
            | (Inl e, _) \<Rightarrow> Inl (HostRegistry e, Some (close_service fsv))
            | (Inr _, None) \<Rightarrow> Inl (HostRegistry (StoreMessage ''user config dir''), Some (close_service fsv)))))"

section \<open>Starting and running (app.go, main.go)\<close>

text \<open>How serving ends: the server stops with an error or without, or a signal asks for shutdown, whose
  actions answer with errors.\<close>

datatype ending = ServeStops "string option" | Signalled "shutdown_action \<Rightarrow> string option"

datatype 'c run_event =
    Usage
  | VersionPrinted string
  | BannerPrinted string
  | SweeperStarted int
  | SweeperStopped
  | Serving "'c app"
  | ShutDown "shutdown_action list"

datatype run_error =
    BadFlags config_error
  | BadConfig config_error
  | NoToken token_error
  | AppFailed app_error
  | ListenFailed string string
  | ServeFailed string
  | ShutdownFailed "string list"

text \<open>\<open>Start\<close>: the sweeper runs first; the bound address replaces the configured one.\<close>

definition start_app :: "'c machine \<Rightarrow> 'c app \<Rightarrow> (run_error + 'c app) \<times> 'c run_event list" where
  "start_app m a =
     (let sweep = SweeperStarted (au_ticket_sweep_interval (cfg_auth (ap_config a))) in
      case mc_listen m (ap_addr a) of
        Inl e \<Rightarrow> (Inl (ListenFailed (ap_addr a) e), [sweep, SweeperStopped])
      | Inr bound \<Rightarrow> (Inr (a\<lparr>ap_addr := bound\<rparr>), [sweep, Serving (a\<lparr>ap_addr := bound\<rparr>)]))"

text \<open>The flag set of \<open>run\<close> knows no help flag, so the \<open>flag\<close> package answers for it at once.\<close>

fun main_flags :: "flags \<Rightarrow> string list \<Rightarrow> config_error + flags" where
  "main_flags fl [] = Inr fl"
| "main_flags fl (s # args) =
     (if length s < 2 \<or> hd s \<noteq> CHR ''-'' then Inr fl
      else if s = ''--'' then Inr fl
      else
        (let body = List.drop (if s ! 1 = CHR ''-'' then 2 else 1) s in
         if hd body = CHR ''-'' \<or> hd body = CHR ''='' then Inl BadArguments
         else
           (case split_flag body of (name, val) \<Rightarrow>
              if name = ''help'' \<or> name = ''h'' then Inl HelpRequested
              else if name = ''version'' then
                (case (case val of None \<Rightarrow> Some True | Some v \<Rightarrow> parse_bool v) of
                   None \<Rightarrow> Inl BadArguments
                 | Some b \<Rightarrow> main_flags (fl\<lparr>fl_version := b\<rparr>) args)
              else
                (case val of
                   Some v \<Rightarrow>
                     (case set_string name v fl of None \<Rightarrow> Inl BadArguments | Some fl' \<Rightarrow> main_flags fl' args)
                 | None \<Rightarrow>
                     (case args of
                        [] \<Rightarrow> Inl BadArguments
                      | v # args' \<Rightarrow>
                          (case set_string name v fl of None \<Rightarrow> Inl BadArguments | Some fl' \<Rightarrow> main_flags fl' args'))))))"

text \<open>A configuration without a token gets a random one.\<close>

definition with_token :: "(nat \<Rightarrow> nat list option) \<Rightarrow> config \<times> provenance \<Rightarrow> token_error + (config \<times> provenance)" where
  "with_token rand cp =
     (case cp of (cfg, prov) \<Rightarrow>
        if au_token (cfg_auth cfg) \<noteq> [] then Inr (cfg, prov)
        else rbind (generate_bearer_token rand) (\<lambda>t.
          Inr (cfg\<lparr>cfg_auth := (cfg_auth cfg)\<lparr>au_token := t\<rparr>\<rparr>, prov\<lparr>pv_token := SourceGenerated\<rparr>)))"

definition serve_until :: "ending \<Rightarrow> (run_error + unit) \<times> 'c run_event list" where
  "serve_until en =
     (case en of
        ServeStops (Some e) \<Rightarrow> (Inl (ServeFailed e), [])
      | ServeStops None \<Rightarrow> (Inr (), [])
      | Signalled outcome \<Rightarrow>
          (case app_shutdown True outcome of (actions, errors) \<Rightarrow>
             (if errors = [] then Inr () else Inl (ShutdownFailed errors), [ShutDown actions])))"

definition run_loaded :: "'c machine \<Rightarrow> ending \<Rightarrow> config \<times> provenance \<Rightarrow> (run_error + unit) \<times> 'c run_event list" where
  "run_loaded m en cp =
     (case cp of (cfg, prov) \<Rightarrow>
        (let banner = BannerPrinted (startup_banner (au_token (cfg_auth cfg)) (Some (pv_token prov)) (sv_addr (cfg_server cfg))) in
         case new_app m cfg True no_overrides of
           Inl (e, _) \<Rightarrow> (Inl (AppFailed e), [banner])
         | Inr a \<Rightarrow>
             (case start_app m a of
                (Inl e, evs) \<Rightarrow> (Inl e, banner # evs)
              | (Inr _, evs) \<Rightarrow> (case serve_until en of (r, evs') \<Rightarrow> (r, banner # evs @ evs')))))"

definition run :: "'c machine \<Rightarrow> string \<Rightarrow> ending \<Rightarrow> string list \<Rightarrow> (run_error + unit) \<times> 'c run_event list" where
  "run m version en args =
     (case main_flags no_flags args of
        Inl e \<Rightarrow> (Inl (BadFlags e), [Usage])
      | Inr fl \<Rightarrow>
          if fl_version fl then (Inr (), [VersionPrinted version])
          else
            (case load (mc_load m) args (case mc_work_dir m of None \<Rightarrow> ''.'' | Some d \<Rightarrow> d) of
               Inl e \<Rightarrow> (Inl (BadConfig e), [])
             | Inr cp \<Rightarrow>
                 (case with_token (mc_rand m) cp of
                    Inl e \<Rightarrow> (Inl (NoToken e), [])
                  | Inr cp' \<Rightarrow> run_loaded m en cp')))"

text \<open>\<open>main\<close>'s exit status: asking for help is no failure.\<close>

definition exit_status :: "run_error + unit \<Rightarrow> nat" where
  "exit_status r = (case r of Inr _ \<Rightarrow> 0 | Inl e \<Rightarrow> if e = BadFlags HelpRequested then 0 else 1)"

end
