(* ===== verification/StartupSafety.thy ===== *)
theory StartupSafety
  imports Startup
begin

text \<open>
  What a hub that serves can rely on: its token, its file boundary and its registry are what the
  configuration and the state directory say, and what the theorems on the running hub assume of it.
\<close>

section \<open>Opening the registry\<close>

text \<open>A database a hub may find: none yet, one of the previous version, or a consistent one.\<close>

definition disk_ok :: "'c host_db \<Rightarrow> bool" where
  "disk_ok d \<longleftrightarrow> db_version d = 0 \<or> v1_ok d \<or> store_ok d"

lemma open_store_ok:
  assumes "open_store ov v s = (Inr (), s')" and "disk_ok (sd_db s)"
  shows "store_ok (sd_db s')"
proof -
  consider "db_version (sd_db s) = 0" | "v1_ok (sd_db s)" | "store_ok (sd_db s)" using assms(2) by (auto simp: disk_ok_def)
  then show ?thesis
  proof cases
    case 1
    then show ?thesis using open_store_first(1) [OF assms(1)] fresh_ok by metis
  next
    case 2
    then have "db_version (sd_db s) = 1" by (simp add: v1_ok_def)
    then obtain d' where "migrate_v1_to_v2 (of_sql ov) v (sd_db s) = (Inr (), d')" "sd_db s' = d'"
      using open_store_v1 [OF assms(1)] by metis
    with migrate_effect [OF _ 2] show ?thesis by auto
  next
    case 3
    then show ?thesis using open_store_current [OF assms(1)] by (simp add: store_ok_def)
  qed
qed

lemma initialize_ok:
  assumes "initialize ae env g = (Inr (), g')" and "rg_vault g = None" and "disk_ok (rg_db g)"
  shows "store_ok (rg_db g') \<and> rg_vault g' \<noteq> None \<and> \<not> rg_closed g'"
proof -
  obtain v disk where op: "open_store (ie_open env) v (rg_disk g) = (Inr (), disk)" and g': "rg_db g' = sd_db disk"
      "rg_vault g' \<noteq> None" "rg_closed g' = rg_closed g" "\<not> rg_closed g"
    using assms(1,2)
    by (auto simp: initialize_def Let_def rg_db_def split: if_splits sum.splits prod.splits option.splits)
  then show ?thesis using open_store_ok [OF op] assms(3) by (simp add: rg_db_def)
qed

lemma open_registry_ok:
  assumes "open_registry m h = (Inr u, Some g)" and "\<And>dir. disk_ok (sd_db (mc_disk m dir))"
  shows "store_ok (rg_db g) \<and> rg_vault g \<noteq> None \<and> \<not> rg_closed g"
proof -
  obtain g0 where g0: "initialize (mc_aead m) (mc_init m) g0 = (Inr (), g)" "rg_vault g0 = None" "disk_ok (rg_db g0)"
    using assms by (auto simp: open_registry_def new_registry_def rg_db_def split: option.splits prod.splits)
  then show ?thesis by (rule initialize_ok)
qed

section \<open>The hosts of the registry, as the hub sees them\<close>

definition hub_rows :: "'c registry \<Rightarrow> host_id \<Rightarrow> host_view option" where
  "hub_rows g h = (case registry_get (\<lambda>_. False) h g of Inr v \<Rightarrow> Some v | Inl _ \<Rightarrow> None)"

definition hub_marks :: "'c registry \<Rightarrow> host_id \<Rightarrow> revision" where
  "hub_marks g h = snd (mark (rg_db g) h)"

lemma hub_rows_ok:
  assumes "store_ok (rg_db g)" and "rg_vault g \<noteq> None"
  shows "HubModel.rows_ok (hub_rows g) (hub_marks g)"
  unfolding HubModel.rows_ok_def
proof (intro allI impI)
  fix h v
  assume "hub_rows g h = Some v"
  then obtain w r where w: "map_of (db_hosts (rg_db g)) h = Some w" "rw_blob w = Doc r" "v = project (typed r)"
    using assms(2)
    by (auto simp: hub_rows_def registry_get_def store_get_def decode_row_def split: sum.splits if_splits option.splits blob.splits)
  have "row_ok h w" using store_ok_parts(1) [OF assms(1)] w(1) by (simp add: HostSafety.rows_ok_def)
  then have r: "record_ok h r" using w(2) by (simp add: row_ok_def)
  have "record_at (rg_db g) h = Some r" by (simp add: record_at_def w)
  then have "hr_conn_revision r \<le> snd (mark (rg_db g) h)"
    using store_ok_parts(2) [OF assms(1)] by (auto simp: marks_ok_def)
  with r show "hv_id v = h \<and> h \<noteq> [] \<and> 0 < hv_conn_revision v \<and> hv_conn_revision v \<le> hub_marks g h"
    by (simp add: w(3) project_def typed_def Let_def record_ok_def hub_marks_def)
qed

section \<open>The file boundary\<close>

lemma resolve_roots_exact:
  "resolve_roots fs rs = Inr qs \<Longrightarrow> list_all2 (\<lambda>r q. fv_eval fs r = Inr q \<and> \<not> is_blocked q) rs qs"
proof (induction rs arbitrary: qs)
  case (Cons r rs)
  then obtain q qs' where "fv_eval fs r = Inr q" "\<not> is_blocked q" "resolve_roots fs rs = Inr qs'" "qs = q # qs'"
    by (auto split: if_splits sum.splits)
  with Cons.IH show ?case by simp
qed simp

lemma open_roots_all: "open_roots op hs rs = Inr hs' \<Longrightarrow> length hs' = length hs + length rs"
  by (induction op hs rs rule: open_roots.induct) (auto split: sum.splits)

definition boundary_ok :: "'c machine \<Rightarrow> files_config \<Rightarrow> file_service \<Rightarrow> bool" where
  "boundary_ok m f s \<longleftrightarrow>
     fsv_enabled s = fc_enabled f \<and> fsv_max_size s = fc_max_file_size f \<and> \<not> rs_closed (fsv_roots s)
     \<and> length (rs_handles (fsv_roots s)) = length (rs_roots (fsv_roots s))
     \<and> (if fc_enabled f then list_all2 (\<lambda>r q. fv_eval (mc_fs m) r = Inr q \<and> \<not> is_blocked q) (fc_roots f) (rs_roots (fsv_roots s))
        else rs_roots (fsv_roots s) = [])"

lemma new_root_set_ok:
  assumes "new_root_set fs op roots = Inr s"
  shows "\<not> rs_closed s" and "length (rs_handles s) = length (rs_roots s)"
    and "list_all2 (\<lambda>r q. fv_eval fs r = Inr q \<and> \<not> is_blocked q) roots (rs_roots s)"
proof -
  obtain qs hs where "resolve_roots fs roots = Inr qs" "open_roots op [] qs = Inr hs"
      "s = \<lparr> rs_roots = qs, rs_handles = hs, rs_closed = False \<rparr>"
    using assms by (cases "resolve_roots fs roots"; cases "open_roots op [] (projr (resolve_roots fs roots))")
      (auto simp: new_root_set_def)
  then show "\<not> rs_closed s" "length (rs_handles s) = length (rs_roots s)"
    "list_all2 (\<lambda>r q. fv_eval fs r = Inr q \<and> \<not> is_blocked q) roots (rs_roots s)"
    using open_roots_all resolve_roots_exact by fastforce+
qed

lemma new_file_service_ok: "new_file_service m cfg = Inr s \<Longrightarrow> boundary_ok m (cfg_files cfg) s"
  by (auto simp: new_file_service_def new_service_def no_roots_def boundary_ok_def Let_def new_root_set_ok split: if_splits)

text \<open>When the registry cannot be opened, no root stays open.\<close>

lemma failed_app_closes_files:
  "new_app m cfg st ov = Inl (e, Some s) \<Longrightarrow> rs_handles (fsv_roots s) = [] \<and> rs_closed (fsv_roots s)"
  by (auto simp: new_app_def close_service_def close_root_set_def split: prod.splits sum.splits option.splits)

section \<open>Tokens, flags and events\<close>

lemma with_token_ok:
  assumes "with_token rand (cfg, prov) = Inr (cfg', prov')" and "\<And>n bs. rand n = Some bs \<Longrightarrow> length bs = n"
  shows "au_token (cfg_auth cfg') \<noteq> []" and "cfg_server cfg' = cfg_server cfg \<and> cfg_files cfg' = cfg_files cfg"
    and "au_token (cfg_auth cfg) \<noteq> [] \<Longrightarrow> cfg' = cfg"
proof -
  have "raw_url_encode bs \<noteq> []" if "rand 32 = Some bs" for bs
    using assms(2) [OF that] by (cases bs rule: raw_url_encode.cases) simp_all
  then show "au_token (cfg_auth cfg') \<noteq> []"
    using assms(1)
    by (auto simp: with_token_def generate_bearer_token_def random_token_def bearer_token_entropy_bytes_def
        split: if_splits sum.splits option.splits)
  show "cfg_server cfg' = cfg_server cfg \<and> cfg_files cfg' = cfg_files cfg"
    using assms(1) by (auto simp: with_token_def split: if_splits)
  show "au_token (cfg_auth cfg) \<noteq> [] \<Longrightarrow> cfg' = cfg" using assms(1) by (simp add: with_token_def)
qed

text \<open>What \<open>run\<close>'s own flag set accepts, the loader's accepts too, with the same values: the loader never
  answers a request for help or for the version.\<close>

lemma main_flags_agree: "main_flags fl args = Inr fl' \<Longrightarrow> parse_flags fl args = Inr fl'"
proof (induction fl args rule: main_flags.induct)
  case (2 fl s args)
  define body where "body = List.drop (if s ! 1 = CHR ''-'' then 2 else 1) s"
  obtain name val where nv: "split_flag body = (name, val)" by fastforce
  show ?case
  proof (cases "length s < 2 \<or> hd s \<noteq> CHR ''-'' \<or> s = ''--''")
    case True
    with "2.prems" show ?thesis by auto
  next
    case False
    note main = main_flags.simps(2) [of fl s args, folded body_def, unfolded Let_def nv prod.case]
    note parse = parse_flags.simps(2) [of fl s args, folded body_def, unfolded Let_def nv prod.case]
    have ok: "\<not> (hd body = CHR ''-'' \<or> hd body = CHR ''='')" "name \<noteq> ''help''" "name \<noteq> ''h''"
      using "2.prems" False by (auto simp: main simp del: main_flags.simps split: if_splits)
    note ih = "2.IH" [folded body_def]
    show ?thesis
    proof (cases "name = ''version''")
      case True
      then obtain b where b: "(case val of None \<Rightarrow> Some True | Some v \<Rightarrow> parse_bool v) = Some b"
          "main_flags (fl\<lparr>fl_version := b\<rparr>) args = Inr fl'"
        using "2.prems" False ok by (auto simp: main simp del: main_flags.simps split: option.splits)
      then have "parse_flags (fl\<lparr>fl_version := b\<rparr>) args = Inr fl'" using ih(1) False ok nv True by auto
      then show ?thesis using False ok b(1) True by (simp add: parse is_bool_flag_def set_bool_def del: parse_flags.simps)
    next
      case other: False
      show ?thesis
      proof (cases val)
        case None
        then obtain v args' fl1 where v: "args = v # args'" "set_string name v fl = Some fl1" "main_flags fl1 args' = Inr fl'"
          using "2.prems" False ok other by (auto simp: main simp del: main_flags.simps split: option.splits list.splits)
        then have "parse_flags fl1 args' = Inr fl'" using ih(2) False ok nv other None by auto
        then show ?thesis using False ok other None v by (subst parse) (simp add: is_bool_flag_def)
      next
        case (Some v)
        then obtain fl1 where v: "set_string name v fl = Some fl1" "main_flags fl1 args = Inr fl'"
          using "2.prems" False ok other by (auto simp: main simp del: main_flags.simps split: option.splits)
        then have "parse_flags fl1 args = Inr fl'" using ih(3) False ok nv other Some by auto
        then show ?thesis using False ok other Some v by (subst parse) (simp add: is_bool_flag_def)
      qed
    qed
  qed
qed simp

lemma run_serving:
  assumes "run m version en args = (r, evs)" and "Serving a \<in> set evs"
  obtains dir cfg prov cfg' prov' a0 bound where
    "load (mc_load m) args dir = Inr (cfg, prov)" "with_token (mc_rand m) (cfg, prov) = Inr (cfg', prov')"
    "new_app m cfg' True no_overrides = Inr a0" "mc_listen m (ap_addr a0) = Inr bound" "a = a0\<lparr>ap_addr := bound\<rparr>"
    "BannerPrinted (startup_banner (au_token (cfg_auth cfg')) (Some (pv_token prov')) (sv_addr (cfg_server cfg'))) \<in> set evs"
proof -
  have no: "Serving a \<notin> set (snd (serve_until en))"
    by (simp add: serve_until_def split: ending.split option.split prod.split)
  show thesis
    using assms no that
    by (auto simp: run_def run_loaded_def start_app_def Let_def split: sum.splits prod.splits if_splits)
qed

lemma new_app_parts:
  assumes "new_app m cfg st ov = Inr a" and "\<And>dir. disk_ok (sd_db (mc_disk m dir))"
  shows "boundary_ok m (cfg_files cfg) (ap_files a)" and "ap_router a = complete_router (setup_host_router_config cfg st)"
    and "ap_addr a = sv_addr (cfg_server cfg)" and "store_ok (rg_db (ap_registry a))" and "rg_vault (ap_registry a) \<noteq> None"
proof -
  obtain s g where "new_file_service m cfg = Inr s" "open_registry m (cfg_hosts cfg) = (Inr (), Some g)"
      and a: "ap_files a = s" "ap_registry a = g" "ap_router a = complete_router (setup_host_router_config cfg st)"
        "ap_addr a = sv_addr (cfg_server cfg)"
    using assms(1) by (auto simp: new_app_def split: prod.splits sum.splits option.splits)
  with new_file_service_ok open_registry_ok [OF _ assms(2)]
  show "boundary_ok m (cfg_files cfg) (ap_files a)" "store_ok (rg_db (ap_registry a))" "rg_vault (ap_registry a) \<noteq> None"
    by metis+
  show "ap_router a = complete_router (setup_host_router_config cfg st)" "ap_addr a = sv_addr (cfg_server cfg)"
    by (fact a)+
qed

section \<open>Properties\<close>

text \<open>C39: a hub that serves is the one its configuration and its state directory describe: it listens where
  the configuration says, asks for a token that is not empty, is the configured one if there is one and was
  printed, limits request bodies, serves files only if they are enabled and then only below the directories
  the configured roots resolve to, each held open, and its registry gives the running hub what the theorems
  on it assume.\<close>

theorem serving_hub_is_configured:
  assumes "run m version en args = (r, evs)" and "Serving a \<in> set evs"
    and "\<And>n bs. mc_rand m n = Some bs \<Longrightarrow> length bs = n" and "\<And>dir. disk_ok (sd_db (mc_disk m dir))"
  shows "\<exists>dir cfg prov src. load (mc_load m) args dir = Inr (cfg, prov)
    \<and> mc_listen m (sv_addr (cfg_server cfg)) = Inr (ap_addr a)
    \<and> rc_token (ap_router a) \<noteq> [] \<and> (au_token (cfg_auth cfg) = [] \<or> rc_token (ap_router a) = au_token (cfg_auth cfg))
    \<and> BannerPrinted (startup_banner (rc_token (ap_router a)) src (sv_addr (cfg_server cfg))) \<in> set evs
    \<and> 1 \<le> rc_max_body (ap_router a) \<and> rc_max_body (ap_router a) \<le> 8388608
    \<and> rc_files_enabled (ap_router a) = fc_enabled (cfg_files cfg) \<and> boundary_ok m (cfg_files cfg) (ap_files a)
    \<and> HubModel.rows_ok (hub_rows (ap_registry a)) (hub_marks (ap_registry a))"
proof -
  obtain dir cfg prov cfg' prov' a0 bound where l: "load (mc_load m) args dir = Inr (cfg, prov)"
    and t: "with_token (mc_rand m) (cfg, prov) = Inr (cfg', prov')" and n: "new_app m cfg' True no_overrides = Inr a0"
    and b: "mc_listen m (ap_addr a0) = Inr bound" "a = a0\<lparr>ap_addr := bound\<rparr>"
      "BannerPrinted (startup_banner (au_token (cfg_auth cfg')) (Some (pv_token prov')) (sv_addr (cfg_server cfg'))) \<in> set evs"
    by (rule run_serving [OF assms(1,2)])
  note tok = with_token_ok [OF t assms(3)]
  have same: "cfg_server cfg' = cfg_server cfg" "cfg_files cfg' = cfg_files cfg" by (simp_all add: tok(2) [THEN conjunct1] tok(2) [THEN conjunct2])
  obtain k where "validate_config (ld_platform (mc_load m)) k = Inr cfg" using load_validated [OF l] by blast
  then have body: "1 \<le> sv_max_request_body_bytes (cfg_server cfg)" "sv_max_request_body_bytes (cfg_server cfg) \<le> 8388608"
    using config_checked(1) by (auto simp: server_checked)
  note parts = new_app_parts [OF n assms(4), unfolded same]
  have rc: "rc_token (ap_router a) = au_token (cfg_auth cfg')" "rc_files_enabled (ap_router a) = fc_enabled (cfg_files cfg)"
    "rc_max_body (ap_router a) = sv_max_request_body_bytes (cfg_server cfg)"
    using body by (simp_all add: b(2) parts(2) complete_router_def setup_host_router_config_def same)
  have a: "mc_listen m (sv_addr (cfg_server cfg)) = Inr (ap_addr a)" "ap_files a = ap_files a0" "ap_registry a = ap_registry a0"
    using b(1) by (simp_all add: b(2) parts(3))
  have src: "BannerPrinted (startup_banner (rc_token (ap_router a)) (Some (pv_token prov')) (sv_addr (cfg_server cfg))) \<in> set evs"
    using b(3) by (simp add: rc(1) same)
  have bound: "boundary_ok m (cfg_files cfg) (ap_files a)" using parts(1) by (simp add: a(2))
  have rows: "HubModel.rows_ok (hub_rows (ap_registry a)) (hub_marks (ap_registry a))"
    using hub_rows_ok [OF parts(4,5)] by (simp add: a(3))
  have key: "au_token (cfg_auth cfg) = [] \<or> rc_token (ap_router a) = au_token (cfg_auth cfg)" using tok(3) rc(1) by auto
  show ?thesis
    by (intro exI [of _ dir] exI [of _ cfg] exI [of _ prov] exI [of _ "Some (pv_token prov')"] conjI)
      (use l a(1) tok(1) key src body rc bound rows in simp_all)
qed

text \<open>A hub started with the default configuration on a fresh state directory.\<close>

definition demo_machine :: "box machine" where
  "demo_machine =
     \<lparr> mc_load = bare_loader, mc_work_dir = Some ''/'', mc_roots = (\<lambda>_. Inl NotExist), mc_stat = (\<lambda>_. False),
       mc_look_path = Some ''/usr/bin/tmux'', mc_rand = (\<lambda>n. Some (replicate n 0)), mc_aead = box_aead, mc_init = calm,
       mc_config_dir = Some ''/c'', mc_disk = (\<lambda>_. demo_dir fresh_db), mc_key = (\<lambda>_. KeyBytes demo_key),
       mc_listen = Inr \<rparr>"

definition demo_config :: config where
  "demo_config = default_config\<lparr>cfg_auth := (cfg_auth default_config)\<lparr>au_token := raw_url_encode (replicate 32 0)\<rparr>\<rparr>"

lemma demo_opens: "\<exists>g. open_registry demo_machine (cfg_hosts demo_config) = (Inr (), Some g)"
proof -
  have "verify_store_credentials box_aead demo_key False fresh_db = None"
    by (simp add: verify_store_credentials_def store_list_def fresh_db_def decode_row_def typed_def default_type_def
        json_record_def local_record_def map_filter_simps)
  moreover have "open_store calm_open v (demo_dir fresh_db) = (Inr (), (demo_dir fresh_db)\<lparr>sd_owned := True\<rparr>)" for v
    by (simp add: open_store_def verify_state_directory_def private_file_def open_locked_def schema_version_def
        calm_open_def demo_dir_def fresh_db_def Let_def)
  moreover have "load_vault (ie_key calm) b (KeyBytes demo_key) = (Inr demo_key, KeyBytes demo_key)" for b
    by (simp add: load_vault_def new_vault_def master_key_length_def demo_key_def)
  ultimately have "initialize box_aead calm \<lparr> rg_directory = d, rg_disk = demo_dir fresh_db, rg_key_file = KeyBytes demo_key,
      rg_vault = None, rg_closed = False \<rparr> = (Inr (), \<lparr> rg_directory = d, rg_disk = (demo_dir fresh_db)\<lparr>sd_owned := True\<rparr>,
      rg_key_file = KeyBytes demo_key, rg_vault = Some demo_key, rg_closed = False \<rparr>)" if "d \<noteq> []" for d
    using that by (simp add: initialize_def demo_dir_def fresh_db_def calm_def Let_def)
  then show ?thesis
    by (simp add: open_registry_def new_registry_def state_directory_def demo_machine_def demo_config_def default_config_def Let_def)
qed

lemma demo_serves: "\<exists>a evs. run demo_machine ''v'' (ServeStops None) [] = (Inr (), evs) \<and> Serving a \<in> set evs"
proof -
  obtain g where g: "open_registry demo_machine (cfg_hosts demo_config) = (Inr (), Some g)" using demo_opens by blast
  have t: "with_token (mc_rand demo_machine) (default_config, generated_provenance) = Inr (demo_config, generated_provenance)"
    by (simp add: with_token_def generate_bearer_token_def random_token_def bearer_token_entropy_bytes_def demo_machine_def
        demo_config_def default_config_def generated_provenance_def)
  have f: "new_file_service demo_machine demo_config
      = Inr (new_service (Some no_roots) (fc_max_file_size (cfg_files demo_config)) (nat (fc_max_dir_entries (cfg_files demo_config))) True)"
    by (simp add: new_file_service_def new_root_set_def no_roots_def demo_config_def default_config_def)
  obtain p b where rb: "resolve_local_backend demo_machine demo_config no_overrides = (p, b)" by fastforce
  have "\<exists>a. new_app demo_machine demo_config True no_overrides = Inr a" by (simp add: new_app_def rb f g)
  then obtain a where a: "new_app demo_machine demo_config True no_overrides = Inr a" ..
  have "load (mc_load demo_machine) [] (case mc_work_dir demo_machine of None \<Rightarrow> ''.'' | Some d \<Rightarrow> d)
      = Inr (default_config, generated_provenance)"
    using bare_load_generated by (simp add: demo_machine_def)
  moreover have "mc_listen demo_machine (ap_addr a) = Inr (ap_addr a)" by (simp add: demo_machine_def)
  ultimately show ?thesis
    by (simp add: run_def run_loaded_def start_app_def serve_until_def no_flags_def t a Let_def)
qed

theorem serving_hub_is_configured_witness:
  "\<exists>a evs. run demo_machine ''v'' (ServeStops None) [] = (Inr (), evs) \<and> Serving a \<in> set evs
     \<and> rc_token (ap_router a) \<noteq> [] \<and> HubModel.rows_ok (hub_rows (ap_registry a)) (hub_marks (ap_registry a))"
proof -
  obtain a evs where r: "run demo_machine ''v'' (ServeStops None) [] = (Inr (), evs)" "Serving a \<in> set evs"
    using demo_serves by blast
  have rand: "length bs = n" if "mc_rand demo_machine n = Some bs" for n bs using that by (auto simp: demo_machine_def)
  have disk: "disk_ok (sd_db (mc_disk demo_machine dir))" for dir
    by (simp add: demo_machine_def demo_dir_def disk_ok_def fresh_ok)
  from serving_hub_is_configured [OF r rand disk] r show ?thesis by blast
qed

end
