(* ===== verification/Spec2Isabelle.thy ===== *)
theory Spec2Isabelle
  imports TmuxClient ShellEncoder Tickets TerminalManager RemoteSessions FileSafety ConnectionPool SftpWire HostHistory
    PathLocks RemoteLocking ConfigSafety HttpSafety HubSafety Processes Capabilities StaticFiles Dialing StartupSafety
begin

text \<open>
  A verification library for the hub of visual-tmux-client: the Go program under \<open>src/hub\<close> that serves
  tmux sessions and files of the local machine and of SSH hosts to a browser.

  \<^bold>\<open>How the program works, and which theory models which part.\<close>  The command line
  (\<open>cmd/visual-tmux-client/main.go\<close>) loads a configuration (\<open>internal/config\<close>) and builds the application
  (\<open>internal/app\<close>), which connects the HTTP router and handlers (\<open>internal/transport/http\<close>), the WebSocket
  handler (\<open>internal/transport/ws\<close>), the ticket store (\<open>internal/auth\<close>), the terminal manager
  (\<open>internal/terminal\<close>), the local backends (\<open>internal/tmux\<close>, \<open>internal/session\<close>, \<open>internal/files\<close>) and the
  remote ones (\<open>internal/host\<close>: registry, store, vault, connection pool, remote sessions, terminals and
  files).  A browser asks over HTTP for a single-use ticket, redeems it on a WebSocket and is attached to a
  process; a change of a host revokes its connections, tickets and terminals.

  \<^item> Foundations: \<open>Prelude\<close> (results, actions, the collections \<open>result_simps\<close> and others), \<open>GoStrings\<close>,
    \<open>GoUtf8\<close>, \<open>GoPath\<close> (what the program uses of Go's \<open>strings\<close>, \<open>strconv\<close>, \<open>unicode/utf8\<close>, \<open>path\<close>) and
    \<open>LogCalculus\<close> (backward rules for actions that log their exchanges).
  \<^item> Sessions and tmux: \<open>SessionModel\<close> (\<open>internal/session\<close>), \<open>TmuxParse\<close> and \<open>TmuxClient\<close>
    (\<open>internal/tmux\<close> but \<open>process.go\<close>), \<open>ShellEncoder\<close> (\<open>host/encoder.go\<close>), \<open>RemoteSessions\<close>
    (\<open>host/remote_sessions.go\<close>, \<open>env_probe.go\<close>).
  \<^item> Terminals: \<open>TerminalBuffers\<close>, \<open>Attachment\<close>, \<open>TerminalManager\<close> (\<open>internal/terminal\<close>), \<open>Processes\<close>
    (\<open>tmux/process.go\<close>, \<open>host/remote_terminal.go\<close>, \<open>host/ssh_auth.go\<close>).
  \<^item> Local files: \<open>FileGuard\<close>, \<open>FileSystem\<close>, \<open>TextScan\<close>, \<open>FileService\<close>, with the proofs in \<open>FileSafety\<close>
    (\<open>internal/files\<close>).
  \<^item> Hosts: \<open>HostIdentity\<close>, \<open>Vault\<close> (\<open>credentials.go\<close>), \<open>HostStore\<close> (\<open>store.go\<close>), \<open>HostRegistry\<close>
    (\<open>registry.go\<close>), with the proofs in \<open>HostSafety\<close> and \<open>HostHistory\<close>; \<open>Tickets\<close> (\<open>auth\<close> and
    \<open>trust.go\<close>), \<open>ConnectionPool\<close> and \<open>Dialing\<close> (\<open>connection.go\<close>, the probe of \<open>trust.go\<close>),
    \<open>Capabilities\<close> (\<open>capabilities.go\<close>).
  \<^item> Remote files: \<open>SftpWire\<close> (\<open>sftp_adapter.go\<close>), \<open>PathLocks\<close>, \<open>RemotePaths\<close>, \<open>RemoteFiles\<close>
    (\<open>remote_paths.go\<close>, \<open>remote_files.go\<close>), with the proofs in \<open>RemoteFileSafety\<close>, \<open>RemoteWriteSafety\<close>,
    \<open>RemoteEntrySafety\<close> and \<open>RemoteLocking\<close>.
  \<^item> Configuration: \<open>ConfigModel\<close>, \<open>ConfigValidate\<close>, \<open>ConfigLoad\<close>, with the proofs in \<open>ConfigSafety\<close>.
  \<^item> The surface: \<open>HttpModel\<close>, \<open>HttpHandlers\<close>, \<open>StaticFiles\<close> (\<open>transport/http\<close>), with the proofs in
    \<open>HttpSafety\<close>; \<open>WsHandler\<close> (\<open>transport/ws\<close>, \<open>host/runtime.go\<close>).
  \<^item> The whole: \<open>HubModel\<close> and \<open>HubSafety\<close> (\<open>app.go\<close>: projections, announcements, shutdown, and the hub as one
    step relation), \<open>Startup\<close> and \<open>StartupSafety\<close> (\<open>main.go\<close>, and \<open>New\<close> and \<open>Start\<close> of \<open>app.go\<close>), and this
    theory.

  \<^bold>\<open>How state and operations correspond.\<close>  A struct is a record with the fields the code keeps, an enum a
  datatype, a fallible call a function into a sum with the error on the left.  Sequential code with effects
  is an action, a function from the world to a result and a world; the world of a component that talks to
  something outside (services behind HTTP handlers, an SFTP client, an SSH set-up) answers each request by a
  parameter and logs every exchange, so that a theorem speaks about whatever the other side answers.  The
  file system is a tree of names and inodes with a schedule of failing syscalls, and other processes act at
  named points of a write.  A database is the content of its tables, and any statement may fail.  Goroutines
  are the rules of step relations (\<open>att_step\<close>, \<open>tm_step\<close>, \<open>cn_step\<close>, \<open>lk_step\<close>, \<open>hub_step\<close>): each rule is what
  runs between two points at which another goroutine can act, under the lock the code holds.  Widths matter
  in the wire codec, the window size and the ports, which are words; revisions are natural numbers, as
  they only grow by one for each stored change.

  \<^bold>\<open>What the groups of lemmas show.\<close>  The safety of files: a write is all or nothing and loses no update,
  local and remote; nothing is changed outside the roots or in kernel interfaces; removals, renames and
  cleanups are confined; every remote change is made under a lock of its path, conflicting paths are never held by two owners and
  locking cannot deadlock.  The
  life of a terminal: output reaches the client in order; an attachment follows every change of its host;
  a process is paid for by a ticket, and a ticket pays once; shutdown leaves nothing.  The registry: its
  tables stay consistent over any history, a revision names one record and a connection revision one way to
  reach a host; a migration keeps every host.  The network: permits are exact, leases current or refused,
  transports closed once.  The surface: no request acts without the token, on another host than it names
  or against the revision it expects; errors map to statuses.  The formats: tmux output, shell words and SFTP
  directory replies are read back exactly.  The configuration: the document check is a type check, loaded
  values are in range and come from the right source, and a serving hub is the one they describe.

  \<^bold>\<open>Interfaces.\<close>  Four contracts are locales, each interpreted on the model where it is provided:
  \<open>session_backend\<close> (\<open>SessionModel\<close>: what the session service relies on in a backend), \<open>chunk_fifo\<close>
  (\<open>TerminalBuffers\<close>: the staging buffer and the output queue), \<open>token_store\<close> (\<open>Tickets\<close>: tickets and trust
  challenges) and \<open>frame\<close> (\<open>FileSafety\<close>: what a sequence of syscalls leaves alone).

  \<^bold>\<open>Bounds and fuel.\<close>  Three walks are given fuel.  The upward walks to an existing or a blocked ancestor get the
  number of segments of the path and drop one at each step, so more fuel changes nothing
  (\<open>walk_up_enough\<close>, \<open>blocked_ancestor_fuel\<close>).  A recursive remote delete descends as deep as the server's tree:
  its fuel is a parameter, running out is the answer \<open>Inr False\<close>, and \<open>remote_delete_ends\<close> shows that fuel above
  the depth of the tree never runs out.  The deadlock check of the path coordinator follows a map
  that might have cycles: it is a partial function, and \<open>deadlock_check_terminates\<close> shows that it returns in
  every reachable state.

  \<^bold>\<open>Assumptions on what is not under src.\<close>  The AEAD opens only what it sealed under the same key and
  context; SHA-256 is a function; the random source fills the buffer it is given; the SFTP client returns
  names without separators and clean absolute real paths; the file system of a configured root resolves
  links consistently.  Each appears as a named hypothesis where it is used, and is instantiated in a
  witness.

  \<^bold>\<open>Not modelled.\<close>  Third-party and standard libraries beyond what they answer: the SSH, WebSocket, SQLite, YAML,
  JSON and MIME libraries, \<open>http.ServeMux\<close> beyond which route a path selects, \<open>http.ServeContent\<close>, TLS and
  request timeouts.  \<open>transport/ws/peer.go\<close> and \<open>terminal/ports.go\<close> are an adapter and interfaces: theory
  \<open>Attachment\<close> models what is sent through them.  \<open>web/embed.go\<close> embeds the browser client, which is
  TypeScript; \<open>internal/testutil\<close> are fixtures of the tests.  Logging, error texts beyond the codes the callers
  test, and hooks that only tests set are left out.
\<close>

section \<open>From the configuration to the terminal\<close>

text \<open>With any configuration that loads, whatever columns and rows a client asks for, the size the
  WebSocket handler opens the terminal with is between one and the configured bound, and reaches the
  16-bit window size of the pty unchanged.\<close>

theorem terminal_size_fits:
  assumes "load ld args dir = Inr (cfg, prov)"
    and "parse_dimensions c r (wo_max_dimension (handler_options (new_ws_options cfg))) = (cols, rows)"
  shows "1 \<le> cols \<and> cols \<le> te_max_dimension (cfg_terminal cfg) \<and> 1 \<le> rows \<and> rows \<le> te_max_dimension (cfg_terminal cfg)
    \<and> uint (ws_cols (winsize_of cols rows)) = cols \<and> uint (ws_rows (winsize_of cols rows)) = rows"
proof -
  obtain k where "validate_config (ld_platform ld) k = Inr cfg" using load_validated [OF assms(1)] by blast
  then have d: "80 \<le> te_max_dimension (cfg_terminal cfg)" "te_max_dimension (cfg_terminal cfg) \<le> 65535"
    using config_checked(3) by (auto simp: terminal_checked)
  then have "wo_max_dimension (handler_options (new_ws_options cfg)) = te_max_dimension (cfg_terminal cfg)"
    by (simp add: handler_options_def new_ws_options_def Let_def)
  with parse_dimensions_bounds [OF d(1), of c r cols rows] assms(2) d(2)
  have b: "1 \<le> cols" "cols \<le> te_max_dimension (cfg_terminal cfg)" "1 \<le> rows" "rows \<le> te_max_dimension (cfg_terminal cfg)"
    by auto
  with winsize_exact [of cols rows] d(2) show ?thesis by simp
qed

theorem terminal_size_fits_witness:
  "parse_dimensions ''70000'' ''30'' (wo_max_dimension (handler_options (new_ws_options default_config))) = (80, 30)
   \<and> uint (ws_cols (winsize_of 80 30)) = 80 \<and> uint (ws_rows (winsize_of 80 30)) = 30"
proof -
  have d: "parse_dimensions ''70000'' ''30'' (wo_max_dimension (handler_options (new_ws_options default_config))) = (80, 30)"
    by (simp add: parse_dimensions_def parse_dimension_def handler_options_def new_ws_options_def default_config_def Let_def
        go_strings)
  from terminal_size_fits [OF bare_load_generated d] d show ?thesis by blast
qed

end
